(* ===== verification/CPrelude.thy ===== *)
theory CPrelude
  imports Main "HOL-Library.Word"
begin

text \<open>
  What every component theory shares: the machine integer types, pointers that may be null,
  C's NUL-terminated strings over byte buffers, and the list lemmas that the component proofs
  use.

  A buffer is the \<^typ>\<open>string\<close> of all its bytes; the C string in it is what precedes the
  first NUL byte (\<open>cstr\<close>). A pointer that may be NULL is an \<open>option\<close>; \<open>int\<close> and
  \<open>int32_t\<close> values are \<^typ>\<open>int\<close>s kept in range by \<open>wrap32\<close>; unsigned values that the
  code hashes, masks or subtracts are words.
\<close>

section \<open>Types\<close>

type_synonym u8 = "8 word"
type_synonym u32 = "32 word"
type_synonym u64 = "64 word"

text \<open>A pointer that the callee compares with NULL.\<close>

type_synonym 'a ptr = "'a option"

named_theorems clib "facts about the C library functions and byte buffers"

abbreviation NUL :: char where
  "NUL \<equiv> CHR 0x00"

text \<open>Conversion of a mathematical integer to \<open>int\<close> / \<open>int32_t\<close> (two's complement).\<close>

definition wrap32 :: "int \<Rightarrow> int" where
  "wrap32 x = (x + 2147483648) mod 4294967296 - 2147483648"

lemma wrap32_id [simp]: "- 2147483648 \<le> x \<Longrightarrow> x < 2147483648 \<Longrightarrow> wrap32 x = x"
  by (simp add: wrap32_def)

lemma wrap32_range: "- 2147483648 \<le> wrap32 x \<and> wrap32 x < 2147483648"
proof -
  have "0 \<le> (x + 2147483648) mod 4294967296" and "(x + 2147483648) mod 4294967296 < 4294967296"
    by simp_all
  then show ?thesis
    by (simp add: wrap32_def)
qed

section \<open>Lists\<close>

lemma takeWhile_neq_id [simp]: "c \<notin> set s \<Longrightarrow> takeWhile (\<lambda>x. x \<noteq> c) s = s"
  by (induction s) auto

lemma dropWhile_neq_Nil [simp]: "c \<notin> set s \<Longrightarrow> dropWhile (\<lambda>x. x \<noteq> c) s = []"
  by (induction s) auto

lemma takeWhile_neq_append [simp]: "c \<notin> set s \<Longrightarrow> takeWhile (\<lambda>x. x \<noteq> c) (s @ c # r) = s"
  by (induction s) auto

lemma dropWhile_neq_append [simp]: "c \<notin> set s \<Longrightarrow> dropWhile (\<lambda>x. x \<noteq> c) (s @ c # r) = c # r"
  by (induction s) auto

lemma drop_update_0: "n < length s \<Longrightarrow> (drop n s)[0 := x] = x # drop (Suc n) s"
  by (simp add: Cons_nth_drop_Suc [symmetric])

section \<open>C strings in buffers\<close>

definition cstr :: "string \<Rightarrow> string" where
  "cstr buf = takeWhile (\<lambda>c. c \<noteq> NUL) buf"

definition strlen :: "string \<Rightarrow> nat" where
  "strlen buf = length (cstr buf)"

text \<open>A buffer that holds a terminated string.\<close>

definition terminated :: "string \<Rightarrow> bool" where
  "terminated buf \<longleftrightarrow> NUL \<in> set buf"

lemma cstr_no_NUL [simp, clib]: "NUL \<notin> set (cstr buf)"
  by (auto simp: cstr_def dest: set_takeWhileD)

lemma cstr_id: "NUL \<notin> set s \<Longrightarrow> cstr s = s"
  by (simp add: cstr_def)

lemma cstr_append_NUL [clib]: "NUL \<notin> set s \<Longrightarrow> cstr (s @ NUL # rest) = s"
  by (simp add: cstr_def)

lemma cstr_Nil [simp]: "cstr [] = []"
  by (simp add: cstr_def)

lemma cstr_Cons [simp]: "cstr (c # s) = (if c = NUL then [] else c # cstr s)"
  by (simp add: cstr_def)

lemma strlen_append_NUL [clib]: "NUL \<notin> set s \<Longrightarrow> strlen (s @ NUL # rest) = length s"
  by (simp add: strlen_def cstr_append_NUL)

text \<open>Every terminated buffer splits at its first NUL.\<close>

lemma terminated_split:
  assumes "terminated buf"
  shows "buf = cstr buf @ NUL # drop (Suc (strlen buf)) buf"
proof -
  from assms obtain s rest where s: "buf = s @ NUL # rest" and "NUL \<notin> set s"
    by (auto simp: terminated_def dest: split_list_first)
  then show ?thesis
    by (simp add: cstr_append_NUL strlen_append_NUL)
qed

lemma strlen_less: "terminated buf \<Longrightarrow> strlen buf < length buf"
  using terminated_split [of buf] by (metis length_append length_Cons less_add_Suc1 strlen_def add_Suc_right)

lemma cstr_nth: "i < strlen buf \<Longrightarrow> cstr buf ! i = buf ! i"
  by (simp add: strlen_def cstr_def takeWhile_nth)

lemma strlen_le_length: "strlen buf \<le> length buf"
  by (simp add: strlen_def cstr_def length_takeWhile_le)

lemma cstr_take: "cstr buf = take (strlen buf) buf"
  by (simp add: strlen_def cstr_def takeWhile_eq_take [symmetric])

text \<open>Writing a NUL inside the C string cuts it there.\<close>

lemma cstr_cut:
  assumes "i \<le> strlen buf" and "i < length buf"
  shows "cstr (buf[i := NUL]) = take i (cstr buf)"
proof -
  have len: "buf[i := NUL] = take i buf @ NUL # drop (Suc i) buf"
    using assms(2) by (simp add: upd_conv_take_nth_drop)
  have "take i buf = take i (cstr buf)"
    using assms(1) by (simp add: cstr_take)
  moreover from this have "NUL \<notin> set (take i buf)"
    using cstr_no_NUL [of buf] by (metis in_set_takeD)
  ultimately show ?thesis
    by (simp add: len cstr_append_NUL)
qed

text \<open>The bytes of a string literal or C string copied to the front of a buffer, with its NUL.\<close>

definition strcpy :: "string \<Rightarrow> string \<Rightarrow> string" where
  "strcpy dst src = src @ NUL # drop (Suc (length src)) dst"

lemma cstr_strcpy [simp, clib]: "NUL \<notin> set src \<Longrightarrow> cstr (strcpy dst src) = src"
  by (simp add: strcpy_def cstr_append_NUL)

end
