(* ===== verification/CString.thy ===== *)
theory CString
  imports CPrelude
begin

text \<open>
  The string functions of the C library that the sources call, over buffers and C strings:
  \<open>strchr\<close>, \<open>strstr\<close>, \<open>strtol\<close> with base 10, \<open>atoi\<close> and \<open>strtok\<close> with a one-character
  delimiter. \<open>strtok\<close> writes a NUL over the delimiter that ends a token, as C's does.
  \<open>tokens\<close> is the reference splitting that a whole run of \<open>strtok\<close> produces.
\<close>

section \<open>Searching\<close>

definition strchr :: "string \<Rightarrow> char \<Rightarrow> nat option" where
  "strchr s c = (if c \<in> set s then Some (length (takeWhile (\<lambda>x. x \<noteq> c) s)) else None)"

fun strstr :: "string \<Rightarrow> string \<Rightarrow> nat option" where
  "strstr [] needle = (if needle = [] then Some 0 else None)"
| "strstr (c # s) needle =
     (if take (length needle) (c # s) = needle then Some 0
      else map_option Suc (strstr s needle))"

lemma strchr_append [clib]: "c \<notin> set s \<Longrightarrow> strchr (s @ c # rest) c = Some (length s)"
  by (simp add: strchr_def)

lemma strchr_None [clib]: "strchr s c = None \<longleftrightarrow> c \<notin> set s"
  by (simp add: strchr_def)

lemma strstr_less: "strstr s n = Some i \<Longrightarrow> n \<noteq> [] \<Longrightarrow> i < length s"
  by (induction s arbitrary: i) (auto split: if_splits)

text \<open>A needle whose first character does not occur before it is found where it stands.\<close>

lemma strstr_append [clib]:
  assumes "hd n \<notin> set s" and "n \<noteq> []"
  shows "strstr (s @ n @ rest) n = Some (length s)"
  using assms
proof (induction s)
  case Nil
  then show ?case by (cases n) auto
next
  case (Cons c s)
  then have "take (length n) (c # s @ n @ rest) \<noteq> n"
    by (cases n) auto
  with Cons show ?case by simp
qed

section \<open>Numbers\<close>

definition is_space :: "char \<Rightarrow> bool" where
  "is_space c \<longleftrightarrow> c = CHR '' '' \<or> c = CHR 0x09 \<or> c = CHR 0x0A \<or> c = CHR 0x0B \<or>
     c = CHR 0x0C \<or> c = CHR 0x0D"

definition is_digit :: "char \<Rightarrow> bool" where
  "is_digit c \<longleftrightarrow> 48 \<le> (of_char c :: nat) \<and> (of_char c :: nat) \<le> 57"

definition digit_value :: "char \<Rightarrow> int" where
  "digit_value c = int (of_char c) - 48"

definition digits_value :: "string \<Rightarrow> int" where
  "digits_value ds = foldl (\<lambda>v c. 10 * v + digit_value c) 0 ds"

abbreviation LONG_MAX :: int where
  "LONG_MAX \<equiv> 9223372036854775807"

abbreviation LONG_MIN :: int where
  "LONG_MIN \<equiv> - 9223372036854775808"

text \<open>
  \<open>strtol (s, &end, 10)\<close>: the value, the number of characters before \<open>end\<close> (0 when there
  is no number) and whether \<open>errno\<close> is set to \<open>ERANGE\<close>.
\<close>

definition strtol :: "string \<Rightarrow> int \<times> nat \<times> bool" where
  "strtol s =
     (let ws = takeWhile is_space s;
          r = drop (length ws) s;
          signed = (r \<noteq> [] \<and> (hd r = CHR ''-'' \<or> hd r = CHR ''+''));
          neg = (r \<noteq> [] \<and> hd r = CHR ''-'');
          ds = takeWhile is_digit (if signed then tl r else r);
          v = (if neg then - digits_value ds else digits_value ds)
      in if ds = [] then (0, 0, False)
         else (max LONG_MIN (min LONG_MAX v),
               length ws + (if signed then 1 else 0) + length ds,
               v < LONG_MIN \<or> LONG_MAX < v))"

definition atoi :: "string \<Rightarrow> int" where
  "atoi s = wrap32 (fst (strtol s))"

lemma strtol_consumes_le: "fst (snd (strtol s)) \<le> length s"
proof -
  let ?ws = "takeWhile is_space s"
  let ?r = "drop (length ?ws) s"
  have "length ?ws + length ?r = length s"
    by (simp add: length_takeWhile_le)
  moreover have "length (takeWhile is_digit ?r) \<le> length ?r"
    by (rule length_takeWhile_le)
  moreover have "?r \<noteq> [] \<Longrightarrow> Suc (length (takeWhile is_digit (tl ?r))) \<le> length ?r"
    using length_takeWhile_le [of is_digit "tl ?r"] by (cases ?r) auto
  ultimately show ?thesis
    by (auto simp: strtol_def Let_def)
qed

text \<open>A number that starts with a digit is consumed at least up to that digit.\<close>

lemma strtol_digit_consumes:
  assumes "is_digit c"
  shows "0 < fst (snd (strtol (c # s)))"
proof -
  from assms have "\<not> is_space c" and "c \<noteq> CHR ''-''" and "c \<noteq> CHR ''+''"
    by (auto simp: is_digit_def is_space_def)
  with assms show ?thesis
    by (simp add: strtol_def Let_def)
qed

text \<open>The decimal digits of a number, as \<open>printf ("%u")\<close> writes them.\<close>

definition digit_char :: "nat \<Rightarrow> char" where
  "digit_char d = char_of (48 + d)"

fun dec :: "nat \<Rightarrow> string" where
  "dec n = (if n < 10 then [digit_char n] else dec (n div 10) @ [digit_char (n mod 10)])"

declare dec.simps [simp del]

lemma digit_char: "d < 10 \<Longrightarrow> is_digit (digit_char d) \<and> digit_value (digit_char d) = int d"
  by (simp add: is_digit_def digit_value_def digit_char_def)

lemma dec_digits: "c \<in> set (dec n) \<Longrightarrow> is_digit c"
proof (induction n rule: dec.induct)
  case (1 n)
  then show ?case
    by (subst (asm) dec.simps) (auto simp: digit_char split: if_splits)
qed

lemma dec_not_Nil [simp]: "dec n \<noteq> []"
  by (subst dec.simps) simp

lemma digits_value_snoc: "digits_value (ds @ [c]) = 10 * digits_value ds + digit_value c"
  by (simp add: digits_value_def)

lemma digits_value_dec [simp]: "digits_value (dec n) = int n"
proof (induction n rule: dec.induct)
  case (1 n)
  then show ?case
    by (subst dec.simps) (auto simp: digits_value_snoc digit_char digits_value_def [of "[_]"] zdiv_int zmod_int)
qed

lemma not_digit_chars [simp]:
  "is_digit c \<Longrightarrow> \<not> is_space c" "is_digit c \<Longrightarrow> c \<noteq> CHR ''-''" "is_digit c \<Longrightarrow> c \<noteq> CHR ''+''"
  by (auto simp: is_digit_def is_space_def)

lemma takeWhile_all_append:
  "\<forall>c \<in> set s. P c \<Longrightarrow> r = [] \<or> \<not> P (hd r) \<Longrightarrow> takeWhile P (s @ r) = s"
  by (induction s) (auto simp: takeWhile_eq_Nil_iff)

text \<open>Reading a number back: \<open>strtol\<close> stops at the first character that is no digit.\<close>

lemma strtol_dec [clib]:
  assumes "int n \<le> LONG_MAX" and "r = [] \<or> \<not> is_digit (hd r)"
  shows "strtol (dec n @ r) = (int n, length (dec n), False)"
proof -
  obtain c s where d: "dec n = c # s"
    by (cases "dec n") auto
  then have c: "is_digit c" "\<not> is_space c" "c \<noteq> CHR ''-''" "c \<noteq> CHR ''+''"
    using dec_digits [of c n] by auto
  have "takeWhile is_digit (dec n @ r) = dec n"
    using dec_digits assms(2) by (intro takeWhile_all_append) auto
  moreover have "takeWhile is_space (dec n @ r) = []"
    using d c by simp
  moreover have "hd (dec n @ r) = c" and "dec n @ r \<noteq> []"
    using d by simp_all
  ultimately show ?thesis
    using assms(1) c by (simp add: strtol_def Let_def)
qed

section \<open>strtok\<close>

text \<open>
  One call of \<open>strtok\<close> on the buffer \<open>buf\<close>, continuing at \<open>pos\<close> (0 in the first call): the
  token and the position for the next call, or \<open>None\<close> at the end, and the buffer with the
  delimiter after the token overwritten.
\<close>

definition strtok :: "char \<Rightarrow> string \<Rightarrow> nat \<Rightarrow> (string \<times> nat) option \<times> string" where
  "strtok d buf pos =
     (let rest = cstr (drop pos buf);
          skip = length (takeWhile (\<lambda>c. c = d) rest);
          rest' = drop skip rest;
          tok = takeWhile (\<lambda>c. c \<noteq> d) rest';
          e = pos + skip + length tok
      in if rest' = [] then (None, buf)
         else if length tok < length rest' then (Some (tok, Suc e), buf[e := NUL])
         else (Some (tok, e), buf))"

text \<open>The reference: the maximal runs of characters other than the delimiter.\<close>

function tokens :: "char \<Rightarrow> string \<Rightarrow> string list" where
  "tokens d s =
     (let s' = dropWhile (\<lambda>c. c = d) s
      in if s' = [] then [] else takeWhile (\<lambda>c. c \<noteq> d) s' # tokens d (dropWhile (\<lambda>c. c \<noteq> d) s'))"
  by pat_completeness auto
termination
proof (relation "measure (\<lambda>(d, s). length s)", goal_cases)
  case 1
  show ?case by simp
next
  case (2 d s s')
  then have "hd s' \<noteq> d"
    using hd_dropWhile [of "\<lambda>c. c = d" s] by auto
  moreover obtain c cs where "s' = c # cs"
    using 2 by (meson neq_Nil_conv)
  ultimately have "length (dropWhile (\<lambda>c. c \<noteq> d) s') < length s'"
    by (simp add: length_dropWhile_le le_imp_less_Suc)
  with 2 show ?case
    using length_dropWhile_le [of "\<lambda>c. c = d" s] by auto
qed

declare tokens.simps [simp del]

lemma tokens_Nil [simp]: "tokens d [] = []"
  by (simp add: tokens.simps)

lemma cstr_drop: "k \<le> strlen buf \<Longrightarrow> cstr (drop k buf) = drop k (cstr buf)"
proof (induction buf arbitrary: k)
  case Nil
  then show ?case by simp
next
  case (Cons c buf)
  then show ?case
    by (cases k) (auto simp: strlen_def split: if_splits)
qed

lemma cstr_drop_drop:
  "k \<le> length (cstr (drop p buf)) \<Longrightarrow> cstr (drop (p + k) buf) = drop k (cstr (drop p buf))"
  using cstr_drop [of k "drop p buf"] by (simp add: strlen_def add.commute)

lemma dropWhile_conv_drop: "dropWhile P s = drop (length (takeWhile P s)) s"
  by (rule dropWhile_eq_drop)

lemma tokens_skip_delim: "tokens d (d # s) = tokens d s"
  by (simp add: tokens.simps [of d "d # s"] tokens.simps [of d s])

lemma strtok_None_iff: "fst (strtok d buf pos) = None \<longleftrightarrow> tokens d (cstr (drop pos buf)) = []"
  by (subst tokens.simps) (auto simp: strtok_def Let_def dropWhile_conv_drop)

lemma strtok_buf_None: "fst (strtok d buf pos) = None \<Longrightarrow> snd (strtok d buf pos) = buf"
  by (auto simp: strtok_def Let_def split: if_splits)

text \<open>A successful call yields the first token and leaves the others for the calls that follow.\<close>

lemma strtok_Some:
  assumes "strtok d buf pos = (Some (tok, nxt), buf')"
  shows "tokens d (cstr (drop pos buf)) = tok # tokens d (cstr (drop nxt buf'))"
    and "pos < nxt" and "nxt \<le> length buf" and "length buf' = length buf"
proof -
  let ?rest = "cstr (drop pos buf)"
  let ?skip = "length (takeWhile (\<lambda>c. c = d) ?rest)"
  let ?rest' = "drop ?skip ?rest"
  let ?tok = "takeWhile (\<lambda>c. c \<noteq> d) ?rest'"
  let ?e = "pos + ?skip + length ?tok"
  have ne: "?rest' \<noteq> []" and tok: "tok = ?tok"
    using assms by (auto simp: strtok_def Let_def split: if_splits)
  have restlen: "length ?rest \<le> length buf - pos"
    using strlen_le_length [of "drop pos buf"] by (simp add: strlen_def)
  have "hd ?rest' \<noteq> d"
    using ne hd_dropWhile [of "\<lambda>c. c = d" ?rest] by (simp add: dropWhile_conv_drop)
  moreover obtain c cs where "?rest' = c # cs"
    using ne by (meson neq_Nil_conv)
  ultimately have tokne: "0 < length ?tok"
    by simp
  have toklen: "length ?tok \<le> length ?rest'"
    by (rule length_takeWhile_le)
  have skiplen: "?skip \<le> length ?rest"
    by (rule length_takeWhile_le)
  have dW: "dropWhile (\<lambda>c. c \<noteq> d) ?rest' = drop (?skip + length ?tok) ?rest"
    by (simp add: dropWhile_conv_drop add.commute)
  have unfold: "tokens d ?rest = ?tok # tokens d (drop (?skip + length ?tok) ?rest)"
  proof -
    have "dropWhile (\<lambda>c. c = d) ?rest = ?rest'"
      by (rule dropWhile_conv_drop)
    then have "tokens d ?rest = ?tok # tokens d (dropWhile (\<lambda>c. c \<noteq> d) ?rest')"
      using ne by (subst tokens.simps) (simp only: Let_def if_False)
    then show ?thesis
      by (simp only: dW)
  qed
  have le: "?skip + length ?tok \<le> length ?rest"
    using toklen skiplen by simp
  show "length buf' = length buf"
    using assms by (auto simp: strtok_def Let_def split: if_splits)
  show "pos < nxt"
    using assms tokne by (auto simp: strtok_def Let_def split: if_splits)
  show "nxt \<le> length buf"
    using assms le restlen ne by (auto simp: strtok_def Let_def split: if_splits)
  show "tokens d ?rest = tok # tokens d (cstr (drop nxt buf'))"
  proof (cases "length ?tok < length ?rest'")
    case False
    then have "nxt = ?e" and "buf' = buf"
      using assms ne by (auto simp: strtok_def Let_def)
    moreover have "cstr (drop ?e buf) = drop (?skip + length ?tok) ?rest"
      using cstr_drop_drop [OF le] by (simp only: add.assoc)
    ultimately show ?thesis
      using unfold tok by simp
  next
    case True
    then have nxt: "nxt = Suc ?e" and buf': "buf' = buf[?e := NUL]"
      using assms ne by (auto simp: strtok_def Let_def)
    have lt: "Suc (?skip + length ?tok) \<le> length ?rest"
      using True by simp
    have "nxt = pos + Suc (?skip + length ?tok)"
      by (simp add: nxt)
    moreover have "drop nxt buf' = drop nxt buf"
      by (simp add: nxt buf')
    ultimately have "cstr (drop nxt buf') = drop (Suc (?skip + length ?tok)) ?rest"
      using cstr_drop_drop [OF lt] by (simp only:)
    moreover have "drop (?skip + length ?tok) ?rest = d # drop (Suc (?skip + length ?tok)) ?rest"
    proof -
      have "?rest' ! length ?tok = d"
        using nth_length_takeWhile [of "\<lambda>c. c \<noteq> d" ?rest'] True by blast
      then have "?rest ! (?skip + length ?tok) = d"
        using skiplen by (simp add: nth_drop)
      then show ?thesis
        using lt by (metis Cons_nth_drop_Suc Suc_le_eq)
    qed
    ultimately show ?thesis
      using unfold tok by (simp add: tokens_skip_delim)
  qed
qed

text \<open>The characters of a token are characters of the string, and none is the delimiter.\<close>

lemma tokens_chars: "t \<in> set (tokens d s) \<Longrightarrow> set t \<subseteq> set s - {d}"
proof (induction d s rule: tokens.induct)
  case (1 d s)
  let ?s' = "dropWhile (\<lambda>c. c = d) s"
  have sub: "set ?s' \<subseteq> set s" and "set (dropWhile (\<lambda>c. c \<noteq> d) ?s') \<subseteq> set ?s'"
    using set_dropWhileD by fastforce+
  from "1.prems" consider "t = takeWhile (\<lambda>c. c \<noteq> d) ?s'"
    | "?s' \<noteq> []" "t \<in> set (tokens d (dropWhile (\<lambda>c. c \<noteq> d) ?s'))"
    by (subst (asm) tokens.simps) (auto simp: Let_def split: if_splits)
  then show ?case
  proof cases
    case 1
    then show ?thesis using sub set_takeWhileD by fastforce
  next
    case 2
    then have "set t \<subseteq> set (dropWhile (\<lambda>c. c \<noteq> d) ?s') - {d}"
      using "1.IH" by blast
    then show ?thesis
      using sub \<open>set (dropWhile (\<lambda>c. c \<noteq> d) ?s') \<subseteq> set ?s'\<close> by blast
  qed
qed

lemma tokens_no_NUL: "t \<in> set (tokens d (cstr s)) \<Longrightarrow> NUL \<notin> set t"
  using tokens_chars [of t d "cstr s"] cstr_no_NUL by fastforce

text \<open>The tokens of the fields \<open>f\<^sub>1;f\<^sub>2;\<dots>;f\<^sub>n\<close> are the fields, when none is empty or holds \<open>;\<close>.\<close>

fun join :: "char \<Rightarrow> string list \<Rightarrow> string" where
  "join d [] = []"
| "join d [f] = f"
| "join d (f # fs) = f @ d # join d fs"

lemma tokens_field: "f \<noteq> [] \<Longrightarrow> d \<notin> set f \<Longrightarrow> tokens d (f @ d # s) = f # tokens d s"
  by (subst tokens.simps) (cases f; auto simp: tokens_skip_delim)

lemma tokens_last: "f \<noteq> [] \<Longrightarrow> d \<notin> set f \<Longrightarrow> tokens d f = [f]"
  by (subst tokens.simps) (cases f; auto)

lemma tokens_join:
  "(\<And>f. f \<in> set fs \<Longrightarrow> f \<noteq> [] \<and> d \<notin> set f) \<Longrightarrow> tokens d (join d fs) = fs"
proof (induction d fs rule: join.induct)
  case (1 d)
  show ?case by (simp add: tokens.simps)
next
  case (2 d f)
  then show ?case by (simp add: tokens_last)
next
  case (3 d f g fs)
  then show ?case by (simp add: tokens_field)
qed

section \<open>fgets and printed integers\<close>

text \<open>
  The bytes that \<open>fgets\<close> reads when its buffer has room for \<open>n\<close> of them, and those that are
  left in the file: it stops behind the first newline.
\<close>

fun fgets :: "nat \<Rightarrow> string \<Rightarrow> string \<times> string" where
  "fgets 0 s = ([], s)"
| "fgets (Suc n) [] = ([], [])"
| "fgets (Suc n) (c # s) =
     (if c = CHR 0x0A then ([c], s) else (let (l, r) = fgets n s in (c # l, r)))"

lemma fgets_append: "fst (fgets n s) @ snd (fgets n s) = s"
  by (induction n s rule: fgets.induct) (auto split: prod.split)

lemma fgets_progress: "0 < n \<Longrightarrow> s \<noteq> [] \<Longrightarrow> length (snd (fgets n s)) < length s"
proof -
  assume "0 < n" and "s \<noteq> []"
  then obtain m c r where "n = Suc m" and s: "s = c # r"
    by (metis Suc_pred list.exhaust)
  then have "fst (fgets n s) \<noteq> []"
    by (auto split: prod.split)
  then show ?thesis
    using fgets_append [of n s] by (metis add_less_same_cancel2 length_append length_greater_0_conv not_add_less2 add.commute less_add_same_cancel2)
qed

lemma fgets_line: "CHR 0x0A \<notin> set l \<Longrightarrow> length l < n \<Longrightarrow> fgets n (l @ CHR 0x0A # r) = (l @ [CHR 0x0A], r)"
proof (induction l arbitrary: n)
  case Nil
  then show ?case by (cases n) auto
next
  case (Cons c l)
  then show ?case by (cases n) auto
qed

text \<open>What \<open>%i\<close> prints.\<close>

definition dec_int :: "int \<Rightarrow> string" where
  "dec_int i = (if i < 0 then CHR ''-'' # dec (nat (- i)) else dec (nat i))"

end
