(* ===== verification/TraceBuf.thy ===== *)
theory TraceBuf
  imports CString
begin

unbundle bit_operations_syntax

text \<open>
  The trace buffer of \<open>vtlib/vt_otf_gen.c\<close>: the entries that the writers put into it, the calls
  of the OTF library that a flush makes of them, and the buffer memory.

  An entry is a value of \<open>entry\<close>, with the fields of its structure in their order; the member
  \<open>type\<close> is its constructor. The sizes are those of the LP64 data model. The memory maps the
  offset of an entry to the entry and its member \<open>length\<close>; an entry occupies as many bytes as
  its \<open>length\<close> says, and writing one that does not fit into the allocated block is the result
  \<open>None\<close>. Constants of the OTF library are the fields of \<open>otf_consts\<close>.
\<close>

section \<open>Entries\<close>

datatype (plugins only:) def_entry =
    DefinitionComment string
  | DefSclFile u32 string
  | DefScl u32 u32 u32
  | DefFileGroup u32 string
  | DefFile u32 u32 string
  | DefFunctionGroup u32 string
  | DefFunction u32 u32 u32 string
  | DefCollectiveOperation u32 u32 string
  | DefCounterGroup u32 string
  | DefCounter u32 u32 u32 string string
  | DefProcessGroup u32 string "u32 list"
  | DefMarker u32 u32 string

datatype (plugins only:) event_entry =
    Enter u64 u32 u32
  | Leave u64 u32 u32
  | FileOperation u64 u64 u32 u64 u32 u32 u32
  | BeginFileOperation u64 u64 u32
  | EndFileOperation u64 u32 u64 u64 u32 u32 u32
  | Counter u64 u32 u64
  | Comment u64 string
  | Marker u64 u32 string

datatype (plugins only:) comm_entry =
    SendMsg u64 u32 u32 u32 u32 u32
  | RecvMsg u64 u32 u32 u32 u32 u32
  | CollectiveOperation u64 u64 u32 u32 u32 u32 u32 u32
  | BeginCollectiveOperation u64 u32 u64 u32 u32 u64 u64 u32
  | EndCollectiveOperation u64 u64
  | RMAPut u64 u32 u32 u32 u32 u64 u32
  | RMAPutRE u64 u32 u32 u32 u32 u64 u32
  | RMAGet u64 u32 u32 u32 u32 u64 u32
  | RMAEnd u64 u32 u32 u32 u32

datatype (plugins only:) summary_entry =
    FunctionSummary u64 u32 u64 u64 u64
  | MessageSummary u64 u32 u32 u32 u64 u64 u64 u64
  | CollectiveOperationSummary u64 u32 u32 u64 u64 u64 u64
  | FileOperationSummary u64 u32 u64 u64 u64 u64 u64 u64 u64

datatype entry =
    Def def_entry
  | Event event_entry
  | Comm comm_entry
  | Summary summary_entry

text \<open>The size of the structure and of what the writers count in addition: names and vectors.\<close>

primrec def_size :: "def_entry \<Rightarrow> nat" where
  "def_size (DefinitionComment c) = 12 + length c"
| "def_size (DefSclFile i n) = 16 + length n"
| "def_size (DefScl s f l) = 20"
| "def_size (DefFileGroup g n) = 16 + length n"
| "def_size (DefFile f g n) = 20 + length n"
| "def_size (DefFunctionGroup r n) = 16 + length n"
| "def_size (DefFunction r d s n) = 24 + length n"
| "def_size (DefCollectiveOperation c t n) = 20 + length n"
| "def_size (DefCounterGroup g n) = 16 + length n"
| "def_size (DefCounter c p g u n) = 124 + length n"
| "def_size (DefProcessGroup c n v) = 120 + 4 * (length v - 1)"
| "def_size (DefMarker m t n) = 20 + length n"

primrec event_size :: "event_entry \<Rightarrow> nat" where
  "event_size (Enter t r s) = 24"
| "event_size (Leave t r s) = 24"
| "event_size (FileOperation t e f h p b s) = 56"
| "event_size (BeginFileOperation t m s) = 32"
| "event_size (EndFileOperation t f m h p b s) = 56"
| "event_size (Counter t c v) = 32"
| "event_size (Comment t c) = 24 + length c"
| "event_size (Marker t m x) = 24 + length x"

primrec comm_size :: "comm_entry \<Rightarrow> nat" where
  "comm_size (SendMsg t p c g l s) = 40"
| "comm_size (RecvMsg t p c g l s) = 40"
| "comm_size (CollectiveOperation t e r c p x y s) = 48"
| "comm_size (BeginCollectiveOperation t r m p c x y s) = 64"
| "comm_size (EndCollectiveOperation t m) = 24"
| "comm_size (RMAPut t p q c g l s) = 48"
| "comm_size (RMAPutRE t p q c g l s) = 48"
| "comm_size (RMAGet t p q c g l s) = 48"
| "comm_size (RMAEnd t p c g s) = 32"

primrec summary_size :: "summary_entry \<Rightarrow> nat" where
  "summary_size (FunctionSummary t r n x i) = 48"
| "summary_size (MessageSummary t p c g a b d e) = 64"
| "summary_size (CollectiveOperationSummary t c r a b d e) = 56"
| "summary_size (FileOperationSummary t f a b c d e g h) = 80"

primrec entry_size :: "entry \<Rightarrow> nat" where
  "entry_size (Def d) = def_size d"
| "entry_size (Event e) = event_size e"
| "entry_size (Comm c) = comm_size c"
| "entry_size (Summary s) = summary_size s"

text \<open>
  The macro \<open>VTGEN_ALIGN_LENGTH\<close> where it stands alone, and the \<open>uint32_t length\<close> that the
  writers store.
\<close>

definition align_length :: "nat \<Rightarrow> nat" where
  "align_length bytes = (if bytes mod 8 \<noteq> 0 then (bytes div 8 + 1) * 8 else bytes)"

definition entry_length :: "entry \<Rightarrow> u32" where
  "entry_length e = of_nat (align_length (entry_size e))"

section \<open>The calls of the OTF library\<close>

text \<open>The functions \<open>OTF_WStream_write*\<close> with the arguments behind the stream, in their order.\<close>

datatype (plugins only:) otf_call =
    writeOtfVersion
  | writeDefCreator string
  | writeDefTimerResolution u64
  | writeDefProcess u32 string u32
  | writeDefinitionComment string
  | writeDefSclFile u32 string
  | writeDefScl u32 u32 u32
  | writeDefFileGroup u32 string
  | writeDefFile u32 string u32
  | writeDefFunctionGroup u32 string
  | writeDefFunction u32 string u32 u32
  | writeDefCollectiveOperation u32 string u32
  | writeDefCounterGroup u32 string
  | writeDefCounter u32 string u32 u32 string
  | writeDefProcessGroup u32 string "u32 list"
  | writeDefMarker u32 string u32
  | writeEnter u64 u32 u32 u32
  | writeLeave u64 u32 u32 u32
  | writeFileOperation u64 u32 u32 u64 u32 u32 u64 u32
  | writeBeginFileOperation u64 u32 u64 u32
  | writeEndFileOperation u64 u32 u32 u64 u64 u32 u32 u32
  | writeCounter u64 u32 u32 u64
  | writeEventComment u64 u32 string
  | writeMarker u64 u32 u32 string
  | writeSendMsg u64 u32 u32 u32 u32 u32 u32
  | writeRecvMsg u64 u32 u32 u32 u32 u32 u32
  | writeCollectiveOperation u64 u32 u32 u32 u32 u32 u32 u64 u32
  | writeBeginCollectiveOperation u64 u32 u32 u64 u32 u32 u64 u64 u32
  | writeEndCollectiveOperation u64 u32 u64
  | writeRMAPut u64 u32 u32 u32 u32 u32 u64 u32
  | writeRMAPutRemoteEnd u64 u32 u32 u32 u32 u32 u64 u32
  | writeRMAGet u64 u32 u32 u32 u32 u32 u64 u32
  | writeRMAEnd u64 u32 u32 u32 u32 u32
  | writeFunctionSummary u64 u32 u32 u64 u64 u64
  | writeMessageSummary u64 u32 u32 u32 u32 u64 u64 u64 u64
  | writeCollopSummary u64 u32 u32 u32 u64 u64 u64 u64
  | writeFileOperationSummary u64 u32 u32 u64 u64 u64 u64 u64 u64 u64
  | writeSummaryComment u64 u32 string

record otf_consts =
  OTF_COLLECTIVE_TYPE_UNKNOWN :: u32
  OTF_COLLECTIVE_TYPE_ALL2ALL :: u32
  OTF_COLLECTIVE_TYPE_ALL2ONE :: u32
  OTF_COLLECTIVE_TYPE_BARRIER :: u32
  OTF_COLLECTIVE_TYPE_ONE2ALL :: u32
  OTF_COUNTER_TYPE_ACC :: u32
  OTF_COUNTER_TYPE_ABS :: u32
  OTF_COUNTER_SCOPE_START :: u32
  OTF_COUNTER_SCOPE_POINT :: u32
  OTF_COUNTER_SCOPE_LAST :: u32
  OTF_COUNTER_SCOPE_NEXT :: u32
  OTF_COUNTER_VARTYPE_SIGNED8 :: u32
  OTF_COUNTER_VARTYPE_UNSIGNED8 :: u32
  OTF_COUNTER_VARTYPE_FLOAT :: u32
  OTF_COUNTER_VARTYPE_DOUBLE :: u32
  OTF_MARKER_TYPE_UNKNOWN :: u32
  OTF_MARKER_TYPE_ERROR :: u32
  OTF_MARKER_TYPE_WARNING :: u32
  OTF_MARKER_TYPE_HINT :: u32
  OTF_FILEOP_OPEN :: u32
  OTF_FILEOP_CLOSE :: u32
  OTF_FILEOP_READ :: u32
  OTF_FILEOP_WRITE :: u32
  OTF_FILEOP_SEEK :: u32

abbreviation (input) VT_MPI_COLL_BARRIER :: u32 where "VT_MPI_COLL_BARRIER \<equiv> 9"
abbreviation (input) VT_MPI_COLL_ONE2ALL :: u32 where "VT_MPI_COLL_ONE2ALL \<equiv> 10"
abbreviation (input) VT_MPI_COLL_ALL2ONE :: u32 where "VT_MPI_COLL_ALL2ONE \<equiv> 11"
abbreviation (input) VT_MPI_COLL_ALL2ALL :: u32 where "VT_MPI_COLL_ALL2ALL \<equiv> 12"
abbreviation (input) VT_MPI_COLL_OTHER :: u32 where "VT_MPI_COLL_OTHER \<equiv> 13"
abbreviation (input) VT_MARKER_ERROR :: u32 where "VT_MARKER_ERROR \<equiv> 1"
abbreviation (input) VT_MARKER_WARNING :: u32 where "VT_MARKER_WARNING \<equiv> 2"
abbreviation (input) VT_MARKER_HINT :: u32 where "VT_MARKER_HINT \<equiv> 3"

definition collective_type :: "otf_consts \<Rightarrow> u32 \<Rightarrow> u32" where
  "collective_type k ctype =
     (if ctype = VT_MPI_COLL_ALL2ALL then OTF_COLLECTIVE_TYPE_ALL2ALL k
      else if ctype = VT_MPI_COLL_ALL2ONE then OTF_COLLECTIVE_TYPE_ALL2ONE k
      else if ctype = VT_MPI_COLL_BARRIER then OTF_COLLECTIVE_TYPE_BARRIER k
      else if ctype = VT_MPI_COLL_ONE2ALL then OTF_COLLECTIVE_TYPE_ONE2ALL k
      else OTF_COLLECTIVE_TYPE_UNKNOWN k)"

definition counter_prop :: "otf_consts \<Rightarrow> u32 \<Rightarrow> u32" where
  "counter_prop k p =
     fold (\<lambda>(b, c) x. if p AND push_bit b 1 \<noteq> 0 then x OR c else x)
       [(0, OTF_COUNTER_TYPE_ACC k), (1, OTF_COUNTER_TYPE_ABS k),
        (2, OTF_COUNTER_SCOPE_START k), (3, OTF_COUNTER_SCOPE_POINT k),
        (4, OTF_COUNTER_SCOPE_LAST k), (5, OTF_COUNTER_SCOPE_NEXT k),
        (6, OTF_COUNTER_VARTYPE_SIGNED8 k), (7, OTF_COUNTER_VARTYPE_UNSIGNED8 k),
        (8, OTF_COUNTER_VARTYPE_FLOAT k), (9, OTF_COUNTER_VARTYPE_DOUBLE k)] 0"

definition marker_type :: "otf_consts \<Rightarrow> u32 \<Rightarrow> u32" where
  "marker_type k mtype =
     (if mtype = VT_MARKER_ERROR then OTF_MARKER_TYPE_ERROR k
      else if mtype = VT_MARKER_WARNING then OTF_MARKER_TYPE_WARNING k
      else if mtype = VT_MARKER_HINT then OTF_MARKER_TYPE_HINT k
      else OTF_MARKER_TYPE_UNKNOWN k)"

text \<open>
  The cases of the switch in \<open>VTGen_flush\<close>; \<open>pid\<close> is the process id
  \<open>65536 * gen->tid + vt_my_trace + 1\<close>.
\<close>

primrec def_call :: "otf_consts \<Rightarrow> def_entry \<Rightarrow> otf_call" where
  "def_call k (DefinitionComment c) = writeDefinitionComment c"
| "def_call k (DefSclFile f n) = writeDefSclFile f n"
| "def_call k (DefScl s f l) = writeDefScl s f l"
| "def_call k (DefFileGroup g n) = writeDefFileGroup g n"
| "def_call k (DefFile f g n) = writeDefFile f n g"
| "def_call k (DefFunctionGroup r d) = writeDefFunctionGroup r d"
| "def_call k (DefFunction r d s n) = writeDefFunction r n d s"
| "def_call k (DefCollectiveOperation c t n) = writeDefCollectiveOperation c n (collective_type k t)"
| "def_call k (DefCounterGroup g n) = writeDefCounterGroup g n"
| "def_call k (DefCounter c p g u n) = writeDefCounter c n (counter_prop k p) g u"
| "def_call k (DefProcessGroup c n v) = writeDefProcessGroup c n v"
| "def_call k (DefMarker m t n) = writeDefMarker m n (marker_type k t)"

primrec event_call :: "u32 \<Rightarrow> event_entry \<Rightarrow> otf_call" where
  "event_call pid (Enter t r s) = writeEnter t r pid s"
| "event_call pid (Leave t r s) = writeLeave t r pid s"
| "event_call pid (FileOperation t e f h p b s) = writeFileOperation t f pid h p b (e - t) s"
| "event_call pid (BeginFileOperation t m s) = writeBeginFileOperation t pid m s"
| "event_call pid (EndFileOperation t f m h p b s) = writeEndFileOperation t pid f m h p b s"
| "event_call pid (Counter t c v) = writeCounter t pid c v"
| "event_call pid (Comment t c) = writeEventComment t pid c"
| "event_call pid (Marker t m x) = writeMarker t pid m x"

primrec comm_call :: "u32 \<Rightarrow> comm_entry \<Rightarrow> otf_call" where
  "comm_call pid (SendMsg t p c g l s) = writeSendMsg t pid p c g l s"
| "comm_call pid (RecvMsg t p c g l s) = writeRecvMsg t pid p c g l s"
| "comm_call pid (CollectiveOperation t e r c p x y s) =
     writeCollectiveOperation t pid r c p x y (e - t) s"
| "comm_call pid (BeginCollectiveOperation t r m p c x y s) =
     writeBeginCollectiveOperation t pid r m c p x y s"
| "comm_call pid (EndCollectiveOperation t m) = writeEndCollectiveOperation t pid m"
| "comm_call pid (RMAPut t p q c g l s) = writeRMAPut t pid p q c g l s"
| "comm_call pid (RMAPutRE t p q c g l s) = writeRMAPutRemoteEnd t pid p q c g l s"
| "comm_call pid (RMAGet t p q c g l s) = writeRMAGet t pid p q c g l s"
| "comm_call pid (RMAEnd t p c g s) = writeRMAEnd t pid p c g s"

primrec summary_call :: "u32 \<Rightarrow> summary_entry \<Rightarrow> otf_call" where
  "summary_call pid (FunctionSummary t r n x i) = writeFunctionSummary t r pid n x i"
| "summary_call pid (MessageSummary t p c g a b d e) = writeMessageSummary t pid p c g a b d e"
| "summary_call pid (CollectiveOperationSummary t c r a b d e) = writeCollopSummary t pid c r a b d e"
| "summary_call pid (FileOperationSummary t f a b c d e g h) =
     writeFileOperationSummary t f pid a b c d e g h"

primrec entry_call :: "otf_consts \<Rightarrow> u32 \<Rightarrow> entry \<Rightarrow> otf_call" where
  "entry_call k pid (Def d) = def_call k d"
| "entry_call k pid (Event e) = event_call pid e"
| "entry_call k pid (Comm c) = comm_call pid c"
| "entry_call k pid (Summary s) = summary_call pid s"

section \<open>The buffer\<close>

text \<open>\<open>pos\<close> is the distance of the write position from \<open>mem\<close>; \<open>cap\<close> is the size of the allocated block.\<close>

record VTBuf =
  mem :: "nat \<Rightarrow> (entry \<times> nat) option"
  pos :: nat
  buf_size :: u64
  cap :: nat

text \<open>Writing an entry at the current position and \<open>VTGEN_JUMP\<close>.\<close>

definition put_entry :: "entry \<Rightarrow> VTBuf \<Rightarrow> VTBuf option" where
  "put_entry e b =
     (let len = unat (entry_length e)
      in if pos b + len > cap b then None
         else Some (b\<lparr>mem := (mem b)(pos b := Some (e, len)), pos := pos b + len\<rparr>))"

text \<open>The comparison in \<open>VTGEN_ALLOC_DEF\<close> and \<open>VTGEN_ALLOC_EVENT\<close>.\<close>

definition buf_full :: "u32 \<Rightarrow> VTBuf \<Rightarrow> bool" where
  "buf_full bytes b \<longleftrightarrow> (of_nat (pos b) :: u64) > buf_size b - ucast bytes"

text \<open>
  The loop of \<open>VTGen_rewind\<close> from the position \<open>p\<close>, with the rewind mark at \<open>mark\<close>: definitions
  are moved to the mark. The result is the mark behind them. An entry of length 0 would keep the
  loop at its place; it and a position without an entry are \<open>None\<close>.
\<close>

function rewind_loop :: "nat \<Rightarrow> nat \<Rightarrow> VTBuf \<Rightarrow> (nat \<times> VTBuf) option" where
  "rewind_loop p mark b =
     (if p < pos b then
        (case mem b p of
           None \<Rightarrow> None
         | Some (e, len) \<Rightarrow>
             if len = 0 then None
             else (case e of
                 Def d \<Rightarrow>
                   rewind_loop (p + len) (mark + len)
                     (if p \<noteq> mark then b\<lparr>mem := (mem b)(mark := Some (Def d, len))\<rparr> else b)
               | _ \<Rightarrow> rewind_loop (p + len) mark b))
      else Some (mark, b))"
  by pat_completeness auto
termination
  by (relation "measure (\<lambda>(p, mark, b). pos b - p)") auto

declare rewind_loop.simps [simp del]

section \<open>The entries of a buffer\<close>

text \<open>
  \<open>holds b p es q\<close>: from the offset \<open>p\<close> on the memory holds the entries \<open>es\<close>, one behind the
  other, up to \<open>q\<close>.
\<close>

fun holds :: "(nat \<Rightarrow> (entry \<times> nat) option) \<Rightarrow> nat \<Rightarrow> entry list \<Rightarrow> nat \<Rightarrow> bool" where
  "holds m p [] q \<longleftrightarrow> p = q"
| "holds m p (e # es) q \<longleftrightarrow>
     m p = Some (e, unat (entry_length e)) \<and> entry_length e \<noteq> 0
     \<and> holds m (p + unat (entry_length e)) es q"

definition buf_holds :: "VTBuf \<Rightarrow> entry list \<Rightarrow> bool" where
  "buf_holds b es \<longleftrightarrow> holds (mem b) 0 es (pos b) \<and> pos b \<le> cap b"

lemma holds_le: "holds m p es q \<Longrightarrow> p \<le> q"
  by (induction es arbitrary: p) fastforce+

lemma holds_Cons_less: "holds m p (e # es) q \<Longrightarrow> p < q"
  using holds_le [of m "p + unat (entry_length e)" es q] unat_gt_0 [of "entry_length e"] by auto

lemma holds_append: "holds m p (es @ fs) q \<longleftrightarrow> (\<exists>r. holds m p es r \<and> holds m r fs q)"
  by (induction es arbitrary: p) auto

lemma holds_upd: "holds m p es q \<Longrightarrow> q \<le> r \<Longrightarrow> holds (m(r := x)) p es q"
proof (induction es arbitrary: p)
  case (Cons e es)
  have "0 < unat (entry_length e)"
    using Cons.prems(1) by (simp add: unat_gt_0)
  moreover have "p + unat (entry_length e) \<le> q"
    using Cons.prems(1) by (auto dest: holds_le)
  ultimately show ?case
    using Cons by auto
qed simp

lemma entry_size_bounds: "8 < entry_size e"
proof -
  have "8 < def_size d" for d by (cases d) auto
  moreover have "8 < event_size v" for v by (cases v) auto
  moreover have "8 < comm_size c" for c by (cases c) auto
  moreover have "8 < summary_size s" for s by (cases s) auto
  ultimately show ?thesis by (cases e) auto
qed

text \<open>Entries of less than 4 GiB, whose length is not truncated.\<close>

definition sized :: "entry \<Rightarrow> bool" where
  "sized e \<longleftrightarrow> entry_size e \<le> 4294967280"

lemma align_length_bounds: "n \<le> align_length n" "align_length n \<le> n + 7" "8 dvd align_length n"
  unfolding align_length_def by presburger+

lemma entry_length_sized: "sized e \<Longrightarrow> unat (entry_length e) = align_length (entry_size e)"
  using align_length_bounds(2) [of "entry_size e"]
  by (simp add: sized_def entry_length_def unat_of_nat take_bit_eq_mod)

lemma entry_length_pos [simp]: "sized e \<Longrightarrow> entry_length e \<noteq> 0"
  using entry_length_sized [of e] align_length_bounds(1) [of "entry_size e"] entry_size_bounds [of e]
  by auto

lemma put_entry_eq:
  "put_entry e b = None \<longleftrightarrow> pos b + unat (entry_length e) > cap b"
  "put_entry e b = Some b' \<Longrightarrow> buf_holds b es \<Longrightarrow> sized e \<Longrightarrow> buf_holds b' (es @ [e])"
  "put_entry e b = Some b' \<Longrightarrow> pos b' = pos b + unat (entry_length e)"
  "put_entry e b = Some b' \<Longrightarrow> buf_size b' = buf_size b"
  "put_entry e b = Some b' \<Longrightarrow> cap b' = cap b"
  by (auto simp: put_entry_def Let_def buf_holds_def holds_append holds_upd split: if_splits)

text \<open>The loop of \<open>VTGen_rewind\<close> keeps the entries before the mark and the definitions behind it.\<close>

lemma holds_upd_below: "holds m p es q \<Longrightarrow> r < p \<Longrightarrow> holds (m(r := x)) p es q"
  by (induction es arbitrary: p) auto

abbreviation is_def :: "entry \<Rightarrow> bool" where
  "is_def e \<equiv> (case e of Def d \<Rightarrow> True | _ \<Rightarrow> False)"

lemma rewind_loop_holds:
  "holds (mem b) 0 done mark \<Longrightarrow> holds (mem b) p rest (pos b) \<Longrightarrow> mark \<le> p \<Longrightarrow>
   \<exists>mark' b'. rewind_loop p mark b = Some (mark', b') \<and> mark' \<le> pos b \<and> pos b' = pos b
     \<and> buf_size b' = buf_size b \<and> cap b' = cap b \<and> holds (mem b') 0 (done @ filter is_def rest) mark'"
proof (induction rest arbitrary: p mark b "done")
  case Nil
  then show ?case
    by (simp add: rewind_loop.simps)
next
  case (Cons e rest)
  define len where "len = unat (entry_length e)"
  have e: "mem b p = Some (e, len)" "len \<noteq> 0" "holds (mem b) (p + len) rest (pos b)"
    using Cons.prems(2) by (auto simp: len_def unat_gt_0)
  have p: "p < pos b"
    using holds_le [OF e(3)] e(2) by simp
  show ?case
  proof (cases "is_def e")
    case False
    then have "rewind_loop p mark b = rewind_loop (p + len) mark b"
      using p e by (subst rewind_loop.simps) (auto split: entry.splits)
    then show ?thesis
      using Cons.IH [of b "done" mark "p + len"] Cons.prems e(3) False by auto
  next
    case True
    then obtain d where d: "e = Def d"
      by (auto split: entry.splits)
    define c where "c = (if p \<noteq> mark then b\<lparr>mem := (mem b)(mark := Some (Def d, len))\<rparr> else b)"
    have c: "mem c = (mem b)(mark := Some (e, len))" "pos c = pos b" "buf_size c = buf_size b" "cap c = cap b"
      using e(1) by (auto simp: c_def d)
    have "rewind_loop p mark b = rewind_loop (p + len) (mark + len) c"
      using p e by (subst rewind_loop.simps) (simp add: c_def d)
    moreover have "holds (mem c) 0 (done @ [e]) (mark + len)"
      using Cons.prems(1) e(2) len_def by (auto simp: c(1) holds_append holds_upd)
    moreover have "holds (mem c) (p + len) rest (pos c)"
      using e Cons.prems(3) by (simp add: c holds_upd_below)
    ultimately show ?thesis
      using Cons.IH [of c "done @ [e]" "mark + len" "p + len"] Cons.prems(3) d
      by (simp add: c(2-4))
  qed
qed

end
