(* ===== verification/Tables.thy ===== *)
theory Tables
  imports CPrelude "HOL-Library.Multiset"
begin

text \<open>
  The interface of the hash tables that the components keep. Each table of the code is an
  array of chains; \<open>put\<close> adds a node at the head of a chain, \<open>get\<close> walks the chain of the
  key. The locale \<open>keyed_table\<close> states what the clients rely on, \<open>index_table\<close> the use of a
  table as an index into an array: the value of a key is the position of the array's element
  with that key.
\<close>

section \<open>Chains\<close>

text \<open>The loop of every \<open>hash_get\<close>: the first node of the chain with the property.\<close>

abbreviation chain_find :: "('e \<Rightarrow> bool) \<Rightarrow> 'e list \<Rightarrow> 'e option" where
  "chain_find \<equiv> List.find"

lemma find_Some_in: "List.find P xs = Some x \<Longrightarrow> x \<in> set xs \<and> P x"
  by (auto simp: find_Some_iff)

lemma find_None_in: "List.find P xs = None \<longleftrightarrow> (\<forall>x \<in> set xs. \<not> P x)"
  by (auto simp: find_None_iff)

lemma find_cong_pred: "(\<And>x. x \<in> set xs \<Longrightarrow> P x = Q x) \<Longrightarrow> List.find P xs = List.find Q xs"
  by (induction xs) auto

lemma find_map_same: "(\<And>x. P (f x) = P x) \<Longrightarrow> List.find P (map f xs) = map_option f (List.find P xs)"
  by (induction xs) auto

text \<open>The loops that search an array from the front return an index.\<close>

fun find_index :: "('e \<Rightarrow> bool) \<Rightarrow> 'e list \<Rightarrow> nat option" where
  "find_index P [] = None"
| "find_index P (x # xs) = (if P x then Some 0 else map_option Suc (find_index P xs))"

lemma find_index_None: "find_index P xs = None \<longleftrightarrow> (\<forall>x \<in> set xs. \<not> P x)"
  by (induction xs) auto

lemma find_index_Some:
  "find_index P xs = Some i \<longleftrightarrow> i < length xs \<and> P (xs ! i) \<and> (\<forall>j < i. \<not> P (xs ! j))"
proof (induction xs arbitrary: i)
  case Nil
  then show ?case by simp
next
  case (Cons x xs)
  show ?case
  proof (cases i)
    case 0
    then show ?thesis by auto
  next
    case (Suc k)
    have "(\<forall>j < Suc k. \<not> P ((x # xs) ! j)) \<longleftrightarrow> \<not> P x \<and> (\<forall>j < k. \<not> P (xs ! j))"
      by (auto simp: less_Suc_eq_0_disj)
    then show ?thesis
      using Suc Cons.IH [of k] by auto
  qed
qed

lemma find_index_append:
  "find_index P (xs @ ys) =
     (case find_index P xs of Some i \<Rightarrow> Some i | None \<Rightarrow> map_option (\<lambda>i. length xs + i) (find_index P ys))"
proof (induction xs)
  case Nil
  show ?case by (cases "find_index P ys") simp_all
next
  case (Cons x xs)
  then show ?case
    by (cases "find_index P xs"; cases "find_index P ys") auto
qed

text \<open>
  The loop \<open>while (i < n && !P(m[i])) i++\<close> over the first \<open>n\<close> elements of an array; what it
  returns is \<open>n\<close> when there is none.
\<close>

function scan :: "('e \<Rightarrow> bool) \<Rightarrow> 'e list \<Rightarrow> nat \<Rightarrow> nat \<Rightarrow> nat" where
  "scan P m n i = (if i < n \<and> \<not> P (m ! i) then scan P m n (Suc i) else i)"
  by pat_completeness auto
termination
  by (relation "measure (\<lambda>(P, m, n, i). n - i)") auto

declare scan.simps [simp del]

lemma scan_from:
  "i \<le> n \<Longrightarrow> n \<le> length m \<Longrightarrow>
   scan P m n i = (case find_index P (drop i (take n m)) of None \<Rightarrow> n | Some j \<Rightarrow> i + j)"
proof (induction P m n i rule: scan.induct)
  case (1 P m n i)
  show ?case
  proof (cases "i < n")
    case True
    then have "drop i (take n m) = m ! i # drop (Suc i) (take n m)"
      using "1.prems" Cons_nth_drop_Suc [of i "take n m"] by simp
    then show ?thesis
      using True "1" by (subst scan.simps) (auto split: option.splits)
  next
    case False
    then show ?thesis
      using "1.prems" by (subst scan.simps) simp
  qed
qed

lemma scan_eq:
  "n \<le> length m \<Longrightarrow>
   scan P m n 0 = (case find_index P (take n m) of None \<Rightarrow> n | Some j \<Rightarrow> j)"
  using scan_from [of 0 n m P] by (simp split: option.split)

lemma find_index_less: "find_index P xs = Some i \<Longrightarrow> i < length xs"
  by (simp add: find_index_Some)

lemma scan_None: "n \<le> length m \<Longrightarrow> find_index P (take n m) = None \<Longrightarrow> scan P m n 0 = n"
  by (simp add: scan_eq)

lemma scan_Some: "n \<le> length m \<Longrightarrow> find_index P (take n m) = Some i \<Longrightarrow> scan P m n 0 = i \<and> i < n"
  by (auto simp: scan_eq dest: find_index_less)

section \<open>Deletion by moving the last element\<close>

text \<open>Deletion from an array without holes: the last element takes the place of the deleted one.\<close>

definition swap_remove :: "nat \<Rightarrow> 'a list \<Rightarrow> 'a list" where
  "swap_remove i xs = butlast (xs[i := last xs])"

lemma swap_remove_length [simp]: "length (swap_remove i xs) = length xs - 1"
  by (simp add: swap_remove_def)

lemma swap_remove_split:
  assumes "i < length xs"
  shows "mset xs = add_mset (xs ! i) (mset (swap_remove i xs))"
proof -
  obtain ys y where xs: "xs = ys @ [y]"
    using assms by (cases xs rule: rev_cases) auto
  show ?thesis
  proof (cases "i = length ys")
    case True
    then show ?thesis
      by (simp add: xs swap_remove_def)
  next
    case False
    then have i: "i < length ys"
      using assms xs by simp
    then have "ys = take i ys @ ys ! i # drop (Suc i) ys"
      by (rule id_take_nth_drop)
    then have "mset ys = add_mset (ys ! i) (mset (take i ys) + mset (drop (Suc i) ys))"
      by (metis mset.simps(2) mset_append union_mset_add_mset_right)
    moreover have "swap_remove i xs = take i ys @ y # drop (Suc i) ys"
      using i by (simp add: xs swap_remove_def list_update_append upd_conv_take_nth_drop butlast_append)
    ultimately show ?thesis
      using i by (simp add: xs nth_append)
  qed
qed

lemma swap_remove_update: "i < length xs \<Longrightarrow> swap_remove i (xs[i := x]) = swap_remove i xs"
  by (cases xs rule: rev_cases) (auto simp: swap_remove_def list_update_append less_Suc_eq)

lemma swap_remove_last: "swap_remove (length xs) (xs @ [x]) = xs"
  by (simp add: swap_remove_def)

section \<open>The interface\<close>

locale keyed_table =
  fixes get :: "'t \<Rightarrow> 'k \<Rightarrow> 'v option"
    and put :: "'t \<Rightarrow> 'k \<Rightarrow> 'v \<Rightarrow> 't"
    and empty :: 't
  assumes get_empty: "get empty k = None"
    and get_put: "get (put t k v) k' = (if k' = k then Some v else get t k')"
begin

lemma get_put_same [simp]: "get (put t k v) k = Some v"
  by (simp add: get_put)

lemma get_put_other: "k' \<noteq> k \<Longrightarrow> get (put t k v) k' = get t k'"
  by (simp add: get_put)

text \<open>A table filled by a sequence of \<open>put\<close>s finds the value put last.\<close>

lemma get_put_all:
  "get (foldl (\<lambda>t (k, v). put t k v) t kvs) k =
     (case map_of (rev kvs) k of Some v \<Rightarrow> Some v | None \<Rightarrow> get t k)"
  by (induction kvs arbitrary: t) (auto simp: get_put map_add_def split: option.split)

lemma get_filled: "get (foldl (\<lambda>t (k, v). put t k v) empty kvs) k = map_of (rev kvs) k"
  by (simp add: get_put_all get_empty split: option.split)

end

section \<open>Tables as indices\<close>

text \<open>The table \<open>t\<close> maps exactly the keys of the array \<open>xs\<close>, each to its position.\<close>

definition indexed :: "('t \<Rightarrow> 'k \<Rightarrow> nat option) \<Rightarrow> ('e \<Rightarrow> 'k) \<Rightarrow> 't \<Rightarrow> 'e list \<Rightarrow> bool" where
  "indexed get key t xs \<longleftrightarrow> (\<forall>k i. get t k = Some i \<longleftrightarrow> i < length xs \<and> key (xs ! i) = k)"

lemma indexedD: "indexed get key t xs \<Longrightarrow> get t k = Some i \<Longrightarrow> i < length xs \<and> key (xs ! i) = k"
  by (simp add: indexed_def)

lemma indexed_nth: "indexed get key t xs \<Longrightarrow> i < length xs \<Longrightarrow> get t (key (xs ! i)) = Some i"
  by (simp add: indexed_def)

lemma indexed_absent: "indexed get key t xs \<Longrightarrow> get t k = None \<longleftrightarrow> k \<notin> key ` set xs"
proof
  assume "indexed get key t xs" and "get t k = None"
  then show "k \<notin> key ` set xs"
    by (auto simp: indexed_def in_set_conv_nth) (metis option.distinct(1))
next
  assume "indexed get key t xs" and "k \<notin> key ` set xs"
  then show "get t k = None"
    using indexedD [of get key t xs k] by (cases "get t k") auto
qed

lemma indexed_distinct: "indexed get key t xs \<Longrightarrow> distinct (map key xs)"
  unfolding distinct_conv_nth by (auto simp: indexed_def) (metis option.inject)

lemma indexed_update:
  assumes "indexed get key t xs" and "key y = key (xs ! i)"
  shows "indexed get key t (xs[i := y])"
proof -
  have "key (xs[i := y] ! j) = key (xs ! j)" if "j < length xs" for j
    using that assms(2) by (cases "j = i") auto
  then show ?thesis
    using assms(1) by (auto simp: indexed_def)
qed

lemma indexed_map:
  assumes "indexed get key t xs" and "\<And>x. key (f x) = key x"
  shows "indexed get key t (map f xs)"
  using assms by (auto simp: indexed_def)

text \<open>The value of a statistic by its key, \<open>None\<close> when there is none yet.\<close>

definition stat_at :: "('t \<Rightarrow> 'k \<Rightarrow> nat option) \<Rightarrow> 't \<Rightarrow> 'e list \<Rightarrow> 'k \<Rightarrow> 'e option" where
  "stat_at get t xs k = map_option (\<lambda>i. xs ! i) (get t k)"

lemma stat_at_update:
  assumes "indexed get key t xs" and "i < length xs" and "key (xs ! i) = k" and "key y = k"
  shows "stat_at get t (xs[i := y]) k' = (if k' = k then Some y else stat_at get t xs k')"
proof (cases "get t k'")
  case None
  then show ?thesis
    using assms indexed_nth [OF assms(1,2)] by (auto simp: stat_at_def)
next
  case (Some j)
  then have "j < length xs" and "key (xs ! j) = k'"
    using indexedD [OF assms(1)] by auto
  moreover have "get t k = Some i"
    using indexed_nth [OF assms(1,2)] assms(3) by simp
  ultimately show ?thesis
    using Some assms by (auto simp: stat_at_def nth_list_update)
qed

locale index_table = keyed_table get put empty
  for get :: "'t \<Rightarrow> 'k \<Rightarrow> nat option"
    and put :: "'t \<Rightarrow> 'k \<Rightarrow> nat \<Rightarrow> 't"
    and empty :: 't +
  fixes key :: "'e \<Rightarrow> 'k"
begin

lemma indexed_empty: "indexed get key empty []"
  by (simp add: indexed_def get_empty)

lemma indexed_add:
  assumes "indexed get key t xs" and "get t (key x) = None"
  shows "indexed get key (put t (key x) (length xs)) (xs @ [x])"
  unfolding indexed_def
proof (intro allI)
  fix k i
  have "key x \<noteq> key (xs ! i)" if "i < length xs"
    using that indexed_nth [OF assms(1)] assms(2) by (metis option.distinct(1))
  then show "(get (put t (key x) (length xs)) k = Some i) =
      (i < length (xs @ [x]) \<and> key ((xs @ [x]) ! i) = k)"
    using assms(1) by (auto simp: get_put indexed_def nth_append less_Suc_eq)
qed

text \<open>
  The pattern of every statistics function of the code: look the key up, take the position
  found or add a fresh element behind the others. Either way the position is that of the key.
\<close>

lemma indexed_intern:
  assumes "indexed get key t xs" and "key x = k"
    and "r = (case get t k of Some i \<Rightarrow> (t, xs, i) | None \<Rightarrow> (put t k (length xs), xs @ [x], length xs))"
  shows "indexed get key (fst r) (fst (snd r))"
    and "snd (snd r) < length (fst (snd r))"
    and "key (fst (snd r) ! snd (snd r)) = k"
  using assms indexed_add [OF assms(1), of x] indexedD [OF assms(1)]
  by (auto simp: nth_append split: option.splits)

lemma intern_update:
  assumes ind: "indexed get key t xs" and key: "key x = k"
    and r: "(t', xs', i) =
      (case get t k of Some i \<Rightarrow> (t, xs, i) | None \<Rightarrow> (put t k (length xs), xs @ [x], length xs))"
    and f: "\<And>y. key (f y) = key y"
  shows "indexed get key t' (xs'[i := f (xs' ! i)])"
    and "stat_at get t' (xs'[i := f (xs' ! i)]) k' =
      (if k' = k then Some (f (case stat_at get t xs k of Some y \<Rightarrow> y | None \<Rightarrow> x))
       else stat_at get t xs k')"
proof -
  have i: "indexed get key t' xs'" "i < length xs'" "key (xs' ! i) = k"
    using indexed_intern [OF ind key r] by simp_all
  then show "indexed get key t' (xs'[i := f (xs' ! i)])"
    by (simp add: indexed_update f)
  have "xs' ! i = (case stat_at get t xs k of Some y \<Rightarrow> y | None \<Rightarrow> x)"
    using r by (auto simp: stat_at_def split: option.splits)
  moreover have "stat_at get t' xs' k' = stat_at get t xs k'" if "k' \<noteq> k"
  proof (cases "get t k")
    case None
    then have t': "t' = put t k (length xs)" "xs' = xs @ [x]"
      using r by simp_all
    then show ?thesis
      using that indexedD [OF ind, of k'] by (cases "get t k'") (simp_all add: stat_at_def get_put nth_append)
  next
    case (Some j)
    then show ?thesis
      using r by simp
  qed
  ultimately show "stat_at get t' (xs'[i := f (xs' ! i)]) k' =
      (if k' = k then Some (f (case stat_at get t xs k of Some y \<Rightarrow> y | None \<Rightarrow> x))
       else stat_at get t xs k')"
    using stat_at_update [OF i(1,2,3), of "f (xs' ! i)" k'] f [of "xs' ! i"] i(3) by simp
qed

end

end
