(* ===== verification/Util.thy ===== *)
theory Util
  imports CString
begin

text \<open>
  \<open>util/util.c\<close> and \<open>util/hash.c\<close>: in-place trimming of blanks (\<open>vt_strtrim\<close>), the
  overlapping copy \<open>vt_memmove\<close>, the bounded formatting \<open>vt_vsnprintf\<close> (the formatted text
  itself is a parameter), \<open>vt_strdup\<close>, and the hash function \<open>vt_hash\<close> over 32-bit words
  with its fall-through switch.
\<close>

section \<open>vt_strtrim\<close>

abbreviation BLANK :: char where
  "BLANK \<equiv> CHR '' ''"

text \<open>The first loop: \<open>i\<close> is also the number of blanks counted in \<open>trim_start_idx\<close>.\<close>

function strtrim_start :: "string \<Rightarrow> nat \<Rightarrow> nat \<Rightarrow> nat" where
  "strtrim_start s stop i =
     (if i < stop \<and> s ! i = BLANK then strtrim_start s stop (Suc i) else i)"
  by pat_completeness auto
termination
  by (relation "measure (\<lambda>(s, stop, i). stop - i)") auto

text \<open>The second loop counts \<open>trim_stop_idx\<close> down while the character before it is blank.\<close>

fun strtrim_stop :: "string \<Rightarrow> nat \<Rightarrow> nat" where
  "strtrim_stop s 0 = 0"
| "strtrim_stop s (Suc i) = (if s ! i = BLANK then strtrim_stop s i else Suc i)"

text \<open>The third loop moves the text to the front; the result is the buffer and the final \<open>j\<close>.\<close>

function strtrim_copy :: "string \<Rightarrow> nat \<Rightarrow> nat \<Rightarrow> nat \<Rightarrow> string \<times> nat" where
  "strtrim_copy s j i stop =
     (if i < stop then strtrim_copy (s[j := s ! i]) (Suc j) (Suc i) stop else (s, j))"
  by pat_completeness auto
termination
  by (relation "measure (\<lambda>(s, j, i, stop). stop - i)") auto

declare strtrim_start.simps [simp del] strtrim_copy.simps [simp del]

definition vt_strtrim :: "string \<Rightarrow> string" where
  "vt_strtrim s =
     (let stop = strlen s
      in if stop > 0 then
           (let start = strtrim_start s stop 0;
                (s', j) = strtrim_copy s 0 start (strtrim_stop s stop)
            in s'[j := NUL])
         else s)"

text \<open>The reference: strip blanks from both ends.\<close>

definition trim :: "string \<Rightarrow> string" where
  "trim t = rev (dropWhile (\<lambda>c. c = BLANK) (rev (dropWhile (\<lambda>c. c = BLANK) t)))"

lemma strtrim_start_eq:
  "i \<le> stop \<Longrightarrow> stop \<le> length s \<Longrightarrow>
   strtrim_start s stop i = i + length (takeWhile (\<lambda>c. c = BLANK) (take (stop - i) (drop i s)))"
proof (induction s stop i rule: strtrim_start.induct)
  case (1 s stop i)
  show ?case
  proof (cases "i < stop")
    case True
    then have "take (stop - i) (drop i s) = s ! i # take (stop - Suc i) (drop (Suc i) s)"
      using "1.prems" by (metis Cons_nth_drop_Suc Suc_diff_Suc less_le_trans take_Suc_Cons)
    then show ?thesis
      using True "1" by (simp add: strtrim_start.simps [of s stop i])
  next
    case False
    then show ?thesis
      using "1.prems" by (simp add: strtrim_start.simps [of s stop stop])
  qed
qed

lemma strtrim_stop_eq:
  "stop \<le> length s \<Longrightarrow>
   strtrim_stop s stop = stop - length (takeWhile (\<lambda>c. c = BLANK) (rev (take stop s)))"
proof (induction stop)
  case 0
  then show ?case by simp
next
  case (Suc i)
  then have "rev (take (Suc i) s) = s ! i # rev (take i s)"
    by (simp add: take_Suc_conv_app_nth)
  then show ?case
    using Suc by simp
qed

lemma strtrim_copy_eq:
  assumes "j \<le> i" and "i \<le> stop" and "stop \<le> length s"
  shows "strtrim_copy s j i stop =
    (take j s @ take (stop - i) (drop i s) @ drop (j + (stop - i)) s, j + (stop - i))"
  using assms
proof (induction s j i stop rule: strtrim_copy.induct)
  case (1 s j i stop)
  show ?case
  proof (cases "i < stop")
    case False
    then have "i = stop"
      using "1.prems" by simp
    then show ?thesis
      by (simp add: strtrim_copy.simps [of s j stop stop])
  next
    case True
    let ?s' = "s[j := s ! i]"
    have step: "strtrim_copy s j i stop = strtrim_copy ?s' (Suc j) (Suc i) stop"
      using True by (simp add: strtrim_copy.simps [of s j i stop])
    have IH: "strtrim_copy ?s' (Suc j) (Suc i) stop =
      (take (Suc j) ?s' @ take (stop - Suc i) (drop (Suc i) ?s')
         @ drop (Suc j + (stop - Suc i)) ?s', Suc j + (stop - Suc i))"
      using "1.IH" [OF True] "1.prems" True by simp
    have "take (Suc j) ?s' = take j s @ [s ! i]"
      using "1.prems" True by (simp add: take_Suc_conv_app_nth)
    moreover have "drop (Suc i) ?s' = drop (Suc i) s"
      using "1.prems" by simp
    moreover have "take (stop - i) (drop i s) = s ! i # take (stop - Suc i) (drop (Suc i) s)"
      using "1.prems" True by (metis Cons_nth_drop_Suc Suc_diff_Suc less_le_trans take_Suc_Cons)
    moreover have "Suc j + (stop - Suc i) = j + (stop - i)"
      using True by simp
    moreover have "drop (j + (stop - i)) ?s' = drop (j + (stop - i)) s"
      using True by simp
    moreover have "j + (stop - i) = Suc (j + (stop - Suc i))"
      using True by simp
    ultimately show ?thesis
      using step IH by (simp only: append_assoc append_Cons append_Nil)
  qed
qed

lemma length_takeWhile_rev_dropWhile:
  "length (takeWhile P (rev t)) + length (takeWhile P t) \<le> length t \<or> (\<forall>c \<in> set t. P c)"
proof (cases "\<forall>c \<in> set t. P c")
  case True
  then show ?thesis by simp
next
  case False
  then obtain xs x ys where t: "t = xs @ x # ys" and x: "\<not> P x"
    by (meson split_list)
  then have "length (takeWhile P t) \<le> length xs"
    by (simp add: takeWhile_tail length_takeWhile_le)
  moreover have "length (takeWhile P (rev t)) \<le> length ys"
    using t x length_takeWhile_le [of P "rev ys"] by (simp add: takeWhile_tail)
  ultimately show ?thesis
    using t by simp
qed

text \<open>
  Trimming in place: the C string of the result is the trimmed C string, the bytes behind its
  NUL are those the buffer had there, and nothing outside the buffer is touched.
\<close>

lemma trim_take_drop:
  assumes "\<not> (\<forall>c \<in> set t. c = BLANK)"
  shows "trim t = take (length t - length (takeWhile (\<lambda>c. c = BLANK) (rev t))
                        - length (takeWhile (\<lambda>c. c = BLANK) t))
                     (drop (length (takeWhile (\<lambda>c. c = BLANK) t)) t)"
proof -
  let ?P = "\<lambda>c. c = BLANK"
  let ?a = "takeWhile ?P t"
  let ?m = "dropWhile ?P t"
  have t: "t = ?a @ ?m"
    by simp
  have "?m \<noteq> []"
    using assms by (simp add: dropWhile_eq_Nil_conv)
  then obtain c cs where m: "?m = c # cs" and c: "\<not> ?P c"
    using hd_dropWhile [of ?P t] by (metis list.exhaust list.sel(1))
  have "rev t = rev ?m @ rev ?a"
    using arg_cong [OF t, of rev] by (simp only: rev_append)
  then have "takeWhile ?P (rev t) = takeWhile ?P (rev ?m @ rev ?a)"
    by (rule arg_cong)
  also have "\<dots> = takeWhile ?P (rev ?m)"
    using m c by (simp add: takeWhile_tail)
  finally have e: "takeWhile ?P (rev t) = takeWhile ?P (rev ?m)" .
  have "trim t = rev (drop (length (takeWhile ?P (rev ?m))) (rev ?m))"
    unfolding trim_def dropWhile_conv_drop [of ?P "rev ?m"] ..
  also have "\<dots> = take (length ?m - length (takeWhile ?P (rev ?m))) ?m"
    by (simp add: drop_rev)
  finally have "trim t = take (length ?m - length (takeWhile ?P (rev ?m))) ?m" .
  moreover have "length ?m = length t - length ?a"
    by (simp add: dropWhile_conv_drop)
  ultimately show ?thesis
    using e by (simp add: dropWhile_conv_drop add.commute)
qed

lemma trim_all_blank: "\<forall>c \<in> set t. c = BLANK \<Longrightarrow> trim t = []"
proof -
  assume "\<forall>c \<in> set t. c = BLANK"
  then have "dropWhile (\<lambda>c. c = BLANK) t = []"
    by (simp add: dropWhile_eq_Nil_conv)
  then show ?thesis
    unfolding trim_def by (simp del: dropWhile_eq_Nil_conv)
qed

lemma set_trim: "set (trim t) \<subseteq> set t"
  by (auto simp: trim_def dest!: set_dropWhileD)

lemma length_trim: "length (trim t) \<le> length t"
  unfolding trim_def by (metis length_dropWhile_le length_rev order_trans)

lemma vt_strtrim_buffer:
  assumes "terminated s"
  shows "vt_strtrim s =
    (if strlen s = 0 then s
     else trim (cstr s) @ NUL # drop (Suc (length (trim (cstr s)))) s)"
proof (cases "strlen s = 0")
  case True
  then show ?thesis by (simp add: vt_strtrim_def)
next
  case nz: False
  let ?P = "\<lambda>c. c = BLANK"
  let ?t = "cstr s"
  let ?start = "length (takeWhile ?P ?t)"
  let ?stop = "length ?t - length (takeWhile ?P (rev ?t))"
  have le: "strlen s \<le> length s" and lt: "strlen s < length s"
    by (simp_all add: strlen_le_length strlen_less assms)
  have start: "strtrim_start s (strlen s) 0 = ?start"
    using strtrim_start_eq [of 0 "strlen s" s] le by (simp add: cstr_take [symmetric])
  have stop: "strtrim_stop s (strlen s) = ?stop"
    using strtrim_stop_eq [OF le] by (simp only: cstr_take [symmetric]) (simp only: strlen_def)
  show ?thesis
  proof (cases "\<forall>c \<in> set ?t. ?P c")
    case True
    then have "takeWhile ?P (rev ?t) = rev ?t"
      by simp
    then have "?stop = 0"
      by (simp only: length_rev diff_self_eq_0)
    moreover have "strtrim_copy s 0 ?start 0 = (s, 0)"
      by (simp add: strtrim_copy.simps)
    ultimately have "vt_strtrim s = s[0 := NUL]"
      using nz by (simp add: vt_strtrim_def start stop)
    also have "\<dots> = NUL # drop 1 s"
      using lt by (cases s) auto
    finally show ?thesis
      using nz True by (simp add: trim_all_blank)
  next
    case False
    then have sl: "?start \<le> ?stop"
      using length_takeWhile_rev_dropWhile [of ?P ?t] by auto
    have stl: "?stop \<le> length s"
      using le by (simp add: strlen_def)
    let ?n = "?stop - ?start"
    have n: "?n \<le> length ?t" and sn: "?start + ?n \<le> strlen s"
      using sl by (simp_all add: strlen_def)
    have "take ?n (drop ?start s) = take ?n (drop ?start ?t)"
      using sn by (simp add: cstr_take [of s] drop_take min_def)
    then have tr: "take ?n (drop ?start s) = trim ?t"
      using trim_take_drop [OF False] by simp
    have lent: "length (trim ?t) = ?n"
      using tr sn le by (metis (no_types, lifting) add_leD2 diff_diff_cancel length_drop length_take
          le_diff_conv2 min.absorb2 add.commute order_trans nat_le_iff_add diff_add_inverse)
    have "strtrim_copy s 0 ?start ?stop = (trim ?t @ drop ?n s, ?n)"
      using strtrim_copy_eq [of 0 ?start ?stop s] sl stl tr by simp
    then have "vt_strtrim s = (trim ?t @ drop ?n s)[?n := NUL]"
      using nz by (simp add: vt_strtrim_def start stop)
    also have "\<dots> = trim ?t @ (drop ?n s)[0 := NUL]"
      using lent by (simp add: list_update_append)
    also have "(drop ?n s)[0 := NUL] = NUL # drop (Suc ?n) s"
      by (rule drop_update_0) (use sn lt in simp)
    finally show ?thesis
      using nz lent by simp
  qed
qed

text \<open>In every case, the buffer starts with the trimmed text and its NUL.\<close>

lemma vt_strtrim_terminated:
  assumes "terminated s"
  shows "vt_strtrim s = trim (cstr s) @ NUL # drop (Suc (length (trim (cstr s)))) s"
proof (cases "strlen s = 0")
  case True
  then have "cstr s = []"
    by (simp add: strlen_def)
  then show ?thesis
    using assms True terminated_split [OF assms] by (simp add: vt_strtrim_buffer trim_def)
next
  case False
  then show ?thesis
    using assms by (simp add: vt_strtrim_buffer)
qed

lemma trim_no_NUL [simp]: "NUL \<notin> set (trim (cstr s))"
  using set_trim [of "cstr s"] cstr_no_NUL by blast

lemma cstr_strtrim: "terminated s \<Longrightarrow> cstr (vt_strtrim s) = trim (cstr s)"
  by (simp add: vt_strtrim_terminated cstr_append_NUL)

lemma trim_id: "s \<noteq> [] \<Longrightarrow> hd s \<noteq> BLANK \<Longrightarrow> last s \<noteq> BLANK \<Longrightarrow> trim s = s"
proof -
  assume s: "s \<noteq> []" "hd s \<noteq> BLANK" "last s \<noteq> BLANK"
  then have "dropWhile (\<lambda>c. c = BLANK) s = s"
    by (cases s) auto
  moreover have "dropWhile (\<lambda>c. c = BLANK) (rev s) = rev s"
    using s by (cases s rule: rev_cases) auto
  ultimately show ?thesis
    by (simp add: trim_def)
qed

text \<open>
  C39: \<open>vt_strtrim\<close> leaves in its buffer the text without the blanks at both ends, and its NUL,
  and touches no byte behind that NUL.
\<close>

lemma strtrim_in_place:
  assumes "terminated s"
  shows "cstr (vt_strtrim s) = trim (cstr s) \<and> length (vt_strtrim s) = length s
    \<and> drop (Suc (length (trim (cstr s)))) (vt_strtrim s) = drop (Suc (length (trim (cstr s)))) s"
proof -
  have "length (trim (cstr s)) < length s"
    using length_trim [of "cstr s"] strlen_less [OF assms] by (simp add: strlen_def)
  then show ?thesis
    using vt_strtrim_terminated [OF assms] cstr_strtrim [OF assms] by simp
qed

section \<open>vt_memmove\<close>

text \<open>
  Both pointers point into one array \<open>m\<close>, at the indices \<open>d\<close> and \<open>s\<close>: copying forwards
  when the source is behind the destination, backwards when it is before it.
\<close>

fun memmove_fwd :: "'a list \<Rightarrow> nat \<Rightarrow> nat \<Rightarrow> nat \<Rightarrow> 'a list" where
  "memmove_fwd m d s 0 = m"
| "memmove_fwd m d s (Suc n) = memmove_fwd (m[d := m ! s]) (Suc d) (Suc s) n"

fun memmove_bwd :: "'a list \<Rightarrow> nat \<Rightarrow> nat \<Rightarrow> nat \<Rightarrow> 'a list" where
  "memmove_bwd m d s 0 = m"
| "memmove_bwd m d s (Suc n) = memmove_bwd (m[d - 1 := m ! (s - 1)]) (d - 1) (s - 1) n"

definition vt_memmove :: "'a list \<Rightarrow> nat \<Rightarrow> nat \<Rightarrow> nat \<Rightarrow> 'a list" where
  "vt_memmove m dest src n =
     (if src > dest then memmove_fwd m dest src n
      else if src < dest then memmove_bwd m (dest + n) (src + n) n
      else m)"

lemma length_memmove_fwd [simp]: "length (memmove_fwd m d s n) = length m"
  by (induction m d s n rule: memmove_fwd.induct) auto

lemma length_memmove_bwd [simp]: "length (memmove_bwd m d s n) = length m"
  by (induction m d s n rule: memmove_bwd.induct) auto

lemma memmove_fwd_nth:
  "d < s \<Longrightarrow> s + n \<le> length m \<Longrightarrow>
   memmove_fwd m d s n ! i = (if d \<le> i \<and> i < d + n then m ! (s + (i - d)) else m ! i)"
proof (induction m d s n rule: memmove_fwd.induct)
  case (1 m d s)
  then show ?case by auto
next
  case (2 m d s n)
  then show ?case
    by (cases "i = d") (auto simp: nth_list_update Suc_diff_Suc less_Suc_eq_le)
qed

lemma memmove_bwd_nth:
  "s < d \<Longrightarrow> d \<le> length m \<Longrightarrow> n \<le> s \<Longrightarrow>
   memmove_bwd m d s n ! i = (if d - n \<le> i \<and> i < d then m ! (i - (d - s)) else m ! i)"
proof (induction m d s n rule: memmove_bwd.induct)
  case (1 m d s)
  then show ?case by auto
next
  case (2 m d s n)
  then have IH: "memmove_bwd (m[d - 1 := m ! (s - 1)]) (d - 1) (s - 1) n ! i =
    (if d - 1 - n \<le> i \<and> i < d - 1 then m[d - 1 := m ! (s - 1)] ! (i - (d - 1 - (s - 1)))
     else m[d - 1 := m ! (s - 1)] ! i)"
    by (intro "2.IH") auto
  have e: "d - 1 - (s - 1) = d - s"
    using "2.prems" by simp
  show ?case
    using IH "2.prems" by (cases "i = d - 1") (auto simp: nth_list_update e)
qed

text \<open>
  \<open>vt_memmove\<close> copies as if through a second buffer, however source and destination overlap.
\<close>

lemma vt_memmove_copies:
  assumes "dest + n \<le> length m" and "src + n \<le> length m"
  shows "vt_memmove m dest src n = take dest m @ take n (drop src m) @ drop (dest + n) m"
proof (rule nth_equalityI)
  let ?r = "take dest m @ take n (drop src m) @ drop (dest + n) m"
  have len: "length (vt_memmove m dest src n) = length m"
    by (simp add: vt_memmove_def)
  then show "length (vt_memmove m dest src n) = length ?r"
    using assms by simp
  fix i assume "i < length (vt_memmove m dest src n)"
  then have i: "i < length m"
    using len by simp
  have "?r ! i = (if dest \<le> i \<and> i < dest + n then m ! (src + (i - dest)) else m ! i)"
  proof -
    have "length (take dest m) = dest" and "length (take n (drop src m)) = n"
      using assms by simp_all
    then show ?thesis
      using assms i by (auto simp: nth_append simp del: length_take)
  qed
  moreover have "vt_memmove m dest src n ! i =
    (if dest \<le> i \<and> i < dest + n then m ! (src + (i - dest)) else m ! i)"
  proof -
    consider "src > dest" | "src < dest" | "src = dest" by linarith
    then show ?thesis
    proof cases
      case 1
      then show ?thesis
        using assms by (simp add: vt_memmove_def memmove_fwd_nth)
    next
      case 2
      then have "dest \<le> i \<Longrightarrow> i - (dest - src) = src + (i - dest)"
        by simp
      then show ?thesis
        using 2 assms by (simp add: vt_memmove_def memmove_bwd_nth)
    next
      case 3
      then show ?thesis by (simp add: vt_memmove_def)
    qed
  qed
  ultimately show "vt_memmove m dest src n ! i = ?r ! i"
    by simp
qed

section \<open>vt_vsnprintf and vt_strdup\<close>

text \<open>
  \<open>out\<close> is the text that \<open>vt_vasprintf\<close> formats into its own buffer; \<open>str\<close> is the caller's
  memory from the pointer \<open>str\<close> to the end of its object. The result is \<open>None\<close> when a byte
  outside of that object is accessed. \<open>bsize\<close> is the parameter \<open>size\<close>; the copy of
  \<open>size - 1\<close> bytes is one of \<open>(size_t)-1\<close> bytes when it is 0, which leaves every object.
\<close>

definition vt_vsnprintf :: "string ptr \<Rightarrow> nat \<Rightarrow> string \<Rightarrow> (nat \<times> string ptr) option" where
  "vt_vsnprintf str bsize out =
     (case str of
        None \<Rightarrow> Some (length out, None)
      | Some b \<Rightarrow>
          if length out < bsize then
            (if length out < length b then Some (length out, Some (strcpy b out)) else None)
          else if bsize = 0 \<or> \<not> bsize < length b then None
          else Some (length out, Some ((take (bsize - 1) out @ drop (bsize - 1) b)[bsize := NUL])))"

definition vt_strdup :: "string ptr \<Rightarrow> string ptr" where
  "vt_strdup s = (case s of None \<Rightarrow> None | Some t \<Rightarrow> Some (cstr t))"

text \<open>
  On an array of exactly \<open>bsize\<close> bytes, the call stays inside the array only when the text and
  its NUL fit: truncation, the reason for passing a size, writes one byte past the end.
\<close>

lemma vt_vsnprintf_in_bounds_iff:
  assumes "length b = bsize"
  shows "(vt_vsnprintf (Some b) bsize out \<noteq> None) = (length out < bsize)"
  using assms by (simp add: vt_vsnprintf_def)

section \<open>vt_hash\<close>

unbundle bit_operations_syntax

text \<open>The macro \<open>mix\<close>: nine assignments on 32-bit words.\<close>

definition mix :: "u32 \<times> u32 \<times> u32 \<Rightarrow> u32 \<times> u32 \<times> u32" where
  "mix s =
     (let (a, b, c) = s;
          a = a - b; a = a - c; a = a XOR drop_bit 13 c;
          b = b - c; b = b - a; b = b XOR push_bit 8 a;
          c = c - a; c = c - b; c = c XOR drop_bit 13 b;
          a = a - b; a = a - c; a = a XOR drop_bit 12 c;
          b = b - c; b = b - a; b = b XOR push_bit 16 a;
          c = c - a; c = c - b; c = c XOR drop_bit 5 b;
          a = a - b; a = a - c; a = a XOR drop_bit 3 c;
          b = b - c; b = b - a; b = b XOR push_bit 10 a;
          c = c - a; c = c - b; c = c XOR drop_bit 15 b
      in (a, b, c))"

text \<open>The byte \<open>k[i]\<close> converted to \<open>unsigned int\<close> and shifted left by \<open>n\<close> bits.\<close>

definition kbyte :: "u8 list \<Rightarrow> nat \<Rightarrow> nat \<Rightarrow> u32" where
  "kbyte k i n = push_bit n (ucast (k ! i))"

text \<open>The loop over blocks of 12 bytes; \<open>len\<close> is the length of the remaining key.\<close>

function vt_hash_loop :: "u8 list \<Rightarrow> u32 \<times> u32 \<times> u32 \<Rightarrow> u8 list \<times> (u32 \<times> u32 \<times> u32)" where
  "vt_hash_loop k s =
     (if length k \<ge> 12 then
        (let (a, b, c) = s;
             a = a + (kbyte k 0 0 + kbyte k 1 8 + kbyte k 2 16 + kbyte k 3 24);
             b = b + (kbyte k 4 0 + kbyte k 5 8 + kbyte k 6 16 + kbyte k 7 24);
             c = c + (kbyte k 8 0 + kbyte k 9 8 + kbyte k 10 16 + kbyte k 11 24)
         in vt_hash_loop (drop 12 k) (mix (a, b, c)))
      else (k, s))"
  by pat_completeness auto
termination
  by (relation "measure (\<lambda>(k, s). length k)") auto

declare vt_hash_loop.simps [simp del]

text \<open>The switch on the number of bytes left, whose cases fall through to the smaller ones.\<close>

definition vt_hash_tail :: "u8 list \<Rightarrow> u32 \<times> u32 \<times> u32 \<Rightarrow> u32 \<times> u32 \<times> u32" where
  "vt_hash_tail k s =
     (let len = length k; (a, b, c) = s;
          c = (if len \<ge> 11 then c + kbyte k 10 24 else c);
          c = (if len \<ge> 10 then c + kbyte k 9 16 else c);
          c = (if len \<ge> 9 then c + kbyte k 8 8 else c);
          b = (if len \<ge> 8 then b + kbyte k 7 24 else b);
          b = (if len \<ge> 7 then b + kbyte k 6 16 else b);
          b = (if len \<ge> 6 then b + kbyte k 5 8 else b);
          b = (if len \<ge> 5 then b + kbyte k 4 0 else b);
          a = (if len \<ge> 4 then a + kbyte k 3 24 else a);
          a = (if len \<ge> 3 then a + kbyte k 2 16 else a);
          a = (if len \<ge> 2 then a + kbyte k 1 8 else a);
          a = (if len \<ge> 1 then a + kbyte k 0 0 else a)
      in (a, b, c))"

definition vt_hash :: "u8 list \<Rightarrow> u32 \<Rightarrow> u32" where
  "vt_hash key initval =
     (let (k, (a, b, c)) = vt_hash_loop key (0x9e3779b9, 0x9e3779b9, initval);
          c = c + of_nat (length key);
          (a, b, c) = mix (vt_hash_tail k (a, b, c))
      in c)"

text \<open>
  The reference reads the key as little-endian 32-bit words: whole blocks of three words, then
  one block padded with zero bytes whose third word is shifted by one byte, because the lowest
  byte of \<open>c\<close> is reserved for the length.
\<close>

definition le_word :: "u8 list \<Rightarrow> u32" where
  "le_word k = kbyte k 0 0 + kbyte k 1 8 + kbyte k 2 16 + kbyte k 3 24"

definition pad_to :: "nat \<Rightarrow> u8 list \<Rightarrow> u8 list" where
  "pad_to n k = k @ replicate (n - length k) 0"

definition vt_hash_last :: "u8 list \<Rightarrow> u32 \<times> u32 \<times> u32 \<Rightarrow> u32 \<times> u32 \<times> u32" where
  "vt_hash_last k s =
     (let (a, b, c) = s; p = pad_to 12 k
      in (a + le_word p, b + le_word (drop 4 p), c + push_bit 8 (le_word (drop 8 p))))"

lemma kbyte_pad: "kbyte (pad_to n k) i j = (if i < length k then kbyte k i j
    else if i < n then 0 else kbyte (pad_to n k) i j)"
  by (auto simp: kbyte_def pad_to_def nth_append)

lemma kbyte_drop: "m \<le> length k \<Longrightarrow> kbyte (drop m k) i j = kbyte k (m + i) j"
  by (simp add: kbyte_def)

lemma le_word_drop:
  "m \<le> length k \<Longrightarrow>
   le_word (drop m k) = kbyte k m 0 + kbyte k (m + 1) 8 + kbyte k (m + 2) 16 + kbyte k (m + 3) 24"
  by (simp add: le_word_def kbyte_drop)

lemma push_bit_8_kbyte: "push_bit 8 (kbyte k i j) = kbyte k i (j + 8)"
  by (simp add: kbyte_def add.commute)

lemma kbyte_32: "kbyte k i 32 = 0"
  unfolding kbyte_def by (rule bit_word_eqI) (auto simp: bit_simps)

lemmas kbyte_simps = kbyte_pad kbyte_drop push_bit_8_kbyte kbyte_32 push_bit_add

lemma vt_hash_tail_eq:
  assumes "length k < 12"
  shows "vt_hash_tail k s = vt_hash_last k s"
proof -
  obtain a b c where s: "s = (a, b, c)"
    by (cases s)
  have len: "length (pad_to 12 k) = 12"
    using assms by (simp add: pad_to_def)
  from assms have "length k \<in> {0, 1, 2, 3, 4, 5, 6, 7, 8, 9, 10, 11}"
    by (simp only: insert_iff empty_iff) presburger
  then show ?thesis
    by (auto simp: s vt_hash_tail_def vt_hash_last_def le_word_def Let_def kbyte_simps len ac_simps)
qed

lemma vt_hash_loop_short: "length (fst (vt_hash_loop k s)) < 12"
proof (induction k s rule: vt_hash_loop.induct)
  case (1 k s)
  show ?case
  proof (cases "length k \<ge> 12")
    case True
    then show ?thesis
      using "1" by (subst vt_hash_loop.simps) (auto simp: Let_def split: prod.split)
  next
    case False
    then show ?thesis
      by (simp add: vt_hash_loop.simps)
  qed
qed

definition vt_hash_ref :: "u8 list \<Rightarrow> u32 \<Rightarrow> u32" where
  "vt_hash_ref key initval =
     (let blocks = length key div 12;
          step = (\<lambda>s i. let k = drop (12 * i) key; (a, b, c) = s
                  in mix (a + le_word k, b + le_word (drop 4 k), c + le_word (drop 8 k)));
          (a, b, c) = foldl step (0x9e3779b9, 0x9e3779b9, initval) [0..<blocks];
          (a, b, c) = mix (vt_hash_last (drop (12 * blocks) key) (a, b, c + of_nat (length key)))
      in c)"

lemma vt_hash_loop_blocks:
  "vt_hash_loop (drop (12 * i) key) s =
     (drop (12 * (length key div 12)) key,
      foldl (\<lambda>s i. let k = drop (12 * i) key; (a, b, c) = s
                  in mix (a + le_word k, b + le_word (drop 4 k), c + le_word (drop 8 k)))
        s [i..<length key div 12])"
  if "12 * i \<le> length key"
  using that
proof (induction "length key div 12 - i" arbitrary: i s)
  case 0
  then have "length key div 12 \<le> i"
    by simp
  then have "i = length key div 12"
    using "0.prems" by (metis div_le_mono le_antisym nonzero_mult_div_cancel_left zero_neq_numeral)
  then show ?case
    by (simp add: vt_hash_loop.simps) presburger
next
  case (Suc d)
  obtain a b c where s: "s = (a, b, c)"
    by (cases s)
  have lt: "i < length key div 12"
    using Suc.hyps by simp
  then have le: "12 * i + 12 \<le> length key"
    by linarith
  let ?k = "drop (12 * i) key"
  let ?s' = "mix (a + le_word ?k, b + le_word (drop 4 ?k), c + le_word (drop 8 ?k))"
  have len: "12 \<le> length ?k"
    using le by simp
  have "le_word ?k = kbyte ?k 0 0 + kbyte ?k 1 8 + kbyte ?k 2 16 + kbyte ?k 3 24"
    and "le_word (drop 4 ?k) = kbyte ?k 4 0 + kbyte ?k 5 8 + kbyte ?k 6 16 + kbyte ?k 7 24"
    and "le_word (drop 8 ?k) = kbyte ?k 8 0 + kbyte ?k 9 8 + kbyte ?k 10 16 + kbyte ?k 11 24"
    using len le_word_drop [of 0 ?k] le_word_drop [of 4 ?k] le_word_drop [of 8 ?k]
    by (simp_all add: numeral_eq_Suc)
  then have "vt_hash_loop ?k s = vt_hash_loop (drop 12 ?k) ?s'"
    using len by (subst vt_hash_loop.simps) (simp only: s Let_def prod.case if_True)
  moreover have "drop 12 ?k = drop (12 * Suc i) key"
    by (simp add: add.commute)
  moreover have "[i..<length key div 12] = i # [Suc i..<length key div 12]"
    using lt by (rule upt_conv_Cons)
  ultimately show ?case
    using Suc.hyps(1) [of "Suc i" ?s'] Suc.hyps(2) le by (simp add: s)
qed

text \<open>
  C40: \<open>vt_hash\<close> is the hash of the 12-byte blocks of the key, each read as three little-endian
  words and mixed in, and of the zero-padded rest of at most 11 bytes with the length: the
  unrolled loop and the fall-through \<open>switch\<close> compute this specification on every key.
\<close>

theorem vt_hash_eq_ref: "vt_hash key initval = vt_hash_ref key initval"
proof -
  have "length (drop (12 * (length key div 12)) key) < 12"
    by simp
  then show ?thesis
    using vt_hash_loop_blocks [of 0 key "(0x9e3779b9, 0x9e3779b9, initval)"]
    by (simp add: vt_hash_def vt_hash_ref_def Let_def vt_hash_tail_eq split: prod.split)
qed

end
