(* ===== verification/OtfSum.thy ===== *)
theory OtfSum
  imports Tables Util
begin

unbundle bit_operations_syntax

text \<open>
  \<open>vtlib/vt_otf_sum.c\<close>: the statistics that are kept of every thread, for functions, messages,
  collective operations and file operations, each in an array with a hash table that maps the
  key of a statistic to its position, and the call stack that the function times need.

  The arrays hold their used elements, so that their lengths are the counters \<open>func_stat_num\<close>
  etc. and \<open>stack_pos\<close> + 1; the allocated sizes are kept beside them. A \<open>uint32_t\<close> is hashed
  byte by byte in little-endian order. Where the functions end with the macro
  \<open>VT_CHECK_DUMP\<close>, these definitions end before it: the dump writes trace records, and the
  theory \<open>OtfGen\<close> adds it (\<open>sum_call\<close> there), with \<open>VTSum_dump\<close> and \<open>VTSum_close\<close>.
\<close>

abbreviation VTSUM_STACK_BSIZE :: nat where
  "VTSUM_STACK_BSIZE \<equiv> 100"

abbreviation VTSUM_STAT_BSIZE :: nat where
  "VTSUM_STAT_BSIZE \<equiv> 500"

abbreviation VTSUM_HASH_MAX :: nat where
  "VTSUM_HASH_MAX \<equiv> 1021"

definition VT_SUM_PROP_FUNC :: u8 where "VT_SUM_PROP_FUNC = 1"
definition VT_SUM_PROP_MSG :: u8 where "VT_SUM_PROP_MSG = 2"
definition VT_SUM_PROP_COLLOP :: u8 where "VT_SUM_PROP_COLLOP = 4"
definition VT_SUM_PROP_FILEOP :: u8 where "VT_SUM_PROP_FILEOP = 8"
definition VT_SUM_MSG_DTL_PEER :: u8 where "VT_SUM_MSG_DTL_PEER = 1"
definition VT_SUM_MSG_DTL_COMM :: u8 where "VT_SUM_MSG_DTL_COMM = 2"
definition VT_SUM_MSG_DTL_TAG :: u8 where "VT_SUM_MSG_DTL_TAG = 4"
definition VT_SUM_COLLOP_DTL_OP :: u8 where "VT_SUM_COLLOP_DTL_OP = 1"
definition VT_SUM_COLLOP_DTL_COMM :: u8 where "VT_SUM_COLLOP_DTL_COMM = 2"

section \<open>Data\<close>

record VTSum_funcStat =
  f_rid :: u32
  f_cnt :: u64
  f_excl :: u64
  f_incl :: u64

record VTSum_msgStat =
  m_peer :: u32
  m_cid :: u32
  m_tag :: u32
  m_scnt :: u64
  m_rcnt :: u64
  m_sent :: u64
  m_recvd :: u64

record VTSum_collopStat =
  co_rid :: u32
  co_cid :: u32
  co_scnt :: u64
  co_rcnt :: u64
  co_sent :: u64
  co_recvd :: u64

record VTSum_fileopStat =
  io_fid :: u32
  nopen :: u64
  nclose :: u64
  nread :: u64
  nwrite :: u64
  nseek :: u64
  rd :: u64
  wrote :: u64

record VTSum_stack =
  hexcl :: u64
  hincl :: u64
  stat_idx :: nat

text \<open>The nodes of the four hash tables: the key and the position of the statistic.\<close>

type_synonym VTSum_funcHashNode = "u32 \<times> nat"
type_synonym VTSum_msgHashNode = "(u32 \<times> u32 \<times> u32) \<times> nat"
type_synonym VTSum_collopHashNode = "(u32 \<times> u32) \<times> nat"
type_synonym VTSum_fileopHashNode = "u32 \<times> nat"

record VTSum =
  func_stat :: "VTSum_funcStat list"
  func_stat_htab :: "nat \<Rightarrow> VTSum_funcHashNode list"
  stack :: "VTSum_stack list"
  func_stat_size :: nat
  stack_size :: nat
  msg_stat :: "VTSum_msgStat list"
  msg_stat_htab :: "nat \<Rightarrow> VTSum_msgHashNode list"
  msg_stat_size :: nat
  msg_stat_dtls :: u8
  collop_stat :: "VTSum_collopStat list"
  collop_stat_htab :: "nat \<Rightarrow> VTSum_collopHashNode list"
  collop_stat_size :: nat
  collop_stat_dtls :: u8
  fileop_stat :: "VTSum_fileopStat list"
  fileop_stat_htab :: "nat \<Rightarrow> VTSum_fileopHashNode list"
  fileop_stat_size :: nat
  next_dump :: u64
  props :: u8

section \<open>Hash tables\<close>

definition u32_bytes :: "u32 \<Rightarrow> u8 list" where
  "u32_bytes x = [ucast x, ucast (drop_bit 8 x), ucast (drop_bit 16 x), ucast (drop_bit 24 x)]"

text \<open>The hash of a value that is not 0 starts from the hash of the values before it.\<close>

definition hash_step :: "u32 \<Rightarrow> u32 \<Rightarrow> u32" where
  "hash_step x h = (if x > 0 then vt_hash (u32_bytes x) h else h)"

definition func_bucket :: "u32 \<Rightarrow> nat" where
  "func_bucket h = unat h mod VTSUM_HASH_MAX"

definition msg_bucket :: "u32 \<times> u32 \<times> u32 \<Rightarrow> nat" where
  "msg_bucket k = (case k of (peer, cid, tag) \<Rightarrow>
     unat (hash_step tag (hash_step cid (hash_step peer 0))) mod VTSUM_HASH_MAX)"

definition collop_bucket :: "u32 \<times> u32 \<Rightarrow> nat" where
  "collop_bucket k = (case k of (rid, cid) \<Rightarrow>
     unat (hash_step cid (hash_step rid 0)) mod VTSUM_HASH_MAX)"

definition hash_put_func :: "(nat \<Rightarrow> VTSum_funcHashNode list) \<Rightarrow> u32 \<Rightarrow> nat \<Rightarrow> nat \<Rightarrow> VTSum_funcHashNode list" where
  "hash_put_func t h i = t(func_bucket h := (h, i) # t (func_bucket h))"

definition hash_get_func :: "(nat \<Rightarrow> VTSum_funcHashNode list) \<Rightarrow> u32 \<Rightarrow> nat option" where
  "hash_get_func t h = map_option snd (chain_find (\<lambda>n. fst n = h) (t (func_bucket h)))"

definition hash_put_msg :: "(nat \<Rightarrow> VTSum_msgHashNode list) \<Rightarrow> u32 \<times> u32 \<times> u32 \<Rightarrow> nat \<Rightarrow> nat \<Rightarrow> VTSum_msgHashNode list" where
  "hash_put_msg t k i = t(msg_bucket k := (k, i) # t (msg_bucket k))"

definition hash_get_msg :: "(nat \<Rightarrow> VTSum_msgHashNode list) \<Rightarrow> u32 \<times> u32 \<times> u32 \<Rightarrow> nat option" where
  "hash_get_msg t k = map_option snd (chain_find (\<lambda>n. fst n = k) (t (msg_bucket k)))"

definition hash_put_collop :: "(nat \<Rightarrow> VTSum_collopHashNode list) \<Rightarrow> u32 \<times> u32 \<Rightarrow> nat \<Rightarrow> nat \<Rightarrow> VTSum_collopHashNode list" where
  "hash_put_collop t k i = t(collop_bucket k := (k, i) # t (collop_bucket k))"

definition hash_get_collop :: "(nat \<Rightarrow> VTSum_collopHashNode list) \<Rightarrow> u32 \<times> u32 \<Rightarrow> nat option" where
  "hash_get_collop t k = map_option snd (chain_find (\<lambda>n. fst n = k) (t (collop_bucket k)))"

definition hash_put_fileop :: "(nat \<Rightarrow> VTSum_fileopHashNode list) \<Rightarrow> u32 \<Rightarrow> nat \<Rightarrow> nat \<Rightarrow> VTSum_fileopHashNode list" where
  "hash_put_fileop t h i = t(func_bucket h := (h, i) # t (func_bucket h))"

definition hash_get_fileop :: "(nat \<Rightarrow> VTSum_fileopHashNode list) \<Rightarrow> u32 \<Rightarrow> nat option" where
  "hash_get_fileop t h = map_option snd (chain_find (\<lambda>n. fst n = h) (t (func_bucket h)))"

section \<open>Construction\<close>

text \<open>
  The environment's settings are parameters: the statistics properties, the message and
  collective details, the dump interval in milliseconds (as read from the environment) and the
  clock resolution. The result is the record and the value of the static variable \<open>SumIntv\<close>
  that the call leaves, from the value \<open>sum_intv\<close> before it. Where a property is off, the
  fields of its statistics stay as \<open>malloc\<close> left them; here they are empty.
\<close>

definition VTSum_open :: "u8 \<Rightarrow> u8 \<Rightarrow> u8 \<Rightarrow> u32 \<Rightarrow> u64 \<Rightarrow> u64 \<Rightarrow> VTSum \<times> u64" where
  "VTSum_open stat_props msg_dtls collop_dtls intv clockres sum_intv =
     (let siz = (\<lambda>p. if stat_props AND p \<noteq> 0 then VTSUM_STAT_BSIZE else 0);
          si = (if intv > 0 then (clockres * ucast intv) div 1000 else sum_intv)
      in (\<lparr>func_stat = [], func_stat_htab = (\<lambda>_. []), stack = [], func_stat_size = siz VT_SUM_PROP_FUNC,
           stack_size = (if stat_props AND VT_SUM_PROP_FUNC \<noteq> 0 then VTSUM_STACK_BSIZE else 0),
           msg_stat = [], msg_stat_htab = (\<lambda>_. []), msg_stat_size = siz VT_SUM_PROP_MSG,
           msg_stat_dtls = (if stat_props AND VT_SUM_PROP_MSG \<noteq> 0 then msg_dtls else 0),
           collop_stat = [], collop_stat_htab = (\<lambda>_. []), collop_stat_size = siz VT_SUM_PROP_COLLOP,
           collop_stat_dtls = (if stat_props AND VT_SUM_PROP_COLLOP \<noteq> 0 then collop_dtls else 0),
           fileop_stat = [], fileop_stat_htab = (\<lambda>_. []), fileop_stat_size = siz VT_SUM_PROP_FILEOP,
           next_dump = (if intv > 0 then si else - 1), props = stat_props\<rparr>, si))"

section \<open>Adding a statistic\<close>

text \<open>The macros \<open>VTSUM_*_STAT_ADD\<close>: the record with the fresh statistic, and its position.\<close>

definition func_stat_add :: "u32 \<Rightarrow> VTSum \<Rightarrow> VTSum \<times> nat" where
  "func_stat_add rid s =
     (let sz = (if length (func_stat s) = func_stat_size s then func_stat_size s + VTSUM_STAT_BSIZE
                else func_stat_size s)
      in (s\<lparr>func_stat_size := sz,
            func_stat := func_stat s @ [\<lparr>f_rid = rid, f_cnt = 0, f_excl = 0, f_incl = 0\<rparr>]\<rparr>,
          length (func_stat s)))"

definition msg_stat_add :: "u32 \<times> u32 \<times> u32 \<Rightarrow> VTSum \<Rightarrow> VTSum \<times> nat" where
  "msg_stat_add k s =
     (case k of (peer, cid, tag) \<Rightarrow>
        (let sz = (if length (msg_stat s) = msg_stat_size s then msg_stat_size s + VTSUM_STAT_BSIZE
                   else msg_stat_size s)
         in (s\<lparr>msg_stat_size := sz,
               msg_stat := msg_stat s @ [\<lparr>m_peer = peer, m_cid = cid, m_tag = tag,
                                          m_scnt = 0, m_rcnt = 0, m_sent = 0, m_recvd = 0\<rparr>]\<rparr>,
             length (msg_stat s))))"

definition collop_stat_add :: "u32 \<times> u32 \<Rightarrow> VTSum \<Rightarrow> VTSum \<times> nat" where
  "collop_stat_add k s =
     (case k of (rid, cid) \<Rightarrow>
        (let sz = (if length (collop_stat s) = collop_stat_size s then collop_stat_size s + VTSUM_STAT_BSIZE
                   else collop_stat_size s)
         in (s\<lparr>collop_stat_size := sz,
               collop_stat := collop_stat s @ [\<lparr>co_rid = rid, co_cid = cid,
                                                co_scnt = 0, co_rcnt = 0, co_sent = 0, co_recvd = 0\<rparr>]\<rparr>,
             length (collop_stat s))))"

definition fileop_stat_add :: "u32 \<Rightarrow> VTSum \<Rightarrow> VTSum \<times> nat" where
  "fileop_stat_add i s =
     (let sz = (if length (fileop_stat s) = fileop_stat_size s then fileop_stat_size s + VTSUM_STAT_BSIZE
                else fileop_stat_size s)
      in (s\<lparr>fileop_stat_size := sz,
            fileop_stat := fileop_stat s @ [\<lparr>io_fid = i, nopen = 0, nclose = 0, nread = 0, nwrite = 0,
                                             nseek = 0, rd = 0, wrote = 0\<rparr>]\<rparr>,
          length (fileop_stat s)))"

section \<open>Functions\<close>

definition func_update :: "nat \<Rightarrow> (VTSum_funcStat \<Rightarrow> VTSum_funcStat) \<Rightarrow> VTSum \<Rightarrow> VTSum" where
  "func_update i f s = s\<lparr>func_stat := (func_stat s)[i := f (func_stat s ! i)]\<rparr>"

text \<open>The macros \<open>VTSUM_STACK_PUSH\<close> and \<open>VTSUM_STACK_POP\<close>; the top of the stack is its last element.\<close>

definition stack_push :: "nat \<Rightarrow> u64 \<Rightarrow> VTSum \<Rightarrow> VTSum" where
  "stack_push idx time s =
     (let s = (if length (stack s) = stack_size s then s\<lparr>stack_size := stack_size s + VTSUM_STACK_BSIZE\<rparr> else s);
          s = func_update idx (\<lambda>f. f\<lparr>f_cnt := f_cnt f + 1\<rparr>) s;
          pos = length (stack s);
          s = s\<lparr>stack := stack s @ [\<lparr>hexcl = time, hincl = time, stat_idx = idx\<rparr>]\<rparr>
      in if pos > 0
         then func_update (stat_idx (stack s ! (pos - 1)))
                (\<lambda>f. f\<lparr>f_excl := f_excl f + (time - hexcl (stack s ! (pos - 1)))\<rparr>) s
         else s)"

definition stack_pop :: "u64 \<Rightarrow> VTSum \<Rightarrow> VTSum option" where
  "stack_pop time s =
     (if stack s = [] then None
      else
        (let pos = length (stack s) - 1;
             e = stack s ! pos;
             s = func_update (stat_idx e) (\<lambda>f. f\<lparr>f_excl := f_excl f + (time - hexcl e)\<rparr>) s;
             s = func_update (stat_idx e) (\<lambda>f. f\<lparr>f_incl := f_incl f + (time - hincl e)\<rparr>) s;
             s = s\<lparr>stack := take pos (stack s)\<rparr>
         in Some (if pos > 0
                  then s\<lparr>stack := (stack s)[pos - 1 := (stack s ! (pos - 1))\<lparr>hexcl := time\<rparr>]\<rparr>
                  else s)))"

definition VTSum_enter :: "u64 \<Rightarrow> u32 \<Rightarrow> VTSum \<Rightarrow> VTSum" where
  "VTSum_enter time rid s =
     (let (s, idx) =
        (case hash_get_func (func_stat_htab s) rid of
           Some i \<Rightarrow> (s, i)
         | None \<Rightarrow>
             (let (s, i) = func_stat_add rid s
              in (s\<lparr>func_stat_htab := hash_put_func (func_stat_htab s) rid i\<rparr>, i)))
      in stack_push idx time s)"

definition VTSum_exit :: "u64 \<Rightarrow> u32 \<Rightarrow> VTSum \<Rightarrow> VTSum option" where
  "VTSum_exit time rid s = stack_pop time s"

section \<open>Messages\<close>

text \<open>The macro \<open>VTSum_msg\<close>.\<close>

definition VTSum_msg :: "u32 \<times> u32 \<times> u32 \<Rightarrow> VTSum \<Rightarrow> VTSum \<times> nat" where
  "VTSum_msg k s =
     (case hash_get_msg (msg_stat_htab s) k of
        Some i \<Rightarrow> (s, i)
      | None \<Rightarrow>
          (let (s, i) = msg_stat_add k s
           in (s\<lparr>msg_stat_htab := hash_put_msg (msg_stat_htab s) k i\<rparr>, i)))"

definition msg_key :: "VTSum \<Rightarrow> u32 \<Rightarrow> u32 \<Rightarrow> u32 \<Rightarrow> u32 \<times> u32 \<times> u32" where
  "msg_key s peer cid tag =
     (if msg_stat_dtls s AND VT_SUM_MSG_DTL_PEER \<noteq> 0 then peer else 0,
      if msg_stat_dtls s AND VT_SUM_MSG_DTL_COMM \<noteq> 0 then cid else 0,
      if msg_stat_dtls s AND VT_SUM_MSG_DTL_TAG \<noteq> 0 then tag else 0)"

definition VTSum_msg_send :: "u32 \<Rightarrow> u32 \<Rightarrow> u32 \<Rightarrow> u64 \<Rightarrow> VTSum \<Rightarrow> VTSum" where
  "VTSum_msg_send dpid cid tag sent s =
     (let (s, i) = VTSum_msg (msg_key s dpid cid tag) s
      in s\<lparr>msg_stat := (msg_stat s)[i := (msg_stat s ! i)
             \<lparr>m_scnt := m_scnt (msg_stat s ! i) + 1, m_sent := m_sent (msg_stat s ! i) + sent\<rparr>]\<rparr>)"

definition VTSum_msg_recv :: "u32 \<Rightarrow> u32 \<Rightarrow> u32 \<Rightarrow> u64 \<Rightarrow> VTSum \<Rightarrow> VTSum" where
  "VTSum_msg_recv spid cid tag recvd s =
     (let (s, i) = VTSum_msg (msg_key s spid cid tag) s
      in s\<lparr>msg_stat := (msg_stat s)[i := (msg_stat s ! i)
             \<lparr>m_rcnt := m_rcnt (msg_stat s ! i) + 1, m_recvd := m_recvd (msg_stat s ! i) + recvd\<rparr>]\<rparr>)"

section \<open>Collective operations\<close>

definition collop_key :: "VTSum \<Rightarrow> u32 \<Rightarrow> u32 \<Rightarrow> u32 \<times> u32" where
  "collop_key s rid cid =
     (if collop_stat_dtls s AND VT_SUM_COLLOP_DTL_OP \<noteq> 0 then rid else 0,
      if collop_stat_dtls s AND VT_SUM_COLLOP_DTL_COMM \<noteq> 0 then cid else 0)"

definition VTSum_collop :: "u32 \<Rightarrow> u32 \<Rightarrow> u64 \<Rightarrow> u64 \<Rightarrow> VTSum \<Rightarrow> VTSum" where
  "VTSum_collop rid cid sent recvd s =
     (let k = collop_key s rid cid;
          (s, i) =
            (case hash_get_collop (collop_stat_htab s) k of
               Some i \<Rightarrow> (s, i)
             | None \<Rightarrow>
                 (let (s, i) = collop_stat_add k s
                  in (s\<lparr>collop_stat_htab := hash_put_collop (collop_stat_htab s) k i\<rparr>, i)));
          s = (if sent > 0
               then s\<lparr>collop_stat := (collop_stat s)[i := (collop_stat s ! i)
                        \<lparr>co_scnt := co_scnt (collop_stat s ! i) + 1, co_sent := co_sent (collop_stat s ! i) + sent\<rparr>]\<rparr>
               else s)
      in if recvd > 0
         then s\<lparr>collop_stat := (collop_stat s)[i := (collop_stat s ! i)
                  \<lparr>co_rcnt := co_rcnt (collop_stat s ! i) + 1, co_recvd := co_recvd (collop_stat s ! i) + recvd\<rparr>]\<rparr>
         else s)"

section \<open>File operations\<close>

text \<open>The macro \<open>VTSum_fileop\<close>, and the five functions that count one operation on a file each.\<close>

definition VTSum_fileop :: "u32 \<Rightarrow> VTSum \<Rightarrow> VTSum \<times> nat" where
  "VTSum_fileop i s =
     (case hash_get_fileop (fileop_stat_htab s) i of
        Some p \<Rightarrow> (s, p)
      | None \<Rightarrow>
          (let (s, p) = fileop_stat_add i s
           in (s\<lparr>fileop_stat_htab := hash_put_fileop (fileop_stat_htab s) i p\<rparr>, p)))"

definition fileop_count :: "u32 \<Rightarrow> (VTSum_fileopStat \<Rightarrow> VTSum_fileopStat) \<Rightarrow> VTSum \<Rightarrow> VTSum" where
  "fileop_count i f s =
     (let (s, p) = VTSum_fileop i s
      in s\<lparr>fileop_stat := (fileop_stat s)[p := f (fileop_stat s ! p)]\<rparr>)"

definition VTSum_fileop_open :: "u32 \<Rightarrow> VTSum \<Rightarrow> VTSum" where
  "VTSum_fileop_open i = fileop_count i (\<lambda>f. f\<lparr>nopen := nopen f + 1\<rparr>)"

definition VTSum_fileop_close :: "u32 \<Rightarrow> VTSum \<Rightarrow> VTSum" where
  "VTSum_fileop_close i = fileop_count i (\<lambda>f. f\<lparr>nclose := nclose f + 1\<rparr>)"

definition VTSum_fileop_read :: "u32 \<Rightarrow> u64 \<Rightarrow> VTSum \<Rightarrow> VTSum" where
  "VTSum_fileop_read i n = fileop_count i (\<lambda>f. f\<lparr>nread := nread f + 1, rd := rd f + n\<rparr>)"

definition VTSum_fileop_write :: "u32 \<Rightarrow> u64 \<Rightarrow> VTSum \<Rightarrow> VTSum" where
  "VTSum_fileop_write i n = fileop_count i (\<lambda>f. f\<lparr>nwrite := nwrite f + 1, wrote := wrote f + n\<rparr>)"

definition VTSum_fileop_seek :: "u32 \<Rightarrow> VTSum \<Rightarrow> VTSum" where
  "VTSum_fileop_seek i = fileop_count i (\<lambda>f. f\<lparr>nseek := nseek f + 1\<rparr>)"

section \<open>The tables as indices of the arrays\<close>

lemma chain_index_get_put:
  "map_option snd (chain_find (\<lambda>n. fst n = k') ((t(b k := (k, i) # t (b k))) (b k'))) =
     (if k' = k then Some i else map_option snd (chain_find (\<lambda>n. fst n = k') (t (b k'))))"
  by simp

interpretation funcs: index_table hash_get_func hash_put_func "\<lambda>_. []" f_rid
  by unfold_locales (simp_all only: hash_get_func_def hash_put_func_def chain_index_get_put,
    simp add: hash_get_func_def)

abbreviation msg_stat_key :: "VTSum_msgStat \<Rightarrow> u32 \<times> u32 \<times> u32" where
  "msg_stat_key m \<equiv> (m_peer m, m_cid m, m_tag m)"

interpretation msgs: index_table hash_get_msg hash_put_msg "\<lambda>_. []" msg_stat_key
  by unfold_locales (simp_all only: hash_get_msg_def hash_put_msg_def chain_index_get_put,
    simp add: hash_get_msg_def)

abbreviation collop_stat_key :: "VTSum_collopStat \<Rightarrow> u32 \<times> u32" where
  "collop_stat_key c \<equiv> (co_rid c, co_cid c)"

interpretation collops: index_table hash_get_collop hash_put_collop "\<lambda>_. []" collop_stat_key
  by unfold_locales (simp_all only: hash_get_collop_def hash_put_collop_def chain_index_get_put,
    simp add: hash_get_collop_def)

interpretation fileops: index_table hash_get_fileop hash_put_fileop "\<lambda>_. []" io_fid
  by unfold_locales (simp_all only: hash_get_fileop_def hash_put_fileop_def chain_index_get_put,
    simp add: hash_get_fileop_def)

section \<open>Function times on an abstract machine\<close>

text \<open>
  The abstract state: count, exclusive and inclusive time of every function, and the stack of
  the running calls, innermost first, each with the function, the start of its current
  exclusive stretch and the start of the call.
\<close>

type_synonym times = "u64 \<times> u64 \<times> u64"

type_synonym func_abs = "(u32 \<Rightarrow> times) \<times> (u32 \<times> u64 \<times> u64) list"

definition add_excl :: "u32 \<Rightarrow> u64 \<Rightarrow> (u32 \<Rightarrow> times) \<Rightarrow> u32 \<Rightarrow> times" where
  "add_excl r d f = f(r := (case f r of (c, e, i) \<Rightarrow> (c, e + d, i)))"

definition add_incl :: "u32 \<Rightarrow> u64 \<Rightarrow> (u32 \<Rightarrow> times) \<Rightarrow> u32 \<Rightarrow> times" where
  "add_incl r d f = f(r := (case f r of (c, e, i) \<Rightarrow> (c, e, i + d)))"

definition add_count :: "u32 \<Rightarrow> (u32 \<Rightarrow> times) \<Rightarrow> u32 \<Rightarrow> times" where
  "add_count r f = f(r := (case f r of (c, e, i) \<Rightarrow> (c + 1, e, i)))"

fun abs_enter :: "u64 \<Rightarrow> u32 \<Rightarrow> func_abs \<Rightarrow> func_abs" where
  "abs_enter t r (f, []) = (add_count r f, [(r, t, t)])"
| "abs_enter t r (f, (r', hx, hi) # st) = (add_excl r' (t - hx) (add_count r f), (r, t, t) # (r', hx, hi) # st)"

fun abs_exit :: "u64 \<Rightarrow> func_abs \<Rightarrow> func_abs option" where
  "abs_exit t (f, []) = None"
| "abs_exit t (f, [(r, hx, hi)]) = Some (add_incl r (t - hi) (add_excl r (t - hx) f), [])"
| "abs_exit t (f, (r, hx, hi) # (r', hx', hi') # st) =
     Some (add_incl r (t - hi) (add_excl r (t - hx) f), (r', t, hi') # st)"

text \<open>The invariant of the function statistics, and their abstraction.\<close>

definition func_ok :: "VTSum \<Rightarrow> bool" where
  "func_ok s \<longleftrightarrow> indexed hash_get_func f_rid (func_stat_htab s) (func_stat s)
     \<and> (\<forall>e \<in> set (stack s). stat_idx e < length (func_stat s))
     \<and> length (func_stat s) \<le> func_stat_size s \<and> length (stack s) \<le> stack_size s"

definition func_times :: "VTSum \<Rightarrow> u32 \<Rightarrow> times" where
  "func_times s r =
     (case stat_at hash_get_func (func_stat_htab s) (func_stat s) r of
        None \<Rightarrow> (0, 0, 0) | Some f \<Rightarrow> (f_cnt f, f_excl f, f_incl f))"

definition func_abs :: "VTSum \<Rightarrow> func_abs" where
  "func_abs s = (func_times s,
     rev (map (\<lambda>e. (f_rid (func_stat s ! stat_idx e), hexcl e, hincl e)) (stack s)))"

text \<open>An update of one statistic that keeps its key.\<close>

lemma func_update_ok:
  assumes "func_ok s" and "i < length (func_stat s)" and "\<And>f. f_rid (g f) = f_rid f"
  shows "func_ok (func_update i g s)"
    and "func_times (func_update i g s) r =
      (if r = f_rid (func_stat s ! i)
       then (let f = g (func_stat s ! i) in (f_cnt f, f_excl f, f_incl f)) else func_times s r)"
    and "f_rid (func_stat (func_update i g s) ! j) = f_rid (func_stat s ! j)"
proof -
  show "func_ok (func_update i g s)"
    using assms by (auto simp: func_ok_def func_update_def intro: indexed_update)
  show "func_times (func_update i g s) r =
      (if r = f_rid (func_stat s ! i)
       then (let f = g (func_stat s ! i) in (f_cnt f, f_excl f, f_incl f)) else func_times s r)"
    using assms stat_at_update [of hash_get_func f_rid "func_stat_htab s" "func_stat s" i _ "g (func_stat s ! i)" r]
    by (auto simp: func_ok_def func_update_def func_times_def Let_def)
  show "f_rid (func_stat (func_update i g s) ! j) = f_rid (func_stat s ! j)"
    using assms(2,3) by (cases "j = i") (auto simp: func_update_def)
qed

lemma func_times_at:
  assumes "func_ok s" and "i < length (func_stat s)"
  shows "func_times s (f_rid (func_stat s ! i)) =
    (f_cnt (func_stat s ! i), f_excl (func_stat s ! i), f_incl (func_stat s ! i))"
  using assms indexed_nth [of hash_get_func f_rid "func_stat_htab s" "func_stat s" i]
  by (simp add: func_times_def stat_at_def func_ok_def)

lemma func_update_select [simp]:
  "stack (func_update i g s) = stack s" "stack_size (func_update i g s) = stack_size s"
  "length (func_stat (func_update i g s)) = length (func_stat s)"
  by (simp_all add: func_update_def)

lemma func_times_stack [simp]:
  "func_times (s\<lparr>stack := st\<rparr>) = func_times s" "func_times (s\<lparr>stack_size := n\<rparr>) = func_times s"
  by (simp_all add: func_times_def fun_eq_iff)

text \<open>Three updates that the push and the pop make.\<close>

lemma func_update_times:
  assumes "func_ok s" and "i < length (func_stat s)"
  shows "func_times (func_update i (\<lambda>f. f\<lparr>f_cnt := f_cnt f + 1\<rparr>) s) =
      add_count (f_rid (func_stat s ! i)) (func_times s)"
    and "func_times (func_update i (\<lambda>f. f\<lparr>f_excl := f_excl f + d\<rparr>) s) =
      add_excl (f_rid (func_stat s ! i)) d (func_times s)"
    and "func_times (func_update i (\<lambda>f. f\<lparr>f_incl := f_incl f + d\<rparr>) s) =
      add_incl (f_rid (func_stat s ! i)) d (func_times s)"
  using func_update_ok(2) [OF assms] func_times_at [OF assms]
  by (simp_all add: fun_eq_iff add_count_def add_excl_def add_incl_def Let_def)

section \<open>The code implements the abstract machine\<close>

text \<open>The lookup of a function, which adds its statistic when there is none.\<close>

definition func_intern :: "u32 \<Rightarrow> VTSum \<Rightarrow> VTSum \<times> nat" where
  "func_intern rid s =
     (case hash_get_func (func_stat_htab s) rid of
        Some i \<Rightarrow> (s, i)
      | None \<Rightarrow>
          (let (s, i) = func_stat_add rid s
           in (s\<lparr>func_stat_htab := hash_put_func (func_stat_htab s) rid i\<rparr>, i)))"

lemma VTSum_enter_eq: "VTSum_enter time rid s = (let (s, i) = func_intern rid s in stack_push i time s)"
  by (simp add: VTSum_enter_def func_intern_def)

lemma func_intern_ok:
  assumes "func_ok s" and "func_intern rid s = (s', i)"
  shows "func_ok s'" and "i < length (func_stat s')" and "f_rid (func_stat s' ! i) = rid"
    and "func_times s' = func_times s" and "stack s' = stack s" and "stack_size s' = stack_size s"
    and "\<forall>e \<in> set (stack s). f_rid (func_stat s' ! stat_idx e) = f_rid (func_stat s ! stat_idx e)"
proof -
  have ind: "indexed hash_get_func f_rid (func_stat_htab s) (func_stat s)"
    using assms(1) by (simp add: func_ok_def)
  have "func_ok s' \<and> i < length (func_stat s') \<and> f_rid (func_stat s' ! i) = rid
      \<and> func_times s' = func_times s \<and> stack s' = stack s \<and> stack_size s' = stack_size s
      \<and> (\<forall>e \<in> set (stack s). f_rid (func_stat s' ! stat_idx e) = f_rid (func_stat s ! stat_idx e))"
  proof (cases "hash_get_func (func_stat_htab s) rid")
    case (Some j)
    then show ?thesis
      using assms indexedD [OF ind, of _ j] by (simp add: func_intern_def)
  next
    case None
    let ?x = "\<lparr>f_rid = rid, f_cnt = 0, f_excl = 0, f_incl = 0\<rparr>"
    have s': "func_stat s' = func_stat s @ [?x]" "stack s' = stack s" "stack_size s' = stack_size s"
      "func_stat_htab s' = hash_put_func (func_stat_htab s) rid (length (func_stat s))"
      "i = length (func_stat s)"
      "func_stat_size s' = (if length (func_stat s) = func_stat_size s then func_stat_size s + VTSUM_STAT_BSIZE
          else func_stat_size s)"
      using assms(2) None by (auto simp: func_intern_def func_stat_add_def Let_def)
    have "indexed hash_get_func f_rid (func_stat_htab s') (func_stat s')"
      using funcs.indexed_add [OF ind, of ?x] None by (simp add: s')
    moreover have "length (func_stat s') \<le> func_stat_size s'"
      using assms(1) by (auto simp: s' func_ok_def)
    ultimately have "func_ok s'"
      using assms(1) by (auto simp: func_ok_def s' less_SucI)
    moreover have "func_times s' r = func_times s r" for r
    proof (cases "hash_get_func (func_stat_htab s) r")
      case None
      then show ?thesis
        by (simp add: func_times_def stat_at_def s' funcs.get_put)
    next
      case (Some j)
      then show ?thesis
        using None indexedD [OF ind, of _ j] by (auto simp: func_times_def stat_at_def s' funcs.get_put nth_append)
    qed
    ultimately show ?thesis
      using assms(1) by (auto simp: s' nth_append func_ok_def)
  qed
  then show "func_ok s'" and "i < length (func_stat s')" and "f_rid (func_stat s' ! i) = rid"
    and "func_times s' = func_times s" and "stack s' = stack s" and "stack_size s' = stack_size s"
    and "\<forall>e \<in> set (stack s). f_rid (func_stat s' ! stat_idx e) = f_rid (func_stat s ! stat_idx e)"
    by simp_all
qed

lemma func_ok_stack:
  "func_ok s \<Longrightarrow> \<forall>e \<in> set st. stat_idx e < length (func_stat s) \<Longrightarrow> length st \<le> stack_size s \<Longrightarrow>
   func_ok (s\<lparr>stack := st\<rparr>)"
  by (simp add: func_ok_def)

lemma stack_push_ok:
  assumes "func_ok s" and "idx < length (func_stat s)"
  shows "func_ok (stack_push idx time s)"
    and "func_abs (stack_push idx time s) = abs_enter time (f_rid (func_stat s ! idx)) (func_abs s)"
proof -
  let ?cnt = "\<lambda>f. f\<lparr>f_cnt := f_cnt f + 1\<rparr>"
  let ?s1 = "if length (stack s) = stack_size s then s\<lparr>stack_size := stack_size s + VTSUM_STACK_BSIZE\<rparr> else s"
  let ?s2 = "func_update idx ?cnt ?s1"
  let ?e = "\<lparr>hexcl = time, hincl = time, stat_idx = idx\<rparr>"
  let ?s3 = "?s2\<lparr>stack := stack s @ [?e]\<rparr>"
  have ok1: "func_ok ?s1" and fs1: "func_stat ?s1 = func_stat s" and st1: "stack ?s1 = stack s"
    using assms(1) by (auto simp: func_ok_def)
  have times1: "func_times ?s1 = func_times s"
    by simp
  have ok2: "func_ok ?s2"
    using func_update_ok(1) [OF ok1, of idx ?cnt] assms(2) fs1 by simp
  have times2: "func_times ?s2 = add_count (f_rid (func_stat s ! idx)) (func_times s)"
    using func_update_times(1) [OF ok1, of idx] assms(2) fs1 times1 by simp
  have rid2: "f_rid (func_stat ?s2 ! j) = f_rid (func_stat s ! j)" for j
    using func_update_ok(3) [OF ok1, of idx ?cnt j] assms(2) fs1 by simp
  have room: "length (stack s) < stack_size ?s1"
    using assms(1) by (auto simp: func_ok_def)
  have idx2: "\<forall>e \<in> set (stack s @ [?e]). stat_idx e < length (func_stat ?s2)"
    using assms by (auto simp: func_ok_def fs1)
  have ok3: "func_ok ?s3"
    by (rule func_ok_stack [OF ok2 idx2]) (use room in simp)
  show "func_ok (stack_push idx time s)"
    and "func_abs (stack_push idx time s) = abs_enter time (f_rid (func_stat s ! idx)) (func_abs s)"
  proof (atomize (full), cases "stack s" rule: rev_cases)
    case Nil
    then have "stack_push idx time s = ?s3"
      by (simp add: stack_push_def Let_def st1)
    then show "func_ok (stack_push idx time s) \<and>
        func_abs (stack_push idx time s) = abs_enter time (f_rid (func_stat s ! idx)) (func_abs s)"
      using ok3 Nil times2 rid2 by (simp add: func_abs_def)
  next
    case (snoc es b)
    let ?d = "time - hexcl b"
    let ?s4 = "func_update (stat_idx b) (\<lambda>f. f\<lparr>f_excl := f_excl f + ?d\<rparr>) ?s3"
    have push: "stack_push idx time s = ?s4"
      using snoc by (simp add: stack_push_def Let_def st1 nth_append)
    have b: "stat_idx b < length (func_stat ?s3)"
      using idx2 snoc by simp
    have ok4: "func_ok ?s4"
      using func_update_ok(1) [OF ok3 b] by simp
    have rid3: "f_rid (func_stat ?s3 ! j) = f_rid (func_stat s ! j)" for j
      using rid2 by simp
    have "func_times ?s4 = add_excl (f_rid (func_stat s ! stat_idx b)) ?d (func_times ?s3)"
      using func_update_times(2) [OF ok3 b, of ?d] rid3 [of "stat_idx b"] by simp
    then have times4: "func_times ?s4 = add_excl (f_rid (func_stat s ! stat_idx b)) ?d
        (add_count (f_rid (func_stat s ! idx)) (func_times s))"
      using times2 by simp
    have rid4: "f_rid (func_stat ?s4 ! j) = f_rid (func_stat s ! j)" for j
      using func_update_ok(3) [OF ok3 b, of "\<lambda>f. f\<lparr>f_excl := f_excl f + ?d\<rparr>" j] rid3 [of j] by simp
    have "func_abs ?s4 = abs_enter time (f_rid (func_stat s ! idx)) (func_abs s)"
      using snoc times4 rid4 by (simp add: func_abs_def)
    then show "func_ok (stack_push idx time s) \<and>
        func_abs (stack_push idx time s) = abs_enter time (f_rid (func_stat s ! idx)) (func_abs s)"
      using ok4 push by simp
  qed
qed

lemma enter_refines:
  assumes "func_ok s"
  shows "func_ok (VTSum_enter time rid s)"
    and "func_abs (VTSum_enter time rid s) = abs_enter time rid (func_abs s)"
proof -
  obtain s' i where r: "func_intern rid s = (s', i)"
    by (cases "func_intern rid s")
  note ok = func_intern_ok [OF assms r]
  have "func_abs s' = func_abs s"
    using ok(4,5,7) by (simp add: func_abs_def)
  then show "func_ok (VTSum_enter time rid s)"
    and "func_abs (VTSum_enter time rid s) = abs_enter time rid (func_abs s)"
    using stack_push_ok [OF ok(1,2), of time] ok(3) r by (simp_all add: VTSum_enter_eq)
qed

lemma exit_refines:
  assumes "func_ok s"
  shows "(case VTSum_exit time rid s of
      None \<Rightarrow> abs_exit time (func_abs s) = None
    | Some s' \<Rightarrow> func_ok s' \<and> abs_exit time (func_abs s) = Some (func_abs s'))"
proof (cases "stack s" rule: rev_cases)
  case Nil
  then show ?thesis
    by (simp add: VTSum_exit_def stack_pop_def func_abs_def)
next
  case (snoc es e)
  let ?ex = "\<lambda>f. f\<lparr>f_excl := f_excl f + (time - hexcl e)\<rparr>"
  let ?in = "\<lambda>f. f\<lparr>f_incl := f_incl f + (time - hincl e)\<rparr>"
  let ?s1 = "func_update (stat_idx e) ?ex s"
  let ?s2 = "func_update (stat_idx e) ?in ?s1"
  let ?r = "f_rid (func_stat s ! stat_idx e)"
  have e: "stat_idx e < length (func_stat s)"
    using assms snoc by (simp add: func_ok_def)
  have ok1: "func_ok ?s1"
    using func_update_ok(1) [OF assms e] by simp
  have rid1: "f_rid (func_stat ?s1 ! j) = f_rid (func_stat s ! j)" for j
    using func_update_ok(3) [OF assms e, of ?ex j] by simp
  have e1: "stat_idx e < length (func_stat ?s1)"
    using e by simp
  have ok2: "func_ok ?s2"
    using func_update_ok(1) [OF ok1 e1] by simp
  have rid2: "f_rid (func_stat ?s2 ! j) = f_rid (func_stat s ! j)" for j
    using func_update_ok(3) [OF ok1 e1, of ?in j] rid1 [of j] by simp
  have times2: "func_times ?s2 = add_incl ?r (time - hincl e) (add_excl ?r (time - hexcl e) (func_times s))"
    using func_update_times(3) [OF ok1 e1, of "time - hincl e"] func_update_times(2) [OF assms e, of "time - hexcl e"]
      rid1 [of "stat_idx e"] by simp
  have idx: "\<forall>x \<in> set (stack s). stat_idx x < length (func_stat s)" and size: "length (stack s) \<le> stack_size s"
    using assms by (simp_all add: func_ok_def)
  show ?thesis
  proof (cases es rule: rev_cases)
    case Nil
    then have pop: "VTSum_exit time rid s = Some (?s2\<lparr>stack := []\<rparr>)"
      using snoc by (simp add: VTSum_exit_def stack_pop_def Let_def)
    have "func_ok (?s2\<lparr>stack := []\<rparr>)"
      by (rule func_ok_stack [OF ok2]) simp_all
    then show ?thesis
      using pop snoc Nil times2 rid2 by (simp add: func_abs_def)
  next
    case (snoc ds d)
    let ?st = "ds @ [d\<lparr>hexcl := time\<rparr>]"
    have pop: "VTSum_exit time rid s = Some (?s2\<lparr>stack := ?st\<rparr>)"
      using \<open>stack s = es @ [e]\<close> snoc by (simp add: VTSum_exit_def stack_pop_def Let_def nth_append list_update_append)
    have "func_ok (?s2\<lparr>stack := ?st\<rparr>)"
      by (rule func_ok_stack [OF ok2]) (use idx size snoc \<open>stack s = es @ [e]\<close> in auto)
    then show ?thesis
      using pop snoc \<open>stack s = es @ [e]\<close> times2 rid2 by (simp add: func_abs_def)
  qed
qed

section \<open>Call trees\<close>

text \<open>A call: its function, the time it is entered, the calls it makes and the time it is left.\<close>

datatype call = Call u32 u64 "call list" u64

datatype func_event = EvEnter u64 u32 | EvExit u64

fun call_events :: "call \<Rightarrow> func_event list" where
  "call_events (Call r t cs t') = EvEnter t r # concat (map call_events cs) @ [EvExit t']"

fun duration :: "call \<Rightarrow> u64" where
  "duration (Call r t cs t') = t' - t"

text \<open>What a call contributes: one call, its duration, and its duration without its callees'.\<close>

definition durations :: "call list \<Rightarrow> u64" where
  "durations cs = sum_list (map duration cs)"

definition add_call :: "u32 \<Rightarrow> u64 \<Rightarrow> u64 \<Rightarrow> (u32 \<Rightarrow> times) \<Rightarrow> u32 \<Rightarrow> times" where
  "add_call r excl incl f = add_incl r incl (add_excl r excl (add_count r f))"

fun add_tree :: "call \<Rightarrow> (u32 \<Rightarrow> times) \<Rightarrow> u32 \<Rightarrow> times" where
  "add_tree (Call r t cs t') f = fold add_tree cs (add_call r (t' - t - durations cs) (t' - t) f)"

text \<open>Running the events on the code's state, and on the abstract machine.\<close>

fun sum_run :: "func_event list \<Rightarrow> VTSum \<Rightarrow> VTSum option" where
  "sum_run [] s = Some s"
| "sum_run (EvEnter t r # es) s = sum_run es (VTSum_enter t r s)"
| "sum_run (EvExit t # es) s = Option.bind (VTSum_exit t 0 s) (sum_run es)"

fun abs_run :: "func_event list \<Rightarrow> func_abs \<Rightarrow> func_abs option" where
  "abs_run [] a = Some a"
| "abs_run (EvEnter t r # es) a = abs_run es (abs_enter t r a)"
| "abs_run (EvExit t # es) a = Option.bind (abs_exit t a) (abs_run es)"

lemma abs_run_append: "abs_run (xs @ ys) a = Option.bind (abs_run xs a) (abs_run ys)"
  by (induction xs a rule: abs_run.induct) (auto split: bind_splits)

lemma sum_run_refines:
  "func_ok s \<Longrightarrow> map_option func_abs (sum_run es s) = abs_run es (func_abs s)
     \<and> (\<forall>s'. sum_run es s = Some s' \<longrightarrow> func_ok s')"
proof (induction es arbitrary: s)
  case Nil
  then show ?case by simp
next
  case (Cons ev es)
  show ?case
  proof (cases ev)
    case (EvEnter t r)
    then show ?thesis
      using Cons enter_refines [of s t r] by simp
  next
    case (EvExit t)
    then show ?thesis
      using Cons exit_refines [of s t 0] by (cases "VTSum_exit t 0 s") auto
  qed
qed

text \<open>The updates of different functions, and of one function, commute.\<close>

lemma add_commute:
  "add_excl r d (add_excl r' d' f) = add_excl r' d' (add_excl r d f)"
  "add_excl r d (add_call r' e i f) = add_call r' e i (add_excl r d f)"
  "add_call r e i (add_call r' e' i' f) = add_call r' e' i' (add_call r e i f)"
  by (auto simp: fun_eq_iff add_call_def add_excl_def add_incl_def add_count_def split: prod.split)

lemma add_excl_add: "add_excl r d (add_excl r d' f) = add_excl r (d' + d) f"
  by (auto simp: add_excl_def fun_eq_iff split: prod.split)

lemma add_excl_zero [simp]: "add_excl r 0 f = f"
  by (auto simp: add_excl_def fun_eq_iff split: prod.split)

text \<open>An update that commutes with the contribution of a call commutes with that of a tree.\<close>

lemma tree_commute:
  assumes "\<And>r e i f. g (add_call r e i f) = add_call r e i (g f)"
  shows "g (add_tree c f) = add_tree c (g f)"
proof (induction c arbitrary: f)
  case (Call r t cs t')
  have "g (fold add_tree cs f) = fold add_tree cs (g f)" for f
    using Call.IH by (induction cs arbitrary: f) auto
  then show ?case
    by (simp add: assms)
qed

lemma fold_tree_commute:
  assumes "\<And>r e i f. g (add_call r e i f) = add_call r e i (g f)"
  shows "g (fold add_tree cs f) = fold add_tree cs (g f)"
  by (induction cs arbitrary: f) (simp_all add: tree_commute [OF assms])

lemma add_incl_call: "add_incl r d (add_call r' e i f) = add_call r' e i (add_incl r d f)"
  by (auto simp: fun_eq_iff add_call_def add_excl_def add_incl_def add_count_def split: prod.split)

lemmas fold_tree_excl = fold_tree_commute [of "add_excl r d" for r d, OF add_commute(2)]
lemmas fold_tree_incl = fold_tree_commute [of "add_incl r d" for r d, OF add_incl_call]

lemma durations_simps [simp]: "durations [] = 0" "durations (c # cs) = duration c + durations cs"
  by (simp_all add: durations_def)

lemma add_incl_excl: "add_incl r d (add_excl r' d' f) = add_excl r' d' (add_incl r d f)"
  by (auto simp: fun_eq_iff add_excl_def add_incl_def split: prod.split)

lemma forest_run:
  assumes "\<And>c f r hx hi st. c \<in> set cs \<Longrightarrow> \<exists>hx'. abs_run (call_events c) (f, (r, hx, hi) # st) =
      Some (add_excl r (hx' - hx - duration c) (add_tree c f), (r, hx', hi) # st)"
  shows "\<exists>hx'. abs_run (concat (map call_events cs)) (f, (r, hx, hi) # st) =
      Some (add_excl r (hx' - hx - durations cs) (fold add_tree cs f), (r, hx', hi) # st)"
  using assms
proof (induction cs arbitrary: f hx)
  case Nil
  then show ?case by auto
next
  case (Cons c cs)
  obtain h1 where 1: "abs_run (call_events c) (f, (r, hx, hi) # st) =
      Some (add_excl r (h1 - hx - duration c) (add_tree c f), (r, h1, hi) # st)"
    using Cons.prems by fastforce
  obtain h2 where 2: "abs_run (concat (map call_events cs))
        (add_excl r (h1 - hx - duration c) (add_tree c f), (r, h1, hi) # st) =
      Some (add_excl r (h2 - h1 - durations cs)
        (fold add_tree cs (add_excl r (h1 - hx - duration c) (add_tree c f))), (r, h2, hi) # st)"
    using Cons.IH Cons.prems by fastforce
  show ?case
    using 1 2 by (intro exI [of _ h2])
      (simp add: abs_run_append add_excl_add fold_tree_excl [symmetric] algebra_simps)
qed

lemma call_run:
  "\<exists>hx'. abs_run (call_events c) (f, (r', hx, hi) # st) =
     Some (add_excl r' (hx' - hx - duration c) (add_tree c f), (r', hx', hi) # st)"
proof (induction c arbitrary: f r' hx hi st)
  case (Call r t cs t')
  let ?f1 = "add_excl r' (t - hx) (add_count r f)"
  obtain h where h: "abs_run (concat (map call_events cs)) (?f1, (r, t, t) # (r', hx, hi) # st) =
      Some (add_excl r (h - t - durations cs) (fold add_tree cs ?f1), (r, h, t) # (r', hx, hi) # st)"
    using forest_run [of cs, OF Call.IH] by blast
  have e: "h - t - durations cs + (t' - h) = t' - t - durations cs" and d: "t' - hx - (t' - t) = t - hx"
    by simp_all
  have "add_incl r (t' - t) (add_excl r (t' - h) (add_excl r (h - t - durations cs) (fold add_tree cs ?f1))) =
      add_excl r' (t - hx) (fold add_tree cs (add_call r (t' - t - durations cs) (t' - t) f))"
    by (simp only: add_excl_add e fold_tree_excl fold_tree_incl add_incl_excl add_call_def
      add_commute(1) [of r _ r'])
  then show ?case
    using h by (intro exI [of _ t']) (simp add: abs_run_append d)
qed

lemma call_run_empty: "abs_run (call_events c) (f, []) = Some (add_tree c f, [])"
proof (cases c)
  case (Call r t cs t')
  obtain h where h: "abs_run (concat (map call_events cs)) (add_count r f, [(r, t, t)]) =
      Some (add_excl r (h - t - durations cs) (fold add_tree cs (add_count r f)), [(r, h, t)])"
    using forest_run [of cs, OF call_run] by blast
  have e: "h - t - durations cs + (t' - h) = t' - t - durations cs"
    by simp
  have "add_incl r (t' - t) (add_excl r (t' - h) (add_excl r (h - t - durations cs) (fold add_tree cs (add_count r f)))) =
      fold add_tree cs (add_call r (t' - t - durations cs) (t' - t) f)"
    by (simp only: add_excl_add e fold_tree_excl fold_tree_incl add_incl_excl add_call_def)
  then show ?thesis
    using h Call by (simp add: abs_run_append)
qed

lemma calls_run_empty: "abs_run (concat (map call_events cs)) (f, []) = Some (fold add_tree cs f, [])"
  by (induction cs arbitrary: f) (simp_all add: abs_run_append call_run_empty)

section \<open>Messages, collective and file operations\<close>

definition msg_ok :: "VTSum \<Rightarrow> bool" where
  "msg_ok s \<longleftrightarrow> indexed hash_get_msg msg_stat_key (msg_stat_htab s) (msg_stat s)
     \<and> length (msg_stat s) \<le> msg_stat_size s"

definition msg_totals :: "VTSum \<Rightarrow> u32 \<times> u32 \<times> u32 \<Rightarrow> u64 \<times> u64 \<times> u64 \<times> u64" where
  "msg_totals s k =
     (case stat_at hash_get_msg (msg_stat_htab s) (msg_stat s) k of
        None \<Rightarrow> (0, 0, 0, 0) | Some m \<Rightarrow> (m_scnt m, m_rcnt m, m_sent m, m_recvd m))"

lemma msg_update:
  assumes "msg_ok s" and "VTSum_msg k s = (s1, i)" and "\<And>m. msg_stat_key (f m) = msg_stat_key m"
  shows "msg_ok (s1\<lparr>msg_stat := (msg_stat s1)[i := f (msg_stat s1 ! i)]\<rparr>)"
    and "stat_at hash_get_msg (msg_stat_htab s1) ((msg_stat s1)[i := f (msg_stat s1 ! i)]) k' =
      (if k' = k then Some (f (case stat_at hash_get_msg (msg_stat_htab s) (msg_stat s) k of
          Some m \<Rightarrow> m
        | None \<Rightarrow> \<lparr>m_peer = fst k, m_cid = fst (snd k), m_tag = snd (snd k),
             m_scnt = 0, m_rcnt = 0, m_sent = 0, m_recvd = 0\<rparr>))
       else stat_at hash_get_msg (msg_stat_htab s) (msg_stat s) k')"
    and "msg_stat_dtls s1 = msg_stat_dtls s"
proof -
  let ?x = "\<lparr>m_peer = fst k, m_cid = fst (snd k), m_tag = snd (snd k),
             m_scnt = 0, m_rcnt = 0, m_sent = 0, m_recvd = 0\<rparr>"
  have r: "(msg_stat_htab s1, msg_stat s1, i) =
      (case hash_get_msg (msg_stat_htab s) k of Some i \<Rightarrow> (msg_stat_htab s, msg_stat s, i)
       | None \<Rightarrow> (hash_put_msg (msg_stat_htab s) k (length (msg_stat s)), msg_stat s @ [?x], length (msg_stat s)))"
    and size: "length (msg_stat s1) \<le> msg_stat_size s1" and "msg_stat_dtls s1 = msg_stat_dtls s"
    using assms(1,2) by (auto simp: VTSum_msg_def msg_stat_add_def Let_def msg_ok_def split: option.splits prod.splits)
  then show "msg_stat_dtls s1 = msg_stat_dtls s"
    by simp
  have ind: "indexed hash_get_msg msg_stat_key (msg_stat_htab s) (msg_stat s)"
    using assms(1) by (simp add: msg_ok_def)
  note upd = msgs.intern_update [OF ind _ r, of f]
  show "msg_ok (s1\<lparr>msg_stat := (msg_stat s1)[i := f (msg_stat s1 ! i)]\<rparr>)"
    using upd(1) size assms(3) by (simp add: msg_ok_def)
  show "stat_at hash_get_msg (msg_stat_htab s1) ((msg_stat s1)[i := f (msg_stat s1 ! i)]) k' =
      (if k' = k then Some (f (case stat_at hash_get_msg (msg_stat_htab s) (msg_stat s) k of
          Some m \<Rightarrow> m | None \<Rightarrow> ?x))
       else stat_at hash_get_msg (msg_stat_htab s) (msg_stat s) k')"
    using upd(2) assms(3) by simp
qed

datatype msg_event = Send u32 u32 u32 u64 | Recv u32 u32 u32 u64

fun msg_step :: "msg_event \<Rightarrow> VTSum \<Rightarrow> VTSum" where
  "msg_step (Send p c t n) s = VTSum_msg_send p c t n s"
| "msg_step (Recv p c t n) s = VTSum_msg_recv p c t n s"

text \<open>The key under which an event counts, and what it adds.\<close>

fun ev_key :: "VTSum \<Rightarrow> msg_event \<Rightarrow> u32 \<times> u32 \<times> u32" where
  "ev_key s (Send p c t n) = msg_key s p c t"
| "ev_key s (Recv p c t n) = msg_key s p c t"

fun ev_adds :: "msg_event \<Rightarrow> u64 \<times> u64 \<times> u64 \<times> u64 \<Rightarrow> u64 \<times> u64 \<times> u64 \<times> u64" where
  "ev_adds (Send p c t n) (sc, rc, sb, rb) = (sc + 1, rc, sb + n, rb)"
| "ev_adds (Recv p c t n) (sc, rc, sb, rb) = (sc, rc + 1, sb, rb + n)"

lemma msg_update_totals:
  assumes "msg_ok s" and "VTSum_msg k s = (s1, i)" and "\<And>m. msg_stat_key (f m) = msg_stat_key m"
    and "\<And>m. (m_scnt (f m), m_rcnt (f m), m_sent (f m), m_recvd (f m)) =
      g (m_scnt m, m_rcnt m, m_sent m, m_recvd m)"
  shows "msg_totals (s1\<lparr>msg_stat := (msg_stat s1)[i := f (msg_stat s1 ! i)]\<rparr>) k' =
    (if k' = k then g (msg_totals s k) else msg_totals s k')"
  using msg_update(2) [OF assms(1,2), of f k'] assms(3,4)
  by (cases "stat_at hash_get_msg (msg_stat_htab s) (msg_stat s) k") (simp_all add: msg_totals_def)

lemma msg_step_eq:
  assumes "VTSum_msg (ev_key s ev) s = (s1, i)"
  obtains f where "msg_step ev s = s1\<lparr>msg_stat := (msg_stat s1)[i := f (msg_stat s1 ! i)]\<rparr>"
    and "\<And>m. msg_stat_key (f m) = msg_stat_key m"
    and "\<And>m. (m_scnt (f m), m_rcnt (f m), m_sent (f m), m_recvd (f m)) =
      ev_adds ev (m_scnt m, m_rcnt m, m_sent m, m_recvd m)"
proof (cases ev)
  case (Send p c t n)
  then show ?thesis
    using assms by (intro that [of "\<lambda>m. m\<lparr>m_scnt := m_scnt m + 1, m_sent := m_sent m + n\<rparr>"])
      (simp_all add: VTSum_msg_send_def)
next
  case (Recv p c t n)
  then show ?thesis
    using assms by (intro that [of "\<lambda>m. m\<lparr>m_rcnt := m_rcnt m + 1, m_recvd := m_recvd m + n\<rparr>"])
      (simp_all add: VTSum_msg_recv_def)
qed

lemma msg_step_totals:
  assumes "msg_ok s"
  shows "msg_ok (msg_step ev s)" and "msg_stat_dtls (msg_step ev s) = msg_stat_dtls s"
    and "msg_totals (msg_step ev s) k =
      (if k = ev_key s ev then ev_adds ev (msg_totals s k) else msg_totals s k)"
proof -
  obtain s1 i where r: "VTSum_msg (ev_key s ev) s = (s1, i)"
    by (cases "VTSum_msg (ev_key s ev) s")
  obtain f where step: "msg_step ev s = s1\<lparr>msg_stat := (msg_stat s1)[i := f (msg_stat s1 ! i)]\<rparr>"
    and key: "\<And>m. msg_stat_key (f m) = msg_stat_key m"
    and adds: "\<And>m. (m_scnt (f m), m_rcnt (f m), m_sent (f m), m_recvd (f m)) =
      ev_adds ev (m_scnt m, m_rcnt m, m_sent m, m_recvd m)"
    by (rule msg_step_eq [OF r], rule that, assumption+)
  show "msg_ok (msg_step ev s)"
    unfolding step by (rule msg_update(1) [OF assms r key])
  show "msg_stat_dtls (msg_step ev s) = msg_stat_dtls s"
    using msg_update(3) [OF assms r key] by (simp add: step)
  show "msg_totals (msg_step ev s) k =
      (if k = ev_key s ev then ev_adds ev (msg_totals s k) else msg_totals s k)"
    unfolding step using msg_update_totals [OF assms r key adds, of k] by simp
qed

lemma ev_key_dtls: "msg_stat_dtls s' = msg_stat_dtls s \<Longrightarrow> ev_key s' ev = ev_key s ev"
  by (cases ev) (simp_all add: msg_key_def)

section \<open>Properties\<close>

abbreviation fresh_sum :: VTSum where
  "fresh_sum \<equiv> fst (VTSum_open 15 7 3 0 0 0)"

lemma fresh_ok: "func_ok fresh_sum" "msg_ok fresh_sum" "stack fresh_sum = []"
  by (simp_all add: VTSum_open_def func_ok_def msg_ok_def funcs.indexed_empty msgs.indexed_empty)

text \<open>
  For every forest of nested calls, run from a state with an empty call stack, the events
  never underflow the stack, the stack is empty again in the end, and every function has got
  one call, the duration of the call as inclusive and that without its direct callees as
  exclusive time for each of its calls, recursive ones included (on 64-bit words).
\<close>

lemma call_times_accounted:
  assumes "func_ok s" and "stack s = []"
  shows "\<exists>s'. sum_run (concat (map call_events cs)) s = Some s' \<and> func_ok s' \<and> stack s' = []
    \<and> func_times s' = fold add_tree cs (func_times s)"
proof -
  have "func_abs s = (func_times s, [])"
    using assms(2) by (simp add: func_abs_def)
  then obtain s' where "sum_run (concat (map call_events cs)) s = Some s'"
    and "func_abs s' = (fold add_tree cs (func_times s), [])" and "func_ok s'"
    using sum_run_refines [OF assms(1), of "concat (map call_events cs)"] calls_run_empty [of cs "func_times s"]
    by auto
  then show ?thesis
    by (auto simp: func_abs_def)
qed

text \<open>
  C39: entering and leaving functions in any order implements the abstract machine of function
  times and running calls; it fails exactly when that machine leaves more than it entered.
\<close>

theorem func_stats_refine:
  assumes "func_ok s"
  shows "map_option func_abs (sum_run es s) = abs_run es (func_abs s)"
  using sum_run_refines [OF assms] by blast

theorem func_stats_refine_witness: "sum_run [EvEnter 1 2, EvExit 3, EvExit 4] fresh_sum = None"
  using func_stats_refine [OF fresh_ok(1), of "[EvEnter 1 2, EvExit 3, EvExit 4]"]
  by (simp add: func_abs_def fresh_ok)

text \<open>
  After any sequence of sends and receives, the statistic of a key counts exactly the
  messages whose peer, communicator and tag, as far as they are distinguished, give the key,
  and sums their bytes.
\<close>

lemma message_totals:
  assumes "msg_ok s"
  shows "msg_ok (fold msg_step evs s)
    \<and> msg_totals (fold msg_step evs s) k = fold ev_adds (filter (\<lambda>ev. ev_key s ev = k) evs) (msg_totals s k)"
  using assms
proof (induction evs arbitrary: s)
  case Nil
  then show ?case by simp
next
  case (Cons ev evs)
  note step = msg_step_totals [OF Cons.prems, of ev]
  show ?case
    using Cons.IH [OF step(1)] step(3) [of k] ev_key_dtls [OF step(2)] by simp
qed

end
