(* ===== verification/RfgFilter.thy ===== *)
theory RfgFilter
  imports Util
begin

text \<open>
  \<open>rfg/rfg_filter.c\<close>: the region filter. A filter definition file assigns call limits to
  patterns of region names, for all ranks or for the ranks named in \<open>@\<close> lines;
  \<open>RFG_Filter_get\<close> looks a region name up.

  The file system is the parameter \<open>fs\<close> (the bytes of a readable file, by path), the POSIX
  function \<open>fnmatch\<close> the parameter \<open>fnm\<close> (whether a name matches a pattern). The
  line buffer that \<open>RFG_Filter_readDefFile\<close> allocates starts with arbitrary bytes, the
  parameter \<open>junk\<close>, and is reused for every line, so the model keeps all its bytes. Allocation
  succeeds. A write past the end of the array \<open>pattern\<close> is the result \<open>None\<close>. The returned
  0 and 1 are \<open>False\<close> and \<open>True\<close>; \<open>nassigns\<close> is the length of the list of assignments.
\<close>

section \<open>Data\<close>

abbreviation STRBUF_SIZE :: nat where
  "STRBUF_SIZE \<equiv> 1024"

abbreviation MAX_LINE_LEN :: nat where
  "MAX_LINE_LEN \<equiv> 131072"

record RFG_FilterAssigns =
  fa_climit :: int
  fa_pattern :: string

record RFG_Filter =
  deffile_name :: "string ptr"
  deffile_content :: "string ptr"
  deffile_content_size :: nat
  default_call_limit :: int
  assigns :: "RFG_FilterAssigns list"

section \<open>The definition file as a buffer\<close>

text \<open>
  \<open>(char)EOF\<close> is the byte 0xFF: the loop ends at the end of the file and at the first such
  byte. It gets the bytes still to read, those stored and the size of the allocated buffer.
\<close>

abbreviation EOF_CHAR :: char where
  "EOF_CHAR \<equiv> CHR 0xFF"

fun content_loop :: "string \<Rightarrow> string \<Rightarrow> nat \<Rightarrow> string \<times> nat" where
  "content_loop [] acc sz = (acc, sz)"
| "content_loop (c # cs) acc sz =
     (if c = EOF_CHAR then (acc, sz)
      else content_loop cs (acc @ [c]) (if Suc (length acc) = sz then sz + 1024 else sz))"

definition get_deffile_content ::
  "(string \<rightharpoonup> string) \<Rightarrow> RFG_Filter ptr \<Rightarrow> bool \<times> RFG_Filter ptr" where
  "get_deffile_content fs flt =
     (case flt of
        None \<Rightarrow> (False, None)
      | Some f \<Rightarrow>
          (case deffile_name f of
             None \<Rightarrow> (False, Some f)
           | Some name \<Rightarrow>
               (case fs name of
                  None \<Rightarrow> (False, Some f)
                | Some bytes \<Rightarrow>
                    (let (content, sz) = content_loop bytes [] 1024
                     in (True, Some (f\<lparr>deffile_content := Some content,
                                       deffile_content_size := sz\<rparr>))))))"

text \<open>
  One line: \<open>i\<close> indexes the caller's buffer \<open>buf\<close>, \<open>pos\<close> the content, whose string length
  is \<open>csize\<close>.
\<close>

abbreviation NEWLINE :: char where
  "NEWLINE \<equiv> CHR 0x0A"

function line_loop ::
  "string \<Rightarrow> nat \<Rightarrow> nat \<Rightarrow> nat \<Rightarrow> string \<Rightarrow> nat \<Rightarrow> string \<times> nat" where
  "line_loop content csize bufsize i buf pos =
     (if i < bufsize then
        (let buf = buf[i := content ! pos]; pos = Suc pos
         in if pos = csize then (buf, pos)
            else if buf ! i = NEWLINE then (buf[Suc i := NUL], pos)
            else line_loop content csize bufsize (Suc i) buf pos)
      else (buf, pos))"
  by pat_completeness auto
termination
  by (relation "measure (\<lambda>(content, csize, bufsize, i, buf, pos). bufsize - i)") auto

declare line_loop.simps [simp del]

definition get_deffile_content_line ::
  "RFG_Filter ptr \<Rightarrow> string \<Rightarrow> nat \<Rightarrow> nat \<Rightarrow> bool \<times> string \<times> nat" where
  "get_deffile_content_line flt buf bufsize pos =
     (case flt of
        None \<Rightarrow> (False, buf, pos)
      | Some f \<Rightarrow>
          (case deffile_content f of
             None \<Rightarrow> (False, buf, pos)
           | Some content \<Rightarrow>
               (let csize = strlen content
                in if pos \<ge> csize then (False, buf, pos)
                   else (True, line_loop content csize bufsize 0 buf pos))))"

section \<open>Construction, reset, settings\<close>

definition RFG_Filter_init :: "RFG_Filter ptr" where
  "RFG_Filter_init =
     Some \<lparr>deffile_name = None, deffile_content = None, deffile_content_size = 0,
           default_call_limit = - 1, assigns = []\<rparr>"

fun RFG_Filter_reset :: "RFG_Filter ptr \<Rightarrow> bool \<times> RFG_Filter ptr" where
  "RFG_Filter_reset None = (False, None)"
| "RFG_Filter_reset (Some f) = (True, Some (f\<lparr>assigns := []\<rparr>))"

text \<open>\<open>RFG_Filter_free\<close> leaves no object.\<close>

fun RFG_Filter_free :: "RFG_Filter ptr \<Rightarrow> bool \<times> RFG_Filter ptr" where
  "RFG_Filter_free None = (False, None)"
| "RFG_Filter_free (Some f) =
     (if \<not> fst (RFG_Filter_reset (Some f)) then (False, Some f) else (True, None))"

fun RFG_Filter_setDefFile :: "RFG_Filter ptr \<Rightarrow> string \<Rightarrow> bool \<times> RFG_Filter ptr" where
  "RFG_Filter_setDefFile None deffile = (False, None)"
| "RFG_Filter_setDefFile (Some f) deffile = (True, Some (f\<lparr>deffile_name := Some deffile\<rparr>))"

fun RFG_Filter_setDefaultCallLimit :: "RFG_Filter ptr \<Rightarrow> int \<Rightarrow> bool \<times> RFG_Filter ptr" where
  "RFG_Filter_setDefaultCallLimit None limit = (False, None)"
| "RFG_Filter_setDefaultCallLimit (Some f) limit =
     (if limit = 0 \<or> limit < - 1 then (False, Some f)
      else (True, Some (f\<lparr>default_call_limit :=
                            (if limit = - 1 then limit else wrap32 (limit + 1))\<rparr>)))"

fun RFG_Filter_add :: "RFG_Filter ptr \<Rightarrow> string ptr \<Rightarrow> int \<Rightarrow> bool \<times> RFG_Filter ptr" where
  "RFG_Filter_add None pattern climit = (False, None)"
| "RFG_Filter_add (Some f) None climit = (False, Some f)"
| "RFG_Filter_add (Some f) (Some pattern) climit =
     (True, Some (f\<lparr>assigns := assigns f @ [\<lparr>fa_climit = climit, fa_pattern = pattern\<rparr>]\<rparr>))"

section \<open>Lookup\<close>

text \<open>The loop of \<open>RFG_Filter_get\<close> from some index on; \<open>None\<close> when it runs to the end.\<close>

fun filter_match :: "(string \<Rightarrow> string \<Rightarrow> bool) \<Rightarrow> RFG_FilterAssigns list \<Rightarrow> string \<Rightarrow> int option" where
  "filter_match fnm [] rname = None"
| "filter_match fnm (a # as) rname =
     (if fnm (fa_pattern a) rname then Some (fa_climit a) else filter_match fnm as rname)"

text \<open>The returned call limit is \<open>None\<close> where the code does not write \<open>*r_climit\<close>.\<close>

fun RFG_Filter_get ::
  "(string \<Rightarrow> string \<Rightarrow> bool) \<Rightarrow> RFG_Filter ptr \<Rightarrow> string ptr \<Rightarrow> bool \<times> int option" where
  "RFG_Filter_get fnm (Some f) (Some rname) =
     (True, Some (case filter_match fnm (assigns f) rname of
                    Some climit \<Rightarrow> climit
                  | None \<Rightarrow> default_call_limit f))"
| "RFG_Filter_get fnm _ _ = (False, None)"

section \<open>Reading the definition file\<close>

text \<open>The byte \<open>p[n]\<close> of a C string.\<close>

definition at :: "string \<Rightarrow> nat \<Rightarrow> char" where
  "at p n = (if n < length p then p ! n else NUL)"

definition skip_blanks :: "string \<Rightarrow> string" where
  "skip_blanks p = dropWhile (\<lambda>c. c = BLANK \<or> c = CHR 0x09) p"

lemma length_skip_blanks: "length (skip_blanks p) \<le> length p"
  by (simp add: skip_blanks_def length_dropWhile_le)

lemma at_nonempty: "at p n \<noteq> NUL \<Longrightarrow> p \<noteq> []"
  by (auto simp: at_def)

lemma not_digit_NUL [simp]: "\<not> is_digit NUL"
  by (simp add: is_digit_def)

lemma strtol_progress:
  assumes "is_digit (at p 0)" and "strtol p = (v, n, e)"
  shows "0 < n" and "p \<noteq> []"
proof -
  show "p \<noteq> []"
    using assms(1) by (auto simp: at_def)
  then obtain c q where "p = c # q"
    by (cases p) auto
  then show "0 < n"
    using assms strtol_digit_consumes [of c q] by (simp add: at_def)
qed

text \<open>
  The loop over a rank clause such as \<open>@ 0 - 3; 7 -- OFF\<close>, behind the \<open>@\<close>: the remaining
  text \<open>p\<close>, the range \<open>a - b\<close> read last and \<open>includes_current_rank\<close>. The result is
  \<open>includes_current_rank\<close>, \<open>l_rank_off\<close> and \<open>parse_err\<close>.
\<close>

function rank_loop :: "int \<Rightarrow> string \<Rightarrow> int \<Rightarrow> int \<Rightarrow> bool \<Rightarrow> bool \<times> bool \<times> bool" where
  "rank_loop rank p0 a b incl =
     (let p = skip_blanks p0;
          c = at p 0;
          hit = (a = rank \<or> (a < rank \<and> rank \<le> b))
      in if is_digit c then
           (let (v, n, range_error) = strtol p
            in if range_error then (incl, False, True)
               else rank_loop rank (drop n p) (wrap32 v) b incl)
         else if c = CHR ''-'' \<and> at p 1 = CHR ''-'' \<and> a \<noteq> - 1 then
           (let incl = (incl \<or> hit);
                p = skip_blanks (drop 2 p)
            in if at p 0 = CHR ''O'' \<and> at p 1 = CHR ''F'' \<and> at p 2 = CHR ''F''
               then (incl, incl, False)
               else (incl, False, True))
         else if c = CHR ''-'' \<and> at p 1 \<noteq> NUL \<and> a \<noteq> - 1 then
           (let (v, n, range_error) = strtol (drop 1 p)
            in if range_error then (incl, False, True)
               else rank_loop rank (drop n (drop 1 p)) a (wrap32 v) incl)
         else if (c = CHR '';'' \<or> c = CHR '','') \<and> a \<noteq> - 1 then
           rank_loop rank (drop 1 p) (- 1) (- 1) (incl \<or> hit)
         else if c = NUL \<and> a \<noteq> - 1 then (incl \<or> hit, False, False)
         else (incl, False, True))"
  by pat_completeness auto
termination
proof (relation "measure (\<lambda>(rank, p, a, b, incl). length p)", goal_cases)
  case 1
  show ?case by simp
next
  case (2 rank p0 a b incl p c hit x v y n e)
  then have "0 < n" and "p \<noteq> []"
    using strtol_progress [of p v n e] by simp_all
  moreover have "length p \<le> length p0"
    using 2 length_skip_blanks by simp
  ultimately show ?case
    by (cases p) auto
next
  case (3 rank p0 a b incl p c hit x v y n e)
  then have "p \<noteq> []"
    using at_nonempty [of p 1] by simp
  moreover have "length p \<le> length p0"
    using 3 length_skip_blanks by simp
  ultimately show ?case
    by (cases p) auto
next
  case (4 rank p0 a b incl p c hit)
  then have "p \<noteq> []"
    using at_nonempty [of p 0] by auto
  moreover have "length p \<le> length p0"
    using 4 length_skip_blanks by simp
  ultimately show ?case
    by (cases p) auto
qed

declare rank_loop.simps [simp del]

text \<open>
  The loop over the patterns of a rule, from the position \<open>pos\<close> in the line buffer. The
  token is copied into \<open>pattern[STRBUF_SIZE]\<close>, trimmed, and added unless it is empty or the
  current rank is not included.
\<close>

definition add_pattern :: "bool \<Rightarrow> int \<Rightarrow> string \<Rightarrow> RFG_Filter \<Rightarrow> RFG_Filter option" where
  "add_pattern incl climit tok f =
     (if length tok \<ge> STRBUF_SIZE then None
      else (let pattern = vt_strtrim (tok @ [NUL])
            in if strlen pattern > 0 \<and> incl
               then snd (RFG_Filter_add (Some f) (Some (cstr pattern)) climit)
               else Some f))"

function pattern_loop ::
  "string \<Rightarrow> nat \<Rightarrow> bool \<Rightarrow> int \<Rightarrow> RFG_Filter \<Rightarrow> (string \<times> RFG_Filter) option" where
  "pattern_loop line pos incl climit f =
     (case strtok CHR '';'' line pos of
        (None, line') \<Rightarrow> Some (line', f)
      | (Some (tok, nxt), line') \<Rightarrow>
          (case add_pattern incl climit tok f of
             None \<Rightarrow> None
           | Some f' \<Rightarrow> pattern_loop line' nxt incl climit f'))"
  by pat_completeness auto
termination
proof (relation "measure (\<lambda>(line, pos, incl, climit, f). length line - pos)", goal_cases)
  case 1
  show ?case by simp
next
  case (2 line pos incl climit f p line' q tok nxt f')
  then show ?case
    using strtok_Some [of "CHR '';''" line pos tok nxt line'] by auto
qed

declare pattern_loop.simps [simp del]

text \<open>
  A rule line: the result is the line buffer, the filter and \<open>parse_err\<close>, which is set when
  there is no \<open>--\<close> or no token before it.
\<close>

definition rule_line :: "bool \<Rightarrow> string \<Rightarrow> RFG_Filter \<Rightarrow> (string \<times> RFG_Filter \<times> bool) option" where
  "rule_line incl line f =
     (case strstr (cstr line) ''--'' of
        None \<Rightarrow> Some (line, f, True)
      | Some p \<Rightarrow>
          (let climit = atoi (drop (p + 2) (cstr line));
               climit = (if climit \<noteq> - 1 \<and> climit \<noteq> 0 then wrap32 (climit + 1) else climit);
               line = line[p := NUL]
           in if fst (strtok CHR '';'' line 0) = None then Some (line, f, True)
              else map_option (\<lambda>(line, f). (line, f, False)) (pattern_loop line 0 incl climit f)))"

text \<open>The removal of the newline and the blanks, at the head of the loop body.\<close>

definition chop_newline :: "string \<Rightarrow> string" where
  "chop_newline line =
     (if strlen line > 0 \<and> line ! (strlen line - 1) = NEWLINE
      then line[strlen line - 1 := NUL] else line)"

text \<open>What the loop over the lines carries, and what it leaves when it ends.\<close>

record filter_scan =
  sc_line :: string
  sc_pos :: nat
  sc_lineno :: nat
  sc_incl :: bool
  sc_off :: bool
  sc_err :: bool
  sc_filter :: RFG_Filter

text \<open>
  The loop body; \<open>Some (True, s)\<close> when it leaves the loop by \<open>break\<close> at the first \<open>@\<close> line
  because no rank is given.
\<close>

definition filter_line :: "int \<Rightarrow> filter_scan \<Rightarrow> (bool \<times> filter_scan) option" where
  "filter_line rank s =
     (let line = vt_strtrim (chop_newline (sc_line s));
          s = s\<lparr>sc_line := line, sc_lineno := Suc (sc_lineno s)\<rparr>
      in if strlen line = 0 \<or> line ! 0 = CHR ''#'' then Some (False, s)
         else if line ! 0 = CHR ''@'' then
           (if rank = - 1 then Some (True, s)
            else (let (incl, off, err) = rank_loop rank (drop 1 (cstr line)) (- 1) (- 1) False
                  in Some (False, s\<lparr>sc_incl := incl, sc_off := off, sc_err := err\<rparr>)))
         else
           (case rule_line (sc_incl s) line (sc_filter s) of
              None \<Rightarrow> None
            | Some (line, f, err) \<Rightarrow>
                Some (False, s\<lparr>sc_line := line, sc_filter := f, sc_err := err\<rparr>)))"

lemma line_loop_pos: "i < bufsize \<Longrightarrow> pos < snd (line_loop content csize bufsize i buf pos)"
proof (induction content csize bufsize i buf pos rule: line_loop.induct)
  case (1 content csize bufsize i buf pos)
  show ?case
  proof (cases "Suc i < bufsize")
    case True
    then show ?thesis
      using "1" by (subst line_loop.simps) (auto simp: Let_def intro: Suc_lessD)
  next
    case False
    with "1.prems" show ?thesis
      by (simp add: line_loop.simps Let_def)
  qed
qed

lemma get_line_pos:
  "get_deffile_content_line flt buf bufsize pos = (True, buf', pos') \<Longrightarrow> 0 < bufsize \<Longrightarrow>
   pos < pos' \<and> pos < (case flt of Some f \<Rightarrow> (case deffile_content f of Some c \<Rightarrow> strlen c | _ \<Rightarrow> 0) | _ \<Rightarrow> 0)"
  using line_loop_pos [of 0 bufsize pos]
  by (auto simp: get_deffile_content_line_def Let_def split: option.splits if_splits; metis snd_conv)

lemma filter_line_pos: "filter_line rank s = Some (b, s') \<Longrightarrow> sc_pos s' = sc_pos s"
  by (auto simp: filter_line_def Let_def split: if_splits option.splits prod.splits)

text \<open>
  The whole loop. The content does not change while it runs, so it is read from the filter
  \<open>src\<close> that the loop started with.
\<close>

function filter_loop :: "int \<Rightarrow> RFG_Filter \<Rightarrow> filter_scan \<Rightarrow> filter_scan option" where
  "filter_loop rank src s =
     (if sc_off s \<or> sc_err s then Some s
      else case get_deffile_content_line (Some src) (sc_line s) (MAX_LINE_LEN - 1) (sc_pos s) of
        (got, line, pos) \<Rightarrow>
          if \<not> got then Some s
          else case filter_line rank (s\<lparr>sc_line := line, sc_pos := pos\<rparr>) of
            None \<Rightarrow> None
          | Some (stop, s') \<Rightarrow> if stop then Some s' else filter_loop rank src s')"
  by pat_completeness auto
termination
proof (relation "measure (\<lambda>(rank, src, s).
    (case deffile_content src of Some c \<Rightarrow> strlen c | None \<Rightarrow> 0) - sc_pos s)", goal_cases)
  case 1
  show ?case by simp
next
  case (2 rank src s got y line pos z stop s')
  then have "get_deffile_content_line (Some src) (sc_line s) (MAX_LINE_LEN - 1) (sc_pos s)
      = (True, line, pos)"
    by simp
  then have "sc_pos s < pos \<and> sc_pos s < (case deffile_content src of Some c \<Rightarrow> strlen c | _ \<Rightarrow> 0)"
    by (rule get_line_pos [of "Some src", simplified]) simp
  moreover have "sc_pos s' = pos"
    using 2 filter_line_pos by fastforce
  ultimately show ?case
    by auto
qed

declare filter_loop.simps [simp del]

text \<open>
  \<open>RFG_Filter_readDefFile\<close>: the returned flag, the filter, the value stored through
  \<open>rank_off\<close> (\<open>None\<close> on the early returns, which do not store) and the line number of the
  message that a line could not be parsed.
\<close>

definition RFG_Filter_readDefFile ::
  "(string \<rightharpoonup> string) \<Rightarrow> string \<Rightarrow> RFG_Filter ptr \<Rightarrow> int \<Rightarrow>
   (bool \<times> RFG_Filter ptr \<times> bool option \<times> nat option) option" where
  "RFG_Filter_readDefFile fs junk flt rank =
     (case flt of
        None \<Rightarrow> Some (False, None, None, None)
      | Some f \<Rightarrow>
          if deffile_name f = None then Some (False, Some f, None, None)
          else
            (let f = the (snd (RFG_Filter_reset (Some f)));
                 (ok, f') = (if deffile_content f = None then get_deffile_content fs (Some f)
                             else (True, Some f))
             in if \<not> ok then Some (False, f', None, None)
                else
                  (case filter_loop rank (the f')
                          \<lparr>sc_line = junk, sc_pos = 0, sc_lineno = 0, sc_incl = True,
                           sc_off = False, sc_err = False, sc_filter = the f'\<rparr> of
                     None \<Rightarrow> None
                   | Some s \<Rightarrow>
                       Some (True, Some (sc_filter s), Some (sc_off s),
                             if sc_err s then Some (sc_lineno s) else None))))"

section \<open>Properties of the reader\<close>

text \<open>The C string in the array \<open>pattern\<close> after trimming.\<close>

lemma cstr_strtrim_token [simp]: "NUL \<notin> set t \<Longrightarrow> cstr (vt_strtrim (t @ [NUL])) = trim t"
proof -
  assume t: "NUL \<notin> set t"
  moreover have "NUL \<notin> set (trim t)"
    using t set_trim by blast
  ultimately show ?thesis
    using vt_strtrim_buffer [of "t @ [NUL]"]
    by (auto simp: terminated_def cstr_append_NUL strlen_append_NUL trim_all_blank)
qed

definition included_patterns :: "bool \<Rightarrow> int \<Rightarrow> string list \<Rightarrow> RFG_FilterAssigns list" where
  "included_patterns incl climit toks =
     (if incl then map (\<lambda>p. \<lparr>fa_climit = climit, fa_pattern = p\<rparr>) (filter (\<lambda>p. p \<noteq> []) (map trim toks))
      else [])"

lemma add_pattern_eq:
  "NUL \<notin> set tok \<Longrightarrow> add_pattern incl climit tok f =
     (if length tok \<ge> STRBUF_SIZE then None
      else Some (f\<lparr>assigns := assigns f @ included_patterns incl climit [tok]\<rparr>))"
  by (auto simp: add_pattern_def included_patterns_def strlen_def)

lemma pattern_loop_eq:
  "map_option snd (pattern_loop line pos incl climit f) =
     (let toks = tokens CHR '';'' (cstr (drop pos line))
      in if \<exists>t \<in> set toks. length t \<ge> STRBUF_SIZE then None
         else Some (f\<lparr>assigns := assigns f @ included_patterns incl climit toks\<rparr>))"
proof (induction line pos incl climit f rule: pattern_loop.induct)
  case (1 line pos incl climit f)
  show ?case
  proof (cases "strtok CHR '';'' line pos")
    case (Pair r line')
    show ?thesis
    proof (cases r)
      case None
      then have "tokens CHR '';'' (cstr (drop pos line)) = []"
        using strtok_None_iff [of "CHR '';''" line pos] Pair by simp
      then show ?thesis
        using None Pair by (simp add: pattern_loop.simps [of line] included_patterns_def)
    next
      case (Some p)
      obtain tok nxt where p: "p = (tok, nxt)"
        by (cases p)
      have toks: "tokens CHR '';'' (cstr (drop pos line)) =
          tok # tokens CHR '';'' (cstr (drop nxt line'))"
        using strtok_Some(1) [of "CHR '';''" line pos tok nxt line'] Pair Some p by simp
      then have "NUL \<notin> set tok"
        using tokens_no_NUL [of tok "CHR '';''" "drop pos line"] by simp
      note add = add_pattern_eq [OF this, of incl climit f]
      show ?thesis
      proof (cases "length tok \<ge> STRBUF_SIZE")
        case True
        then show ?thesis
          using Pair Some p toks add by (simp add: pattern_loop.simps [of line])
      next
        case False
        then show ?thesis
          using "1" [OF Pair [symmetric] Some p [symmetric]] Pair Some p toks add
          by (simp add: pattern_loop.simps [of line] Let_def included_patterns_def)
      qed
    qed
  qed
qed

text \<open>The limit that a rule stores for the number written behind its \<open>--\<close>.\<close>

definition stored_limit :: "string \<Rightarrow> int" where
  "stored_limit num =
     (let n = atoi num in if n \<noteq> - 1 \<and> n \<noteq> 0 then wrap32 (n + 1) else n)"

text \<open>
  C32: a rule line \<open>p\<^sub>1;\<dots>;p\<^sub>n--num\<close> adds one assignment for every pattern, in the order of the
  line, trimmed and without the empty ones, with the limit \<open>num + 1\<close> (0 and -1 are kept);
  nothing is added while the current rank is excluded, and a pattern that does not fit into
  \<open>pattern[STRBUF_SIZE]\<close> is written past its end.
\<close>

theorem rule_line_adds_patterns:
  assumes "terminated line" and "cstr line = pats @ ''--'' @ num"
    and "CHR ''-'' \<notin> set pats" and "tokens CHR '';'' pats \<noteq> []"
  shows "map_option snd (rule_line incl line f) =
    (if \<exists>t \<in> set (tokens CHR '';'' pats). length t \<ge> STRBUF_SIZE then None
     else Some (f\<lparr>assigns := assigns f @
                   included_patterns incl (stored_limit num) (tokens CHR '';'' pats)\<rparr>, False))"
proof -
  let ?n = "length pats"
  have pos: "strstr (cstr line) ''--'' = Some ?n"
    using strstr_append [of "''--''" pats num] assms(2,3) by simp
  have "?n \<le> strlen line" and "?n < length line"
    using assms(1,2) strlen_less [of line] by (auto simp: strlen_def)
  then have cut: "cstr (line[?n := NUL]) = pats"
    by (simp add: cstr_cut assms(2))
  obtain q where first: "fst (strtok CHR '';'' (line[?n := NUL]) 0) = Some q"
    using strtok_None_iff [of "CHR '';''" "line[?n := NUL]" 0] cut assms(4) by auto
  have num: "drop (?n + 2) (cstr line) = num"
    using assms(2) by simp
  have "map_option snd (rule_line incl line f) =
      map_option (\<lambda>f. (f, False))
        (map_option snd (pattern_loop (line[?n := NUL]) 0 incl (stored_limit num) f))"
    using pos first num
    by (simp add: rule_line_def stored_limit_def Let_def option.map_comp comp_def split_def)
  then show ?thesis
    by (simp add: pattern_loop_eq cut Let_def)
qed

abbreviation empty_filter :: RFG_Filter where
  "empty_filter \<equiv> \<lparr>deffile_name = None, deffile_content = None, deffile_content_size = 0,
     default_call_limit = - 1, assigns = []\<rparr>"

theorem rule_line_adds_patterns_witness:
  "map_option snd (rule_line True (''ab; cd --5'' @ [NUL]) empty_filter) =
   Some (empty_filter\<lparr>assigns := [\<lparr>fa_climit = 6, fa_pattern = ''ab''\<rparr>,
                                \<lparr>fa_climit = 6, fa_pattern = ''cd''\<rparr>]\<rparr>, False)"
proof -
  have toks: "tokens CHR '';'' ''ab; cd '' = [''ab'', '' cd '']"
    by (simp add: tokens.simps)
  have pats: "included_patterns True (stored_limit ''5'') [''ab'', '' cd ''] =
      [\<lparr>fa_climit = 6, fa_pattern = ''ab''\<rparr>, \<lparr>fa_climit = 6, fa_pattern = ''cd''\<rparr>]"
    by (simp add: included_patterns_def stored_limit_def trim_def atoi_def strtol_def is_space_def
        is_digit_def digits_value_def digit_value_def)
  show ?thesis
    using rule_line_adds_patterns [of "''ab; cd --5'' @ [NUL]" "''ab; cd ''" "''5''" True empty_filter]
    by (simp add: toks pats terminated_def)
qed

subsection \<open>Rank clauses\<close>

text \<open>
  What a rank clause names, which ranks it includes, and how it may be written: with blanks around
  the numbers, commas or semicolons between the items, and with or without the switch that turns the
  ranks off, behind which anything may follow.
\<close>

datatype rank_item = Rank nat | Range nat nat

fun in_item :: "int \<Rightarrow> rank_item \<Rightarrow> bool" where
  "in_item rank (Rank a) = (rank = int a)"
| "in_item rank (Range a b) = (rank = int a \<or> (int a < rank \<and> rank \<le> int b))"

fun item_ok :: "rank_item \<Rightarrow> bool" where
  "item_ok (Rank a) = (a < 2 ^ 31)"
| "item_ok (Range a b) = (a < 2 ^ 31 \<and> b < 2 ^ 31)"

definition blanks :: "string \<Rightarrow> bool" where
  "blanks u \<longleftrightarrow> (\<forall>c \<in> set u. c = BLANK \<or> c = CHR 0x09)"

inductive item_text :: "rank_item \<Rightarrow> string \<Rightarrow> bool" where
  "item_text (Rank a) (dec a)"
| "blanks u \<Longrightarrow> blanks v \<Longrightarrow> item_text (Range a b) (dec a @ u @ CHR ''-'' # v @ dec b)"

inductive clause_text :: "rank_item list \<Rightarrow> bool \<Rightarrow> string \<Rightarrow> bool" where
  last: "item_text i t \<Longrightarrow> blanks u \<Longrightarrow> blanks v \<Longrightarrow> clause_text [i] False (u @ t @ v)"
| off: "item_text i t \<Longrightarrow> blanks u \<Longrightarrow> blanks v \<Longrightarrow> blanks w \<Longrightarrow>
    clause_text [i] True (u @ t @ v @ ''--'' @ w @ ''OFF'' @ r)"
| more: "item_text i t \<Longrightarrow> blanks u \<Longrightarrow> blanks v \<Longrightarrow> sep \<in> {CHR '';'', CHR '',''} \<Longrightarrow> clause_text is off s \<Longrightarrow>
    clause_text (i # is) off (u @ t @ v @ sep # s)"

abbreviation rank_hit :: "int \<Rightarrow> int \<Rightarrow> int \<Rightarrow> bool" where
  "rank_hit rank a b \<equiv> a = rank \<or> (a < rank \<and> rank \<le> b)"

lemma not_digit_marks [simp]:
  "\<not> is_digit CHR ''-''" "\<not> is_digit CHR '';''" "\<not> is_digit CHR '',''" "\<not> is_digit BLANK" "\<not> is_digit CHR 0x09"
  by (simp_all add: is_digit_def)

lemma blanks_stop:
  assumes "blanks v" and "r = [] \<or> \<not> is_digit (hd r)"
  shows "v @ r = [] \<or> \<not> is_digit (hd (v @ r))"
proof (cases v)
  case Nil
  then show ?thesis
    using assms(2) by simp
next
  case (Cons c w)
  then have "c = BLANK \<or> c = CHR 0x09"
    using assms(1) by (simp add: blanks_def)
  then have "\<not> is_digit c"
    by (rule disjE) (simp_all only: not_digit_marks simp_thms)
  then show ?thesis
    using Cons by simp
qed

lemma rank_loop_blanks: "blanks u \<Longrightarrow> rank_loop rank (u @ p) a b incl = rank_loop rank p a b incl"
proof -
  assume "blanks u"
  then have "skip_blanks (u @ p) = skip_blanks p"
    by (simp add: skip_blanks_def blanks_def dropWhile_append2)
  then show ?thesis
    by (simp only: rank_loop.simps [of rank "u @ p" a b incl] rank_loop.simps [of rank p a b incl])
qed

lemma skip_blanks_dec [simp]: "skip_blanks (dec a @ r) = dec a @ r"
  and at_dec [simp]: "is_digit (at (dec a @ r) 0)"
proof -
  obtain c s where d: "dec a = c # s"
    by (cases "dec a") auto
  then have "is_digit c"
    using dec_digits [of c a] by simp
  moreover from this have "c \<noteq> BLANK" and "c \<noteq> CHR 0x09"
    by (auto simp: is_digit_def)
  ultimately show "skip_blanks (dec a @ r) = dec a @ r" and "is_digit (at (dec a @ r) 0)"
    using d by (simp_all add: skip_blanks_def at_def)
qed

text \<open>One number, and the number behind a dash, are read as a whole.\<close>

lemma rank_loop_number:
  assumes "n < 2 ^ 31" and "r = [] \<or> \<not> is_digit (hd r)"
  shows "rank_loop rank (dec n @ r) a b incl = rank_loop rank r (int n) b incl"
  using strtol_dec [of n r] assms by (subst rank_loop.simps) (simp add: Let_def)

lemma strtol_blanks:
  assumes "n < 2 ^ 31" and "r = [] \<or> \<not> is_digit (hd r)" and "blanks v"
  shows "strtol (v @ dec n @ r) = (int n, length v + length (dec n), False)"
proof -
  have space: "\<forall>c \<in> set v. is_space c"
    using assms(3) by (auto simp: blanks_def is_space_def)
  obtain c x where d: "dec n = c # x"
    by (cases "dec n") auto
  then have "\<not> is_space c"
    using dec_digits [of c n] by (auto simp: is_digit_def is_space_def)
  then have ws: "takeWhile is_space (v @ dec n @ r) = v" "takeWhile is_space (dec n @ r) = []"
    using space d by (simp_all add: takeWhile_append2)
  have "strtol (dec n @ r) = (int n, length (dec n), False)"
    using strtol_dec [of n r] assms by simp
  moreover have "dec n @ r \<noteq> []" "drop (length v) (v @ dec n @ r) = dec n @ r" "drop (length []) (dec n @ r) = dec n @ r"
    using d by simp_all
  ultimately show ?thesis
    unfolding strtol_def ws Let_def by (auto split: if_splits)
qed

lemma rank_loop_dash:
  assumes "n < 2 ^ 31" and "r = [] \<or> \<not> is_digit (hd r)" and "a \<noteq> - 1" and "blanks v"
  shows "rank_loop rank (CHR ''-'' # v @ dec n @ r) a b incl = rank_loop rank r a (int n) incl"
proof -
  obtain c x where d: "dec n = c # x"
    by (cases "dec n") auto
  then have c: "is_digit c"
    using dec_digits [of c n] by simp
  have "c \<noteq> CHR ''-''" "c \<noteq> NUL"
    using c by (auto simp: is_digit_def)
  then obtain y z where y: "v @ dec n @ r = y # z" "y \<noteq> CHR ''-''" "y \<noteq> NUL"
    using d assms(4) by (cases v) (auto simp: blanks_def)
  have "skip_blanks (CHR ''-'' # v @ dec n @ r) = CHR ''-'' # v @ dec n @ r"
    by (simp add: skip_blanks_def)
  moreover have "at (CHR ''-'' # v @ dec n @ r) 0 = CHR ''-''" "at (CHR ''-'' # v @ dec n @ r) 1 = y"
    using y(1) by (simp_all add: at_def)
  moreover have "drop (length v + length (dec n)) (v @ dec n @ r) = r"
    by simp
  ultimately show ?thesis
    using strtol_blanks [OF assms(1,2,4)] assms(1,3) y(2,3)
    by (subst rank_loop.simps) (simp add: Let_def del: drop_append)
qed

text \<open>An item with the blanks around it.\<close>

lemma rank_loop_item:
  assumes "item_text i t" and "item_ok i" and "r = [] \<or> \<not> is_digit (hd r)" and "blanks u" and "blanks v" and "0 \<le> rank"
  obtains a b where "a \<noteq> - 1" and "rank_hit rank a b = in_item rank i"
    and "rank_loop rank (u @ t @ v @ r) (- 1) (- 1) incl = rank_loop rank r a b incl"
  using assms(1)
proof cases
  case (1 n)
  then have "rank_loop rank (u @ t @ v @ r) (- 1) (- 1) incl = rank_loop rank r (int n) (- 1) incl"
    using assms(2,4,5) rank_loop_number [OF _ blanks_stop [OF assms(5,3)], of n] by (simp add: rank_loop_blanks)
  then show ?thesis
    using that [of "int n" "- 1"] 1 assms(6) by auto
next
  case (2 x y n m)
  have "rank_loop rank (u @ t @ v @ r) (- 1) (- 1) incl =
      rank_loop rank (x @ CHR ''-'' # y @ dec m @ v @ r) (int n) (- 1) incl"
    using 2 assms(2,4) rank_loop_number [OF _ blanks_stop [OF 2(3)], of n "CHR ''-'' # y @ dec m @ v @ r"]
    by (simp add: rank_loop_blanks)
  also have "\<dots> = rank_loop rank (v @ r) (int n) (int m) incl"
    using 2 assms(2) rank_loop_dash [OF _ blanks_stop [OF assms(5,3)], of m] by (simp add: rank_loop_blanks)
  finally show ?thesis
    using that [of "int n" "int m"] 2 assms(5) by (auto simp: rank_loop_blanks)
qed

text \<open>What follows an item: nothing, the switch, or a separator and the next item.\<close>

lemma rank_loop_end: "a \<noteq> - 1 \<Longrightarrow> rank_loop rank [] a b incl = (incl \<or> rank_hit rank a b, False, False)"
  by (subst rank_loop.simps) (simp add: skip_blanks_def at_def Let_def)

lemma rank_loop_off:
  assumes "a \<noteq> - 1" and "blanks w"
  shows "rank_loop rank (''--'' @ w @ ''OFF'' @ r) a b incl =
     (incl \<or> rank_hit rank a b, incl \<or> rank_hit rank a b, False)"
proof -
  have skip: "skip_blanks (''--'' @ w @ ''OFF'' @ r) = ''--'' @ w @ ''OFF'' @ r"
      "skip_blanks (drop 2 (''--'' @ w @ ''OFF'' @ r)) = ''OFF'' @ r"
    using assms(2) by (simp_all add: skip_blanks_def blanks_def dropWhile_append2)
  have at: "at (''--'' @ w @ ''OFF'' @ r) 0 = CHR ''-''" "at (''--'' @ w @ ''OFF'' @ r) 1 = CHR ''-''"
      "at (''OFF'' @ r) 0 = CHR ''O''" "at (''OFF'' @ r) 1 = CHR ''F''" "at (''OFF'' @ r) 2 = CHR ''F''"
    by (simp_all add: at_def)
  note unfold = rank_loop.simps [of rank "''--'' @ w @ ''OFF'' @ r" a b incl]
  show ?thesis
    using assms(1) unfolding unfold Let_def skip at by (simp only: not_digit_marks if_True if_False simp_thms)
qed

lemma rank_loop_separator:
  assumes "a \<noteq> - 1" and "sep \<in> {CHR '';'', CHR '',''}"
  shows "rank_loop rank (sep # r) a b incl = rank_loop rank r (- 1) (- 1) (incl \<or> rank_hit rank a b)"
proof -
  consider "sep = CHR '';''" | "sep = CHR '',''"
    using assms(2) by blast
  then show ?thesis
    using assms(1) by cases (subst rank_loop.simps, simp add: skip_blanks_def at_def Let_def)+
qed

text \<open>
  C33: a rank clause lists ranks and ranges, with commas or semicolons between them and blanks
  anywhere around the numbers, and may end in \<open>-- OFF\<close>: reading one finds no error, includes the
  current rank exactly when one of the items does, and turns tracing off exactly for the included
  ranks of an \<open>OFF\<close> clause.
\<close>

theorem rank_clause_selects:
  assumes "clause_text items off s" and "0 \<le> rank" and "\<forall>i \<in> set items. item_ok i"
  shows "rank_loop rank s (- 1) (- 1) incl =
    (let hit = (incl \<or> (\<exists>i \<in> set items. in_item rank i)) in (hit, off \<and> hit, False))"
  using assms(1,3)
proof (induction arbitrary: incl rule: clause_text.induct)
  case (last i t u v)
  then obtain a b where "a \<noteq> - 1" "rank_hit rank a b = in_item rank i"
      "rank_loop rank (u @ t @ v @ []) (- 1) (- 1) incl = rank_loop rank [] a b incl"
    using rank_loop_item [of i t "[]" u v rank incl] assms(2) by auto
  then show ?case
    by (simp add: rank_loop_end Let_def)
next
  case (off i t u v w r)
  have "''--'' @ w @ ''OFF'' @ r = [] \<or> \<not> is_digit (hd (''--'' @ w @ ''OFF'' @ r))"
    by simp
  then obtain a b where "a \<noteq> - 1" "rank_hit rank a b = in_item rank i"
      "rank_loop rank (u @ t @ v @ ''--'' @ w @ ''OFF'' @ r) (- 1) (- 1) incl =
       rank_loop rank (''--'' @ w @ ''OFF'' @ r) a b incl"
    using rank_loop_item [of i t "''--'' @ w @ ''OFF'' @ r" u v rank incl] off assms(2) by auto
  then show ?case
    using rank_loop_off [OF _ off(4), of a rank r b incl] by (simp add: Let_def)
next
  case (more i t u v sep "is" off s)
  have "sep # s = [] \<or> \<not> is_digit (hd (sep # s))"
    using more.hyps(4) by auto
  then obtain a b where "a \<noteq> - 1" "rank_hit rank a b = in_item rank i"
      "rank_loop rank (u @ t @ v @ sep # s) (- 1) (- 1) incl = rank_loop rank (sep # s) a b incl"
    using rank_loop_item [of i t "sep # s" u v rank incl] more assms(2) by auto
  then show ?case
    using more.IH [of "incl \<or> in_item rank i"] more.prems rank_loop_separator [OF _ more.hyps(4)]
    by (simp add: Let_def disj_assoc)
qed

text \<open>The two clauses of the user manual.\<close>

theorem rank_clause_selects_witness:
  "rank_loop 40 '' 35 - 42 -- OFF'' (- 1) (- 1) False = (True, True, False)
   \<and> rank_loop 25 '' 4 - 10, 20 - 29, 34'' (- 1) (- 1) False = (True, False, False)"
proof
  have b: "blanks '' ''" "blanks []"
    by (simp_all add: blanks_def)
  have "item_text (Range 35 42) ''35 - 42''" "item_text (Range 4 10) ''4 - 10''" "item_text (Range 20 29) ''20 - 29''"
      "item_text (Rank 34) ''34''"
    using item_text.intros(2) [OF b(1) b(1), of 35 42] item_text.intros(2) [OF b(1) b(1), of 4 10]
      item_text.intros(2) [OF b(1) b(1), of 20 29] item_text.intros(1) [of 34]
    by (simp_all add: dec.simps digit_char_def char_of_def bit_Suc_0_iff)
  then have c: "clause_text [Range 35 42] True '' 35 - 42 -- OFF''"
      "clause_text [Range 4 10, Range 20 29, Rank 34] False '' 4 - 10, 20 - 29, 34''"
    using clause_text.off [OF _ b(1) b(1) b(1), of "Range 35 42" "''35 - 42''" "[]"]
      clause_text.more [OF _ b(1) b(2), of "Range 4 10" "''4 - 10''" "CHR '',''"]
      clause_text.more [OF _ b(1) b(2), of "Range 20 29" "''20 - 29''" "CHR '',''"]
      clause_text.last [OF _ b(1) b(2), of "Rank 34" "''34''"]
    by simp_all
  show "rank_loop 40 '' 35 - 42 -- OFF'' (- 1) (- 1) False = (True, True, False)"
    using rank_clause_selects [OF c(1), of 40 False] by simp
  show "rank_loop 25 '' 4 - 10, 20 - 29, 34'' (- 1) (- 1) False = (True, False, False)"
    using rank_clause_selects [OF c(2), of 25 False] by simp
qed

subsection \<open>The content and its lines\<close>

lemma content_loop_eq:
  "length acc < sz \<Longrightarrow> fst (content_loop bytes acc sz) = acc @ takeWhile (\<lambda>c. c \<noteq> EOF_CHAR) bytes
     \<and> length (fst (content_loop bytes acc sz)) < snd (content_loop bytes acc sz)"
proof (induction bytes acc sz rule: content_loop.induct)
  case (1 acc sz)
  then show ?case by simp
next
  case (2 c cs acc sz)
  then show ?case by auto
qed

text \<open>
  Reading the file keeps its bytes up to the first byte 0xFF, which is taken for the end
  of the file, and the buffer always has room for them and the NUL that ends them.
\<close>

lemma deffile_content_fits:
  assumes "deffile_name f = Some name" and "fs name = Some bytes"
  shows "\<exists>sz. get_deffile_content fs (Some f) =
      (True, Some (f\<lparr>deffile_content := Some (takeWhile (\<lambda>c. c \<noteq> EOF_CHAR) bytes),
                     deffile_content_size := sz\<rparr>))
    \<and> length (takeWhile (\<lambda>c. c \<noteq> EOF_CHAR) bytes) < sz"
  using assms content_loop_eq [of "[]" 1024 bytes]
  by (cases "content_loop bytes [] 1024") (auto simp: get_deffile_content_def)

lemma nth_drop_hd: "drop pos s = c # r \<Longrightarrow> s ! pos = c \<and> drop (Suc pos) s = r \<and> pos < length s"
  by (metis Cons_nth_drop_Suc drop_eq_Nil2 linorder_not_less list.distinct(1) list.inject)

lemma update_at_prefix: "length p < length buf \<Longrightarrow>
  (p @ drop (length p) buf)[length p := c] = (p @ [c]) @ drop (length (p @ [c])) buf"
  by (simp add: list_update_append drop_update_0)

lemma line_loop_inner:
  "drop pos content = l @ NEWLINE # rest \<Longrightarrow> rest \<noteq> [] \<Longrightarrow> NEWLINE \<notin> set l \<Longrightarrow>
   length p + length l < bufsize \<Longrightarrow> bufsize < length buf \<Longrightarrow>
   line_loop content (length content) bufsize (length p) (p @ drop (length p) buf) pos =
     (p @ l @ NEWLINE # NUL # drop (length p + length l + 2) buf, pos + length l + 1)"
proof (induction l arbitrary: p pos)
  case Nil
  then have d: "content ! pos = NEWLINE" "drop (Suc pos) content = rest"
    using nth_drop_hd [of pos content NEWLINE rest] by auto
  with Nil have "Suc pos \<noteq> length content"
    by auto
  moreover have "length (p @ [NEWLINE]) < length buf"
    using Nil by simp
  ultimately show ?case
    using Nil d update_at_prefix [of p buf NEWLINE] update_at_prefix [of "p @ [NEWLINE]" buf NUL]
    by (simp add: line_loop.simps Let_def nth_append)
next
  case (Cons c l)
  then have d: "content ! pos = c" "drop (Suc pos) content = l @ NEWLINE # rest"
    using nth_drop_hd [of pos content c "l @ NEWLINE # rest"] by auto
  then have "Suc pos \<noteq> length content" and "c \<noteq> NEWLINE"
    using Cons.prems by auto
  then have "line_loop content (length content) bufsize (length p) (p @ drop (length p) buf) pos =
      line_loop content (length content) bufsize (length (p @ [c]))
        ((p @ [c]) @ drop (length (p @ [c])) buf) (Suc pos)"
    using Cons.prems d update_at_prefix [of p buf c]
    by (subst line_loop.simps) (simp add: Let_def nth_append)
  also have "\<dots> = ((p @ [c]) @ l @ NEWLINE # NUL # drop (length (p @ [c]) + length l + 2) buf,
      Suc pos + length l + 1)"
    using Cons.prems d by (intro Cons.IH) auto
  finally show ?case
    by simp
qed

lemma line_loop_last:
  "drop pos content = t \<Longrightarrow> t \<noteq> [] \<Longrightarrow> NEWLINE \<notin> set (butlast t) \<Longrightarrow>
   length p + length t \<le> bufsize \<Longrightarrow> bufsize < length buf \<Longrightarrow>
   line_loop content (length content) bufsize (length p) (p @ drop (length p) buf) pos =
     (p @ t @ drop (length p + length t) buf, length content)"
proof (induction t arbitrary: p pos)
  case Nil
  then show ?case by simp
next
  case (Cons c t)
  then have d: "content ! pos = c" "drop (Suc pos) content = t" "pos < length content"
    using nth_drop_hd [of pos content c t] by auto
  show ?case
  proof (cases t)
    case Nil
    then have "Suc pos = length content"
      using d by simp
    then show ?thesis
      using Cons.prems d Nil update_at_prefix [of p buf c]
      by (subst line_loop.simps) (simp add: Let_def)
  next
    case (Cons b u)
    then have "Suc pos \<noteq> length content"
      using d by auto
    moreover have "c \<noteq> NEWLINE"
      using Cons.prems Cons by auto
    ultimately have "line_loop content (length content) bufsize (length p) (p @ drop (length p) buf) pos =
        line_loop content (length content) bufsize (length (p @ [c]))
          ((p @ [c]) @ drop (length (p @ [c])) buf) (Suc pos)"
      using Cons.prems d update_at_prefix [of p buf c]
      by (subst line_loop.simps) (simp add: Let_def nth_append)
    also have "\<dots> = ((p @ [c]) @ t @ drop (length (p @ [c]) + length t) buf, length content)"
      using Cons.prems Cons d by (intro Cons.IH) auto
    finally show ?thesis
      by simp
  qed
qed

lemma get_line_eq:
  assumes "deffile_content f = Some content" and "NUL \<notin> set content"
    and "NEWLINE \<notin> set l" and "length l + 1 < bufsize" and "bufsize < length buf"
    and "drop pos content = l @ NEWLINE # rest"
  shows "get_deffile_content_line (Some f) buf bufsize pos =
    (if rest = [] then (True, l @ NEWLINE # drop (length l + 1) buf, length content)
     else (True, l @ NEWLINE # NUL # drop (length l + 2) buf, pos + length l + 1))"
proof -
  have len: "strlen content = length content"
    using assms(2) by (simp add: strlen_def cstr_id)
  have pos: "pos < length content"
    using assms(6) by (cases "pos < length content") auto
  show ?thesis
  proof (cases "rest = []")
    case True
    then show ?thesis
      using line_loop_last [OF assms(6), of "[]" bufsize buf] assms pos len
      by (simp add: get_deffile_content_line_def butlast_append)
  next
    case False
    then show ?thesis
      using line_loop_inner [OF assms(6) False assms(3), of "[]" bufsize buf] assms pos len
      by (simp add: get_deffile_content_line_def)
  qed
qed

text \<open>
  Every line but the last is delivered with its newline and a NUL; the last line of the
  file is delivered without a NUL, so what the caller sees is that line followed by what the
  buffer still holds from the lines before.
\<close>

lemma content_line_delivered:
  assumes "deffile_content f = Some content" and "NUL \<notin> set content"
    and "NEWLINE \<notin> set l" and "length l + 1 < bufsize" and "bufsize < length buf"
    and "drop pos content = l @ NEWLINE # rest"
  shows "get_deffile_content_line (Some f) buf bufsize pos =
    (if rest = [] then (True, l @ NEWLINE # drop (length l + 1) buf, length content)
     else (True, l @ NEWLINE # NUL # drop (length l + 2) buf, pos + length l + 1))"
  using assms by (rule get_line_eq)

subsection \<open>What the missing NUL does\<close>

text \<open>A file of two rules whose second, shorter line does not end in a newline.\<close>

definition stale_example :: string where
  "stale_example = ''func12345 -- 100'' @ NEWLINE # ''foo -- 3''"

lemma chop_newline_line: "NUL \<notin> set t \<Longrightarrow> chop_newline (t @ NEWLINE # NUL # r) = t @ NUL # NUL # r"
proof -
  assume "NUL \<notin> set t"
  then have "strlen (t @ NEWLINE # NUL # r) = Suc (length t)"
    using strlen_append_NUL [of "t @ [NEWLINE]" r] by simp
  then show ?thesis
    by (simp add: chop_newline_def list_update_append nth_append)
qed

lemmas filter_eval = strtok_def pattern_loop.simps add_pattern_def strlen_def trim_def
  vt_strtrim_buffer terminated_def atoi_def strtol_def is_space_def is_digit_def
  digits_value_def digit_value_def chop_newline_def Let_def rule_line_def

lemma stale_rule1:
  "rule_line True (''func12345 -- 100'' @ NUL # r) f =
    Some (''func12345 '' @ NUL # ''- 100'' @ NUL # r,
     f\<lparr>assigns := assigns f @ [\<lparr>fa_climit = 101, fa_pattern = ''func12345''\<rparr>]\<rparr>, False)"
  by (simp add: filter_eval)

lemma stale_line1:
  "filter_line 0 s = Some (False, s\<lparr>sc_line := ''func12345 '' @ NUL # ''- 100'' @ NUL # NUL # r,
      sc_lineno := Suc (sc_lineno s), sc_err := False,
      sc_filter := (sc_filter s)\<lparr>assigns := assigns (sc_filter s) @
        [\<lparr>fa_climit = 101, fa_pattern = ''func12345''\<rparr>]\<rparr>\<rparr>)"
  if "sc_line s = ''func12345 -- 100'' @ NEWLINE # NUL # r" "sc_incl s"
proof -
  have 1: "chop_newline (sc_line s) = ''func12345 -- 100'' @ NUL # NUL # r"
    unfolding that(1) by (rule chop_newline_line) simp
  have 2: "vt_strtrim (''func12345 -- 100'' @ NUL # NUL # r) = ''func12345 -- 100'' @ NUL # NUL # r"
    by (simp add: filter_eval)
  show ?thesis
    unfolding filter_line_def 1 2 Let_def using stale_rule1 [of "NUL # r" "sc_filter s"] that(2)
    by (simp add: strlen_def)
qed

lemma stale_rule2:
  "rule_line True (''foo -- 35 '' @ NUL # r) f =
    Some (''foo '' @ NUL # ''- 35 '' @ NUL # r,
     f\<lparr>assigns := assigns f @ [\<lparr>fa_climit = 36, fa_pattern = ''foo''\<rparr>]\<rparr>, False)"
  by (simp add: filter_eval)

lemma stale_line2:
  "filter_line 0 s = Some (False, s\<lparr>sc_line := ''foo '' @ NUL # ''- 35'' @ NUL # NUL # r,
      sc_lineno := Suc (sc_lineno s), sc_err := False,
      sc_filter := (sc_filter s)\<lparr>assigns := assigns (sc_filter s) @
        [\<lparr>fa_climit = 36, fa_pattern = ''foo''\<rparr>]\<rparr>\<rparr>)"
  if "sc_line s = ''foo -- 35 '' @ NUL # r" "sc_incl s"
proof -
  have 1: "chop_newline (sc_line s) = ''foo -- 35 '' @ NUL # r"
    unfolding that(1) by (simp add: filter_eval)
  have 2: "vt_strtrim (''foo -- 35 '' @ NUL # r) = ''foo -- 35'' @ NUL # NUL # r"
    by (simp add: filter_eval)
  have 3: "rule_line True (''foo -- 35'' @ NUL # NUL # r) f =
    Some (''foo '' @ NUL # ''- 35'' @ NUL # NUL # r,
     f\<lparr>assigns := assigns f @ [\<lparr>fa_climit = 36, fa_pattern = ''foo''\<rparr>]\<rparr>, False)" for f
    by (simp add: filter_eval)
  show ?thesis
    unfolding filter_line_def 1 2 Let_def using 3 [of "sc_filter s"] that(2)
    by (simp add: strlen_def)
qed

lemma stale_content:
  "content_loop stale_example [] 1024 = (stale_example, 1024)"
  by (simp add: stale_example_def)

lemma length_ge_split: "n \<le> length l \<Longrightarrow> \<exists>xs ys. l = xs @ ys \<and> length xs = n"
  by (intro exI [of _ "take n l"] exI [of _ "drop n l"]) simp

lemma filter_loop_step:
  assumes "\<not> sc_off s" and "\<not> sc_err s"
    and "get_deffile_content_line (Some src) (sc_line s) (MAX_LINE_LEN - 1) (sc_pos s) = (True, l, p)"
    and "filter_line rank (s\<lparr>sc_line := l, sc_pos := p\<rparr>) = Some (False, s')"
  shows "filter_loop rank src s = filter_loop rank src s'"
  by (subst filter_loop.simps) (simp only: assms simp_thms if_False split_conv option.case prod.case)

lemma filter_loop_end:
  assumes "get_deffile_content_line (Some src) (sc_line s) (MAX_LINE_LEN - 1) (sc_pos s) = (False, l, p)"
  shows "filter_loop rank src s = Some s"
  by (subst filter_loop.simps) (simp only: assms simp_thms if_True if_cancel prod.case not_False_eq_True)

text \<open>
  In the file \<open>func12345 -- 100\<close>, newline, \<open>foo -- 3\<close> the second rule gives \<open>foo\<close> the
  limit 35 instead of 3: the digit 5 is left in the buffer from the first line.
\<close>

lemma last_rule_reads_stale_bytes:
  assumes "deffile_name f = Some name" and "deffile_content f = None"
    and "fs name = Some (''func12345 -- 100'' @ NEWLINE # ''foo -- 3'')"
    and "length junk = MAX_LINE_LEN"
  shows "map_option (\<lambda>(ok, g, off, err). (ok, map_option assigns g, off, err))
      (RFG_Filter_readDefFile fs junk (Some f) 0) =
    Some (True, Some [\<lparr>fa_climit = 101, fa_pattern = ''func12345''\<rparr>,
                      \<lparr>fa_climit = 36, fa_pattern = ''foo''\<rparr>], Some False, None)"
proof -
  let ?f = "f\<lparr>assigns := [], deffile_content := Some stale_example, deffile_content_size := 1024\<rparr>"
  let ?s0 = "\<lparr>sc_line = junk, sc_pos = 0, sc_lineno = 0, sc_incl = True, sc_off = False,
              sc_err = False, sc_filter = ?f\<rparr>"
  let ?a = "\<lparr>fa_climit = 101, fa_pattern = ''func12345''\<rparr>"
  let ?b = "\<lparr>fa_climit = 36, fa_pattern = ''foo''\<rparr>"
  let ?r = "drop 18 junk"
  let ?l1 = "''func12345 '' @ NUL # ''- 100'' @ NUL # NUL # ?r"
  let ?l2 = "''foo '' @ NUL # ''- 35'' @ NUL # NUL # drop 11 ?l1"
  let ?s1 = "?s0\<lparr>sc_line := ?l1, sc_pos := 17, sc_lineno := 1, sc_filter := ?f\<lparr>assigns := [?a]\<rparr>\<rparr>"
  let ?s2 = "?s0\<lparr>sc_line := ?l2, sc_pos := 25, sc_lineno := 2, sc_filter := ?f\<lparr>assigns := [?a, ?b]\<rparr>\<rparr>"
  have L: "length ''func12345 -- 100'' = 16"
    by simp
  have get1: "get_deffile_content_line (Some ?f) junk (MAX_LINE_LEN - 1) 0 =
      (True, ''func12345 -- 100'' @ NEWLINE # NUL # ?r, 17)"
    using get_line_eq [of ?f stale_example "''func12345 -- 100''" "MAX_LINE_LEN - 1" junk 0 "''foo -- 3''", unfolded L]
      assms(4)
    by (simp add: stale_example_def)
  have line1: "filter_line 0 (?s0\<lparr>sc_line := ''func12345 -- 100'' @ NEWLINE # NUL # ?r, sc_pos := 17\<rparr>) =
      Some (False, ?s1)"
    by (subst stale_line1 [where r = ?r]) simp_all
  have get2: "get_deffile_content_line (Some ?f) ?l1 (MAX_LINE_LEN - 1) 17 =
      (True, ''foo -- 35 '' @ NUL # drop 11 ?l1, 25)"
    using line_loop_last [of 17 stale_example "''foo -- 3''" "[]" "MAX_LINE_LEN - 1" ?l1] assms(4)
    by (simp add: get_deffile_content_line_def stale_example_def strlen_def)
  have line2: "filter_line 0 (?s1\<lparr>sc_line := ''foo -- 35 '' @ NUL # drop 11 ?l1, sc_pos := 25\<rparr>) =
      Some (False, ?s2)"
    by (subst stale_line2 [where r = "drop 11 ?l1"]) simp_all
  have get3: "get_deffile_content_line (Some ?f) ?l2 (MAX_LINE_LEN - 1) 25 = (False, ?l2, 25)"
    by (simp add: get_deffile_content_line_def stale_example_def strlen_def)
  have "filter_loop 0 ?f ?s0 = filter_loop 0 ?f ?s1"
    by (rule filter_loop_step [where l = "''func12345 -- 100'' @ NEWLINE # NUL # ?r" and p = 17])
      (simp_all only: filter_scan.select_convs get1 not_False_eq_True line1 [unfolded filter_scan.update_convs]
        filter_scan.update_convs)
  also have "\<dots> = filter_loop 0 ?f ?s2"
    by (rule filter_loop_step [where l = "''foo -- 35 '' @ NUL # drop 11 ?l1" and p = 25])
      (simp_all only: filter_scan.select_convs filter_scan.update_convs get2 not_False_eq_True
        line2 [unfolded filter_scan.update_convs])
  also have "\<dots> = Some ?s2"
    by (rule filter_loop_end [where l = ?l2 and p = 25])
      (simp only: filter_scan.select_convs filter_scan.update_convs get3)
  finally show ?thesis
    using assms stale_content
    by (simp add: RFG_Filter_readDefFile_def get_deffile_content_def stale_example_def)
qed

end
