(* ===== verification/RfgGroups.thy ===== *)
theory RfgGroups
  imports RfgFilter Tables
begin

text \<open>
  \<open>rfg/rfg_groups.c\<close>: the region groups. A definition file has lines
  \<open>GROUP=pattern;pattern;...\<close>; \<open>RFG_Groups_get\<close> finds the group of the first pattern that
  matches a region name.

  The file system \<open>fs\<close>, \<open>fnm\<close> for \<open>fnmatch\<close> and the results are as in \<open>RfgFilter\<close>. The arrays
  \<open>assigns\<close> and \<open>pattern\<close> are lists, their lengths the counters \<open>nassigns\<close> and \<open>npattern\<close>.
  Copying a name that does not fit into \<open>group[STRBUF_SIZE]\<close> or \<open>pattern[STRBUF_SIZE]\<close> writes
  past the end of the array: the result is \<open>None\<close>.
\<close>

section \<open>Data\<close>

record RFG_GroupsAssign =
  ga_group :: string
  ga_pattern :: "string list"

record RFG_Groups =
  gdeffile :: "string ptr"
  gassigns :: "RFG_GroupsAssign list"

section \<open>Construction and assignments\<close>

definition RFG_Groups_init :: "RFG_Groups ptr" where
  "RFG_Groups_init = Some \<lparr>gdeffile = None, gassigns = []\<rparr>"

fun RFG_Groups_free :: "RFG_Groups ptr \<Rightarrow> bool \<times> RFG_Groups ptr" where
  "RFG_Groups_free None = (False, None)"
| "RFG_Groups_free (Some g) = (True, None)"

fun RFG_Groups_setDefFile :: "RFG_Groups ptr \<Rightarrow> string \<Rightarrow> bool \<times> RFG_Groups ptr" where
  "RFG_Groups_setDefFile None deffile = (False, None)"
| "RFG_Groups_setDefFile (Some g) deffile = (True, Some (g\<lparr>gdeffile := Some deffile\<rparr>))"

text \<open>
  The body of \<open>RFG_Groups_addAssign\<close> behind its argument checks: the entry of the group is
  the first with its name, or a new one behind the others; the pattern is added to it.
\<close>

definition add_assign :: "RFG_GroupsAssign list \<Rightarrow> string \<Rightarrow> string \<Rightarrow> RFG_GroupsAssign list" where
  "add_assign as gname pattern =
     (let (i, as) = (case find_index (\<lambda>a. ga_group a = gname) as of
                       Some i \<Rightarrow> (i, as)
                     | None \<Rightarrow> (length as, as @ [\<lparr>ga_group = gname, ga_pattern = []\<rparr>]))
      in as[i := (as ! i)\<lparr>ga_pattern := ga_pattern (as ! i) @ [pattern]\<rparr>])"

fun RFG_Groups_addAssign ::
  "RFG_Groups ptr \<Rightarrow> string ptr \<Rightarrow> string ptr \<Rightarrow> bool \<times> RFG_Groups ptr" where
  "RFG_Groups_addAssign (Some g) (Some gname) (Some pattern) =
     (True, Some (g\<lparr>gassigns := add_assign (gassigns g) gname pattern\<rparr>))"
| "RFG_Groups_addAssign g _ _ = (False, g)"

section \<open>Lookup\<close>

text \<open>The inner loop over the patterns of one group, and the outer loop over the groups.\<close>

fun pattern_match :: "(string \<Rightarrow> string \<Rightarrow> bool) \<Rightarrow> string list \<Rightarrow> string \<Rightarrow> bool" where
  "pattern_match fnm [] rname = False"
| "pattern_match fnm (p # ps) rname = (if fnm p rname then True else pattern_match fnm ps rname)"

fun group_match :: "(string \<Rightarrow> string \<Rightarrow> bool) \<Rightarrow> RFG_GroupsAssign list \<Rightarrow> string \<Rightarrow> string option" where
  "group_match fnm [] rname = None"
| "group_match fnm (a # as) rname =
     (if pattern_match fnm (ga_pattern a) rname then Some (ga_group a) else group_match fnm as rname)"

text \<open>
  The flag and the group name stored through \<open>r_gname\<close>, itself possibly NULL; the outer
  \<open>None\<close> is the early return, which stores nothing.
\<close>

fun RFG_Groups_get ::
  "(string \<Rightarrow> string \<Rightarrow> bool) \<Rightarrow> RFG_Groups ptr \<Rightarrow> string ptr \<Rightarrow> bool \<times> string ptr option" where
  "RFG_Groups_get fnm (Some g) (Some rname) = (True, Some (group_match fnm (gassigns g) rname))"
| "RFG_Groups_get fnm _ _ = (False, None)"

section \<open>Reading the definition file\<close>

text \<open>
  The loop over the patterns of a line, from the position \<open>pos\<close> behind the equals sign;
  \<open>group\<close> is the trimmed group name.
\<close>

definition add_group_pattern :: "string \<Rightarrow> string \<Rightarrow> RFG_Groups \<Rightarrow> RFG_Groups option" where
  "add_group_pattern gname tok g =
     (if length tok \<ge> STRBUF_SIZE then None
      else (let pattern = vt_strtrim (tok @ [NUL])
            in if strlen pattern > 0
               then snd (RFG_Groups_addAssign (Some g) (Some gname) (Some (cstr pattern)))
               else Some g))"

function group_loop :: "string \<Rightarrow> nat \<Rightarrow> string \<Rightarrow> RFG_Groups \<Rightarrow> RFG_Groups option" where
  "group_loop line pos gname g =
     (case strtok CHR '';'' line pos of
        (None, line') \<Rightarrow> Some g
      | (Some (tok, nxt), line') \<Rightarrow>
          (case add_group_pattern gname tok g of
             None \<Rightarrow> None
           | Some g' \<Rightarrow> group_loop line' nxt gname g'))"
  by pat_completeness auto
termination
proof (relation "measure (\<lambda>(line, pos, gname, g). length line - pos)", goal_cases)
  case 1
  show ?case by simp
next
  case (2 line pos gname g p line' q tok nxt g')
  then show ?case
    using strtok_Some [of "CHR '';''" line pos tok nxt line'] by auto
qed

declare group_loop.simps [simp del]

text \<open>
  The body of the loop over the lines, for the line that \<open>fgets\<close> left in \<open>orgline\<close>: the
  groups and \<open>parse_err\<close>. A line of blanks is not skipped: its first character after the
  trimming is the NUL, not \<open>#\<close>, and it has no equals sign.
\<close>

definition groups_line :: "string \<Rightarrow> RFG_Groups \<Rightarrow> (RFG_Groups \<times> bool) option" where
  "groups_line orgline g =
     (let line = cstr (chop_newline orgline) @ [NUL]
      in if strlen line = 0 then Some (g, False)
         else
           (let line = vt_strtrim line
            in if line ! 0 = CHR ''#'' then Some (g, False)
               else
                 (case strchr (cstr line) CHR ''='' of
                    None \<Rightarrow> Some (g, True)
                  | Some p \<Rightarrow>
                      (let line = line[p := NUL]
                       in if strlen line \<ge> STRBUF_SIZE then None
                          else
                            (let gname = cstr (vt_strtrim (cstr line @ [NUL]))
                             in if fst (strtok CHR '';'' line (Suc p)) = None then Some (g, True)
                                else map_option (\<lambda>g. (g, False)) (group_loop line (Suc p) gname g))))))"

text \<open>
  The loop: the bytes left in the file, the number of lines read and the groups. The result
  is the groups and the number of the line that could not be parsed.
\<close>

function groups_loop :: "string \<Rightarrow> nat \<Rightarrow> RFG_Groups \<Rightarrow> (RFG_Groups \<times> nat option) option" where
  "groups_loop bytes lineno g =
     (if bytes = [] then Some (g, None)
      else
        (let (l, bytes') = fgets (MAX_LINE_LEN - 2) bytes
         in case groups_line (l @ [NUL]) g of
              None \<Rightarrow> None
            | Some (g', err) \<Rightarrow>
                if err then Some (g', Some (Suc lineno)) else groups_loop bytes' (Suc lineno) g'))"
  by pat_completeness auto
termination
proof (relation "measure (\<lambda>(bytes, lineno, g). length bytes)", goal_cases)
  case 1
  show ?case by simp
next
  case (2 bytes lineno g p l bytes' q g' err)
  then have "bytes' = snd (fgets (MAX_LINE_LEN - 2) bytes)" and "bytes \<noteq> []"
    by (metis snd_conv)+
  then have "length bytes' < length bytes"
    by (simp only:) (rule fgets_progress, simp_all)
  then show ?case
    by simp
qed

declare groups_loop.simps [simp del]

text \<open>
  The flag, the groups and the line of the message that a line could not be parsed. Without a
  definition file the function succeeds.
\<close>

definition RFG_Groups_readDefFile ::
  "(string \<rightharpoonup> string) \<Rightarrow> RFG_Groups ptr \<Rightarrow> (bool \<times> RFG_Groups ptr \<times> nat option) option" where
  "RFG_Groups_readDefFile fs groups =
     (case groups of
        None \<Rightarrow> Some (False, None, None)
      | Some g \<Rightarrow>
          (case gdeffile g of
             None \<Rightarrow> Some (True, Some g, None)
           | Some name \<Rightarrow>
               (case fs name of
                  None \<Rightarrow> Some (False, Some g, None)
                | Some bytes \<Rightarrow>
                    (case groups_loop bytes 0 g of
                       None \<Rightarrow> None
                     | Some (g', err) \<Rightarrow> Some (err = None, Some g', err)))))"

section \<open>Assignments\<close>

text \<open>Every group has one entry; the abstraction of the array is the map from groups to patterns.\<close>

definition groups_ok :: "RFG_GroupsAssign list \<Rightarrow> bool" where
  "groups_ok as \<longleftrightarrow> distinct (map ga_group as) \<and> (\<forall>a \<in> set as. ga_pattern a \<noteq> [])"

definition patterns_of :: "RFG_GroupsAssign list \<Rightarrow> string \<rightharpoonup> string list" where
  "patterns_of as = map_of (map (\<lambda>a. (ga_group a, ga_pattern a)) as)"

lemma add_assign_new:
  "\<forall>a \<in> set as. ga_group a \<noteq> gname \<Longrightarrow>
   add_assign as gname p = as @ [\<lparr>ga_group = gname, ga_pattern = [p]\<rparr>]"
  by (simp add: add_assign_def find_index_None [THEN iffD2])

lemma add_assign_old:
  "\<forall>a \<in> set as. ga_group a \<noteq> gname \<Longrightarrow> ga_group a = gname \<Longrightarrow>
   add_assign (as @ a # bs) gname p = as @ a\<lparr>ga_pattern := ga_pattern a @ [p]\<rparr> # bs"
  by (simp add: add_assign_def find_index_append find_index_None [THEN iffD2])

text \<open>The entry of the group, when there is one, is the first of its name.\<close>

lemma group_split:
  assumes "\<exists>a \<in> set as. ga_group a = gname"
  shows "\<exists>xs a ys. as = xs @ a # ys \<and> ga_group a = gname \<and> (\<forall>b \<in> set xs. ga_group b \<noteq> gname)"
  using split_list_first_prop [OF assms] by blast

lemma add_assign_refines:
  assumes "groups_ok as"
  shows "groups_ok (add_assign as gname p)"
    and "patterns_of (add_assign as gname p) =
      (patterns_of as)(gname \<mapsto> (case patterns_of as gname of None \<Rightarrow> [] | Some ps \<Rightarrow> ps) @ [p])"
proof -
  have "groups_ok (add_assign as gname p) \<and> patterns_of (add_assign as gname p) =
      (patterns_of as)(gname \<mapsto> (case patterns_of as gname of None \<Rightarrow> [] | Some ps \<Rightarrow> ps) @ [p])"
  proof (cases "\<exists>a \<in> set as. ga_group a = gname")
    case True
    then obtain xs a ys where as: "as = xs @ a # ys" and a: "ga_group a = gname"
      and xs: "\<forall>b \<in> set xs. ga_group b \<noteq> gname"
      using group_split by blast
    have new: "add_assign as gname p = xs @ a\<lparr>ga_pattern := ga_pattern a @ [p]\<rparr> # ys"
      using as a xs by (simp add: add_assign_old)
    have none: "map_of (map (\<lambda>a. (ga_group a, ga_pattern a)) xs) gname = None"
      using xs by (auto simp: map_of_eq_None_iff)
    then have old: "patterns_of as gname = Some (ga_pattern a)"
      using as a by (simp add: patterns_of_def map_add_def)
    have "patterns_of (add_assign as gname p) k =
        ((patterns_of as)(gname \<mapsto> ga_pattern a @ [p])) k" for k
      unfolding new patterns_of_def using as a none by (simp add: map_add_def split: option.split)
    then show ?thesis
      using assms as a new old by (auto simp: groups_ok_def)
  next
    case False
    then have new: "add_assign as gname p = as @ [\<lparr>ga_group = gname, ga_pattern = [p]\<rparr>]"
      by (simp add: add_assign_new)
    have old: "patterns_of as gname = None"
      using False by (auto simp: patterns_of_def map_of_eq_None_iff)
    then have "patterns_of (add_assign as gname p) k = ((patterns_of as)(gname \<mapsto> [p])) k" for k
      by (auto simp: new patterns_of_def map_add_def split: option.split)
    then show ?thesis
      using assms False new old by (auto simp: groups_ok_def)
  qed
  then show "groups_ok (add_assign as gname p)"
    and "patterns_of (add_assign as gname p) =
      (patterns_of as)(gname \<mapsto> (case patterns_of as gname of None \<Rightarrow> [] | Some ps \<Rightarrow> ps) @ [p])"
    by simp_all
qed

text \<open>All patterns of a group, added one by one, make one entry behind the others.\<close>

lemma foldl_add_assign:
  "\<forall>a \<in> set as. ga_group a \<noteq> gname \<Longrightarrow>
   foldl (\<lambda>as p. add_assign as gname p) (as @ [\<lparr>ga_group = gname, ga_pattern = qs\<rparr>]) ps =
     as @ [\<lparr>ga_group = gname, ga_pattern = qs @ ps\<rparr>]"
  by (induction ps arbitrary: qs) (simp_all add: add_assign_old)

lemma foldl_add_assign_new:
  "\<forall>a \<in> set as. ga_group a \<noteq> gname \<Longrightarrow> ps \<noteq> [] \<Longrightarrow>
   foldl (\<lambda>as p. add_assign as gname p) as ps = as @ [\<lparr>ga_group = gname, ga_pattern = ps\<rparr>]"
  by (cases ps) (simp_all add: add_assign_new foldl_add_assign)

section \<open>Lines\<close>

definition line_patterns :: "string list \<Rightarrow> string list" where
  "line_patterns toks = filter (\<lambda>p. p \<noteq> []) (map trim toks)"

lemma add_group_pattern_eq:
  "NUL \<notin> set tok \<Longrightarrow> add_group_pattern gname tok g =
     (if length tok \<ge> STRBUF_SIZE then None
      else Some (g\<lparr>gassigns := foldl (\<lambda>as p. add_assign as gname p) (gassigns g) (line_patterns [tok])\<rparr>))"
  by (auto simp: add_group_pattern_def line_patterns_def strlen_def)

lemma group_loop_eq:
  "group_loop line pos gname g =
     (let toks = tokens CHR '';'' (cstr (drop pos line))
      in if \<exists>t \<in> set toks. length t \<ge> STRBUF_SIZE then None
         else Some (g\<lparr>gassigns := foldl (\<lambda>as p. add_assign as gname p) (gassigns g) (line_patterns toks)\<rparr>))"
proof (induction line pos gname g rule: group_loop.induct)
  case (1 line pos gname g)
  obtain r line' where strtok: "strtok CHR '';'' line pos = (r, line')"
    by (cases "strtok CHR '';'' line pos")
  show ?case
  proof (cases r)
    case None
    then have "tokens CHR '';'' (cstr (drop pos line)) = []"
      using strtok_None_iff [of "CHR '';''" line pos] strtok by simp
    then show ?thesis
      using None strtok by (simp add: group_loop.simps [of line] line_patterns_def)
  next
    case (Some q)
    obtain tok nxt where q: "q = (tok, nxt)"
      by (cases q)
    have toks: "tokens CHR '';'' (cstr (drop pos line)) = tok # tokens CHR '';'' (cstr (drop nxt line'))"
      using strtok_Some(1) [of "CHR '';''" line pos tok nxt line'] strtok Some q by simp
    then have "NUL \<notin> set tok"
      using tokens_no_NUL [of tok "CHR '';''" "drop pos line"] by simp
    note add = add_group_pattern_eq [OF this, of gname g]
    show ?thesis
    proof (cases "length tok \<ge> STRBUF_SIZE")
      case True
      then show ?thesis
        using strtok Some q toks add by (simp add: group_loop.simps [of line])
    next
      case False
      then show ?thesis
        using "1" [OF strtok [symmetric] Some q [symmetric]] strtok Some q toks add
        by (simp add: group_loop.simps [of line] Let_def line_patterns_def)
    qed
  qed
qed

lemma groups_line_eq:
  assumes "trim (cstr (chop_newline orgline)) = gname @ CHR ''='' # pats"
    and "CHR ''='' \<notin> set gname" and "hd (gname @ ''='') \<noteq> CHR ''#''"
  shows "groups_line orgline g =
    (if length gname \<ge> STRBUF_SIZE then None
     else if tokens CHR '';'' pats = [] then Some (g, True)
     else if \<exists>t \<in> set (tokens CHR '';'' pats). length t \<ge> STRBUF_SIZE then None
     else Some (g\<lparr>gassigns := foldl (\<lambda>as p. add_assign as (trim gname) p) (gassigns g)
                    (line_patterns (tokens CHR '';'' pats))\<rparr>, False))"
proof -
  let ?t = "gname @ CHR ''='' # pats"
  let ?line = "cstr (chop_newline orgline) @ [NUL]"
  have t: "terminated ?line" and c: "cstr ?line = cstr (chop_newline orgline)"
    by (simp_all add: terminated_def cstr_append_NUL)
  then have trimmed: "cstr (vt_strtrim ?line) = ?t"
    using assms(1) by (simp add: cstr_strtrim)
  obtain r where line: "vt_strtrim ?line = ?t @ NUL # r"
    using vt_strtrim_terminated [OF t] assms(1) c by metis
  have nul: "NUL \<notin> set ?t"
    using trimmed cstr_no_NUL by metis
  have "strlen ?line \<noteq> 0"
    using assms(1) c by (auto simp: strlen_def trim_def)
  moreover have "vt_strtrim ?line ! 0 \<noteq> CHR ''#''"
    using assms(3) by (cases gname) (simp_all add: line)
  moreover have "strchr ?t CHR ''='' = Some (length gname)"
    using assms(2) by (simp add: strchr_append)
  moreover have upd: "(vt_strtrim ?line)[length gname := NUL] = gname @ NUL # pats @ NUL # r"
    by (simp add: line list_update_append)
  moreover have "cstr (gname @ NUL # pats @ NUL # r) = gname"
    and pats: "cstr (drop (Suc (length gname)) (gname @ NUL # pats @ NUL # r)) = pats"
    using nul by (simp_all add: cstr_append_NUL)
  moreover have "cstr (vt_strtrim (gname @ [NUL])) = trim gname"
    using nul by (simp add: cstr_strtrim_token)
  moreover have "fst (strtok CHR '';'' (gname @ NUL # pats @ NUL # r) (Suc (length gname))) = None
      \<longleftrightarrow> tokens CHR '';'' pats = []"
    using strtok_None_iff [of "CHR '';''" "gname @ NUL # pats @ NUL # r" "Suc (length gname)"] pats
    by simp
  ultimately show ?thesis
    by (simp add: groups_line_def Let_def trimmed group_loop_eq strlen_def del: drop_append)
qed

section \<open>Reading back a printed file\<close>

definition name_ok :: "string \<Rightarrow> bool" where
  "name_ok s \<longleftrightarrow> s \<noteq> [] \<and> hd s \<noteq> BLANK \<and> last s \<noteq> BLANK \<and> length s < STRBUF_SIZE
     \<and> NUL \<notin> set s \<and> NEWLINE \<notin> set s \<and> CHR '';'' \<notin> set s"

definition group_text :: "RFG_GroupsAssign \<Rightarrow> string" where
  "group_text a = ga_group a @ CHR ''='' # join CHR '';'' (ga_pattern a)"

definition print_groups :: "RFG_GroupsAssign list \<Rightarrow> string" where
  "print_groups as = concat (map (\<lambda>a. group_text a @ [NEWLINE]) as)"

definition group_ok :: "RFG_GroupsAssign \<Rightarrow> bool" where
  "group_ok a \<longleftrightarrow> name_ok (ga_group a) \<and> CHR ''='' \<notin> set (ga_group a) \<and> hd (ga_group a) \<noteq> CHR ''#''
     \<and> ga_pattern a \<noteq> [] \<and> (\<forall>p \<in> set (ga_pattern a). name_ok p)
     \<and> length (group_text a) < MAX_LINE_LEN - 2"

lemma join_set: "set (join d fs) \<subseteq> insert d (\<Union> (set ` set fs))"
  by (induction d fs rule: join.induct) auto

lemma join_last: "fs \<noteq> [] \<Longrightarrow> \<forall>f \<in> set fs. f \<noteq> [] \<Longrightarrow> join d fs \<noteq> [] \<and> last (join d fs) = last (last fs)"
  by (induction d fs rule: join.induct) auto

lemma group_text_chars:
  assumes "group_ok a"
  shows "NUL \<notin> set (group_text a)" and "NEWLINE \<notin> set (group_text a)"
    and "trim (group_text a) = group_text a"
proof -
  have "set (join CHR '';'' (ga_pattern a)) \<subseteq> insert CHR '';'' (\<Union> (set ` set (ga_pattern a)))"
    by (rule join_set)
  then show "NUL \<notin> set (group_text a)" and "NEWLINE \<notin> set (group_text a)"
    using assms by (auto simp: group_ok_def name_ok_def group_text_def)
  have "last (join CHR '';'' (ga_pattern a)) = last (last (ga_pattern a))"
    and "join CHR '';'' (ga_pattern a) \<noteq> []" and "last (ga_pattern a) \<in> set (ga_pattern a)"
    using assms join_last [of "ga_pattern a" "CHR '';''"] by (auto simp: group_ok_def name_ok_def)
  then show "trim (group_text a) = group_text a"
    using assms by (intro trim_id) (auto simp: group_ok_def name_ok_def group_text_def)
qed

lemma groups_line_text:
  assumes a: "group_ok a" and fresh: "\<forall>b \<in> set (gassigns g). ga_group b \<noteq> ga_group a"
  shows "groups_line ((group_text a @ [NEWLINE]) @ [NUL]) g =
    Some (g\<lparr>gassigns := gassigns g @ [a]\<rparr>, False)"
proof -
  have chop: "chop_newline ((group_text a @ [NEWLINE]) @ [NUL]) = group_text a @ NUL # [NUL]"
    using chop_newline_line [OF group_text_chars(1) [OF a], of "[]"] by simp
  then have "cstr (chop_newline ((group_text a @ [NEWLINE]) @ [NUL])) = group_text a"
    using group_text_chars(1) [OF a] by (simp only:) (rule cstr_append_NUL)
  then have 1: "trim (cstr (chop_newline ((group_text a @ [NEWLINE]) @ [NUL]))) =
      ga_group a @ CHR ''='' # join CHR '';'' (ga_pattern a)"
    using group_text_chars(3) [OF a] by (simp add: group_text_def)
  have toks: "tokens CHR '';'' (join CHR '';'' (ga_pattern a)) = ga_pattern a"
    using a by (intro tokens_join) (auto simp: group_ok_def name_ok_def)
  have "map trim (ga_pattern a) = ga_pattern a"
    using a by (intro map_idI) (auto simp: group_ok_def name_ok_def intro: trim_id)
  then have pats: "line_patterns (ga_pattern a) = ga_pattern a"
    using a by (auto simp: line_patterns_def group_ok_def name_ok_def filter_id_conv)
  have g: "trim (ga_group a) = ga_group a" "length (ga_group a) < STRBUF_SIZE"
    and short: "\<not> (\<exists>t \<in> set (ga_pattern a). length t \<ge> STRBUF_SIZE)" and "ga_pattern a \<noteq> []"
    using a by (auto simp: group_ok_def name_ok_def intro: trim_id)
  have "hd (ga_group a @ ''='') \<noteq> CHR ''#''" and "CHR ''='' \<notin> set (ga_group a)"
    using a by (auto simp: group_ok_def name_ok_def)
  then show ?thesis
    using groups_line_eq [OF 1, of g] g short \<open>ga_pattern a \<noteq> []\<close>
    by (simp add: toks pats foldl_add_assign_new [OF fresh])
qed

lemma groups_loop_print:
  assumes "\<forall>a \<in> set as. group_ok a" and "distinct (map ga_group (gassigns g @ as))"
  shows "groups_loop (print_groups as) n g = Some (g\<lparr>gassigns := gassigns g @ as\<rparr>, None)"
  using assms
proof (induction as arbitrary: n g)
  case Nil
  then show ?case by (simp add: print_groups_def groups_loop.simps)
next
  case (Cons a as)
  let ?g = "g\<lparr>gassigns := gassigns g @ [a]\<rparr>"
  have bytes: "print_groups (a # as) = group_text a @ NEWLINE # print_groups as"
    by (simp add: print_groups_def)
  have "fgets (MAX_LINE_LEN - 2) (group_text a @ NEWLINE # print_groups as) =
      (group_text a @ [NEWLINE], print_groups as)"
    using Cons.prems group_text_chars(2) [of a] by (intro fgets_line) (auto simp: group_ok_def)
  moreover have "groups_line ((group_text a @ [NEWLINE]) @ [NUL]) g = Some (?g, False)"
    using Cons.prems by (intro groups_line_text) (force simp: image_iff)+
  ultimately have "groups_loop (print_groups (a # as)) n g = groups_loop (print_groups as) (Suc n) ?g"
    by (subst groups_loop.simps) (simp only: bytes split_conv Let_def option.case prod.case if_False
      append_is_Nil_conv list.distinct simp_thms)
  also have "\<dots> = Some (?g\<lparr>gassigns := gassigns ?g @ as\<rparr>, None)"
    using Cons.prems by (intro Cons.IH) auto
  finally show ?case
    by simp
qed

section \<open>Properties\<close>

text \<open>
  C35: adding a pattern to a group appends it to the patterns of that group and leaves those of
  every other group, and every group still has exactly one entry with at least one pattern.
\<close>

theorem addAssign_refines_map:
  assumes "groups_ok (gassigns g)"
  shows "\<exists>g'. RFG_Groups_addAssign (Some g) (Some gname) (Some p) = (True, Some g')
    \<and> groups_ok (gassigns g') \<and> gdeffile g' = gdeffile g
    \<and> patterns_of (gassigns g') = (patterns_of (gassigns g))
        (gname \<mapsto> (case patterns_of (gassigns g) gname of None \<Rightarrow> [] | Some ps \<Rightarrow> ps) @ [p])"
  using add_assign_refines [OF assms] by simp

theorem addAssign_refines_map_witness:
  "\<exists>g'. RFG_Groups_addAssign
      (Some \<lparr>gdeffile = None, gassigns = [\<lparr>ga_group = ''A'', ga_pattern = [''x'']\<rparr>]\<rparr>)
      (Some ''A'') (Some ''y'') = (True, Some g') \<and> patterns_of (gassigns g') ''A'' = Some [''x'', ''y'']"
  using addAssign_refines_map
    [of "\<lparr>gdeffile = None, gassigns = [\<lparr>ga_group = ''A'', ga_pattern = [''x'']\<rparr>]\<rparr>" "''A''" "''y''"]
  by (auto simp: groups_ok_def patterns_of_def)

text \<open>
  C34: reading a definition file that was printed from a list of groups yields exactly these
  groups, with their patterns in their order, and no parse error; the names have no blank at
  an end, no separator and fewer than 1024 characters, and a line fits into the line buffer.
\<close>

theorem groups_file_roundtrip:
  assumes "fs name = Some (print_groups as)" and "\<forall>a \<in> set as. group_ok a"
    and "distinct (map ga_group as)"
  shows "RFG_Groups_readDefFile fs (snd (RFG_Groups_setDefFile RFG_Groups_init name)) =
    Some (True, Some \<lparr>gdeffile = Some name, gassigns = as\<rparr>, None)"
  using assms groups_loop_print [of as "\<lparr>gdeffile = Some name, gassigns = []\<rparr>" 0]
  by (simp add: RFG_Groups_readDefFile_def RFG_Groups_init_def)

theorem groups_file_roundtrip_witness:
  "RFG_Groups_readDefFile
     [''f'' \<mapsto> print_groups [\<lparr>ga_group = ''MPI'', ga_pattern = [''MPI_*'', ''PMPI_*'']\<rparr>,
                           \<lparr>ga_group = ''IO'', ga_pattern = [''read'']\<rparr>]]
     (snd (RFG_Groups_setDefFile RFG_Groups_init ''f'')) =
   Some (True, Some \<lparr>gdeffile = Some ''f'',
     gassigns = [\<lparr>ga_group = ''MPI'', ga_pattern = [''MPI_*'', ''PMPI_*'']\<rparr>,
                 \<lparr>ga_group = ''IO'', ga_pattern = [''read'']\<rparr>]\<rparr>, None)"
  by (rule groups_file_roundtrip) (simp_all add: group_ok_def name_ok_def group_text_def)

text \<open>
  A group name of 1024 characters or more, alone on its line with patterns behind the equals
  sign, is copied past the end of \<open>group[STRBUF_SIZE]\<close>.
\<close>

lemma long_group_name_overflows:
  assumes "gdeffile g = Some name" and "fs name = Some (gname @ CHR ''='' # pats @ NEWLINE # rest)"
    and "STRBUF_SIZE \<le> length gname" and "length gname + length pats < MAX_LINE_LEN - 3"
    and "set gname \<inter> {NUL, NEWLINE, CHR ''=''} = {}" and "hd gname \<notin> {BLANK, CHR ''#''}"
    and "set pats \<inter> {NUL, NEWLINE, BLANK} = {}"
  shows "RFG_Groups_readDefFile fs (Some g) = None"
proof -
  let ?t = "gname @ CHR ''='' # pats"
  have "last ?t \<noteq> BLANK"
    using assms(7) by (cases pats rule: rev_cases) auto
  moreover have "gname \<noteq> []"
    using assms(3) by auto
  ultimately have t: "trim ?t = ?t"
    using assms(6) by (intro trim_id) auto
  have nul: "NUL \<notin> set ?t" and nl: "NEWLINE \<notin> set ?t"
    using assms by auto
  have "fgets (MAX_LINE_LEN - 2) (?t @ NEWLINE # rest) = (?t @ [NEWLINE], rest)"
    using assms(4) nl by (intro fgets_line) auto
  moreover have "groups_line ((?t @ [NEWLINE]) @ [NUL]) g = None"
  proof -
    have "chop_newline ((?t @ [NEWLINE]) @ [NUL]) = ?t @ NUL # [NUL]"
      using chop_newline_line [OF nul, of "[]"] by simp
    then have "cstr (chop_newline ((?t @ [NEWLINE]) @ [NUL])) = ?t"
      by (simp only:) (rule cstr_append_NUL [OF nul])
    then show ?thesis
      using groups_line_eq [of "(?t @ [NEWLINE]) @ [NUL]" gname pats g] t assms by (auto simp: hd_append)
  qed
  moreover have "gname @ CHR ''='' # pats @ NEWLINE # rest = ?t @ NEWLINE # rest"
    by simp
  ultimately have "groups_loop (gname @ CHR ''='' # pats @ NEWLINE # rest) 0 g = None"
    by (subst groups_loop.simps) (simp only: split_conv Let_def option.case prod.case if_False
      append_is_Nil_conv list.distinct simp_thms)
  then show ?thesis
    using assms by (simp add: RFG_Groups_readDefFile_def)
qed

end
