(* ===== verification/RfgRegions.thy ===== *)
theory RfgRegions
  imports RfgGroups
begin

text \<open>
  \<open>rfg/rfg_regions.c\<close>: what the tracing library knows of every region (its group and its call
  limit) in a hash table by region id, and the call stack whose pushes count the limit down.

  The chains of the hash table are lists (the field \<open>next\<close> is the tail). A pointer to a node,
  as it is kept on the call stack, is the region id of the node: a region has at most one node,
  nodes are never removed, and a node is changed only through such a pointer (\<open>node_write\<close>).
  The entries that the call stack has allocated and not yet written are \<open>None\<close>.
\<close>

section \<open>Data\<close>

abbreviation CSTACK_BSIZE :: nat where
  "CSTACK_BSIZE \<equiv> 128"

abbreviation HASH_MAX :: nat where
  "HASH_MAX \<equiv> 1021"

record RFG_RegionInfo =
  regionId :: u32
  groupName :: "string ptr"
  regionName :: string
  callLimit :: int
  callLimitCD :: int

record RFG_RegionStackEntry =
  rinf :: u32
  climitbypush :: int

record RFG_RegionStack =
  entries :: "RFG_RegionStackEntry option list"
  spos :: int
  ssize :: nat

type_synonym rfg_htab = "nat \<Rightarrow> RFG_RegionInfo list"

record RFG_Regions =
  rfilter :: "RFG_Filter ptr"
  rgroups :: "RFG_Groups ptr"
  rstack :: RFG_RegionStack
  htab :: rfg_htab

section \<open>The hash table\<close>

definition bucket :: "u32 \<Rightarrow> nat" where
  "bucket h = unat h mod HASH_MAX"

definition hash_put :: "rfg_htab \<Rightarrow> u32 \<Rightarrow> string ptr \<Rightarrow> string \<Rightarrow> int \<Rightarrow> rfg_htab" where
  "hash_put t h g r l =
     t(bucket h := \<lparr>regionId = h, groupName = g, regionName = r, callLimit = l, callLimitCD = l\<rparr>
                     # t (bucket h))"

definition hash_get :: "rfg_htab \<Rightarrow> u32 \<Rightarrow> RFG_RegionInfo option" where
  "hash_get t h = chain_find (\<lambda>n. regionId n = h) (t (bucket h))"

text \<open>A write through the pointer to the node of the region \<open>h\<close>.\<close>

definition node_write :: "rfg_htab \<Rightarrow> u32 \<Rightarrow> (RFG_RegionInfo \<Rightarrow> RFG_RegionInfo) \<Rightarrow> rfg_htab" where
  "node_write t h f = t(bucket h := map (\<lambda>n. if regionId n = h then f n else n) (t (bucket h)))"

section \<open>The call stack\<close>

definition stack_init :: RFG_RegionStack where
  "stack_init = \<lparr>entries = replicate CSTACK_BSIZE None, spos = - 1, ssize = CSTACK_BSIZE\<rparr>"

definition stack_enlarge :: "RFG_RegionStack \<Rightarrow> RFG_RegionStack" where
  "stack_enlarge st = st\<lparr>entries := entries st @ replicate CSTACK_BSIZE None,
                         ssize := ssize st + CSTACK_BSIZE\<rparr>"

section \<open>Construction and settings\<close>

definition RFG_Regions_init :: "RFG_Regions ptr" where
  "RFG_Regions_init = Some \<lparr>rfilter = RFG_Filter_init, rgroups = RFG_Groups_init,
                            rstack = stack_init, htab = (\<lambda>_. [])\<rparr>"

text \<open>The returned flag; the object is gone either way.\<close>

fun RFG_Regions_free :: "RFG_Regions ptr \<Rightarrow> bool \<times> RFG_Regions ptr" where
  "RFG_Regions_free None = (False, None)"
| "RFG_Regions_free (Some r) =
     (fst (RFG_Filter_free (rfilter r)) \<and> fst (RFG_Groups_free (rgroups r)), None)"

fun RFG_Regions_setFilterDefFile :: "RFG_Regions ptr \<Rightarrow> string \<Rightarrow> bool \<times> RFG_Regions ptr" where
  "RFG_Regions_setFilterDefFile None deffile = (False, None)"
| "RFG_Regions_setFilterDefFile (Some r) deffile =
     (if rfilter r = None then (False, Some r)
      else (let (ok, f) = RFG_Filter_setDefFile (rfilter r) deffile
            in (ok, Some (r\<lparr>rfilter := f\<rparr>))))"

fun RFG_Regions_setGroupsDefFile :: "RFG_Regions ptr \<Rightarrow> string \<Rightarrow> bool \<times> RFG_Regions ptr" where
  "RFG_Regions_setGroupsDefFile None deffile = (False, None)"
| "RFG_Regions_setGroupsDefFile (Some r) deffile =
     (if rgroups r = None then (False, Some r)
      else (let (ok, g) = RFG_Groups_setDefFile (rgroups r) deffile
            in (ok, Some (r\<lparr>rgroups := g\<rparr>))))"

text \<open>The results are those of \<open>RFG_Filter_readDefFile\<close>, with the whole object.\<close>

fun RFG_Regions_readFilterDefFile ::
  "(string \<rightharpoonup> string) \<Rightarrow> string \<Rightarrow> RFG_Regions ptr \<Rightarrow> int \<Rightarrow>
   (bool \<times> RFG_Regions ptr \<times> bool option \<times> nat option) option" where
  "RFG_Regions_readFilterDefFile fs junk None rank = Some (False, None, None, None)"
| "RFG_Regions_readFilterDefFile fs junk (Some r) rank =
     (if rfilter r = None then Some (False, Some r, None, None)
      else map_option (\<lambda>(ok, f, off, err). (ok, Some (r\<lparr>rfilter := f\<rparr>), off, err))
             (RFG_Filter_readDefFile fs junk (rfilter r) rank))"

fun RFG_Regions_readGroupsDefFile ::
  "(string \<rightharpoonup> string) \<Rightarrow> RFG_Regions ptr \<Rightarrow> (bool \<times> RFG_Regions ptr \<times> nat option) option" where
  "RFG_Regions_readGroupsDefFile fs None = Some (False, None, None)"
| "RFG_Regions_readGroupsDefFile fs (Some r) =
     (if rgroups r = None then Some (False, Some r, None)
      else map_option (\<lambda>(ok, g, err). (ok, Some (r\<lparr>rgroups := g\<rparr>), err))
             (RFG_Groups_readDefFile fs (rgroups r)))"

text \<open>The parameter is a \<open>uint32_t\<close>, that of the filter an \<open>int32_t\<close>.\<close>

fun RFG_Regions_setDefaultCallLimit :: "RFG_Regions ptr \<Rightarrow> u32 \<Rightarrow> bool \<times> RFG_Regions ptr" where
  "RFG_Regions_setDefaultCallLimit None limit = (False, None)"
| "RFG_Regions_setDefaultCallLimit (Some r) limit =
     (if rfilter r = None then (False, Some r)
      else (let (ok, f) = RFG_Filter_setDefaultCallLimit (rfilter r) (sint limit)
            in (ok, Some (r\<lparr>rfilter := f\<rparr>))))"

text \<open>The loop over the \<open>n\<close> patterns of the variable argument list.\<close>

fun add_group_loop :: "RFG_Groups ptr \<Rightarrow> string \<Rightarrow> string ptr list \<Rightarrow> bool \<times> RFG_Groups ptr" where
  "add_group_loop g gname [] = (True, g)"
| "add_group_loop g gname (p # ps) =
     (let (ok, g') = RFG_Groups_addAssign g (Some gname) p
      in if \<not> ok then (False, g') else add_group_loop g' gname ps)"

fun RFG_Regions_addGroupAssign ::
  "RFG_Regions ptr \<Rightarrow> string ptr \<Rightarrow> string ptr list \<Rightarrow> bool \<times> RFG_Regions ptr" where
  "RFG_Regions_addGroupAssign (Some r) (Some gname) ps =
     (if rgroups r = None then (False, Some r)
      else (let (ok, g) = add_group_loop (rgroups r) gname ps
            in (ok, Some (r\<lparr>rgroups := g\<rparr>))))"
| "RFG_Regions_addGroupAssign r _ _ = (False, r)"

section \<open>Filtered regions\<close>

definition RFG_Regions_getFilteredRegions :: "RFG_Regions ptr \<Rightarrow> bool \<times> RFG_RegionInfo list" where
  "RFG_Regions_getFilteredRegions regions =
     (case regions of
        None \<Rightarrow> (False, [])
      | Some r \<Rightarrow>
          (True, concat (map (\<lambda>i. filter (\<lambda>n. callLimitCD n = 0) (htab r i)) [0..<HASH_MAX])))"

definition filtered_line :: "RFG_RegionInfo \<Rightarrow> string" where
  "filtered_line n =
     regionName n @ CHR '':'' # dec_int (if callLimit n = 0 then 0 else wrap32 (callLimit n - 1))
       @ [NEWLINE]"

text \<open>
  \<open>can_open\<close> says whether the file can be created. The result is the flag and the text
  written, \<open>None\<close> when no file is opened.
\<close>

definition RFG_Regions_dumpFilteredRegions ::
  "RFG_Regions ptr \<Rightarrow> bool \<Rightarrow> bool \<times> string option" where
  "RFG_Regions_dumpFilteredRegions regions can_open =
     (case regions of
        None \<Rightarrow> (False, None)
      | Some r \<Rightarrow>
          (let rinfs = snd (RFG_Regions_getFilteredRegions (Some r))
           in if length rinfs = 0 then (True, None)
              else if \<not> can_open then (False, None)
              else (True, Some
                (''# list of regions, which are denied or whose call limit are reached'' @ NEWLINE #
                 ''# (region:limit)'' @ NEWLINE # concat (map filtered_line rinfs)))))"

section \<open>Regions and the call stack\<close>

definition RFG_Regions_get :: "RFG_Regions ptr \<Rightarrow> u32 \<Rightarrow> RFG_RegionInfo ptr" where
  "RFG_Regions_get regions rid =
     (case regions of None \<Rightarrow> None | Some r \<Rightarrow> hash_get (htab r) rid)"

fun RFG_Regions_add ::
  "(string \<Rightarrow> string \<Rightarrow> bool) \<Rightarrow> RFG_Regions ptr \<Rightarrow> string ptr \<Rightarrow> u32 \<Rightarrow>
   RFG_RegionInfo ptr \<times> RFG_Regions ptr" where
  "RFG_Regions_add fnm (Some r) (Some rname) rid =
     (case hash_get (htab r) rid of
        Some n \<Rightarrow> (Some n, Some r)
      | None \<Rightarrow>
          (case RFG_Groups_get fnm (rgroups r) (Some rname) of
             (True, Some gname) \<Rightarrow>
               (case RFG_Filter_get fnm (rfilter r) (Some rname) of
                  (True, Some climit) \<Rightarrow>
                    (let t = hash_put (htab r) rid gname rname climit
                     in (hash_get t rid, Some (r\<lparr>htab := t\<rparr>)))
                | _ \<Rightarrow> (None, Some r))
           | _ \<Rightarrow> (None, Some r)))"
| "RFG_Regions_add fnm r _ rid = (None, r)"

text \<open>The flag, the object and the region info stored through \<open>r_rinf\<close>.\<close>

definition RFG_Regions_stackPush ::
  "RFG_Regions ptr \<Rightarrow> u32 \<Rightarrow> bool \<Rightarrow> bool \<times> RFG_Regions ptr \<times> RFG_RegionInfo ptr" where
  "RFG_Regions_stackPush regions rid decr =
     (case regions of
        None \<Rightarrow> (False, None, None)
      | Some r \<Rightarrow>
          (case RFG_Regions_get (Some r) rid of
             None \<Rightarrow> (False, Some r, None)
           | Some n \<Rightarrow>
               (let st = (if spos (rstack r) + 1 = wrap32 (int (ssize (rstack r)))
                          then stack_enlarge (rstack r) else rstack r);
                    t = (if decr \<and> callLimitCD n > 0
                         then node_write (htab r) rid (\<lambda>n. n\<lparr>callLimitCD := callLimitCD n - 1\<rparr>)
                         else htab r);
                    n' = the (hash_get t rid);
                    p = spos st + 1;
                    st = st\<lparr>spos := p, entries := (entries st)
                              [nat p := Some \<lparr>rinf = rid, climitbypush = callLimitCD n'\<rparr>]\<rparr>
                in (True, Some (r\<lparr>rstack := st, htab := t\<rparr>), Some n'))))"

text \<open>
  The flag, the object, and the region and the call limit stored through \<open>r_rinf\<close> and
  \<open>r_climitbypush\<close>; reading an entry that was never written would be the inner \<open>None\<close>.
\<close>

definition RFG_Regions_stackPop ::
  "RFG_Regions ptr \<Rightarrow> bool \<times> RFG_Regions ptr \<times> RFG_RegionStackEntry option" where
  "RFG_Regions_stackPop regions =
     (case regions of
        None \<Rightarrow> (False, None, None)
      | Some r \<Rightarrow>
          (if spos (rstack r) = - 1 then (False, Some r, None)
           else (True, Some (r\<lparr>rstack := (rstack r)\<lparr>spos := spos (rstack r) - 1\<rparr>\<rparr>),
                 entries (rstack r) ! nat (spos (rstack r)))))"

section \<open>The hash table as a map\<close>

text \<open>Every node is in the chain of its id, and no chain has two nodes of one region.\<close>

definition htab_ok :: "rfg_htab \<Rightarrow> bool" where
  "htab_ok t \<longleftrightarrow> (\<forall>b. distinct (map regionId (t b)) \<and> (\<forall>n \<in> set (t b). bucket (regionId n) = b))"

lemma bucket_less [simp]: "bucket h < HASH_MAX"
  by (simp add: bucket_def)

lemma hash_get_put:
  "hash_get (hash_put t h g r l) k =
     (if k = h then Some \<lparr>regionId = h, groupName = g, regionName = r, callLimit = l, callLimitCD = l\<rparr>
      else hash_get t k)"
  by (simp add: hash_get_def hash_put_def)

lemma hash_get_write:
  assumes "\<And>n. regionId (f n) = regionId n"
  shows "hash_get (node_write t h f) k = (if k = h then map_option f (hash_get t k) else hash_get t k)"
proof (cases "k = h")
  case True
  have "List.find (\<lambda>n. regionId n = h) (map (\<lambda>n. if regionId n = h then f n else n) xs) =
      map_option f (List.find (\<lambda>n. regionId n = h) xs)" for xs
    by (induction xs) (auto simp: assms)
  then show ?thesis
    using True by (simp add: hash_get_def node_write_def)
next
  case False
  have "List.find (\<lambda>n. regionId n = k) (map (\<lambda>n. if regionId n = h then f n else n) xs) =
      List.find (\<lambda>n. regionId n = k) xs" for xs
    using False by (induction xs) (auto simp: assms)
  then show ?thesis
    using False by (simp add: hash_get_def node_write_def)
qed

text \<open>What \<open>hash_put\<close> stores of a region.\<close>

definition region_data :: "rfg_htab \<Rightarrow> u32 \<Rightarrow> (string ptr \<times> string \<times> int) option" where
  "region_data t h = map_option (\<lambda>n. (groupName n, regionName n, callLimit n)) (hash_get t h)"

definition put_data :: "rfg_htab \<Rightarrow> u32 \<Rightarrow> string ptr \<times> string \<times> int \<Rightarrow> rfg_htab" where
  "put_data t h d = (case d of (g, r, l) \<Rightarrow> hash_put t h g r l)"

interpretation regions: keyed_table region_data put_data "\<lambda>_. []"
proof
  show "region_data (\<lambda>_. []) k = None" for k
    by (simp add: region_data_def hash_get_def)
  show "region_data (put_data t k v) k' = (if k' = k then Some v else region_data t k')" for t k v k'
    by (cases v) (simp add: region_data_def put_data_def hash_get_put)
qed

lemma hash_get_id: "hash_get t h = Some n \<Longrightarrow> regionId n = h \<and> n \<in> set (t (bucket h))"
  unfolding hash_get_def using find_Some_in by fastforce

lemma hash_get_iff:
  assumes "htab_ok t"
  shows "hash_get t h = Some n \<longleftrightarrow> n \<in> set (t (bucket h)) \<and> regionId n = h"
proof
  assume "n \<in> set (t (bucket h)) \<and> regionId n = h"
  then have n: "n \<in> set (t (bucket h))" "regionId n = h"
    by simp_all
  then have "hash_get t h \<noteq> None"
    by (auto simp only: hash_get_def find_None_in)
  then obtain m where m: "hash_get t h = Some m"
    by blast
  have "inj_on regionId (set (t (bucket h)))"
    using assms by (simp add: htab_ok_def distinct_map)
  then have "n = m"
    using n hash_get_id [OF m] by (auto dest: inj_onD)
  then show "hash_get t h = Some n"
    using m by simp
qed (use hash_get_id in blast)

lemma htab_ok_put:
  assumes "htab_ok t" and "hash_get t h = None"
  shows "htab_ok (hash_put t h g r l)"
proof -
  have "h \<notin> regionId ` set (t (bucket h))"
    using assms(2) by (auto simp: hash_get_def find_None_in)
  then show ?thesis
    using assms(1) by (auto simp: htab_ok_def hash_put_def)
qed

lemma htab_ok_write:
  assumes "htab_ok t" and "\<And>n. regionId (f n) = regionId n"
  shows "htab_ok (node_write t h f)"
proof -
  have "map regionId (map (\<lambda>n. if regionId n = h then f n else n) xs) = map regionId xs" for xs
    by (induction xs) (auto simp: assms(2))
  then have "map regionId (node_write t h f b) = map regionId (t b)" for b
    by (simp add: node_write_def del: map_map)
  moreover have "regionId ` set (node_write t h f b) = regionId ` set (t b)" for b
    using calculation [of b] by (metis list.set_map)
  ultimately show ?thesis
    using assms(1) by (auto simp: htab_ok_def) (metis (mono_tags) image_iff)
qed

section \<open>The call stack as a list\<close>

definition stack_ok :: "RFG_RegionStack \<Rightarrow> bool" where
  "stack_ok st \<longleftrightarrow> length (entries st) = ssize st \<and> - 1 \<le> spos st \<and> spos st < int (ssize st)
     \<and> (\<forall>i. int i \<le> spos st \<longrightarrow> entries st ! i \<noteq> None)"

definition stack_abs :: "RFG_RegionStack \<Rightarrow> RFG_RegionStackEntry list" where
  "stack_abs st = map the (take (nat (spos st + 1)) (entries st))"

lemma stack_ok_init: "stack_ok stack_init" and stack_abs_init: "stack_abs stack_init = []"
  by (simp_all add: stack_ok_def stack_init_def stack_abs_def)

definition stack_room :: "RFG_RegionStack \<Rightarrow> RFG_RegionStack" where
  "stack_room st = (if spos st + 1 = wrap32 (int (ssize st)) then stack_enlarge st else st)"

lemma stack_room_ok:
  assumes "stack_ok st" and "ssize st < 2147483648"
  shows "stack_ok (stack_room st)" and "stack_abs (stack_room st) = stack_abs st"
    and "spos (stack_room st) = spos st" and "spos st + 1 < int (ssize (stack_room st))"
  using assms by (auto simp: stack_room_def stack_enlarge_def stack_ok_def stack_abs_def nth_append)

text \<open>Writing the entry above the top of a stack that has room for it.\<close>

definition stack_write :: "RFG_RegionStack \<Rightarrow> RFG_RegionStackEntry \<Rightarrow> RFG_RegionStack" where
  "stack_write st e = st\<lparr>spos := spos st + 1, entries := (entries st)[nat (spos st + 1) := Some e]\<rparr>"

lemma stack_write_ok:
  assumes "stack_ok st" and "spos st + 1 < int (ssize st)"
  shows "stack_ok (stack_write st e)" and "stack_abs (stack_write st e) = stack_abs st @ [e]"
proof -
  obtain p where p: "spos st + 1 = int p"
    using nonneg_int_cases [of "spos st + 1"] assms(1) by (auto simp: stack_ok_def)
  then have "p < length (entries st)" and pos: "spos st = int p - 1"
    using assms by (auto simp: stack_ok_def)
  then show "stack_ok (stack_write st e)" and "stack_abs (stack_write st e) = stack_abs st @ [e]"
    using assms by (auto simp: stack_ok_def stack_write_def stack_abs_def nth_list_update
      take_Suc_conv_app_nth nat_add_distrib)
qed

lemma stack_top:
  assumes "stack_ok st" and "spos st \<noteq> - 1"
  shows "stack_abs st \<noteq> []" and "entries st ! nat (spos st) = Some (last (stack_abs st))"
    and "stack_ok (st\<lparr>spos := spos st - 1\<rparr>)" and "stack_abs (st\<lparr>spos := spos st - 1\<rparr>) = butlast (stack_abs st)"
proof -
  obtain p where p: "spos st = int p"
    using nonneg_int_cases [of "spos st"] assms by (auto simp: stack_ok_def)
  then have lt: "p < length (entries st)" and some: "entries st ! p \<noteq> None"
    using assms by (auto simp: stack_ok_def)
  then have abs: "stack_abs st = map the (take p (entries st)) @ [the (entries st ! p)]"
    by (simp add: stack_abs_def p nat_add_distrib take_Suc_conv_app_nth)
  show "stack_abs st \<noteq> []" and "entries st ! nat (spos st) = Some (last (stack_abs st))"
    using some by (auto simp: abs p)
  show "stack_ok (st\<lparr>spos := spos st - 1\<rparr>)"
    using assms p by (auto simp: stack_ok_def)
  show "stack_abs (st\<lparr>spos := spos st - 1\<rparr>) = butlast (stack_abs st)"
    by (simp add: abs) (simp add: stack_abs_def p)
qed

lemma stack_empty_iff: "stack_ok st \<Longrightarrow> spos st = - 1 \<longleftrightarrow> stack_abs st = []"
  using stack_top(1) by (auto simp: stack_abs_def)

section \<open>Pushes\<close>

text \<open>What a push does to the count-down of its region.\<close>

definition counted :: "bool \<Rightarrow> RFG_RegionInfo \<Rightarrow> RFG_RegionInfo" where
  "counted decr n = (if decr \<and> callLimitCD n > 0 then n\<lparr>callLimitCD := callLimitCD n - 1\<rparr> else n)"

lemma push_eq:
  assumes "hash_get (htab r) rid = Some n"
  shows "\<exists>t. RFG_Regions_stackPush (Some r) rid decr =
      (True, Some (r\<lparr>rstack := stack_write (stack_room (rstack r))
                                 \<lparr>rinf = rid, climitbypush = callLimitCD (counted decr n)\<rparr>,
                    htab := t\<rparr>), Some (counted decr n))
    \<and> (\<forall>k. hash_get t k = (if k = rid then Some (counted decr n) else hash_get (htab r) k))
    \<and> (htab_ok (htab r) \<longrightarrow> htab_ok t)"
proof -
  let ?f = "\<lambda>n. n\<lparr>callLimitCD := callLimitCD n - 1\<rparr>"
  let ?t = "if decr \<and> callLimitCD n > 0 then node_write (htab r) rid ?f else htab r"
  have get: "hash_get ?t k = (if k = rid then Some (counted decr n) else hash_get (htab r) k)" for k
    using assms by (simp add: hash_get_write counted_def)
  moreover have "htab_ok (htab r) \<longrightarrow> htab_ok ?t"
    by (simp add: htab_ok_write)
  ultimately show ?thesis
    using assms by (intro exI [of _ ?t])
      (simp add: RFG_Regions_stackPush_def RFG_Regions_get_def Let_def stack_room_def stack_write_def)
qed

section \<open>Sequences of pushes and pops\<close>

datatype stack_op = Push u32 bool | Pop

fun stack_step :: "stack_op \<Rightarrow> RFG_Regions ptr \<Rightarrow> RFG_Regions ptr" where
  "stack_step (Push rid decr) r = fst (snd (RFG_Regions_stackPush r rid decr))"
| "stack_step Pop r = fst (snd (RFG_Regions_stackPop r))"

definition stack_run :: "stack_op list \<Rightarrow> RFG_Regions ptr \<Rightarrow> RFG_Regions ptr" where
  "stack_run ops r = fold stack_step ops r"

text \<open>The pushes of a region that count, and what they leave of a limit.\<close>

fun counts :: "u32 \<Rightarrow> stack_op \<Rightarrow> bool" where
  "counts rid (Push h decr) = (h = rid \<and> decr)"
| "counts rid Pop = False"

definition pushes :: "u32 \<Rightarrow> stack_op list \<Rightarrow> nat" where
  "pushes rid ops = length (filter (counts rid) ops)"

definition remaining :: "int \<Rightarrow> nat \<Rightarrow> int" where
  "remaining l k = (if l > 0 then max 0 (l - int k) else l)"

lemma remaining_0 [simp]: "remaining l 0 = l"
  by (simp add: remaining_def)

lemma remaining_Suc: "remaining (if l > 0 then l - 1 else l) k = remaining l (Suc k)"
  by (auto simp: remaining_def)

lemma stack_step_table:
  assumes "hash_get (htab r) rid = Some n"
  shows "\<exists>r' n'. stack_step op (Some r) = Some r' \<and> hash_get (htab r') rid = Some n'
    \<and> n' = n\<lparr>callLimitCD := (if counts rid op \<and> callLimitCD n > 0 then callLimitCD n - 1 else callLimitCD n)\<rparr>
    \<and> (htab_ok (htab r) \<longrightarrow> htab_ok (htab r'))"
proof (cases op)
  case (Push h decr)
  show ?thesis
  proof (cases "hash_get (htab r) h")
    case None
    then have "h \<noteq> rid"
      using assms by auto
    then show ?thesis
      using None Push assms by (simp add: RFG_Regions_stackPush_def RFG_Regions_get_def)
  next
    case (Some m)
    obtain t where t: "stack_step op (Some r) = Some (r\<lparr>rstack := stack_write (stack_room (rstack r))
              \<lparr>rinf = h, climitbypush = callLimitCD (counted decr m)\<rparr>, htab := t\<rparr>)"
      "\<forall>k. hash_get t k = (if k = h then Some (counted decr m) else hash_get (htab r) k)"
      "htab_ok (htab r) \<longrightarrow> htab_ok t"
      using push_eq [OF Some, of decr] Push by auto
    then show ?thesis
      using Some Push assms by (auto simp: counted_def)
  qed
next
  case Pop
  then show ?thesis
    using assms by (auto simp: RFG_Regions_stackPop_def)
qed

lemma stack_run_table:
  "hash_get (htab r) rid = Some n \<Longrightarrow>
   \<exists>r'. stack_run ops (Some r) = Some r'
     \<and> hash_get (htab r') rid = Some (n\<lparr>callLimitCD := remaining (callLimitCD n) (pushes rid ops)\<rparr>)
     \<and> (htab_ok (htab r) \<longrightarrow> htab_ok (htab r'))"
proof (induction ops arbitrary: r n)
  case Nil
  then show ?case by (simp add: stack_run_def pushes_def)
next
  case (Cons op ops)
  let ?n = "n\<lparr>callLimitCD := (if counts rid op \<and> callLimitCD n > 0 then callLimitCD n - 1 else callLimitCD n)\<rparr>"
  obtain r' where r': "stack_step op (Some r) = Some r'" "hash_get (htab r') rid = Some ?n"
    "htab_ok (htab r) \<longrightarrow> htab_ok (htab r')"
    using stack_step_table [OF Cons.prems, of op] by auto
  show ?case
    using Cons.IH [OF r'(2)] r' remaining_Suc [of "callLimitCD n" "pushes rid ops"]
    by (auto simp: stack_run_def pushes_def)
qed

section \<open>The list of filtered regions\<close>

lemma filtered_set:
  assumes "htab_ok (htab r)"
  shows "n \<in> set (snd (RFG_Regions_getFilteredRegions (Some r))) \<longleftrightarrow>
    hash_get (htab r) (regionId n) = Some n \<and> callLimitCD n = 0"
proof -
  have "n \<in> set (snd (RFG_Regions_getFilteredRegions (Some r))) \<longleftrightarrow>
      (\<exists>i < HASH_MAX. n \<in> set (htab r i)) \<and> callLimitCD n = 0"
    by (auto simp: RFG_Regions_getFilteredRegions_def)
  moreover have "(\<exists>i < HASH_MAX. n \<in> set (htab r i)) \<longleftrightarrow> n \<in> set (htab r (bucket (regionId n)))"
    using assms by (auto simp: htab_ok_def intro: bucket_less)
  ultimately show ?thesis
    using hash_get_iff [OF assms, of "regionId n" n] by simp
qed

section \<open>Properties\<close>

text \<open>
  The first registration of a region stores its name, the group of the first matching
  pattern and the call limit of the first matching filter rule (or the default limit), the
  count-down starting at the limit; no other region changes, the table stays well-formed, and
  every later registration of the id, under any name, only returns that region.
\<close>

lemma first_registration_wins:
  assumes "hash_get (htab r) rid = None" and "rgroups r = Some g" and "rfilter r = Some f"
    and "htab_ok (htab r)"
  shows "\<exists>n r'. RFG_Regions_add fnm (Some r) (Some rname) rid = (Some n, Some r')
    \<and> n = (let l = (case filter_match fnm (assigns f) rname of Some l \<Rightarrow> l | None \<Rightarrow> default_call_limit f)
           in \<lparr>regionId = rid, groupName = group_match fnm (gassigns g) rname, regionName = rname,
               callLimit = l, callLimitCD = l\<rparr>)
    \<and> htab_ok (htab r')
    \<and> (\<forall>k. RFG_Regions_get (Some r') k = (if k = rid then Some n else RFG_Regions_get (Some r) k))
    \<and> (\<forall>other. RFG_Regions_add fnm (Some r') (Some other) rid = (Some n, Some r'))"
  using assms by (simp add: hash_get_put RFG_Regions_get_def htab_ok_put Let_def)

text \<open>
  C36: a push of a known region puts one entry on top of the call stack, with the call limit
  that is left after it, enlarging the array when it is full; it counts the limit down by one
  when asked to and the limit is positive, and changes nothing else of any region.
\<close>

theorem push_refines_stack:
  assumes "hash_get (htab r) rid = Some n" and "stack_ok (rstack r)"
    and "ssize (rstack r) < 2147483648"
  shows "\<exists>r'. RFG_Regions_stackPush (Some r) rid decr = (True, Some r', Some (counted decr n))
    \<and> stack_ok (rstack r')
    \<and> stack_abs (rstack r') =
        stack_abs (rstack r) @ [\<lparr>rinf = rid, climitbypush = callLimitCD (counted decr n)\<rparr>]
    \<and> (\<forall>k. RFG_Regions_get (Some r') k =
          (if k = rid then Some (counted decr n) else RFG_Regions_get (Some r) k))"
proof -
  let ?e = "\<lparr>rinf = rid, climitbypush = callLimitCD (counted decr n)\<rparr>"
  note room = stack_room_ok [OF assms(2,3)]
  have "stack_ok (stack_write (stack_room (rstack r)) ?e)"
    and "stack_abs (stack_write (stack_room (rstack r)) ?e) = stack_abs (rstack r) @ [?e]"
    using room by (auto intro: stack_write_ok(1) simp: stack_write_ok(2))
  then show ?thesis
    using push_eq [OF assms(1), of decr] by (auto simp: RFG_Regions_get_def)
qed

theorem push_refines_stack_witness:
  "\<exists>r'. RFG_Regions_stackPush (Some ((the RFG_Regions_init)\<lparr>htab := hash_put (\<lambda>_. []) 7 None ''f'' 2\<rparr>)) 7 True
      = (True, Some r', Some \<lparr>regionId = 7, groupName = None, regionName = ''f'', callLimit = 2, callLimitCD = 1\<rparr>)
    \<and> stack_abs (rstack r') = [\<lparr>rinf = 7, climitbypush = 1\<rparr>]"
  using push_refines_stack [of "(the RFG_Regions_init)\<lparr>htab := hash_put (\<lambda>_. []) 7 None ''f'' 2\<rparr>" 7
      "\<lparr>regionId = 7, groupName = None, regionName = ''f'', callLimit = 2, callLimitCD = 2\<rparr>" True]
  by (auto simp: RFG_Regions_init_def hash_get_put stack_ok_init stack_abs_init stack_init_def counted_def)
    (auto simp: stack_ok_def stack_abs_def)

text \<open>
  A pop takes the top entry of the call stack, or reports the underflow of an empty one
  and changes nothing; it never reads an entry that was not written.
\<close>

lemma pop_refines_stack:
  assumes "stack_ok (rstack r)"
  shows "\<exists>st. stack_ok st \<and> stack_abs st = butlast (stack_abs (rstack r))
    \<and> RFG_Regions_stackPop (Some r) =
        (if stack_abs (rstack r) = [] then (False, Some r, None)
         else (True, Some (r\<lparr>rstack := st\<rparr>), Some (last (stack_abs (rstack r)))))"
proof (cases "spos (rstack r) = - 1")
  case True
  then show ?thesis
    using assms stack_empty_iff [OF assms]
    by (intro exI [of _ "rstack r"]) (simp add: RFG_Regions_stackPop_def)
next
  case False
  then show ?thesis
    using stack_top [OF assms False]
    by (intro exI [of _ "(rstack r)\<lparr>spos := spos (rstack r) - 1\<rparr>"]) (simp add: RFG_Regions_stackPop_def)
qed

text \<open>
  C37: over any sequence of pushes and pops, a region whose limit \<open>L\<close> is not yet counted down
  is listed as filtered exactly when \<open>L\<close> is 0, or \<open>L\<close> is positive and at least \<open>L\<close> counted
  pushes of that region are in the sequence: pushes of other regions, uncounted pushes and
  pops do not matter, and an unlimited region (-1) is never filtered.
\<close>

theorem filtered_iff_limit_reached:
  assumes "htab_ok (htab r)" and "hash_get (htab r) rid = Some n" and "callLimitCD n = callLimit n"
  shows "(\<exists>m \<in> set (snd (RFG_Regions_getFilteredRegions (stack_run ops (Some r)))). regionId m = rid) =
    (callLimit n = 0 \<or> (0 < callLimit n \<and> callLimit n \<le> int (pushes rid ops)))"
proof -
  let ?m = "n\<lparr>callLimitCD := remaining (callLimit n) (pushes rid ops)\<rparr>"
  obtain r' where r': "stack_run ops (Some r) = Some r'" "hash_get (htab r') rid = Some ?m" "htab_ok (htab r')"
    using stack_run_table [OF assms(2), of ops] assms by auto
  have "(\<exists>m \<in> set (snd (RFG_Regions_getFilteredRegions (Some r'))). regionId m = rid) \<longleftrightarrow>
      callLimitCD ?m = 0"
    using filtered_set [OF r'(3)] r'(2) hash_get_id by (metis option.inject)
  then show ?thesis
    by (auto simp: r'(1) remaining_def)
qed

theorem filtered_iff_limit_reached_witness:
  "\<exists>m \<in> set (snd (RFG_Regions_getFilteredRegions (stack_run [Push 7 True, Pop, Push 7 True]
      (Some ((the RFG_Regions_init)\<lparr>htab := hash_put (\<lambda>_. []) 7 None ''f'' 2\<rparr>))))). regionId m = 7"
  using filtered_iff_limit_reached [of "(the RFG_Regions_init)\<lparr>htab := hash_put (\<lambda>_. []) 7 None ''f'' 2\<rparr>" 7
      "\<lparr>regionId = 7, groupName = None, regionName = ''f'', callLimit = 2, callLimitCD = 2\<rparr>"
      "[Push 7 True, Pop, Push 7 True]"]
  by (simp add: hash_get_put pushes_def RFG_Regions_init_def htab_ok_put htab_ok_def hash_get_def hash_put_def)

end
