(* ===== verification/TraceState.thy ===== *)
theory TraceState
  imports TraceBuf OtfSum RfgRegions
begin

unbundle bit_operations_syntax

text \<open>
  The state of the trace generator and of the tracing core (\<open>vtlib/vt_otf_gen.c\<close>,
  \<open>vtlib/vt_trc.c\<close>, \<open>vtlib/vt_thrd.h\<close>), and the writers \<open>VTGen_write_*\<close>.

  The configuration is that of a sequential MPI program: one thread, with region filters and
  without hardware, resource usage, CPU id or plugin counters, so that \<open>vt_update_counter\<close> does
  nothing. A result \<open>Inl\<close> is a write behind the allocated buffer, the end of the program by
  \<open>vt_error\<close> or \<open>vt_assert\<close>, or the end of the fuel.

  A writer that finds the buffer full calls \<open>VTGen_flush\<close>, which may call writers again, and the
  statistics call \<open>VTSum_dump\<close>. These two are the parameter \<open>c\<close> of the writers here; the theory
  \<open>OtfGen\<close> defines them and closes the recursion.
\<close>

section \<open>State\<close>

datatype vt_error = OutOfBounds | Aborted | OutOfFuel

datatype trace_status = VT_TRACE_ON | VT_TRACE_OFF | VT_TRACE_OFF_PERMANENT

record VTGen =
  fileprefix :: "string option"
  filecomp :: bool
  tname :: string
  tnamesuffix :: string
  ptid :: u32
  tid :: u32
  flushcntr :: u32
  isfirstflush :: bool
  mode :: u8
  sum_props :: u8
  rewind_pos :: "nat option"
  rewind_time :: u64
  vtsum :: "VTSum option"
  buf :: VTBuf

text \<open>The thread, the static variables of the tracing core, the clock and the OTF stream.\<close>

record vt =
  gen :: VTGen
  stack_level :: int
  stack_level_at_off :: int
  stack_level_at_rewind_mark :: int
  trace_status :: trace_status
  rfg_regions :: "RFG_Regions ptr"
  curid :: u32
  htab_sfile :: "nat \<Rightarrow> (string \<times> u32) list"
  htab_rdesc :: "nat \<Rightarrow> (string \<times> u32) list"
  trc_mid :: "nat \<Rightarrow> u32"
  vt_is_alive :: bool
  trace_is_disabled :: bool
  SumIntv :: u64
  ticks :: nat
  otf :: "otf_call list"

text \<open>What the program reads from its environment, the platform, and the OTF and C libraries.\<close>

record env =
  otf_consts_of :: otf_consts
  wtime :: "nat \<Rightarrow> u64"
  clockres :: u64
  my_trace :: int
  ldir_check :: bool
  ldir_writable :: bool
  gdir_check :: bool
  gdir_writable :: bool
  env_mode :: int
  env_stat_props :: int
  env_stat_msg_dtls :: int
  env_stat_collop_dtls :: int
  env_stat_intv :: int
  env_max_flushes :: int
  max_stack_depth :: int
  regid :: "nat \<Rightarrow> u32"
  node_name :: string
  env_fileprefix :: string
  PACKAGE_STRING :: string
  open_stream_ok :: bool
  compression_ok :: bool
  vsnprintf0 :: "string \<Rightarrow> string"
  fnm :: "string \<Rightarrow> string \<Rightarrow> bool"
  num_traces :: int
  sync_flush_env :: bool
  sync_flush_level_env :: int

abbreviation (input) VT_MODE_TRACE :: u8 where "VT_MODE_TRACE \<equiv> 1"
abbreviation (input) VT_MODE_STAT :: u8 where "VT_MODE_STAT \<equiv> 2"
abbreviation (input) VT__TRC_USER :: nat where "VT__TRC_USER \<equiv> 0"
abbreviation (input) VT__TRC_SYNC :: nat where "VT__TRC_SYNC \<equiv> 1"
abbreviation (input) VT__TRC_FLUSH :: nat where "VT__TRC_FLUSH \<equiv> 3"
abbreviation (input) VT__TRC_STAT :: nat where "VT__TRC_STAT \<equiv> 4"
abbreviation (input) VT__TRC_OFF :: nat where "VT__TRC_OFF \<equiv> 5"
abbreviation (input) VT__TRC_REWIND :: nat where "VT__TRC_REWIND \<equiv> 6"
abbreviation (input) VT__TRC_MARKER_ERROR :: nat where "VT__TRC_MARKER_ERROR \<equiv> 0"
abbreviation (input) VT__TRC_MARKER_WARNING :: nat where "VT__TRC_MARKER_WARNING \<equiv> 1"
abbreviation (input) VT__TRC_MARKER_HINT :: nat where "VT__TRC_MARKER_HINT \<equiv> 2"
abbreviation (input) VT_NO_ID :: u32 where "VT_NO_ID \<equiv> 0xFFFFFFFF"
abbreviation (input) VT_NO_LNO :: u32 where "VT_NO_LNO \<equiv> 0xFFFFFFFF"
abbreviation (input) VT_IOOP_DUP :: u32 where "VT_IOOP_DUP \<equiv> 7"

section \<open>Sequencing\<close>

text \<open>Going on unless there was an error.\<close>

definition andThen :: "'e + 'a \<Rightarrow> ('a \<Rightarrow> 'e + 'b) \<Rightarrow> 'e + 'b" where
  "andThen r f = (case r of Inl e \<Rightarrow> Inl e | Inr x \<Rightarrow> f x)"

lemma andThen_simps [simp]: "andThen (Inl e) f = Inl e" "andThen (Inr x) f = f x"
  by (simp_all add: andThen_def)

lemma andThen_cong [fundef_cong]:
  "r = r' \<Longrightarrow> (\<And>x. r' = Inr x \<Longrightarrow> f x = f' x) \<Longrightarrow> andThen r f = andThen r' f'"
  by (auto simp: andThen_def split: sum.splits)

lemma andThen_Inr: "andThen r f = Inr y \<longleftrightarrow> (\<exists>x. r = Inr x \<and> f x = Inr y)"
  by (auto simp: andThen_def split: sum.splits)

text \<open>The functions that the writers call back.\<close>

record callees =
  c_flush :: "bool \<Rightarrow> u64 \<Rightarrow> vt \<Rightarrow> vt_error + (u64 option \<times> vt)"
  c_dump :: "bool \<Rightarrow> vt \<Rightarrow> vt_error + vt"

section \<open>Macros\<close>

definition vt_pform_wtime :: "env \<Rightarrow> vt \<Rightarrow> u64 \<times> vt" where
  "vt_pform_wtime env s = (wtime env (ticks s), s\<lparr>ticks := ticks s + 1\<rparr>)"

abbreviation set_buf :: "VTBuf \<Rightarrow> vt \<Rightarrow> vt" where
  "set_buf b s \<equiv> s\<lparr>gen := (gen s)\<lparr>buf := b\<rparr>\<rparr>"

definition pid :: "env \<Rightarrow> vt \<Rightarrow> u32" where
  "pid env s = 65536 * tid (gen s) + word_of_int (my_trace env) + 1"

definition trace_on :: "vt \<Rightarrow> bool" where
  "trace_on s \<longleftrightarrow> mode (gen s) AND VT_MODE_TRACE \<noteq> 0"

definition sum_on :: "vt \<Rightarrow> bool" where
  "sum_on s \<longleftrightarrow> mode (gen s) AND VT_MODE_STAT \<noteq> 0"

definition sum_prop_on :: "u8 \<Rightarrow> vt \<Rightarrow> bool" where
  "sum_prop_on prop s \<longleftrightarrow> sum_on s \<and> sum_props (gen s) AND prop \<noteq> 0"

text \<open>The macro \<open>VTGEN_ALLOC_DEF\<close>.\<close>

definition alloc_def :: "env \<Rightarrow> callees \<Rightarrow> u32 \<Rightarrow> vt \<Rightarrow> vt_error + vt" where
  "alloc_def env c bytes s =
     (if buf_full bytes (buf (gen s))
      then (let (t, s) = vt_pform_wtime env s in andThen (c_flush c False t s) (\<lambda>(_, s). Inr s))
      else Inr s)"

text \<open>
  The macro \<open>VTGEN_ALLOC_EVENT\<close>. The result has the time stamp, which a flush may move to its
  end, and \<open>False\<close> where the macro returns from the writer.
\<close>

definition alloc_event :: "callees \<Rightarrow> u32 \<Rightarrow> u64 \<Rightarrow> vt \<Rightarrow> vt_error + (bool \<times> u64 \<times> vt)" where
  "alloc_event c bytes time s =
     (if buf_full bytes (buf (gen s))
      then andThen (c_flush c False time s)
             (\<lambda>(et, s). Inr (flushcntr (gen s) \<noteq> 0, (case et of None \<Rightarrow> time | Some t \<Rightarrow> t), s))
      else Inr (True, time, s))"

definition write_entry :: "entry \<Rightarrow> vt \<Rightarrow> vt_error + vt" where
  "write_entry e s =
     (case put_entry e (buf (gen s)) of None \<Rightarrow> Inl OutOfBounds | Some b \<Rightarrow> Inr (set_buf b s))"

text \<open>
  What the writers have in common: a definition, and an event of the trace, made of the time
  stamp that the allocation leaves.
\<close>

definition write_def :: "env \<Rightarrow> callees \<Rightarrow> def_entry \<Rightarrow> vt \<Rightarrow> vt_error + vt" where
  "write_def env c d s = andThen (alloc_def env c (entry_length (Def d)) s) (write_entry (Def d))"

definition write_event ::
  "callees \<Rightarrow> (u64 \<Rightarrow> entry) \<Rightarrow> u64 \<Rightarrow> vt \<Rightarrow> vt_error + (bool \<times> u64 \<times> vt)" where
  "write_event c mk time s =
     andThen (alloc_event c (entry_length (mk time)) time s)
       (\<lambda>(go, time, s).
          if go then andThen (write_entry (mk time) s) (\<lambda>s. Inr (True, time, s))
          else Inr (False, time, s))"

definition trace_event ::
  "callees \<Rightarrow> (u64 \<Rightarrow> entry) \<Rightarrow> u64 \<Rightarrow> vt \<Rightarrow> vt_error + (bool \<times> u64 \<times> vt)" where
  "trace_event c mk time s = (if trace_on s then write_event c mk time s else Inr (True, time, s))"

text \<open>A call of the statistics, with \<open>VTSUM_CHECK\<close> before and \<open>VT_CHECK_DUMP\<close> behind it.\<close>

definition sum_call :: "callees \<Rightarrow> (VTSum \<Rightarrow> VTSum option) \<Rightarrow> u64 \<Rightarrow> vt \<Rightarrow> vt_error + vt" where
  "sum_call c f time s =
     (case Option.bind (vtsum (gen s)) f of
        None \<Rightarrow> Inl Aborted
      | Some u \<Rightarrow>
          (let s = s\<lparr>gen := (gen s)\<lparr>vtsum := Some u\<rparr>\<rparr>
           in if time \<ge> next_dump u then c_dump c True s else Inr s))"

text \<open>The statistics behind an event: not after the early return, and only with their property.\<close>

definition with_sum ::
  "callees \<Rightarrow> bool \<Rightarrow> u8 \<Rightarrow> (u64 \<Rightarrow> VTSum \<Rightarrow> VTSum option) \<Rightarrow> bool \<times> u64 \<times> vt \<Rightarrow> vt_error + (u64 \<times> vt)" where
  "with_sum c extra prop f r =
     (case r of (go, time, s) \<Rightarrow>
        if go \<and> sum_prop_on prop s \<and> extra
        then andThen (sum_call c (f time) time s) (\<lambda>s. Inr (time, s))
        else Inr (time, s))"

definition without_sum :: "bool \<times> u64 \<times> vt \<Rightarrow> vt_error + (u64 \<times> vt)" where
  "without_sum r = (case r of (go, time, s) \<Rightarrow> Inr (time, s))"

section \<open>Writing definitions\<close>

text \<open>\<open>strncpy\<close> into an array of 100 characters and a terminator in its last place.\<close>

definition strncpy100 :: "string \<Rightarrow> string" where
  "strncpy100 n = take 99 n"

definition VTGen_write_DEFINITION_COMMENT :: "env \<Rightarrow> callees \<Rightarrow> string \<Rightarrow> vt \<Rightarrow> vt_error + vt" where
  "VTGen_write_DEFINITION_COMMENT env c comment = write_def env c (DefinitionComment comment)"

definition VTGen_write_DEF_SCL_FILE :: "env \<Rightarrow> callees \<Rightarrow> u32 \<Rightarrow> string \<Rightarrow> vt \<Rightarrow> vt_error + vt" where
  "VTGen_write_DEF_SCL_FILE env c fid fname = write_def env c (DefSclFile fid fname)"

definition VTGen_write_DEF_SCL :: "env \<Rightarrow> callees \<Rightarrow> u32 \<Rightarrow> u32 \<Rightarrow> u32 \<Rightarrow> vt \<Rightarrow> vt_error + vt" where
  "VTGen_write_DEF_SCL env c sid fid ln = write_def env c (DefScl sid fid ln)"

definition VTGen_write_DEF_FILE_GROUP :: "env \<Rightarrow> callees \<Rightarrow> u32 \<Rightarrow> string \<Rightarrow> vt \<Rightarrow> vt_error + vt" where
  "VTGen_write_DEF_FILE_GROUP env c gid gname = write_def env c (DefFileGroup gid gname)"

definition VTGen_write_DEF_FILE :: "env \<Rightarrow> callees \<Rightarrow> u32 \<Rightarrow> string \<Rightarrow> u32 \<Rightarrow> vt \<Rightarrow> vt_error + vt" where
  "VTGen_write_DEF_FILE env c fid fname gid = write_def env c (DefFile fid gid fname)"

definition VTGen_write_DEF_FUNCTION_GROUP :: "env \<Rightarrow> callees \<Rightarrow> u32 \<Rightarrow> string \<Rightarrow> vt \<Rightarrow> vt_error + vt" where
  "VTGen_write_DEF_FUNCTION_GROUP env c rdid rdesc = write_def env c (DefFunctionGroup rdid rdesc)"

definition VTGen_write_DEF_FUNCTION ::
  "env \<Rightarrow> callees \<Rightarrow> u32 \<Rightarrow> string \<Rightarrow> u32 \<Rightarrow> u32 \<Rightarrow> vt \<Rightarrow> vt_error + vt" where
  "VTGen_write_DEF_FUNCTION env c rid rname rdid sid = write_def env c (DefFunction rid rdid sid rname)"

definition VTGen_write_DEF_COLLECTIVE_OPERATION ::
  "env \<Rightarrow> callees \<Rightarrow> u32 \<Rightarrow> string \<Rightarrow> u32 \<Rightarrow> vt \<Rightarrow> vt_error + vt" where
  "VTGen_write_DEF_COLLECTIVE_OPERATION env c cid cname ctype =
     write_def env c (DefCollectiveOperation cid ctype cname)"

definition VTGen_write_DEF_COUNTER_GROUP :: "env \<Rightarrow> callees \<Rightarrow> u32 \<Rightarrow> string \<Rightarrow> vt \<Rightarrow> vt_error + vt" where
  "VTGen_write_DEF_COUNTER_GROUP env c gid gname = write_def env c (DefCounterGroup gid gname)"

definition VTGen_write_DEF_COUNTER ::
  "env \<Rightarrow> callees \<Rightarrow> u32 \<Rightarrow> string \<Rightarrow> u32 \<Rightarrow> u32 \<Rightarrow> string \<Rightarrow> vt \<Rightarrow> vt_error + vt" where
  "VTGen_write_DEF_COUNTER env c cid cname cprop gid cunit =
     write_def env c (DefCounter cid cprop gid (strncpy100 cunit) cname)"

definition VTGen_write_DEF_PROCESS_GROUP ::
  "env \<Rightarrow> callees \<Rightarrow> u32 \<Rightarrow> string \<Rightarrow> u32 list \<Rightarrow> vt \<Rightarrow> vt_error + vt" where
  "VTGen_write_DEF_PROCESS_GROUP env c cid grpn grpv =
     write_def env c (DefProcessGroup cid (strncpy100 grpn) grpv)"

definition VTGen_write_DEF_MARKER :: "env \<Rightarrow> callees \<Rightarrow> u32 \<Rightarrow> string \<Rightarrow> u32 \<Rightarrow> vt \<Rightarrow> vt_error + vt" where
  "VTGen_write_DEF_MARKER env c mid mname mtype = write_def env c (DefMarker mid mtype mname)"

section \<open>Writing events\<close>

definition VTGen_write_ENTER :: "callees \<Rightarrow> u32 \<Rightarrow> u32 \<Rightarrow> u64 \<Rightarrow> vt \<Rightarrow> vt_error + (u64 \<times> vt)" where
  "VTGen_write_ENTER c rid sid time s =
     andThen (trace_event c (\<lambda>t. Event (Enter t rid sid)) time s)
       (with_sum c True VT_SUM_PROP_FUNC (\<lambda>t u. Some (VTSum_enter t rid u)))"

definition VTGen_write_LEAVE :: "callees \<Rightarrow> u32 \<Rightarrow> u32 \<Rightarrow> u64 \<Rightarrow> vt \<Rightarrow> vt_error + (u64 \<times> vt)" where
  "VTGen_write_LEAVE c rid sid time s =
     andThen (trace_event c (\<lambda>t. Event (Leave t rid sid)) time s)
       (with_sum c True VT_SUM_PROP_FUNC (\<lambda>t. VTSum_exit t rid))"

text \<open>
  The writers of file and collective operations keep the duration in \<open>*etime\<close> while the space is
  allocated; where the macro returns, \<open>*etime\<close> keeps the duration. The result has both times.
\<close>

definition with_etime ::
  "u64 \<Rightarrow> (u64 \<Rightarrow> vt \<Rightarrow> vt_error + (bool \<times> u64 \<times> vt)) \<Rightarrow>
   (bool \<times> u64 \<times> vt \<Rightarrow> vt_error + (u64 \<times> vt)) \<Rightarrow> u64 \<Rightarrow> vt \<Rightarrow> vt_error + (u64 \<times> u64 \<times> vt)" where
  "with_etime etime write rest time s =
     andThen (write time s)
       (\<lambda>(go, time', s').
          let etime' = (if \<not> trace_on s then etime
                        else if go then (etime - time) + time' else etime - time)
          in andThen (rest (go, time', s')) (\<lambda>(time', s'). Inr (time', etime', s')))"

definition fileop_stat_call :: "otf_consts \<Rightarrow> u32 \<Rightarrow> u64 \<Rightarrow> u32 \<Rightarrow> VTSum \<Rightarrow> VTSum" where
  "fileop_stat_call k fid bytes op u =
     (if op = OTF_FILEOP_OPEN k then VTSum_fileop_open fid u
      else if op = OTF_FILEOP_CLOSE k then VTSum_fileop_close fid u
      else if op = OTF_FILEOP_READ k then VTSum_fileop_read fid bytes u
      else if op = OTF_FILEOP_WRITE k then VTSum_fileop_write fid bytes u
      else if op = OTF_FILEOP_SEEK k then VTSum_fileop_seek fid u
      else u)"

definition VTGen_write_FILE_OPERATION ::
  "env \<Rightarrow> callees \<Rightarrow> u64 \<Rightarrow> u32 \<Rightarrow> u64 \<Rightarrow> u32 \<Rightarrow> u64 \<Rightarrow> u32 \<Rightarrow> u64 \<Rightarrow> vt \<Rightarrow>
   vt_error + (u64 \<times> u64 \<times> vt)" where
  "VTGen_write_FILE_OPERATION env c etime fid hid op bytes sid time s =
     (let k = otf_consts_of env;
          op' = (if op = VT_IOOP_DUP then OTF_FILEOP_OPEN k else op);
          counted = op \<in> {OTF_FILEOP_OPEN k, OTF_FILEOP_CLOSE k, OTF_FILEOP_READ k,
                          OTF_FILEOP_WRITE k, OTF_FILEOP_SEEK k}
      in with_etime etime
           (trace_event c (\<lambda>t. Event (FileOperation t ((etime - time) + t) fid hid op' (ucast bytes) sid)))
           (with_sum c counted VT_SUM_PROP_FILEOP (\<lambda>t u. Some (fileop_stat_call k fid bytes op u)))
           time s)"

definition VTGen_write_BEGIN_FILE_OPERATION ::
  "callees \<Rightarrow> u64 \<Rightarrow> u32 \<Rightarrow> u64 \<Rightarrow> vt \<Rightarrow> vt_error + (u64 \<times> vt)" where
  "VTGen_write_BEGIN_FILE_OPERATION c mid sid time s =
     andThen (trace_event c (\<lambda>t. Event (BeginFileOperation t mid sid)) time s) without_sum"

definition VTGen_write_END_FILE_OPERATION ::
  "callees \<Rightarrow> u32 \<Rightarrow> u64 \<Rightarrow> u64 \<Rightarrow> u32 \<Rightarrow> u64 \<Rightarrow> u32 \<Rightarrow> u64 \<Rightarrow> vt \<Rightarrow> vt_error + (u64 \<times> vt)" where
  "VTGen_write_END_FILE_OPERATION c fid mid hid op bytes sid time s =
     andThen (trace_event c (\<lambda>t. Event (EndFileOperation t fid mid hid op (ucast bytes) sid)) time s)
       without_sum"

definition VTGen_write_COUNTER :: "callees \<Rightarrow> u32 \<Rightarrow> u64 \<Rightarrow> u64 \<Rightarrow> vt \<Rightarrow> vt_error + (u64 \<times> vt)" where
  "VTGen_write_COUNTER c cid cval time s =
     andThen (trace_event c (\<lambda>t. Event (Counter t cid cval)) time s) without_sum"

definition VTGen_write_COMMENT :: "callees \<Rightarrow> string \<Rightarrow> u64 \<Rightarrow> vt \<Rightarrow> vt_error + (u64 \<times> vt)" where
  "VTGen_write_COMMENT c comment time s =
     andThen (trace_event c (\<lambda>t. Event (Comment t comment)) time s) without_sum"

definition VTGen_write_MARKER :: "callees \<Rightarrow> u32 \<Rightarrow> string \<Rightarrow> u64 \<Rightarrow> vt \<Rightarrow> vt_error + (u64 \<times> vt)" where
  "VTGen_write_MARKER c mid mtext time s =
     andThen (trace_event c (\<lambda>t. Event (Marker t mid mtext)) time s) without_sum"

definition VTGen_write_SEND_MSG ::
  "callees \<Rightarrow> u32 \<Rightarrow> u32 \<Rightarrow> u32 \<Rightarrow> u32 \<Rightarrow> u32 \<Rightarrow> u64 \<Rightarrow> vt \<Rightarrow> vt_error + (u64 \<times> vt)" where
  "VTGen_write_SEND_MSG c peer cid tag sent sid time s =
     andThen (trace_event c (\<lambda>t. Comm (SendMsg t peer cid tag sent sid)) time s)
       (with_sum c True VT_SUM_PROP_MSG (\<lambda>t u. Some (VTSum_msg_send peer cid tag (ucast sent) u)))"

definition VTGen_write_RECV_MSG ::
  "callees \<Rightarrow> u32 \<Rightarrow> u32 \<Rightarrow> u32 \<Rightarrow> u32 \<Rightarrow> u32 \<Rightarrow> u64 \<Rightarrow> vt \<Rightarrow> vt_error + (u64 \<times> vt)" where
  "VTGen_write_RECV_MSG c peer cid tag recvd sid time s =
     andThen (trace_event c (\<lambda>t. Comm (RecvMsg t peer cid tag recvd sid)) time s)
       (with_sum c True VT_SUM_PROP_MSG (\<lambda>t u. Some (VTSum_msg_recv peer cid tag (ucast recvd) u)))"

definition VTGen_write_COLLECTIVE_OPERATION ::
  "callees \<Rightarrow> u64 \<Rightarrow> u32 \<Rightarrow> u32 \<Rightarrow> u32 \<Rightarrow> u32 \<Rightarrow> u32 \<Rightarrow> u32 \<Rightarrow> u64 \<Rightarrow> vt \<Rightarrow>
   vt_error + (u64 \<times> u64 \<times> vt)" where
  "VTGen_write_COLLECTIVE_OPERATION c etime rid cid rpid sent recvd sid time s =
     with_etime etime
       (trace_event c (\<lambda>t. Comm (CollectiveOperation t ((etime - time) + t) rid cid rpid sent recvd sid)))
       (with_sum c (sent > 0 \<or> recvd > 0) VT_SUM_PROP_COLLOP
          (\<lambda>t u. Some (VTSum_collop rid cid (ucast sent) (ucast recvd) u)))
       time s"

definition VTGen_write_BEGIN_COLLECTIVE_OPERATION ::
  "callees \<Rightarrow> u32 \<Rightarrow> u64 \<Rightarrow> u32 \<Rightarrow> u32 \<Rightarrow> u64 \<Rightarrow> u64 \<Rightarrow> u32 \<Rightarrow> u64 \<Rightarrow> vt \<Rightarrow>
   vt_error + (u64 \<times> vt)" where
  "VTGen_write_BEGIN_COLLECTIVE_OPERATION c rid mid rpid cid sent recvd sid time s =
     andThen (trace_event c (\<lambda>t. Comm (BeginCollectiveOperation t rid mid rpid cid sent recvd sid)) time s)
       (with_sum c (sent > 0 \<or> recvd > 0) VT_SUM_PROP_COLLOP
          (\<lambda>t u. Some (VTSum_collop rid cid sent recvd u)))"

definition VTGen_write_END_COLLECTIVE_OPERATION :: "callees \<Rightarrow> u64 \<Rightarrow> u64 \<Rightarrow> vt \<Rightarrow> vt_error + (u64 \<times> vt)" where
  "VTGen_write_END_COLLECTIVE_OPERATION c mid time s =
     andThen (trace_event c (\<lambda>t. Comm (EndCollectiveOperation t mid)) time s) without_sum"

text \<open>The length of a put is an \<open>uint32_t\<close>, the others are \<open>uint64_t\<close>.\<close>

definition VTGen_write_RMA_PUT ::
  "callees \<Rightarrow> u32 \<Rightarrow> u32 \<Rightarrow> u32 \<Rightarrow> u32 \<Rightarrow> u32 \<Rightarrow> u32 \<Rightarrow> u64 \<Rightarrow> vt \<Rightarrow> vt_error + (u64 \<times> vt)" where
  "VTGen_write_RMA_PUT c opid tpid cid tag len sid time s =
     andThen (trace_event c (\<lambda>t. Comm (RMAPut t opid tpid cid tag (ucast len) sid)) time s) without_sum"

definition VTGen_write_RMA_PUTRE ::
  "callees \<Rightarrow> u32 \<Rightarrow> u32 \<Rightarrow> u32 \<Rightarrow> u32 \<Rightarrow> u64 \<Rightarrow> u32 \<Rightarrow> u64 \<Rightarrow> vt \<Rightarrow> vt_error + (u64 \<times> vt)" where
  "VTGen_write_RMA_PUTRE c opid tpid cid tag len sid time s =
     andThen (trace_event c (\<lambda>t. Comm (RMAPutRE t opid tpid cid tag len sid)) time s) without_sum"

definition VTGen_write_RMA_GET ::
  "callees \<Rightarrow> u32 \<Rightarrow> u32 \<Rightarrow> u32 \<Rightarrow> u32 \<Rightarrow> u64 \<Rightarrow> u32 \<Rightarrow> u64 \<Rightarrow> vt \<Rightarrow> vt_error + (u64 \<times> vt)" where
  "VTGen_write_RMA_GET c opid tpid cid tag len sid time s =
     andThen (trace_event c (\<lambda>t. Comm (RMAGet t opid tpid cid tag len sid)) time s) without_sum"

definition VTGen_write_RMA_END ::
  "callees \<Rightarrow> u32 \<Rightarrow> u32 \<Rightarrow> u32 \<Rightarrow> u32 \<Rightarrow> u64 \<Rightarrow> vt \<Rightarrow> vt_error + (u64 \<times> vt)" where
  "VTGen_write_RMA_END c rpid cid tag sid time s =
     andThen (trace_event c (\<lambda>t. Comm (RMAEnd t rpid cid tag sid)) time s) without_sum"

text \<open>The marks of a flush are written without a look at the space.\<close>

definition VTGen_write_ENTER_FLUSH :: "env \<Rightarrow> u64 \<Rightarrow> vt \<Rightarrow> vt_error + vt" where
  "VTGen_write_ENTER_FLUSH env time s =
     (if trace_on s then write_entry (Event (Enter time (regid env VT__TRC_FLUSH) 0)) s else Inr s)"

definition VTGen_write_LEAVE_FLUSH :: "u64 \<Rightarrow> vt \<Rightarrow> vt_error + vt" where
  "VTGen_write_LEAVE_FLUSH time s = (if trace_on s then write_entry (Event (Leave time 0 0)) s else Inr s)"

section \<open>Writing summaries\<close>

definition write_summary ::
  "callees \<Rightarrow> u8 \<Rightarrow> (u64 \<Rightarrow> summary_entry) \<Rightarrow> u64 \<Rightarrow> vt \<Rightarrow> vt_error + (u64 \<times> vt)" where
  "write_summary c prop mk time s =
     (if sum_prop_on prop s then andThen (write_event c (\<lambda>t. Summary (mk t)) time s) without_sum
      else Inr (time, s))"

definition VTGen_write_FUNCTION_SUMMARY ::
  "callees \<Rightarrow> VTSum_funcStat \<Rightarrow> u64 \<Rightarrow> vt \<Rightarrow> vt_error + (u64 \<times> vt)" where
  "VTGen_write_FUNCTION_SUMMARY c f =
     write_summary c VT_SUM_PROP_FUNC (\<lambda>t. FunctionSummary t (f_rid f) (f_cnt f) (f_excl f) (f_incl f))"

definition VTGen_write_MESSAGE_SUMMARY ::
  "callees \<Rightarrow> VTSum_msgStat \<Rightarrow> u64 \<Rightarrow> vt \<Rightarrow> vt_error + (u64 \<times> vt)" where
  "VTGen_write_MESSAGE_SUMMARY c m =
     write_summary c VT_SUM_PROP_MSG
       (\<lambda>t. MessageSummary t (m_peer m) (m_cid m) (m_tag m) (m_scnt m) (m_rcnt m) (m_sent m) (m_recvd m))"

definition VTGen_write_COLLECTIVE_OPERATION_SUMMARY ::
  "callees \<Rightarrow> VTSum_collopStat \<Rightarrow> u64 \<Rightarrow> vt \<Rightarrow> vt_error + (u64 \<times> vt)" where
  "VTGen_write_COLLECTIVE_OPERATION_SUMMARY c m =
     write_summary c VT_SUM_PROP_COLLOP
       (\<lambda>t. CollectiveOperationSummary t (co_cid m) (co_rid m) (co_scnt m) (co_rcnt m) (co_sent m) (co_recvd m))"

definition VTGen_write_FILE_OPERATION_SUMMARY ::
  "callees \<Rightarrow> VTSum_fileopStat \<Rightarrow> u64 \<Rightarrow> vt \<Rightarrow> vt_error + (u64 \<times> vt)" where
  "VTGen_write_FILE_OPERATION_SUMMARY c f =
     write_summary c VT_SUM_PROP_FILEOP
       (\<lambda>t. FileOperationSummary t (io_fid f) (nopen f) (nclose f) (nread f) (nwrite f) (nseek f)
              (rd f) (wrote f))"

end
