(* ===== verification/OtfGen.thy ===== *)
theory OtfGen
  imports TraceState
begin

unbundle bit_operations_syntax

text \<open>
  The flush of the trace buffer (\<open>VTGen_flush\<close> of \<open>vtlib/vt_otf_gen.c\<close>), the dump of the
  statistics (\<open>VTSum_dump\<close> of \<open>vtlib/vt_otf_sum.c\<close>), and the functions of \<open>vtlib/vt_trc.c\<close> that
  the two call: they write the marks of the flush and the dump, and switch the tracing off when
  the maximum number of flushes is reached.

  A flush can call the writers again and a writer the flush; the nesting is bounded by the fuel
  of \<open>callees_at\<close>, and so are the iterations of the loops of the dump.
\<close>

section \<open>Marks\<close>

definition vt_enter_flush :: "env \<Rightarrow> u64 \<Rightarrow> vt \<Rightarrow> vt_error + vt" where
  "vt_enter_flush env time s =
     (if trace_status s \<noteq> VT_TRACE_ON then Inr s else VTGen_write_ENTER_FLUSH env time s)"

definition vt_exit_flush :: "u64 \<Rightarrow> vt \<Rightarrow> vt_error + vt" where
  "vt_exit_flush time s =
     (if trace_status s \<noteq> VT_TRACE_ON then Inr s else VTGen_write_LEAVE_FLUSH time s)"

definition vt_enter_stat :: "env \<Rightarrow> callees \<Rightarrow> u64 \<Rightarrow> vt \<Rightarrow> vt_error + (u64 \<times> vt)" where
  "vt_enter_stat env c time s =
     (if trace_status s \<noteq> VT_TRACE_ON then Inr (time, s)
      else VTGen_write_ENTER c (regid env VT__TRC_STAT) 0 time s)"

definition vt_exit_stat :: "callees \<Rightarrow> u64 \<Rightarrow> vt \<Rightarrow> vt_error + (u64 \<times> vt)" where
  "vt_exit_stat c time s =
     (if trace_status s \<noteq> VT_TRACE_ON then Inr (time, s) else VTGen_write_LEAVE c 0 0 time s)"

section \<open>Entering a region, markers and comments\<close>

definition vt_get_curid :: "vt \<Rightarrow> u32 \<times> vt" where
  "vt_get_curid s = (curid s, s\<lparr>curid := curid s + 1\<rparr>)"

definition vt_def_marker :: "env \<Rightarrow> callees \<Rightarrow> string \<Rightarrow> u32 \<Rightarrow> vt \<Rightarrow> vt_error + (u32 \<times> vt)" where
  "vt_def_marker env c mname mtype s =
     (let (mid, s) = vt_get_curid s
      in andThen (VTGen_write_DEF_MARKER env c mid mname mtype s) (\<lambda>s. Inr (mid, s)))"

text \<open>
  The three functions \<open>vt_marker_error\<close>, \<open>vt_marker_warning\<close> and \<open>vt_marker_hint\<close>: \<open>i\<close> is the
  index of the marker id, \<open>text\<close> what the formatting makes of the arguments.
\<close>

definition vt_marker_internal ::
  "env \<Rightarrow> callees \<Rightarrow> nat \<Rightarrow> u32 \<Rightarrow> string \<Rightarrow> u64 \<Rightarrow> vt \<Rightarrow> vt_error + (u64 \<times> vt)" where
  "vt_marker_internal env c i mtype txt time s =
     (if trace_status s \<noteq> VT_TRACE_ON then Inr (time, s)
      else andThen
        (if trc_mid s i = VT_NO_ID
         then andThen (vt_def_marker env c ''VampirTrace'' mtype s)
                (\<lambda>(mid, s). Inr (s\<lparr>trc_mid := (trc_mid s)(i := mid)\<rparr>))
         else Inr s)
        (\<lambda>s. VTGen_write_MARKER c (trc_mid s i) (take 4095 txt) time s))"

definition vt_marker_error :: "env \<Rightarrow> callees \<Rightarrow> string \<Rightarrow> u64 \<Rightarrow> vt \<Rightarrow> vt_error + (u64 \<times> vt)" where
  "vt_marker_error env c = vt_marker_internal env c VT__TRC_MARKER_ERROR VT_MARKER_ERROR"

definition vt_marker_warning :: "env \<Rightarrow> callees \<Rightarrow> string \<Rightarrow> u64 \<Rightarrow> vt \<Rightarrow> vt_error + (u64 \<times> vt)" where
  "vt_marker_warning env c = vt_marker_internal env c VT__TRC_MARKER_WARNING VT_MARKER_WARNING"

definition vt_marker_hint :: "env \<Rightarrow> callees \<Rightarrow> string \<Rightarrow> u64 \<Rightarrow> vt \<Rightarrow> vt_error + (u64 \<times> vt)" where
  "vt_marker_hint env c = vt_marker_internal env c VT__TRC_MARKER_HINT VT_MARKER_HINT"

definition filter_marktext :: "RFG_RegionInfo \<Rightarrow> string" where
  "filter_marktext r =
     take 1022 (''Beginning to filter out function '' @ CHR 0x27 # regionName r @ CHR 0x27 #
                '' (call limit (='' @ dec_int (callLimit r - 1) @ '') reached at this point)'')"

text \<open>
  \<open>vt_enter\<close>: the flag that tells whether the region is traced. The text of the marker is passed
  as the format of \<open>vt_marker_hint\<close>, without arguments.
\<close>

definition vt_enter :: "env \<Rightarrow> callees \<Rightarrow> u32 \<Rightarrow> u64 \<Rightarrow> vt \<Rightarrow> vt_error + (bool \<times> u64 \<times> vt)" where
  "vt_enter env c rid time s =
     (if trace_status s = VT_TRACE_OFF_PERMANENT then Inr (False, time, s)
      else
        (let s = s\<lparr>stack_level := stack_level s + 1\<rparr>;
             do_trace = (trace_status s = VT_TRACE_ON \<and> stack_level s \<le> max_stack_depth env)
         in case RFG_Regions_stackPush (rfg_regions s) rid do_trace of
              (False, _) \<Rightarrow> Inl Aborted
            | (True, r, ri) \<Rightarrow>
                (let s = s\<lparr>rfg_regions := r\<rparr>; info = the ri
                 in andThen
                      (if do_trace \<and> callLimitCD info = 1
                       then vt_marker_hint env c (vsnprintf0 env (filter_marktext info)) time s
                       else Inr (time, s))
                      (\<lambda>(time, s).
                         if do_trace \<and> callLimitCD info \<noteq> 0
                         then andThen (VTGen_write_ENTER c rid 0 time s) (\<lambda>(time, s). Inr (True, time, s))
                         else Inr (False, time, s)))))"

definition vt_trace_off :: "env \<Rightarrow> callees \<Rightarrow> bool \<Rightarrow> bool \<Rightarrow> vt \<Rightarrow> vt_error + vt" where
  "vt_trace_off env c mark permanent s =
     (if vt_is_alive s \<and> trace_status s \<noteq> VT_TRACE_OFF_PERMANENT
      then andThen
        (if mark
         then (let (time, s) = vt_pform_wtime env s
               in andThen (vt_enter env c (regid env VT__TRC_OFF) time s) (\<lambda>(_, _, s). Inr s))
         else Inr s)
        (\<lambda>s. Inr (if permanent then s\<lparr>trace_status := VT_TRACE_OFF_PERMANENT\<rparr>
                   else if trace_status s = VT_TRACE_ON
                   then s\<lparr>trace_status := VT_TRACE_OFF, stack_level_at_off := stack_level s\<rparr>
                   else s))
      else Inr s)"

text \<open>\<open>vt_def_comment\<close> with the text that the formatting makes, cut to the buffer of 4096 bytes.\<close>

definition vt_def_comment :: "env \<Rightarrow> callees \<Rightarrow> string \<Rightarrow> vt \<Rightarrow> vt_error + vt" where
  "vt_def_comment env c txt = VTGen_write_DEFINITION_COMMENT env c (take 4095 txt)"

section \<open>The flush\<close>

abbreviation emit :: "otf_call list \<Rightarrow> vt \<Rightarrow> vt" where
  "emit calls s \<equiv> s\<lparr>otf := otf s @ calls\<rparr>"

text \<open>The records that the first flush writes.\<close>

definition header_calls :: "env \<Rightarrow> vt \<Rightarrow> otf_call list" where
  "header_calls env s =
     (if tid (gen s) = 0
      then [writeOtfVersion, writeDefCreator (take 98 (PACKAGE_STRING env)), writeDefTimerResolution (clockres env)]
      else [])
     @ [writeDefProcess (pid env s)
          (take 1022 (tname (gen s) @ '' '' @ dec_int (my_trace env) @ tnamesuffix (gen s)))
          (if tid (gen s) \<noteq> 0 then 65536 * ptid (gen s) + word_of_int (my_trace env) + 1 else 0),
        writeDefProcessGroup 0 (take 98 (''__NODE__ '' @ node_name env)) [pid env s]]"

definition open_stream :: "env \<Rightarrow> vt \<Rightarrow> vt_error + vt" where
  "open_stream env s =
     (if \<not> open_stream_ok env then Inl Aborted
      else Inr (emit (header_calls env s)
                 (s\<lparr>gen := (gen s)\<lparr>fileprefix := Some (env_fileprefix env), filecomp := compression_ok env,
                                  isfirstflush := False\<rparr>\<rparr>)))"

definition mark_end :: "env \<Rightarrow> vt \<Rightarrow> vt_error + (u64 option \<times> vt)" where
  "mark_end env s =
     (let (t, s) = vt_pform_wtime env s in andThen (vt_exit_flush t s) (\<lambda>s. Inr (Some t, s)))"

lemma mark_end_pos: "mark_end env s = Inr (et, s') \<Longrightarrow> pos (buf (gen s')) \<le> pos (buf (gen s)) + 24"
  by (auto simp: mark_end_def vt_pform_wtime_def vt_exit_flush_def VTGen_write_LEAVE_FLUSH_def
      write_entry_def put_entry_def entry_length_def align_length_def andThen_Inr Let_def
      split: if_splits option.splits)

text \<open>
  The loop over the entries: \<open>marked\<close> is \<open>end_flush_marked\<close>, \<open>et\<close> what is stored through
  \<open>flushETime\<close>. The mark of the end of the flush is itself an entry behind the others. An entry of
  length 0 would be written for ever.
\<close>

function flush_loop ::
  "env \<Rightarrow> bool \<Rightarrow> bool \<Rightarrow> nat \<Rightarrow> u64 option \<Rightarrow> vt \<Rightarrow> vt_error + (u64 option \<times> vt)" where
  "flush_loop env lst marked p et s =
     (if p < pos (buf (gen s)) then
        (case mem (buf (gen s)) p of
           None \<Rightarrow> Inl Aborted
         | Some (e, len) \<Rightarrow>
             if len = 0 then Inl OutOfFuel
             else
               (let s = emit [entry_call (otf_consts_of env) (pid env s) e] s;
                    at_end = (\<not> marked \<and> p + len \<ge> pos (buf (gen s)))
                in andThen (if at_end \<and> \<not> lst \<and> flushcntr (gen s) > 1 then mark_end env s else Inr (et, s))
                     (\<lambda>(et, s). flush_loop env lst (marked \<or> at_end) (p + len) et s)))
      else Inr (et, s))"
  by pat_completeness auto
termination
  by (relation "measure (\<lambda>(env, lst, marked, p, et, s). (if marked then 0 else 24) + pos (buf (gen s)) - p)")
    (auto split: if_splits dest!: mark_end_pos)

declare flush_loop.simps [simp del]

definition last_comment :: "env \<Rightarrow> vt \<Rightarrow> vt" where
  "last_comment env s =
     (let (t, s) = vt_pform_wtime env s
      in if trace_on s then emit [writeEventComment t (pid env s) []] s
         else emit [writeSummaryComment t (pid env s) []] s)"

abbreviation reset_pos :: "vt \<Rightarrow> vt" where
  "reset_pos s \<equiv> set_buf ((buf (gen s))\<lparr>pos := 0\<rparr>) s"

definition max_flushes_text :: "env \<Rightarrow> string" where
  "max_flushes_text env =
     ''__VT_COMMENT__ WARNING: This trace is incomplete, because the maximum number of buffer flushes was reached. (VT_MAX_FLUSHES=''
     @ dec_int (env_max_flushes env) @ '')''"

text \<open>The flush counter, the end of the tracing, and the rewind mark, behind the loop.\<close>

definition flush_finish :: "env \<Rightarrow> callees \<Rightarrow> bool \<Rightarrow> vt \<Rightarrow> vt_error + vt" where
  "flush_finish env c lst s =
     (let s = reset_pos s;
          s = s\<lparr>gen := (gen s)\<lparr>flushcntr := (if flushcntr (gen s) > 0 then flushcntr (gen s) - 1 else 0)\<rparr>\<rparr>
      in andThen
           (if \<not> lst \<and> flushcntr (gen s) = 0
            then andThen (vt_trace_off env c True True s) (vt_def_comment env c (max_flushes_text env))
            else Inr s)
           (\<lambda>s. Inr (s\<lparr>gen := (gen s)\<lparr>rewind_time := 0, rewind_pos := None\<rparr>\<rparr>)))"

text \<open>\<open>VTGen_flush\<close>; the result has the value that is stored through \<open>flushETime\<close>, if any.\<close>

definition flush_body ::
  "env \<Rightarrow> callees \<Rightarrow> bool \<Rightarrow> u64 \<Rightarrow> vt \<Rightarrow> vt_error + (u64 option \<times> vt)" where
  "flush_body env c lst btime s =
     (if \<not> lst \<and> flushcntr (gen s) = 0 then Inr (None, s)
      else if trace_is_disabled s then Inr (None, reset_pos s)
      else
        andThen (if \<not> lst then vt_enter_flush env btime s else Inr s)
          (\<lambda>s. andThen (if isfirstflush (gen s) then open_stream env s else Inr s)
            (\<lambda>s. andThen (flush_loop env lst False 0 None s)
              (\<lambda>(et, s). andThen (flush_finish env c lst (if lst then last_comment env s else s))
                (\<lambda>s. Inr (et, s))))))"

section \<open>The dump of the statistics\<close>

fun dump_loop ::
  "nat \<Rightarrow> (VTSum \<Rightarrow> 'a list) \<Rightarrow> ('a \<Rightarrow> u64 \<Rightarrow> vt \<Rightarrow> vt_error + (u64 \<times> vt)) \<Rightarrow> nat \<Rightarrow> u64 \<times> vt \<Rightarrow>
   vt_error + (u64 \<times> vt)" where
  "dump_loop 0 stats wr i ts = Inl OutOfFuel"
| "dump_loop (Suc k) stats wr i ts =
     (case ts of (time, s) \<Rightarrow>
        if i < length (stats (the (vtsum (gen s))))
        then andThen (wr (stats (the (vtsum (gen s))) ! i) time s) (dump_loop k stats wr (Suc i))
        else Inr (time, s))"

definition dump_prop ::
  "nat \<Rightarrow> u8 \<Rightarrow> (VTSum \<Rightarrow> 'a list) \<Rightarrow> ('a \<Rightarrow> u64 \<Rightarrow> vt \<Rightarrow> vt_error + (u64 \<times> vt)) \<Rightarrow> u64 \<times> vt \<Rightarrow>
   vt_error + (u64 \<times> vt)" where
  "dump_prop k prop stats wr ts =
     (if props (the (vtsum (gen (snd ts)))) AND prop \<noteq> 0 then dump_loop k stats wr 0 ts else Inr ts)"

definition dump_stats :: "nat \<Rightarrow> callees \<Rightarrow> u64 \<times> vt \<Rightarrow> vt_error + (u64 \<times> vt)" where
  "dump_stats k c ts =
     andThen (dump_prop k VT_SUM_PROP_FUNC func_stat (VTGen_write_FUNCTION_SUMMARY c) ts)
       (\<lambda>ts. andThen (dump_prop k VT_SUM_PROP_MSG msg_stat (VTGen_write_MESSAGE_SUMMARY c) ts)
         (\<lambda>ts. andThen (dump_prop k VT_SUM_PROP_COLLOP collop_stat (VTGen_write_COLLECTIVE_OPERATION_SUMMARY c) ts)
           (dump_prop k VT_SUM_PROP_FILEOP fileop_stat (VTGen_write_FILE_OPERATION_SUMMARY c))))"

definition dump_body :: "nat \<Rightarrow> env \<Rightarrow> callees \<Rightarrow> bool \<Rightarrow> vt \<Rightarrow> vt_error + vt" where
  "dump_body k env c mark s =
     (let (time, s) = vt_pform_wtime env s
      in andThen (if mark then vt_enter_stat env c time s else Inr (time, s))
           (\<lambda>ts. andThen (dump_stats k c ts)
             (\<lambda>(_, s).
                let (time, s) = vt_pform_wtime env s
                in andThen (if mark then vt_exit_stat c time s else Inr (time, s))
                     (\<lambda>(time, s).
                        let u = the (vtsum (gen s))
                        in Inr (if next_dump u \<noteq> - 1
                                then s\<lparr>gen := (gen s)\<lparr>vtsum := Some (u\<lparr>next_dump := time + SumIntv s\<rparr>)\<rparr>\<rparr>
                                else s)))))"

section \<open>Closing the recursion\<close>

fun callees_at :: "env \<Rightarrow> nat \<Rightarrow> callees" where
  "callees_at env 0 = \<lparr>c_flush = (\<lambda>_ _ _. Inl OutOfFuel), c_dump = (\<lambda>_ _. Inl OutOfFuel)\<rparr>"
| "callees_at env (Suc n) =
     \<lparr>c_flush = flush_body env (callees_at env n), c_dump = dump_body n env (callees_at env n)\<rparr>"

definition VTGen_flush :: "env \<Rightarrow> nat \<Rightarrow> bool \<Rightarrow> u64 \<Rightarrow> vt \<Rightarrow> vt_error + (u64 option \<times> vt)" where
  "VTGen_flush env n = c_flush (callees_at env n)"

definition VTSum_dump :: "env \<Rightarrow> nat \<Rightarrow> bool \<Rightarrow> vt \<Rightarrow> vt_error + vt" where
  "VTSum_dump env n = c_dump (callees_at env n)"

section \<open>Opening and closing\<close>

text \<open>
  \<open>VTGen_open\<close> for the thread of the state. \<open>2 * VTGEN_ALIGN_LENGTH(sizeof(VTBuf_Entry_EnterLeave))\<close>
  is \<open>2 * (24 % 8) ? (24 / 8 + 1) * 8 : 24\<close>, because the macro has no outer parentheses.
\<close>

definition flush_reserve :: u64 where
  "flush_reserve = (if 2 * (24 mod 8) \<noteq> (0::u64) then (24 div 8 + 1) * 8 else 24)"

definition VTGen_open :: "env \<Rightarrow> string \<Rightarrow> string \<Rightarrow> u32 \<Rightarrow> u32 \<Rightarrow> u64 \<Rightarrow> vt \<Rightarrow> vt_error + vt" where
  "VTGen_open env name suffix parent i buffer_size s =
     (if ldir_check env \<and> \<not> ldir_writable env \<or> gdir_check env \<and> \<not> gdir_writable env then Inl Aborted
      else
        (let md = word_of_int (env_mode env);
             (u, intv) = VTSum_open (word_of_int (env_stat_props env)) (word_of_int (env_stat_msg_dtls env))
                           (word_of_int (env_stat_collop_dtls env)) (word_of_int (env_stat_intv env))
                           (clockres env) (SumIntv s);
             stat = (md AND VT_MODE_STAT \<noteq> 0);
             mx = word_of_int (env_max_flushes env)
         in Inr (s\<lparr>SumIntv := (if stat then intv else SumIntv s),
                   gen := \<lparr>fileprefix = None, filecomp = False, tname = name, tnamesuffix = suffix,
                           ptid = parent, tid = i, flushcntr = (if mx = 0 then - 1 else mx),
                           isfirstflush = True, mode = md, sum_props = word_of_int (env_stat_props env),
                           rewind_pos = None, rewind_time = 0, vtsum = (if stat then Some u else None),
                           buf = \<lparr>mem = (\<lambda>_. None), pos = 0, buf_size = buffer_size - flush_reserve,
                                  cap = unat buffer_size\<rparr>\<rparr>\<rparr>)))"

text \<open>\<open>VTSum_close\<close> and \<open>VTGen_close\<close>; the stream and the buffer are released afterwards.\<close>

definition VTSum_close :: "env \<Rightarrow> nat \<Rightarrow> vt \<Rightarrow> vt_error + vt" where
  "VTSum_close env n = VTSum_dump env n False"

definition VTGen_close :: "env \<Rightarrow> nat \<Rightarrow> vt \<Rightarrow> vt_error + vt" where
  "VTGen_close env n s =
     andThen (if sum_on s then VTSum_close env n s else Inr s)
       (\<lambda>s. andThen (VTGen_flush env n True 0 s) (\<lambda>(_, s). Inr s))"

definition VTGen_get_buflevel :: "vt \<Rightarrow> u8" where
  "VTGen_get_buflevel s =
     ucast ((of_nat (pos (buf (gen s))) * 100 :: u64) div buf_size (buf (gen s)))"

section \<open>The rewind mark\<close>

definition VTGen_set_rewind_mark :: "u64 \<Rightarrow> vt \<Rightarrow> vt" where
  "VTGen_set_rewind_mark time s =
     s\<lparr>gen := (gen s)\<lparr>rewind_pos := Some (pos (buf (gen s))), rewind_time := time\<rparr>\<rparr>"

text \<open>
  The result has the time that is stored through \<open>time\<close>. Without a mark the write position would
  become the invalid pointer, \<open>Inl OutOfBounds\<close>.
\<close>

definition VTGen_rewind :: "vt \<Rightarrow> vt_error + (u64 \<times> vt)" where
  "VTGen_rewind s =
     (case rewind_pos (gen s) of
        None \<Rightarrow> Inl OutOfBounds
      | Some mark \<Rightarrow>
          (case rewind_loop mark mark (buf (gen s)) of
             None \<Rightarrow> Inl Aborted
           | Some (mark', b) \<Rightarrow>
               Inr (rewind_time (gen s),
                    s\<lparr>gen := (gen s)\<lparr>buf := b\<lparr>pos := mark'\<rparr>, rewind_pos := Some mark'\<rparr>\<rparr>)))"

definition VTGen_is_rewind_mark_present :: "vt \<Rightarrow> bool" where
  "VTGen_is_rewind_mark_present s \<longleftrightarrow> rewind_pos (gen s) \<noteq> None"

end
