(* ===== verification/MpiCom.thy ===== *)
theory MpiCom
  imports Tables
begin

unbundle bit_operations_syntax

text \<open>
  \<open>vtlib/vt_mpicom.c\<close>: the communicators, groups and windows of an MPI program and the ids of
  their definitions.

  Handles are numbers; the arrays \<open>comms\<close> and \<open>wins\<close> have their allocated length, filled with
  zeros, and \<open>last_comm\<close> and \<open>last_win\<close> count their used entries. The MPI library is the record
  \<open>mpi\<close> of the functions and constants that the code uses. What the tracing library does for
  \<open>vt_def_mpi_comm\<close> and \<open>vt_get_curid\<close> is \<open>def_comm\<close> and \<open>next_id\<close>, functions on its state
  \<open>'w\<close>. \<open>vt_error_msg\<close> ends the program: the result \<open>None\<close>. The code is modelled with
  \<open>HAVE_MPI2_1SIDED\<close>; locking the ids is left out.
\<close>

section \<open>Data\<close>

type_synonym handle = nat

record mpi_funs =
  MPI_COMM_WORLD :: handle
  MPI_COMM_SELF :: handle
  MPI_COMM_NULL :: handle
  MPI_WIN_NULL :: handle
  MPI_UNDEFINED :: int
  Comm_test_inter :: "handle \<Rightarrow> bool"
  Comm_group :: "handle \<Rightarrow> handle"
  Comm_remote_group :: "handle \<Rightarrow> handle"
  Group_size :: "handle \<Rightarrow> nat"
  Group_translate_ranks :: "handle \<Rightarrow> int list \<Rightarrow> handle \<Rightarrow> int list"
  Win_get_group :: "handle \<Rightarrow> handle"

datatype comm_kind = VT_MPI_COMM_WORLD | VT_MPI_COMM_SELF | VT_MPI_COMM_USER

type_synonym 'w def_comm = "comm_kind \<Rightarrow> u8 list \<Rightarrow> 'w \<Rightarrow> u32 \<times> 'w"

record VTWorld =
  w_group :: handle
  w_size :: nat
  w_size_grpv :: nat
  w_ranks :: "int list"

record VTComm =
  c_comm :: handle
  c_group :: handle
  c_cid :: u32

record VTWin =
  win_win :: handle
  win_comm :: handle
  win_gid :: u32
  win_wid :: u32

record com_state =
  world :: VTWorld
  world_cid :: u32
  self_cid :: u32
  last_comm :: nat
  max_comms :: nat
  ranks :: "int list"
  comms :: "VTComm list"
  grpv :: "u8 list"
  comm_initialized :: bool
  free_win :: "nat option"
  last_win :: nat
  max_wins :: nat
  wins :: "VTWin list"

text \<open>The value \<open>(uint32_t)-1\<close> of an index is \<open>None\<close>.\<close>

section \<open>Searching\<close>

definition group_search :: "handle \<Rightarrow> com_state \<Rightarrow> nat option" where
  "group_search grp s =
     (let i = scan (\<lambda>c. c_group c = grp) (comms s) (last_comm s) 0 in if i \<noteq> last_comm s then Some i else None)"

text \<open>The loop over the windows also remembers the first free entry before the one it finds.\<close>

function win_loop ::
  "mpi_funs \<Rightarrow> VTWin list \<Rightarrow> nat \<Rightarrow> handle \<Rightarrow> nat option \<Rightarrow> nat \<Rightarrow> nat option \<times> nat" where
  "win_loop mpi ws n win free i =
     (if i < n \<and> win_win (ws ! i) \<noteq> win then
        win_loop mpi ws n win
          (if free = None \<and> win_win (ws ! i) = MPI_WIN_NULL mpi \<and> win_comm (ws ! i) = MPI_COMM_NULL mpi
           then Some i else free) (Suc i)
      else (free, i))"
  by pat_completeness auto
termination
  by (relation "measure (\<lambda>(mpi, ws, n, win, free, i). n - i)") auto

definition win_search :: "mpi_funs \<Rightarrow> handle \<Rightarrow> com_state \<Rightarrow> nat option \<times> com_state" where
  "win_search mpi win s =
     (let (free, i) = win_loop mpi (wins s) (last_win s) win None 0
      in (if i \<noteq> last_win s then Some i else None, s\<lparr>free_win := free\<rparr>))"

declare win_loop.simps [simp del]

section \<open>Communicators\<close>

definition vt_rank_to_pe :: "mpi_funs \<Rightarrow> com_state \<Rightarrow> int \<Rightarrow> handle \<Rightarrow> u32" where
  "vt_rank_to_pe mpi s rank comm =
     (let grp = (if Comm_test_inter mpi comm then Comm_remote_group mpi comm else Comm_group mpi comm)
      in word_of_int (Group_translate_ranks mpi grp [rank] (w_group (world s)) ! 0))"

text \<open>The two loops of \<open>vt_group_to_bitvector\<close>: the clearing, and one step per rank of the world.\<close>

definition set_rank :: "mpi_funs \<Rightarrow> int list \<Rightarrow> nat \<Rightarrow> u8 list \<Rightarrow> u8 list" where
  "set_rank mpi rs i g =
     (if rs ! i \<noteq> MPI_UNDEFINED mpi then g[i div 8 := (g ! (i div 8)) OR push_bit (i mod 8) 1] else g)"

definition vt_group_to_bitvector :: "mpi_funs \<Rightarrow> handle \<Rightarrow> com_state \<Rightarrow> com_state" where
  "vt_group_to_bitvector mpi grp s =
     (let rs = Group_translate_ranks mpi (w_group (world s)) (w_ranks (world s)) grp;
          g = fold (\<lambda>i g. g[i := 0]) [0..<w_size_grpv (world s)] (grpv s)
      in s\<lparr>ranks := rs, grpv := fold (set_rank mpi rs) [0..<w_size (world s)] g\<rparr>)"

text \<open>Entering a definition behind the others.\<close>

definition add_comm :: "handle \<Rightarrow> handle \<Rightarrow> u32 \<Rightarrow> com_state \<Rightarrow> com_state" where
  "add_comm comm grp cid s =
     s\<lparr>comms := (comms s)[last_comm s := \<lparr>c_comm = comm, c_group = grp, c_cid = cid\<rparr>],
       last_comm := last_comm s + 1\<rparr>"

text \<open>
  \<open>vt_comm_create\<close>. The condition assigns to \<open>i\<close> the value of the comparison
  \<open>group_search( group ) != (uint32_t)-1\<close>, 0 or 1, and not the position that was found.
\<close>

definition vt_comm_create ::
  "mpi_funs \<Rightarrow> 'w def_comm \<Rightarrow> handle \<Rightarrow> com_state \<times> 'w \<Rightarrow> (com_state \<times> 'w) option" where
  "vt_comm_create mpi def_comm comm sw =
     (case sw of (s, w) \<Rightarrow>
        if last_comm s \<ge> max_comms s then None
        else
          (let grp = Comm_group mpi comm;
               i = (if group_search grp s \<noteq> None then 1 else 0)
           in if i \<noteq> 0 \<and> c_comm (comms s ! i) = MPI_COMM_NULL mpi then
                Some (s\<lparr>comms := (comms s)[i := (comms s ! i)\<lparr>c_comm := comm\<rparr>]\<rparr>, w)
              else
                (let s = vt_group_to_bitvector mpi grp s;
                     kind = (if comm = MPI_COMM_WORLD mpi then VT_MPI_COMM_WORLD
                             else if comm = MPI_COMM_SELF mpi then VT_MPI_COMM_SELF
                             else VT_MPI_COMM_USER);
                     (cid, w) = def_comm kind (take (w_size_grpv (world s)) (grpv s)) w;
                     s = (if comm = MPI_COMM_WORLD mpi then s\<lparr>world_cid := cid\<rparr>
                          else if comm = MPI_COMM_SELF mpi then s\<lparr>self_cid := cid\<rparr> else s)
                 in Some (add_comm comm grp cid s, w))))"

text \<open>The environment's limits are parameters of \<open>vt_comm_init\<close>.\<close>

definition vt_comm_init ::
  "mpi_funs \<Rightarrow> 'w def_comm \<Rightarrow> nat \<Rightarrow> nat \<Rightarrow> com_state \<times> 'w \<Rightarrow> (com_state \<times> 'w) option" where
  "vt_comm_init mpi def_comm env_comms env_wins sw =
     (case sw of (s, w) \<Rightarrow>
        if comm_initialized s then Some (s, w)
        else
          (let g = Comm_group mpi (MPI_COMM_WORLD mpi);
               n = Group_size mpi g;
               ng = n div 8 + (if n mod 8 \<noteq> 0 then 1 else 0);
               s = s\<lparr>comm_initialized := True, max_comms := env_comms,
                     comms := replicate env_comms \<lparr>c_comm = 0, c_group = 0, c_cid = 0\<rparr>,
                     max_wins := env_wins,
                     wins := replicate env_wins \<lparr>win_win = 0, win_comm = 0, win_gid = 0, win_wid = 0\<rparr>,
                     world := \<lparr>w_group = g, w_size = n, w_size_grpv = ng, w_ranks = map int [0..<n]\<rparr>,
                     ranks := replicate n 0, grpv := replicate ng 0\<rparr>
           in Option.bind (vt_comm_create mpi def_comm (MPI_COMM_WORLD mpi) (s, w))
                (vt_comm_create mpi def_comm (MPI_COMM_SELF mpi))))"

text \<open>The memory is given back; what the arrays held is gone, while the counters keep their values.\<close>

definition vt_comm_finalize :: "com_state \<Rightarrow> com_state" where
  "vt_comm_finalize s =
     s\<lparr>comms := [], wins := [], world := (world s)\<lparr>w_ranks := []\<rparr>, ranks := [], grpv := []\<rparr>"

definition vt_comm_free :: "handle \<Rightarrow> com_state \<Rightarrow> com_state option" where
  "vt_comm_free comm s =
     (if last_comm s = 1 \<and> c_comm (comms s ! 0) = comm then Some (s\<lparr>last_comm := 0\<rparr>)
      else if last_comm s > 1 then
        (let i = scan (\<lambda>c. c_comm c = comm) (comms s) (last_comm s) 0; n = last_comm s - 1
         in if i < last_comm s then Some (s\<lparr>last_comm := n, comms := (comms s)[i := comms s ! n]\<rparr>)
            else None)
      else None)"

definition vt_comm_id :: "mpi_funs \<Rightarrow> handle \<Rightarrow> com_state \<Rightarrow> u32 option" where
  "vt_comm_id mpi comm s =
     (if comm = MPI_COMM_WORLD mpi then Some (world_cid s)
      else if comm = MPI_COMM_SELF mpi then Some (self_cid s)
      else (let i = scan (\<lambda>c. c_comm c = comm) (comms s) (last_comm s) 0
            in if i \<noteq> last_comm s then Some (c_cid (comms s ! i)) else None))"

section \<open>Groups\<close>

definition vt_group_create ::
  "mpi_funs \<Rightarrow> 'w def_comm \<Rightarrow> handle \<Rightarrow> com_state \<times> 'w \<Rightarrow> (com_state \<times> 'w) option" where
  "vt_group_create mpi def_comm grp sw =
     (case sw of (s, w) \<Rightarrow>
        if last_comm s \<ge> max_comms s then None
        else if group_search grp s = None then
          (let s = vt_group_to_bitvector mpi grp s;
               (cid, w) = def_comm VT_MPI_COMM_USER (take (w_size_grpv (world s)) (grpv s)) w
           in Some (add_comm (MPI_COMM_NULL mpi) grp cid s, w))
        else Some (s, w))"

definition vt_group_free :: "handle \<Rightarrow> com_state \<Rightarrow> com_state" where
  "vt_group_free grp s = s"

definition vt_group_id :: "handle \<Rightarrow> com_state \<Rightarrow> u32 option" where
  "vt_group_id grp s = map_option (\<lambda>i. c_cid (comms s ! i)) (group_search grp s)"

section \<open>Windows\<close>

definition vt_win_create ::
  "mpi_funs \<Rightarrow> ('w \<Rightarrow> u32 \<times> 'w) \<Rightarrow> handle \<Rightarrow> handle \<Rightarrow> com_state \<times> 'w \<Rightarrow> (com_state \<times> 'w) option" where
  "vt_win_create mpi next_id win comm sw =
     (case sw of (s, w) \<Rightarrow>
        (case win_search mpi win s of
           (Some i, s) \<Rightarrow> Some (s, w)
         | (None, s) \<Rightarrow>
             (let (wid, w) = next_id w;
                  grp = Win_get_group mpi win
              in case free_win s of
                   Some f \<Rightarrow>
                     map_option (\<lambda>gid. (s\<lparr>wins := (wins s)[f :=
                        \<lparr>win_win = win, win_comm = comm, win_gid = gid, win_wid = wid\<rparr>]\<rparr>, w))
                       (vt_group_id grp s)
                 | None \<Rightarrow>
                     (if last_win s < max_wins s then
                        map_option (\<lambda>gid. (s\<lparr>wins := (wins s)[last_win s :=
                          \<lparr>win_win = win, win_comm = comm, win_gid = gid, win_wid = wid\<rparr>],
                          last_win := last_win s + 1\<rparr>, w))
                          (vt_group_id grp s)
                      else None))))"

definition vt_win_free :: "mpi_funs \<Rightarrow> handle \<Rightarrow> com_state \<Rightarrow> com_state option" where
  "vt_win_free mpi win s =
     (case win_search mpi win s of
        (Some pos, s) \<Rightarrow>
          Some (s\<lparr>wins := (wins s)[pos := \<lparr>win_win = MPI_WIN_NULL mpi, win_comm = MPI_COMM_NULL mpi,
                                          win_gid = 0, win_wid = 0\<rparr>]\<rparr>)
      | (None, s) \<Rightarrow> None)"

definition vt_win_id :: "mpi_funs \<Rightarrow> handle \<Rightarrow> com_state \<Rightarrow> (handle \<times> u32 \<times> u32) option" where
  "vt_win_id mpi win s =
     (case win_search mpi win s of
        (Some pos, s) \<Rightarrow> (let e = wins s ! pos in Some (win_comm e, win_gid e, win_wid e))
      | (None, s) \<Rightarrow> None)"

definition vt_win_set_gid :: "mpi_funs \<Rightarrow> handle \<Rightarrow> u32 \<Rightarrow> com_state \<Rightarrow> com_state option" where
  "vt_win_set_gid mpi win gid s =
     (case win_search mpi win s of
        (Some pos, s) \<Rightarrow> Some (s\<lparr>wins := (wins s)[pos := (wins s ! pos)\<lparr>win_gid := gid\<rparr>]\<rparr>)
      | (None, s) \<Rightarrow> None)"

section \<open>The bit vector of a group\<close>

lemma length_set_rank [simp]: "length (set_rank mpi rs i g) = length g"
  by (simp add: set_rank_def)

lemma length_fold_set_rank [simp]: "length (fold (set_rank mpi rs) is g) = length g"
  by (induction "is" arbitrary: g) auto

lemma fold_clear:
  "n \<le> length g \<Longrightarrow> fold (\<lambda>i g. g[i := (0::u8)]) [0..<n] g = replicate n 0 @ drop n g"
proof (induction n)
  case 0
  then show ?case by simp
next
  case (Suc n)
  then show ?case
    using replicate_append_same [of n "0::u8"]
    by (simp add: list_update_append drop_update_0)
qed

lemma fold_set_rank_bit:
  assumes "n \<le> 8 * length g" and "b < length g" and "k < 8"
  shows "bit (fold (set_rank mpi rs) [0..<n] g ! b) k \<longleftrightarrow>
    bit (g ! b) k \<or> (8 * b + k < n \<and> rs ! (8 * b + k) \<noteq> MPI_UNDEFINED mpi)"
  using assms(1)
proof (induction n)
  case 0
  then show ?case by simp
next
  case (Suc n)
  let ?g = "fold (set_rank mpi rs) [0..<n] g"
  have div: "n div 8 < length g"
    using Suc.prems by linarith
  have pos: "8 * b + k = n \<longleftrightarrow> b = n div 8 \<and> k = n mod 8"
  proof
    assume "8 * b + k = n"
    then show "b = n div 8 \<and> k = n mod 8"
      using assms(3) by auto
  next
    assume "b = n div 8 \<and> k = n mod 8"
    then show "8 * b + k = n"
      by simp
  qed
  have "bit (set_rank mpi rs n ?g ! b) k \<longleftrightarrow>
      bit (?g ! b) k \<or> (rs ! n \<noteq> MPI_UNDEFINED mpi \<and> b = n div 8 \<and> k = n mod 8)"
  proof (cases "rs ! n \<noteq> MPI_UNDEFINED mpi \<and> b = n div 8")
    case True
    then have "set_rank mpi rs n ?g ! b = ?g ! b OR push_bit (n mod 8) 1"
      using div by (simp add: set_rank_def)
    moreover have "bit (push_bit (n mod 8) (1::u8)) k \<longleftrightarrow> k = n mod 8"
      using assms(3) by (auto simp: bit_exp_iff)
    ultimately show ?thesis
      using True by (simp add: bit_or_iff)
  next
    case False
    then have "set_rank mpi rs n ?g ! b = ?g ! b"
      by (auto simp: set_rank_def)
    then show ?thesis
      using False by auto
  qed
  then show ?case
    using Suc pos by (auto simp: less_Suc_eq)
qed

definition world_ok :: "com_state \<Rightarrow> bool" where
  "world_ok s \<longleftrightarrow> w_size_grpv (world s) = w_size (world s) div 8 + (if w_size (world s) mod 8 \<noteq> 0 then 1 else 0)
     \<and> length (grpv s) = w_size_grpv (world s)"

section \<open>The used entries\<close>

definition comms_ok :: "com_state \<Rightarrow> bool" where
  "comms_ok s \<longleftrightarrow> length (comms s) = max_comms s \<and> last_comm s \<le> max_comms s"

definition used_comms :: "com_state \<Rightarrow> VTComm list" where
  "used_comms s = take (last_comm s) (comms s)"

lemma length_used_comms: "comms_ok s \<Longrightarrow> length (used_comms s) = last_comm s"
  by (simp add: comms_ok_def used_comms_def)

lemma group_search_eq:
  "comms_ok s \<Longrightarrow> group_search grp s = find_index (\<lambda>c. c_group c = grp) (used_comms s)"
  unfolding used_comms_def
  using scan_Some [of "last_comm s" "comms s" "\<lambda>c. c_group c = grp"]
  by (cases "find_index (\<lambda>c. c_group c = grp) (take (last_comm s) (comms s))")
    (auto simp add: group_search_def scan_None comms_ok_def Let_def)

text \<open>The id of a communicator that the program created.\<close>

lemma comm_id_eq:
  assumes "comms_ok s" and "comm \<noteq> MPI_COMM_WORLD mpi" and "comm \<noteq> MPI_COMM_SELF mpi"
  shows "vt_comm_id mpi comm s = map_of (map (\<lambda>c. (c_comm c, c_cid c)) (used_comms s)) comm"
proof -
  have "map_option (\<lambda>i. c_cid (cs ! i)) (find_index (\<lambda>c. c_comm c = comm) cs) =
      map_of (map (\<lambda>c. (c_comm c, c_cid c)) cs) comm" for cs
    by (induction cs) (auto simp: option.map_comp comp_def)
  moreover have "vt_comm_id mpi comm s =
      map_option (\<lambda>i. c_cid (used_comms s ! i)) (find_index (\<lambda>c. c_comm c = comm) (used_comms s))"
    unfolding used_comms_def
    using assms scan_Some [of "last_comm s" "comms s" "\<lambda>c. c_comm c = comm"]
    by (cases "find_index (\<lambda>c. c_comm c = comm) (take (last_comm s) (comms s))")
      (auto simp add: vt_comm_id_def scan_None comms_ok_def Let_def)
  ultimately show ?thesis
    by simp
qed

lemma add_comm_ok:
  assumes "comms_ok s" and "last_comm s < max_comms s"
  shows "comms_ok (add_comm comm grp cid s)"
    and "used_comms (add_comm comm grp cid s) = used_comms s @ [\<lparr>c_comm = comm, c_group = grp, c_cid = cid\<rparr>]"
  using assms by (simp_all add: comms_ok_def add_comm_def used_comms_def take_Suc_conv_app_nth)

text \<open>
  Freeing takes one entry out of the used ones: the last entry fills its place. Where no handle but
  the null handle is there twice, the other communicators keep their ids.
\<close>

lemma comm_free_removes:
  assumes "comms_ok s" and "comm \<in> c_comm ` set (used_comms s)"
  shows "\<exists>s' e. vt_comm_free comm s = Some s' \<and> comms_ok s' \<and> c_comm e = comm
    \<and> mset (used_comms s) = add_mset e (mset (used_comms s'))"
proof -
  let ?cs = "used_comms s"
  obtain i where i: "find_index (\<lambda>c. c_comm c = comm) ?cs = Some i"
    using assms(2) find_index_None [of "\<lambda>c. c_comm c = comm" ?cs] by (cases "find_index (\<lambda>c. c_comm c = comm) ?cs") auto
  then have at: "i < length ?cs" "c_comm (?cs ! i) = comm"
    by (simp_all add: find_index_Some)
  obtain n where n: "last_comm s = Suc n"
    using at(1) length_used_comms [OF assms(1)] by (cases "last_comm s") auto
  have len: "length ?cs = Suc n" "n < length (comms s)" "?cs ! i = comms s ! i"
    using assms(1) n at(1) length_used_comms [OF assms(1)] by (simp_all add: comms_ok_def used_comms_def)
  have scan: "scan (\<lambda>c. c_comm c = comm) (comms s) (last_comm s) 0 = i"
    using i scan_Some [of "last_comm s" "comms s"] assms(1) by (simp add: comms_ok_def used_comms_def)
  have cs: "?cs = take n (comms s) @ [comms s ! n]"
    using n len by (simp add: used_comms_def take_Suc_conv_app_nth)
  let ?s = "s\<lparr>last_comm := n, comms := (comms s)[i := comms s ! n]\<rparr>"
  have ok: "comms_ok ?s"
    using assms(1) n by (simp add: comms_ok_def)
  have "mset ?cs = add_mset (?cs ! i) (mset (used_comms ?s))"
  proof (cases "i = n")
    case True
    then show ?thesis
      using cs len by (simp add: used_comms_def)
  next
    case False
    then have less: "i < length (take n (comms s))"
      using at(1) len by simp
    then have "?cs ! i \<in># mset (take n (comms s))"
      using len nth_mem [OF less] by simp
    moreover have "used_comms ?s = (take n (comms s))[i := comms s ! n]"
      using False by (simp add: used_comms_def take_update_swap)
    ultimately show ?thesis
      using mset_update [OF less, of "comms s ! n"] cs len less by simp
  qed
  moreover have "vt_comm_free comm s = Some (if n = 0 then s\<lparr>last_comm := 0\<rparr> else ?s)"
    using n scan at len by (auto simp: vt_comm_free_def Let_def)
  ultimately show ?thesis
    using at(2) ok assms(1) by (cases "n = 0") (auto simp: comms_ok_def used_comms_def)
qed

abbreviation handles :: "mpi_funs \<Rightarrow> com_state \<Rightarrow> handle list" where
  "handles mpi s \<equiv> filter (\<lambda>c. c \<noteq> MPI_COMM_NULL mpi) (map c_comm (used_comms s))"

lemma comm_id_mem:
  assumes "comms_ok s" and "distinct (handles mpi s)" and "c \<notin> {MPI_COMM_WORLD mpi, MPI_COMM_SELF mpi, MPI_COMM_NULL mpi}"
  shows "vt_comm_id mpi c s = Some i \<longleftrightarrow> (c, i) \<in> (\<lambda>e. (c_comm e, c_cid e)) ` set (used_comms s)"
proof -
  have mem: "distinct (filter (\<lambda>c. c \<noteq> z) (map c_comm es)) \<Longrightarrow> c \<noteq> z \<Longrightarrow>
      map_of (map (\<lambda>e. (c_comm e, c_cid e)) es) c = Some i \<longleftrightarrow> (c, i) \<in> (\<lambda>e. (c_comm e, c_cid e)) ` set es" for es z
    by (induction es) (force split: if_splits)+
  then show ?thesis
    using mem [OF assms(2)] assms(3) comm_id_eq [OF assms(1), of c mpi] by auto
qed

lemma comm_free_ids:
  assumes "comms_ok s" and "distinct (handles mpi s)" and "d \<in> c_comm ` set (used_comms s)"
    and "d \<notin> {MPI_COMM_WORLD mpi, MPI_COMM_SELF mpi, MPI_COMM_NULL mpi}"
  shows "\<exists>s' e. vt_comm_free d s = Some s' \<and> c_comm e = d \<and> mset (used_comms s) = add_mset e (mset (used_comms s'))
    \<and> vt_comm_id mpi d s' = None
    \<and> (\<forall>c. c \<notin> {d, MPI_COMM_WORLD mpi, MPI_COMM_SELF mpi, MPI_COMM_NULL mpi} \<longrightarrow>
         vt_comm_id mpi c s' = vt_comm_id mpi c s)"
proof -
  obtain s' e where s': "vt_comm_free d s = Some s'" "comms_ok s'" "c_comm e = d"
      "mset (used_comms s) = add_mset e (mset (used_comms s'))"
    using comm_free_removes [OF assms(1,3)] by blast
  have "mset (handles mpi s) = add_mset d (mset (handles mpi s'))"
    using s'(3,4) assms(4) by (simp add: mset_filter)
  then have dist: "distinct (handles mpi s')" "d \<notin> set (handles mpi s')"
    using assms(2) mset_eq_imp_distinct_iff [of "handles mpi s" "d # handles mpi s'"] by simp_all
  have set: "set (used_comms s) = insert e (set (used_comms s'))"
    using arg_cong [OF s'(4), of set_mset] by simp
  have "vt_comm_id mpi d s' = None"
    using comm_id_mem [OF s'(2) dist(1) assms(4)] dist(2) assms(4) by (cases "vt_comm_id mpi d s'") force+
  moreover have "vt_comm_id mpi c s' = vt_comm_id mpi c s"
    if "c \<notin> {d, MPI_COMM_WORLD mpi, MPI_COMM_SELF mpi, MPI_COMM_NULL mpi}" for c
  proof -
    have "vt_comm_id mpi c s' = Some i \<longleftrightarrow> vt_comm_id mpi c s = Some i" for i
      using that s'(3) set comm_id_mem [OF s'(2) dist(1), of c i] comm_id_mem [OF assms(1,2), of c i] by auto
    then show ?thesis
      by (metis option.exhaust)
  qed
  ultimately show ?thesis
    using s' by blast
qed

text \<open>The branch of \<open>vt_comm_create\<close> that defines a communicator.\<close>

definition reuses_second :: "mpi_funs \<Rightarrow> handle \<Rightarrow> com_state \<Rightarrow> bool" where
  "reuses_second mpi comm s \<longleftrightarrow>
     group_search (Comm_group mpi comm) s \<noteq> None \<and> c_comm (comms s ! 1) = MPI_COMM_NULL mpi"

lemma comm_create_defines:
  assumes "comms_ok s" and "last_comm s < max_comms s" and "\<not> reuses_second mpi comm s"
    and "comm \<noteq> MPI_COMM_WORLD mpi" and "comm \<noteq> MPI_COMM_SELF mpi"
  shows "\<exists>cid w' s'. vt_comm_create mpi def_comm comm (s, w) = Some (s', w')
    \<and> def_comm VT_MPI_COMM_USER (take (w_size_grpv (world s))
         (grpv (vt_group_to_bitvector mpi (Comm_group mpi comm) s))) w = (cid, w')
    \<and> comms_ok s' \<and> last_comm s' = last_comm s + 1
    \<and> used_comms s' = used_comms s @ [\<lparr>c_comm = comm, c_group = Comm_group mpi comm, c_cid = cid\<rparr>]"
proof -
  let ?s = "vt_group_to_bitvector mpi (Comm_group mpi comm) s"
  have keep: "comms ?s = comms s" "last_comm ?s = last_comm s" "max_comms ?s = max_comms s" "world ?s = world s"
    by (simp_all add: vt_group_to_bitvector_def Let_def)
  then have ok: "comms_ok ?s" and used: "used_comms ?s = used_comms s" and lt: "last_comm ?s < max_comms ?s"
    using assms by (simp_all add: comms_ok_def used_comms_def)
  obtain cid w' where d: "def_comm VT_MPI_COMM_USER (take (w_size_grpv (world s)) (grpv ?s)) w = (cid, w')"
    by (cases "def_comm VT_MPI_COMM_USER (take (w_size_grpv (world s)) (grpv ?s)) w")
  have "vt_comm_create mpi def_comm comm (s, w) = Some (add_comm comm (Comm_group mpi comm) cid ?s, w')"
    using assms d keep by (auto simp: vt_comm_create_def reuses_second_def Let_def)
  then show ?thesis
    using d add_comm_ok [OF ok lt] used keep by (auto simp: add_comm_def)
qed

lemma group_create_new:
  assumes "comms_ok s" and "last_comm s < max_comms s" and "group_search grp s = None"
  shows "\<exists>cid w' s'. vt_group_create mpi def_comm grp (s, w) = Some (s', w') \<and> comms_ok s'
    \<and> last_comm s' = last_comm s + 1 \<and> max_comms s' = max_comms s
    \<and> used_comms s' = used_comms s @ [\<lparr>c_comm = MPI_COMM_NULL mpi, c_group = grp, c_cid = cid\<rparr>]"
proof -
  let ?s = "vt_group_to_bitvector mpi grp s"
  have keep: "comms ?s = comms s" "last_comm ?s = last_comm s" "max_comms ?s = max_comms s" "world ?s = world s"
    by (simp_all add: vt_group_to_bitvector_def Let_def)
  then have ok: "comms_ok ?s" and used: "used_comms ?s = used_comms s" and lt: "last_comm ?s < max_comms ?s"
    using assms by (simp_all add: comms_ok_def used_comms_def)
  obtain cid w' where d: "def_comm VT_MPI_COMM_USER (take (w_size_grpv (world s)) (grpv ?s)) w = (cid, w')"
    by (cases "def_comm VT_MPI_COMM_USER (take (w_size_grpv (world s)) (grpv ?s)) w")
  then show ?thesis
    using assms keep used add_comm_ok [OF ok lt]
    by (intro exI [of _ cid] exI [of _ w'] exI [of _ "add_comm (MPI_COMM_NULL mpi) grp cid ?s"])
      (simp add: vt_group_create_def Let_def, simp add: add_comm_def)
qed

section \<open>The used windows\<close>

definition wins_ok :: "com_state \<Rightarrow> bool" where
  "wins_ok s \<longleftrightarrow> length (wins s) = max_wins s \<and> last_win s \<le> max_wins s"

definition used_wins :: "com_state \<Rightarrow> VTWin list" where
  "used_wins s = take (last_win s) (wins s)"

abbreviation freed :: "mpi_funs \<Rightarrow> VTWin \<Rightarrow> bool" where
  "freed mpi e \<equiv> win_win e = MPI_WIN_NULL mpi \<and> win_comm e = MPI_COMM_NULL mpi"

lemma win_loop_pos:
  "snd (win_loop mpi ws n win free i) = scan (\<lambda>e. win_win e = win) ws n i"
proof (induction mpi ws n win free i rule: win_loop.induct)
  case (1 mpi ws n win free i)
  then show ?case
    by (subst win_loop.simps, subst scan.simps) simp
qed

lemma win_loop_free:
  "i \<le> n \<Longrightarrow> n \<le> length ws \<Longrightarrow> win \<notin> win_win ` set (take n ws) \<Longrightarrow>
   fst (win_loop mpi ws n win free i) =
     (if free \<noteq> None then free else map_option ((+) i) (find_index (freed mpi) (drop i (take n ws))))"
proof (induction mpi ws n win free i rule: win_loop.induct)
  case (1 mpi ws n win free i)
  show ?case
  proof (cases "i < n")
    case True
    then have d: "drop i (take n ws) = ws ! i # drop (Suc i) (take n ws)"
      using "1.prems" Cons_nth_drop_Suc [of i "take n ws"] by simp
    have "ws ! i \<in> set (take n ws)"
      using True "1.prems" by (metis in_set_conv_nth length_take min_less_iff_conj nth_take order_less_le_trans)
    then have "win_win (ws ! i) \<noteq> win"
      using "1.prems" by auto
    moreover have "(\<lambda>x. Suc (i + x)) = (+) (Suc i)"
      by auto
    ultimately show ?thesis
      using True "1" by (subst win_loop.simps) (auto simp: d option.map_comp comp_def)
  next
    case False
    then show ?thesis
      using "1.prems" by (subst win_loop.simps) simp
  qed
qed

lemma win_search_eq:
  assumes "wins_ok s"
  shows "fst (win_search mpi win s) = find_index (\<lambda>e. win_win e = win) (used_wins s)"
    and "\<exists>f. snd (win_search mpi win s) = s\<lparr>free_win := f\<rparr>
      \<and> (win \<notin> win_win ` set (used_wins s) \<longrightarrow> f = find_index (freed mpi) (used_wins s))"
proof -
  obtain f i where r: "win_loop mpi (wins s) (last_win s) win None 0 = (f, i)"
    by (cases "win_loop mpi (wins s) (last_win s) win None 0")
  have i: "i = scan (\<lambda>e. win_win e = win) (wins s) (last_win s) 0"
    using win_loop_pos [of mpi "wins s" "last_win s" win None 0] r by simp
  show "fst (win_search mpi win s) = find_index (\<lambda>e. win_win e = win) (used_wins s)"
    unfolding used_wins_def
    using assms scan_Some [of "last_win s" "wins s" "\<lambda>e. win_win e = win"]
    by (cases "find_index (\<lambda>e. win_win e = win) (take (last_win s) (wins s))")
      (auto simp: win_search_def r i wins_ok_def scan_None)
  have "map_option ((+) 0) x = x" for x :: "nat option"
    by (cases x) auto
  then show "\<exists>f. snd (win_search mpi win s) = s\<lparr>free_win := f\<rparr>
      \<and> (win \<notin> win_win ` set (used_wins s) \<longrightarrow> f = find_index (freed mpi) (used_wins s))"
    using win_loop_free [of 0 "last_win s" "wins s" win mpi None] assms r
    by (auto simp: win_search_def wins_ok_def used_wins_def)
qed

abbreviation win_data :: "VTWin \<Rightarrow> handle \<times> handle \<times> u32 \<times> u32" where
  "win_data e \<equiv> (win_win e, win_comm e, win_gid e, win_wid e)"

lemma win_id_eq:
  assumes "wins_ok s"
  shows "vt_win_id mpi win s = map_of (map win_data (used_wins s)) win"
proof -
  have map: "map_option (\<lambda>i. snd (win_data (es ! i))) (find_index (\<lambda>e. win_win e = win) es) =
      map_of (map win_data es) win" for es
    by (induction es) (auto simp: option.map_comp comp_def)
  obtain f where f: "snd (win_search mpi win s) = s\<lparr>free_win := f\<rparr>"
    using win_search_eq(2) [OF assms] by blast
  have "used_wins s ! i = wins s ! i" if "find_index (\<lambda>e. win_win e = win) (used_wins s) = Some i" for i
    using find_index_less [OF that] by (simp add: used_wins_def)
  then have "vt_win_id mpi win s =
      map_option (\<lambda>i. snd (win_data (used_wins s ! i))) (find_index (\<lambda>e. win_win e = win) (used_wins s))"
    using win_search_eq(1) [OF assms, of mpi win] f
    by (cases "win_search mpi win s") (auto simp: vt_win_id_def Let_def split: option.split)
  then show ?thesis
    by (simp only: map)
qed

lemma map_of_update:
  assumes "i < length es" and "win \<notin> win_win ` set es" and "win_win e = win"
  shows "map_of (map win_data (es[i := e])) k =
    (if k = win then Some (win_comm e, win_gid e, win_wid e)
     else if k = win_win (es ! i) then map_of (map win_data (es[i := e])) k else map_of (map win_data es) k)"
proof -
  have es: "es = take i es @ es ! i # drop (Suc i) es"
    using assms(1) by (rule id_take_nth_drop)
  have "map_of (map win_data (take i es)) win = None"
    using assms(2) by (auto simp: map_of_eq_None_iff dest: in_set_takeD)
  moreover have "es[i := e] = take i es @ e # drop (Suc i) es"
    using assms(1) by (simp add: upd_conv_take_nth_drop)
  moreover have "map_of (map win_data es) k = map_of (map win_data (take i es @ es ! i # drop (Suc i) es)) k"
    using es by simp
  ultimately show ?thesis
    using assms(3) by (auto simp: map_add_def simp del: append_take_drop_id split: option.split)
qed

section \<open>Properties\<close>

text \<open>
  The bit vector of a group has bit \<open>k\<close> of byte \<open>b\<close> set exactly when the process with the
  rank \<open>8 b + k\<close> of the world exists and is in the group, whatever the vector held before; it
  stays inside its \<open>size_grpv\<close> bytes.
\<close>

lemma group_bitvector:
  assumes "world_ok s" and "b < w_size_grpv (world s)" and "k < 8"
  shows "bit (grpv (vt_group_to_bitvector mpi grp s) ! b) k \<longleftrightarrow>
      8 * b + k < w_size (world s)
      \<and> Group_translate_ranks mpi (w_group (world s)) (w_ranks (world s)) grp ! (8 * b + k) \<noteq> MPI_UNDEFINED mpi"
proof -
  let ?n = "w_size_grpv (world s)"
  let ?g = "fold (\<lambda>i g. g[i := (0::u8)]) [0..<?n] (grpv s)"
  have g: "?g = replicate ?n 0"
    using assms(1) fold_clear [of ?n "grpv s"] by (simp add: world_ok_def)
  have "w_size (world s) \<le> 8 * ?n"
    using assms(1) unfolding world_ok_def by (auto split: if_splits; presburger)
  then show ?thesis
    using fold_set_rank_bit [of "w_size (world s)" ?g b k mpi] assms g
    by (simp add: vt_group_to_bitvector_def Let_def)
qed

definition demo_mpi :: mpi_funs where
  "demo_mpi = \<lparr>MPI_COMM_WORLD = 1, MPI_COMM_SELF = 2, MPI_COMM_NULL = 0, MPI_WIN_NULL = 0,
     MPI_UNDEFINED = - 1, Comm_test_inter = (\<lambda>_. False), Comm_group = (\<lambda>c. c + 10),
     Comm_remote_group = (\<lambda>c. c), Group_size = (\<lambda>_. 3),
     Group_translate_ranks = (\<lambda>_ rs _. map (\<lambda>r. if r = 1 then - 1 else r) rs),
     Win_get_group = (\<lambda>w. w)\<rparr>"

definition demo_state :: "VTComm list \<Rightarrow> com_state" where
  "demo_state cs = \<lparr>world = \<lparr>w_group = 11, w_size = 3, w_size_grpv = 1, w_ranks = [0, 1, 2]\<rparr>, world_cid = 1,
     self_cid = 2, last_comm = length cs, max_comms = 8, ranks = [0, 0, 0],
     comms = cs @ replicate (8 - length cs) \<lparr>c_comm = 0, c_group = 0, c_cid = 0\<rparr>, grpv = [255],
     comm_initialized = True, free_win = None, last_win = 0, max_wins = 0, wins = []\<rparr>"

text \<open>
  C38: while the second entry of the array has a communicator, creating a communicator always
  makes a new definition, under whose id the communicator is known from then on, and the ids of the
  others do not change. Freeing any communicator of the array, the new one or one before it,
  removes exactly its entry: its id is gone, and all others keep theirs.
\<close>

theorem comm_lifecycle:
  assumes "comms_ok s" and "last_comm s < max_comms s" and "c_comm (comms s ! 1) \<noteq> MPI_COMM_NULL mpi"
    and "comm \<notin> {MPI_COMM_WORLD mpi, MPI_COMM_SELF mpi, MPI_COMM_NULL mpi}"
    and "comm \<notin> c_comm ` set (used_comms s)"
    and "distinct (filter (\<lambda>c. c \<noteq> MPI_COMM_NULL mpi) (map c_comm (used_comms s)))"
    and "d = comm \<or> d \<in> c_comm ` set (used_comms s)"
    and "d \<notin> {MPI_COMM_WORLD mpi, MPI_COMM_SELF mpi, MPI_COMM_NULL mpi}"
  shows "\<exists>cid w' s1 s2 e. vt_comm_create mpi def_comm comm (s, w) = Some (s1, w')
    \<and> def_comm VT_MPI_COMM_USER (take (w_size_grpv (world s))
         (grpv (vt_group_to_bitvector mpi (Comm_group mpi comm) s))) w = (cid, w')
    \<and> vt_comm_id mpi comm s1 = Some cid
    \<and> (\<forall>c. c \<notin> {comm, MPI_COMM_WORLD mpi, MPI_COMM_SELF mpi} \<longrightarrow> vt_comm_id mpi c s1 = vt_comm_id mpi c s)
    \<and> vt_comm_free d s1 = Some s2 \<and> c_comm e = d \<and> mset (used_comms s1) = add_mset e (mset (used_comms s2))
    \<and> vt_comm_id mpi d s2 = None
    \<and> (\<forall>c. c \<notin> {d, MPI_COMM_WORLD mpi, MPI_COMM_SELF mpi, MPI_COMM_NULL mpi} \<longrightarrow>
         vt_comm_id mpi c s2 = vt_comm_id mpi c s1)"
proof -
  have "\<not> reuses_second mpi comm s"
    using assms(3) by (simp add: reuses_second_def)
  then obtain cid w' s1 where s1: "vt_comm_create mpi def_comm comm (s, w) = Some (s1, w')"
    "def_comm VT_MPI_COMM_USER (take (w_size_grpv (world s))
         (grpv (vt_group_to_bitvector mpi (Comm_group mpi comm) s))) w = (cid, w')"
    and ok1: "comms_ok s1"
    and used1: "used_comms s1 = used_comms s @ [\<lparr>c_comm = comm, c_group = Comm_group mpi comm, c_cid = cid\<rparr>]"
    using comm_create_defines [of s mpi comm def_comm w] assms by auto
  have none: "map_of (map (\<lambda>c. (c_comm c, c_cid c)) (used_comms s)) comm = None"
    using assms(5) by (auto simp: map_of_eq_None_iff)
  have id1: "vt_comm_id mpi comm s1 = Some cid"
    using comm_id_eq [OF ok1] assms(4) none by (simp add: used1 map_add_def)
  have others: "vt_comm_id mpi c s1 = vt_comm_id mpi c s"
    if "c \<notin> {comm, MPI_COMM_WORLD mpi, MPI_COMM_SELF mpi}" for c
    using that comm_id_eq [OF ok1] comm_id_eq [OF assms(1)] by (simp add: used1 map_add_def split: option.split)
  have "distinct (handles mpi s1)" "d \<in> c_comm ` set (used_comms s1)"
    using assms(4-7) by (auto simp: used1)
  then show ?thesis
    using comm_free_ids [OF ok1 _ _ assms(8)] s1 id1 others by fast
qed

abbreviation demo_comms :: com_state where
  "demo_comms \<equiv> demo_state [\<lparr>c_comm = 1, c_group = 11, c_cid = 1\<rparr>, \<lparr>c_comm = 2, c_group = 12, c_cid = 2\<rparr>,
     \<lparr>c_comm = 5, c_group = 15, c_cid = 3\<rparr>]"

theorem comm_lifecycle_witness:
  "\<exists>w' s1 s2. vt_comm_create demo_mpi (\<lambda>k g w. (w, w + 1)) 7 (demo_comms, 40) = Some (s1, w')
    \<and> vt_comm_free 5 s1 = Some s2 \<and> vt_comm_id demo_mpi 5 s2 = None \<and> vt_comm_id demo_mpi 7 s2 = Some 40"
proof -
  have ok: "comms_ok demo_comms" "last_comm demo_comms < max_comms demo_comms"
      "c_comm (comms demo_comms ! 1) \<noteq> MPI_COMM_NULL demo_mpi"
      "7 \<notin> {MPI_COMM_WORLD demo_mpi, MPI_COMM_SELF demo_mpi, MPI_COMM_NULL demo_mpi}"
      "7 \<notin> c_comm ` set (used_comms demo_comms)"
      "distinct (filter (\<lambda>c. c \<noteq> MPI_COMM_NULL demo_mpi) (map c_comm (used_comms demo_comms)))"
      "5 = (7 :: handle) \<or> 5 \<in> c_comm ` set (used_comms demo_comms)"
      "5 \<notin> {MPI_COMM_WORLD demo_mpi, MPI_COMM_SELF demo_mpi, MPI_COMM_NULL demo_mpi}"
    by (simp_all add: comms_ok_def used_comms_def demo_state_def demo_mpi_def)
  have "7 \<notin> {5, MPI_COMM_WORLD demo_mpi, MPI_COMM_SELF demo_mpi, MPI_COMM_NULL demo_mpi}"
    by (simp add: demo_mpi_def)
  moreover obtain cid w' s1 s2 where "vt_comm_create demo_mpi (\<lambda>k g w. (w, w + 1)) 7 (demo_comms, 40) = Some (s1, w')"
      "(40, 41) = (cid, w')" "vt_comm_id demo_mpi 7 s1 = Some cid" "vt_comm_free 5 s1 = Some s2"
      "vt_comm_id demo_mpi 5 s2 = None"
      "\<forall>c. c \<notin> {5, MPI_COMM_WORLD demo_mpi, MPI_COMM_SELF demo_mpi, MPI_COMM_NULL demo_mpi} \<longrightarrow>
         vt_comm_id demo_mpi c s2 = vt_comm_id demo_mpi c s1"
    using comm_lifecycle [OF ok, of "\<lambda>k g w. (w, w + 1)" 40] by auto
  ultimately show ?thesis
    by auto
qed

text \<open>
  A communicator whose group was defined before by \<open>vt_group_create\<close>, without a communicator,
  is defined a second time, and the first entry stays without a communicator: the intended
  \<open>just set communicator to comm\<close> is never reached while the second entry has a communicator.
\<close>

lemma group_defined_twice:
  assumes "comms_ok s" and "last_comm s + 1 < max_comms s" and "1 < last_comm s"
    and "group_search (Comm_group mpi comm) s = None" and "c_comm (comms s ! 1) \<noteq> MPI_COMM_NULL mpi"
    and "comm \<notin> {MPI_COMM_WORLD mpi, MPI_COMM_SELF mpi}"
  shows "\<exists>gid cid s1 w1 s2 w2. vt_group_create mpi def_comm (Comm_group mpi comm) (s, w) = Some (s1, w1)
    \<and> vt_comm_create mpi def_comm comm (s1, w1) = Some (s2, w2)
    \<and> used_comms s2 = used_comms s @
        [\<lparr>c_comm = MPI_COMM_NULL mpi, c_group = Comm_group mpi comm, c_cid = gid\<rparr>,
         \<lparr>c_comm = comm, c_group = Comm_group mpi comm, c_cid = cid\<rparr>]"
proof -
  obtain gid w1 s1 where 1: "vt_group_create mpi def_comm (Comm_group mpi comm) (s, w) = Some (s1, w1)"
    "comms_ok s1" "last_comm s1 = last_comm s + 1" "max_comms s1 = max_comms s"
    "used_comms s1 = used_comms s @ [\<lparr>c_comm = MPI_COMM_NULL mpi, c_group = Comm_group mpi comm, c_cid = gid\<rparr>]"
    using group_create_new [of s "Comm_group mpi comm" mpi def_comm w] assms by auto
  have "used_comms s1 ! 1 = comms s1 ! 1" and "used_comms s ! 1 = comms s ! 1"
    using assms(3) 1(3) by (simp_all add: used_comms_def)
  then have "comms s1 ! 1 = comms s ! 1"
    using 1 assms(3) length_used_comms [OF assms(1)] by (simp add: nth_append)
  then have "\<not> reuses_second mpi comm s1"
    using assms(5) by (simp add: reuses_second_def)
  then show ?thesis
    using comm_create_defines [of s1 mpi comm def_comm w1] 1 assms by auto
qed

text \<open>
  When a communicator's group is known and the second entry has no communicator, the
  communicator is attached to that second entry, whichever group it has, and gets its id.
\<close>

lemma comm_attached_to_second_entry:
  assumes "comms_ok s" and "1 < last_comm s" and "last_comm s < max_comms s"
    and "group_search (Comm_group mpi comm) s = Some j" and "c_comm (comms s ! 1) = MPI_COMM_NULL mpi"
    and "comm \<notin> {MPI_COMM_WORLD mpi, MPI_COMM_SELF mpi}" and "comm \<notin> c_comm ` set (used_comms s)"
  shows "\<exists>s'. vt_comm_create mpi def_comm comm (s, w) = Some (s', w)
    \<and> vt_comm_id mpi comm s' = Some (c_cid (comms s ! 1))"
proof -
  let ?s = "s\<lparr>comms := (comms s)[1 := (comms s ! 1)\<lparr>c_comm := comm\<rparr>]\<rparr>"
  have create: "vt_comm_create mpi def_comm comm (s, w) = Some (?s, w)"
    using assms by (simp add: vt_comm_create_def Let_def)
  have ok: "comms_ok ?s"
    using assms(1) by (simp add: comms_ok_def)
  have len: "1 < length (comms s)"
    using assms by (simp add: comms_ok_def)
  then obtain x y cs where cs: "comms s = x # y # cs"
    by (cases "comms s" rule: list.exhaust; cases "tl (comms s)" rule: list.exhaust) auto
  obtain n where n: "last_comm s = Suc (Suc n)"
    using assms(2) by (metis One_nat_def less_imp_Suc_add add_Suc)
  have "c_comm x \<noteq> comm"
    using assms(7) cs n by (auto simp: used_comms_def)
  then have "vt_comm_id mpi comm ?s = Some (c_cid (comms s ! 1))"
    using comm_id_eq [OF ok] assms(6) cs n by (simp add: used_comms_def)
  then show ?thesis
    using create by blast
qed

text \<open>
  Creating a window that is not known, of a group that is, takes the first freed entry of
  the array, or the next unused one when there is none; the window is found with its
  communicator, group id and id, and the other windows as before.
\<close>

lemma window_create_find:
  assumes "wins_ok s" and "win \<notin> win_win ` set (used_wins s)"
    and "vt_group_id (Win_get_group mpi win) s = Some gid" and "next_id w = (wid, w')"
    and "last_win s < max_wins s"
  shows "\<exists>s'. vt_win_create mpi next_id win comm (s, w) = Some (s', w') \<and> wins_ok s'
    \<and> last_win s' = (if \<exists>e \<in> set (used_wins s). freed mpi e then last_win s else last_win s + 1)
    \<and> vt_win_id mpi win s' = Some (comm, gid, wid)
    \<and> (\<forall>k. k \<notin> {win, MPI_WIN_NULL mpi} \<longrightarrow> vt_win_id mpi k s' = vt_win_id mpi k s)"
proof -
  let ?e = "\<lparr>win_win = win, win_comm = comm, win_gid = gid, win_wid = wid\<rparr>"
  let ?f = "find_index (freed mpi) (used_wins s)"
  have absent: "find_index (\<lambda>e. win_win e = win) (used_wins s) = None"
    using assms(2) by (force simp: find_index_None)
  then have search: "win_search mpi win s = (None, s\<lparr>free_win := ?f\<rparr>)"
    using win_search_eq(1) [OF assms(1), of mpi win] win_search_eq(2) [OF assms(1), of mpi win] assms(2)
    by (cases "win_search mpi win s") auto
  have gid: "vt_group_id (Win_get_group mpi win) (s\<lparr>free_win := ?f\<rparr>) = Some gid"
    using assms(3) by (simp add: vt_group_id_def group_search_def)
  show ?thesis
  proof (cases ?f)
    case None
    let ?s = "s\<lparr>free_win := None, wins := (wins s)[last_win s := ?e], last_win := last_win s + 1\<rparr>"
    have "used_wins ?s = used_wins s @ [?e]" and ok: "wins_ok ?s"
      using assms(1,5) by (simp_all add: wins_ok_def used_wins_def take_Suc_conv_app_nth)
    moreover have "map_of (map win_data (used_wins s)) win = None"
      using assms(2) by (auto simp: map_of_eq_None_iff)
    moreover have "vt_win_create mpi next_id win comm (s, w) = Some (?s, w')"
      using search gid assms(4,5) None by (simp add: vt_win_create_def Let_def)
    moreover have "\<not> (\<exists>e \<in> set (used_wins s). freed mpi e)"
      using None by (simp add: find_index_None)
    ultimately show ?thesis
      using win_id_eq [OF ok, of mpi] win_id_eq [OF assms(1), of mpi]
      by (intro exI [of _ ?s]) (auto simp: map_add_def split: option.split)
  next
    case (Some f)
    let ?s = "s\<lparr>free_win := Some f, wins := (wins s)[f := ?e]\<rparr>"
    have f: "f < length (used_wins s)" "win_win (used_wins s ! f) = MPI_WIN_NULL mpi"
      "win_comm (used_wins s ! f) = MPI_COMM_NULL mpi"
      using Some by (simp_all add: find_index_Some)
    have used: "used_wins ?s = (used_wins s)[f := ?e]" and ok: "wins_ok ?s"
      using assms(1) by (simp_all add: wins_ok_def used_wins_def take_update_swap)
    have "map_of (map win_data (used_wins ?s)) k = (if k = win then Some (comm, gid, wid)
        else if k = MPI_WIN_NULL mpi then map_of (map win_data (used_wins ?s)) k
        else map_of (map win_data (used_wins s)) k)" for k
      using map_of_update [OF f(1) assms(2), of ?e k] f(2) unfolding used by (cases "k = win") simp_all
    moreover have "vt_win_create mpi next_id win comm (s, w) = Some (?s, w')"
      using search gid assms(4,5) Some by (simp add: vt_win_create_def Let_def)
    moreover have "\<exists>e \<in> set (used_wins s). freed mpi e"
      using f by (metis nth_mem)
    ultimately show ?thesis
      using win_id_eq [OF ok, of mpi] win_id_eq [OF assms(1), of mpi] ok
      by (intro exI [of _ ?s]) (simp, metis)
  qed
qed

end
