(* ===== verification/Trc.thy ===== *)
theory Trc
  imports OtfGen MpiCom
begin

unbundle bit_operations_syntax

text \<open>
  The entry points of the tracing core (\<open>vtlib/vt_trc.c\<close>) beside those of \<open>OtfGen\<close>: switching the
  tracing on, the definitions, the events, and the rewind. The functions are those of a sequential
  MPI program: \<open>GET_THREAD_ID\<close> always gives its only thread, and \<open>vt_update_counter\<close> is empty.
  Formatted texts are parameters; the callers' pointers \<open>time\<close> and \<open>etime\<close> are threaded through.
\<close>

section \<open>Trace status\<close>

definition vt_exit :: "env \<Rightarrow> callees \<Rightarrow> u64 \<Rightarrow> vt \<Rightarrow> vt_error + (u64 \<times> vt)" where
  "vt_exit env c time s =
     (if trace_status s = VT_TRACE_OFF_PERMANENT then Inr (time, s)
      else
        (let s = s\<lparr>stack_level := stack_level s - 1\<rparr>;
             do_trace = (trace_status s = VT_TRACE_ON \<and> stack_level s + 1 \<le> max_stack_depth env)
         in case RFG_Regions_stackPop (rfg_regions s) of
              (False, _) \<Rightarrow> Inl Aborted
            | (True, r, e) \<Rightarrow>
                (let s = s\<lparr>rfg_regions := r\<rparr>
                 in if do_trace \<and> climitbypush (the e) \<noteq> 0 then VTGen_write_LEAVE c 0 0 time s
                    else Inr (time, s))))"

definition vt_trace_on :: "env \<Rightarrow> callees \<Rightarrow> bool \<Rightarrow> vt \<Rightarrow> vt_error + vt" where
  "vt_trace_on env c mark s =
     (if vt_is_alive s \<and> trace_status s = VT_TRACE_OFF then
        (if stack_level s = stack_level_at_off s then
           (let s = s\<lparr>trace_status := VT_TRACE_ON\<rparr>
            in if mark
               then (let (time, s) = vt_pform_wtime env s
                     in andThen (vt_exit env c time s) (\<lambda>(_, s). Inr s))
               else Inr s)
         else Inl Aborted)
      else Inr s)"

definition vt_is_trace_on :: "vt \<Rightarrow> bool" where
  "vt_is_trace_on s \<longleftrightarrow> vt_is_alive s \<and> trace_status s = VT_TRACE_ON"

definition vt_buffer_flush :: "env \<Rightarrow> callees \<Rightarrow> vt \<Rightarrow> vt_error + vt" where
  "vt_buffer_flush env c s =
     (if \<not> vt_is_alive s then Inr s
      else (let (time, s) = vt_pform_wtime env s in andThen (c_flush c False time s) (\<lambda>(_, s). Inr s)))"

section \<open>Definitions\<close>

abbreviation TRC_HASH_MAX :: nat where
  "TRC_HASH_MAX \<equiv> 1021"

definition name_bucket :: "string \<Rightarrow> nat" where
  "name_bucket n = unat (vt_hash (map (\<lambda>c. of_nat (of_char c)) n) 0) mod TRC_HASH_MAX"

text \<open>The two hash tables have nodes of the same shape: the name and its identifier.\<close>

definition name_put :: "(nat \<Rightarrow> (string \<times> u32) list) \<Rightarrow> string \<Rightarrow> u32 \<Rightarrow> nat \<Rightarrow> (string \<times> u32) list" where
  "name_put t n i = t(name_bucket n := (n, i) # t (name_bucket n))"

definition name_get :: "(nat \<Rightarrow> (string \<times> u32) list) \<Rightarrow> string \<Rightarrow> u32 option" where
  "name_get t n = map_option snd (chain_find (\<lambda>e. fst e = n) (t (name_bucket n)))"

definition vt_def_scl_file :: "env \<Rightarrow> callees \<Rightarrow> string \<Rightarrow> vt \<Rightarrow> vt_error + (u32 \<times> vt)" where
  "vt_def_scl_file env c fname s =
     (case name_get (htab_sfile s) fname of
        Some fid \<Rightarrow> Inr (fid, s)
      | None \<Rightarrow>
          (let (fid, s) = vt_get_curid s
           in andThen (VTGen_write_DEF_SCL_FILE env c fid fname s)
                (\<lambda>s. Inr (fid, s\<lparr>htab_sfile := name_put (htab_sfile s) fname fid\<rparr>))))"

definition vt_def_scl :: "env \<Rightarrow> callees \<Rightarrow> u32 \<Rightarrow> u32 \<Rightarrow> u32 \<Rightarrow> vt \<Rightarrow> vt_error + (u32 \<times> vt)" where
  "vt_def_scl env c fid begln endln s =
     (if fid = VT_NO_ID \<or> begln = VT_NO_LNO then Inr (0, s)
      else (let (sid, s) = vt_get_curid s
            in andThen (VTGen_write_DEF_SCL env c sid fid begln s) (\<lambda>s. Inr (sid, s))))"

definition vt_def_file_group :: "env \<Rightarrow> callees \<Rightarrow> string \<Rightarrow> vt \<Rightarrow> vt_error + (u32 \<times> vt)" where
  "vt_def_file_group env c gname s =
     (let (gid, s) = vt_get_curid s
      in andThen (VTGen_write_DEF_FILE_GROUP env c gid gname s) (\<lambda>s. Inr (gid, s)))"

definition vt_def_file :: "env \<Rightarrow> callees \<Rightarrow> string \<Rightarrow> u32 \<Rightarrow> vt \<Rightarrow> vt_error + (u32 \<times> vt)" where
  "vt_def_file env c fname gid s =
     (let (fid, s) = vt_get_curid s
      in andThen (VTGen_write_DEF_FILE env c fid fname gid s) (\<lambda>s. Inr (fid, s)))"

definition vt_def_region_group :: "env \<Rightarrow> callees \<Rightarrow> string \<Rightarrow> vt \<Rightarrow> vt_error + (u32 \<times> vt)" where
  "vt_def_region_group env c gname s =
     (case name_get (htab_rdesc s) gname of
        Some rdid \<Rightarrow> Inr (rdid, s)
      | None \<Rightarrow>
          (let (rdid, s) = vt_get_curid s
           in andThen (VTGen_write_DEF_FUNCTION_GROUP env c rdid gname s)
                (\<lambda>s. Inr (rdid, s\<lparr>htab_rdesc := name_put (htab_rdesc s) gname rdid\<rparr>))))"

text \<open>The default group of a region, from its type.\<close>

definition default_group :: "u8 \<Rightarrow> string" where
  "default_group rtype =
     (if rtype = 1 then ''VT_API''
      else if rtype = 5 then ''LIBC''
      else if rtype = 6 then ''LIBC-I/O''
      else if rtype = 7 then ''MEM''
      else if rtype \<in> {8, 12, 11, 9, 10, 13} then ''MPI''
      else if rtype \<in> {14, 24, 23, 28, 27, 22, 15, 19, 18, 21, 29, 20} then ''OMP''
      else if rtype = 16 then ''OMP-PREG''
      else if rtype \<in> {25, 26} then ''OMP-SYNC''
      else if rtype = 17 then ''OMP-LOOP''
      else if rtype = 30 then ''PTHREAD''
      else if rtype = 3 then ''LOOP''
      else ''Application'')"

text \<open>
  The group of a region: that of the groups specification, the one given, or the default group,
  which is then added to the specification.
\<close>

definition region_group :: "RFG_RegionInfo \<Rightarrow> string \<Rightarrow> string ptr \<Rightarrow> u8 \<Rightarrow> vt \<Rightarrow> string \<times> vt" where
  "region_group info rname rdesc rtype s =
     (case (case groupName info of Some g \<Rightarrow> Some g | None \<Rightarrow> rdesc) of
        Some g \<Rightarrow> (g, s)
      | None \<Rightarrow>
          (let g = default_group rtype
           in (g, s\<lparr>rfg_regions := snd (RFG_Regions_addGroupAssign (rfg_regions s) (Some g) [Some rname])\<rparr>)))"

definition vt_def_region ::
  "env \<Rightarrow> callees \<Rightarrow> string \<Rightarrow> u32 \<Rightarrow> u32 \<Rightarrow> u32 \<Rightarrow> string ptr \<Rightarrow> u8 \<Rightarrow> vt \<Rightarrow> vt_error + (u32 \<times> vt)" where
  "vt_def_region env c rname fid begln endln rdesc rtype s =
     andThen (vt_def_scl env c fid begln endln s)
       (\<lambda>(sid, s).
          let (rid, s) = vt_get_curid s
          in case RFG_Regions_add (fnm env) (rfg_regions s) (Some rname) rid of
               (None, _) \<Rightarrow> Inl Aborted
             | (Some info, r) \<Rightarrow>
                 (let (g, s) = region_group info rname rdesc rtype (s\<lparr>rfg_regions := r\<rparr>)
                  in andThen (vt_def_region_group env c g s)
                       (\<lambda>(rdid, s). andThen
                          (if rtype \<in> {12, 11, 9, 10, 13}
                           then VTGen_write_DEF_COLLECTIVE_OPERATION env c rid rname (ucast rtype) s
                           else Inr s)
                          (\<lambda>s. andThen (VTGen_write_DEF_FUNCTION env c rid rname rdid sid s)
                            (\<lambda>s. Inr (rid, s))))))"

definition vt_def_counter_group :: "env \<Rightarrow> callees \<Rightarrow> string \<Rightarrow> vt \<Rightarrow> vt_error + (u32 \<times> vt)" where
  "vt_def_counter_group env c gname s =
     (let (gid, s) = vt_get_curid s
      in andThen (VTGen_write_DEF_COUNTER_GROUP env c gid gname s) (\<lambda>s. Inr (gid, s)))"

definition vt_def_counter ::
  "env \<Rightarrow> callees \<Rightarrow> string \<Rightarrow> u32 \<Rightarrow> u32 \<Rightarrow> string \<Rightarrow> vt \<Rightarrow> vt_error + (u32 \<times> vt)" where
  "vt_def_counter env c cname cprop gid cunit s =
     (let (cid, s) = vt_get_curid s
      in andThen (VTGen_write_DEF_COUNTER env c cid cname cprop gid cunit s) (\<lambda>s. Inr (cid, s)))"

text \<open>The vector of the processes of a communicator: the ranks of the bits that are set, plus one.\<close>

definition byte_ranks :: "nat \<Rightarrow> u8 \<Rightarrow> u32 list" where
  "byte_ranks i b =
     (if b AND 0x1 \<noteq> 0 then [of_nat (i * 8) + 1] else [])
     @ (if b AND 0x2 \<noteq> 0 then [of_nat (i * 8) + 2] else [])
     @ (if b AND 0x4 \<noteq> 0 then [of_nat (i * 8) + 3] else [])
     @ (if b AND 0x8 \<noteq> 0 then [of_nat (i * 8) + 4] else [])
     @ (if b AND 0x10 \<noteq> 0 then [of_nat (i * 8) + 5] else [])
     @ (if b AND 0x20 \<noteq> 0 then [of_nat (i * 8) + 6] else [])
     @ (if b AND 0x40 \<noteq> 0 then [of_nat (i * 8) + 7] else [])
     @ (if b AND 0x80 \<noteq> 0 then [of_nat (i * 8) + 8] else [])"

fun comm_ranks :: "nat \<Rightarrow> u8 list \<Rightarrow> u32 list" where
  "comm_ranks i [] = []"
| "comm_ranks i (b # bs) = byte_ranks i b @ comm_ranks (Suc i) bs"

definition comm_name :: "comm_kind \<Rightarrow> string" where
  "comm_name kind =
     (case kind of VT_MPI_COMM_WORLD \<Rightarrow> ''__MPI_COMM_WORLD__''
      | VT_MPI_COMM_SELF \<Rightarrow> ''__MPI_COMM_SELF__''
      | VT_MPI_COMM_USER \<Rightarrow> ''__MPI_COMM_USER__'')"

definition vt_def_mpi_comm ::
  "env \<Rightarrow> callees \<Rightarrow> comm_kind \<Rightarrow> u8 list \<Rightarrow> vt \<Rightarrow> vt_error + (u32 \<times> vt)" where
  "vt_def_mpi_comm env c kind vec s =
     (let (cid, s) = vt_get_curid s
      in andThen (VTGen_write_DEF_PROCESS_GROUP env c (cid + 1) (comm_name kind) (comm_ranks 0 vec) s)
           (\<lambda>s. Inr (cid, s)))"

section \<open>Events\<close>

text \<open>The events are written only while the tracing is on.\<close>

definition if_on ::
  "(u64 \<Rightarrow> vt \<Rightarrow> vt_error + (u64 \<times> vt)) \<Rightarrow> u64 \<Rightarrow> vt \<Rightarrow> vt_error + (u64 \<times> vt)" where
  "if_on wr time s = (if trace_status s \<noteq> VT_TRACE_ON then Inr (time, s) else wr time s)"

definition vt_ioexit ::
  "env \<Rightarrow> callees \<Rightarrow> u64 \<Rightarrow> u32 \<Rightarrow> u64 \<Rightarrow> u32 \<Rightarrow> u64 \<Rightarrow> u64 \<Rightarrow> vt \<Rightarrow> vt_error + (u64 \<times> u64 \<times> vt)" where
  "vt_ioexit env c etime fid hid op bytes time s =
     (if trace_status s \<noteq> VT_TRACE_ON then Inr (time, etime, s)
      else andThen (VTGen_write_FILE_OPERATION env c etime fid hid op bytes 0 time s)
             (\<lambda>(time, etime, s). andThen (vt_exit env c etime s) (\<lambda>(etime, s). Inr (time, etime, s))))"

definition vt_iobegin :: "callees \<Rightarrow> u64 \<Rightarrow> u64 \<Rightarrow> vt \<Rightarrow> vt_error + (u64 \<times> vt)" where
  "vt_iobegin c mid = if_on (VTGen_write_BEGIN_FILE_OPERATION c mid 0)"

definition vt_ioend ::
  "callees \<Rightarrow> u32 \<Rightarrow> u64 \<Rightarrow> u64 \<Rightarrow> u32 \<Rightarrow> u64 \<Rightarrow> u64 \<Rightarrow> vt \<Rightarrow> vt_error + (u64 \<times> vt)" where
  "vt_ioend c fid mid hid op bytes = if_on (VTGen_write_END_FILE_OPERATION c fid mid hid op bytes 0)"

definition vt_count :: "callees \<Rightarrow> u32 \<Rightarrow> u64 \<Rightarrow> u64 \<Rightarrow> vt \<Rightarrow> vt_error + (u64 \<times> vt)" where
  "vt_count c cid cval = if_on (VTGen_write_COUNTER c cid cval)"

definition vt_comment :: "callees \<Rightarrow> string \<Rightarrow> u64 \<Rightarrow> vt \<Rightarrow> vt_error + (u64 \<times> vt)" where
  "vt_comment c txt = if_on (VTGen_write_COMMENT c (take 4095 txt))"

definition vt_marker :: "callees \<Rightarrow> u32 \<Rightarrow> string \<Rightarrow> u64 \<Rightarrow> vt \<Rightarrow> vt_error + (u64 \<times> vt)" where
  "vt_marker c mid txt = if_on (VTGen_write_MARKER c mid (take 4095 txt))"

definition vt_mpi_send :: "callees \<Rightarrow> u32 \<Rightarrow> u32 \<Rightarrow> u32 \<Rightarrow> u32 \<Rightarrow> u64 \<Rightarrow> vt \<Rightarrow> vt_error + (u64 \<times> vt)" where
  "vt_mpi_send c dpid cid tag sent = if_on (VTGen_write_SEND_MSG c (dpid + 1) (cid + 1) tag sent 0)"

definition vt_mpi_recv :: "callees \<Rightarrow> u32 \<Rightarrow> u32 \<Rightarrow> u32 \<Rightarrow> u32 \<Rightarrow> u64 \<Rightarrow> vt \<Rightarrow> vt_error + (u64 \<times> vt)" where
  "vt_mpi_recv c spid cid tag recvd = if_on (VTGen_write_RECV_MSG c (spid + 1) (cid + 1) tag recvd 0)"

text \<open>The root of a collective operation, 0 where there is none.\<close>

definition root_pid :: "u32 \<Rightarrow> u32" where
  "root_pid rpid = (if rpid \<noteq> VT_NO_ID then rpid + 1 else 0)"

text \<open>
  \<open>vt_mpi_sync\<close> without the enhanced time synchronisation. What the MPI library does is a record:
  whether a communicator is \<open>MPI_COMM_WORLD\<close>, its size, and the reduction of the mask with a
  bitwise or over its processes.
\<close>

record mpi_sync_lib =
  is_world :: "nat \<Rightarrow> bool"
  sync_comm_size :: "nat \<Rightarrow> int"
  allreduce_or :: "nat \<Rightarrow> int \<Rightarrow> int"

definition vt_mpi_sync :: "env \<Rightarrow> callees \<Rightarrow> mpi_sync_lib \<Rightarrow> nat \<Rightarrow> u64 \<Rightarrow> vt \<Rightarrow> vt_error + (u64 \<times> vt)" where
  "vt_mpi_sync env c mpi comm time s =
     (if \<not> sync_flush_env env then Inr (time, s)
      else if \<not> is_world mpi comm \<and> sync_comm_size mpi comm \<noteq> num_traces env then Inr (time, s)
      else andThen (vt_enter env c (regid env VT__TRC_SYNC) time s)
        (\<lambda>(_, time, s).
           let lmask = (if uint (VTGen_get_buflevel s) \<ge> sync_flush_level_env env then 1 else 0);
               mask = allreduce_or mpi comm lmask
           in andThen
                (if mask AND 1 \<noteq> 0
                 then (let (t, s) = vt_pform_wtime env s in andThen (c_flush c False t s) (\<lambda>(_, s). Inr s))
                 else Inr s)
                (\<lambda>s. let (time, s) = vt_pform_wtime env s in vt_exit env c time s)))"

definition vt_mpi_collexit ::
  "env \<Rightarrow> callees \<Rightarrow> mpi_sync_lib \<Rightarrow> u64 \<Rightarrow> u32 \<Rightarrow> u32 \<Rightarrow> u32 \<Rightarrow> nat \<Rightarrow> u32 \<Rightarrow> u32 \<Rightarrow> u64 \<Rightarrow> vt \<Rightarrow>
   vt_error + (u64 \<times> u64 \<times> vt)" where
  "vt_mpi_collexit env c mpi etime rid rpid cid comm sent recvd time s =
     andThen
       (if trace_status s = VT_TRACE_ON
        then andThen (VTGen_write_COLLECTIVE_OPERATION c etime rid (cid + 1) (root_pid rpid) sent recvd 0 time s)
               (\<lambda>(time, etime, s). andThen (vt_exit env c etime s) (\<lambda>(etime, s). Inr (time, etime, s)))
        else Inr (time, etime, s))
       (\<lambda>(time, etime, s).
          if num_traces env > 1
          then andThen (vt_mpi_sync env c mpi comm etime s) (\<lambda>(etime, s). Inr (time, etime, s))
          else Inr (time, etime, s))"

definition vt_mpi_collbegin ::
  "callees \<Rightarrow> u32 \<Rightarrow> u64 \<Rightarrow> u32 \<Rightarrow> u32 \<Rightarrow> u64 \<Rightarrow> u64 \<Rightarrow> u64 \<Rightarrow> vt \<Rightarrow> vt_error + (u64 \<times> vt)" where
  "vt_mpi_collbegin c rid mid rpid cid sent recvd =
     if_on (VTGen_write_BEGIN_COLLECTIVE_OPERATION c rid mid (root_pid rpid) (cid + 1) sent recvd 0)"

definition vt_mpi_collend ::
  "env \<Rightarrow> callees \<Rightarrow> mpi_sync_lib \<Rightarrow> u64 \<Rightarrow> nat \<Rightarrow> u64 \<Rightarrow> vt \<Rightarrow> vt_error + (u64 \<times> vt)" where
  "vt_mpi_collend env c mpi mid comm time s =
     andThen
       (if trace_status s = VT_TRACE_ON then VTGen_write_END_COLLECTIVE_OPERATION c mid time s
        else Inr (time, s))
       (\<lambda>(time, s). if num_traces env > 1 then vt_mpi_sync env c mpi comm time s else Inr (time, s))"

text \<open>The length of a put is passed on as an \<open>uint32_t\<close>.\<close>

definition vt_mpi_rma_put ::
  "env \<Rightarrow> callees \<Rightarrow> u32 \<Rightarrow> u32 \<Rightarrow> u32 \<Rightarrow> u64 \<Rightarrow> u64 \<Rightarrow> vt \<Rightarrow> vt_error + (u64 \<times> vt)" where
  "vt_mpi_rma_put env c tpid cid tag sent time s =
     if_on (VTGen_write_RMA_PUT c (pid env s) (tpid + 1) (cid + 1) tag (ucast sent) 0) time s"

definition vt_mpi_rma_putre :: "callees \<Rightarrow> u32 \<Rightarrow> u32 \<Rightarrow> u32 \<Rightarrow> u64 \<Rightarrow> u64 \<Rightarrow> vt \<Rightarrow> vt_error + (u64 \<times> vt)" where
  "vt_mpi_rma_putre c tpid cid tag sent = if_on (VTGen_write_RMA_PUTRE c 0 (tpid + 1) (cid + 1) tag sent 0)"

definition vt_mpi_rma_get :: "callees \<Rightarrow> u32 \<Rightarrow> u32 \<Rightarrow> u32 \<Rightarrow> u64 \<Rightarrow> u64 \<Rightarrow> vt \<Rightarrow> vt_error + (u64 \<times> vt)" where
  "vt_mpi_rma_get c tpid cid tag recvd = if_on (VTGen_write_RMA_GET c 0 (tpid + 1) (cid + 1) tag recvd 0)"

definition vt_mpi_rma_end :: "callees \<Rightarrow> u32 \<Rightarrow> u32 \<Rightarrow> u64 \<Rightarrow> vt \<Rightarrow> vt_error + (u64 \<times> vt)" where
  "vt_mpi_rma_end c cid tag = if_on (VTGen_write_RMA_END c 0 (cid + 1) tag 0)"

section \<open>Internal regions and the rewind\<close>

definition vt_enter_user :: "env \<Rightarrow> callees \<Rightarrow> u64 \<Rightarrow> vt \<Rightarrow> vt_error + (u64 \<times> vt)" where
  "vt_enter_user env c =
     if_on (\<lambda>time s. andThen (vt_enter env c (regid env VT__TRC_USER) time s) (\<lambda>(_, time, s). Inr (time, s)))"

definition vt_exit_user :: "env \<Rightarrow> callees \<Rightarrow> u64 \<Rightarrow> vt \<Rightarrow> vt_error + (u64 \<times> vt)" where
  "vt_exit_user env c = if_on (vt_exit env c)"

definition vt_enter_rewind :: "env \<Rightarrow> callees \<Rightarrow> u64 \<Rightarrow> vt \<Rightarrow> vt_error + (u64 \<times> vt)" where
  "vt_enter_rewind env c = if_on (VTGen_write_ENTER c (regid env VT__TRC_REWIND) 0)"

definition vt_exit_rewind :: "callees \<Rightarrow> u64 \<Rightarrow> vt \<Rightarrow> vt_error + (u64 \<times> vt)" where
  "vt_exit_rewind c = if_on (VTGen_write_LEAVE c 0 0)"

definition vt_set_rewind_mark :: "u64 \<Rightarrow> vt \<Rightarrow> vt" where
  "vt_set_rewind_mark time s =
     (if trace_status s \<noteq> VT_TRACE_ON then s
      else VTGen_set_rewind_mark time (s\<lparr>stack_level_at_rewind_mark := stack_level s\<rparr>))"

text \<open>Without a mark there is only a warning.\<close>

definition vt_rewind :: "env \<Rightarrow> callees \<Rightarrow> u64 \<Rightarrow> vt \<Rightarrow> vt_error + (u64 \<times> vt)" where
  "vt_rewind env c time s =
     (if trace_status s \<noteq> VT_TRACE_ON \<or> \<not> VTGen_is_rewind_mark_present s then Inr (time, s)
      else if stack_level s \<noteq> stack_level_at_rewind_mark s then Inl Aborted
      else andThen (VTGen_rewind s)
        (\<lambda>(marktime, s). andThen (vt_enter_rewind env c marktime s)
          (\<lambda>(_, s). vt_exit_rewind c time s)))"

end
