(* ===== verification/CommDef.thy ===== *)
theory CommDef
  imports Trc
begin

unbundle bit_operations_syntax

text \<open>
  The definition of an MPI communicator: the bit vector that \<open>vtlib/vt_mpicom.c\<close> makes of a group
  is what \<open>vt_def_mpi_comm\<close> of \<open>vtlib/vt_trc.c\<close> turns into the list of processes of the record.
\<close>

lemma byte_ranks_eq: "byte_ranks i b = map (\<lambda>k. of_nat (8 * i + k) + 1) (filter (bit b) [0..<8])"
proof -
  have bits: "b AND 0x1 \<noteq> 0 \<longleftrightarrow> bit b 0" "b AND 0x2 \<noteq> 0 \<longleftrightarrow> bit b 1" "b AND 0x4 \<noteq> 0 \<longleftrightarrow> bit b 2"
    "b AND 0x8 \<noteq> 0 \<longleftrightarrow> bit b 3" "b AND 0x10 \<noteq> 0 \<longleftrightarrow> bit b 4" "b AND 0x20 \<noteq> 0 \<longleftrightarrow> bit b 5"
    "b AND 0x40 \<noteq> 0 \<longleftrightarrow> bit b 6" "b AND 0x80 \<noteq> 0 \<longleftrightarrow> bit b 7"
    using and_exp_eq_0_iff_not_bit [of b 0] and_exp_eq_0_iff_not_bit [of b 1] and_exp_eq_0_iff_not_bit [of b 2]
      and_exp_eq_0_iff_not_bit [of b 3] and_exp_eq_0_iff_not_bit [of b 4] and_exp_eq_0_iff_not_bit [of b 5]
      and_exp_eq_0_iff_not_bit [of b 6] and_exp_eq_0_iff_not_bit [of b 7]
    by simp_all
  have upt: "[0..<8] = [0, 1, 2, 3, 4, 5, 6, 7::nat]"
    by (simp add: upt_rec)
  show ?thesis
    unfolding byte_ranks_def bits upt by (simp add: mult.commute add.assoc)
qed

lemma comm_ranks_eq:
  "comm_ranks i bs = map (\<lambda>k. of_nat (8 * i + k) + 1)
     (filter (\<lambda>k. bit (bs ! (k div 8)) (k mod 8)) [0..<8 * length bs])"
proof (induction bs arbitrary: i)
  case (Cons b bs)
  let ?f = "\<lambda>k. of_nat (8 * i + k) + 1 :: u32"
  have div_eq: "(k + 8) div 8 = Suc (k div 8)" "(k + 8) mod 8 = k mod 8" for k :: nat
    by simp_all
  have "[0..<8 * length (b # bs)] = [0..<8] @ map (\<lambda>k. k + 8) [0..<8 * length bs]"
    using upt_add_eq_append [of 0 8 "8 * length bs"] map_add_upt [of 8 "8 * length bs"]
    by (simp add: add.commute)
  moreover have "filter (\<lambda>k. bit ((b # bs) ! (k div 8)) (k mod 8)) [0..<8] = filter (bit b) [0..<8]"
    by (rule filter_cong) auto
  moreover have "filter (\<lambda>k. bit ((b # bs) ! (k div 8)) (k mod 8)) (map (\<lambda>k. k + 8) [0..<8 * length bs])
      = map (\<lambda>k. k + 8) (filter (\<lambda>k. bit (bs ! (k div 8)) (k mod 8)) [0..<8 * length bs])"
    using div_eq by (simp add: filter_map comp_def)
  ultimately show ?case
    using Cons.IH [of "Suc i"] by (simp add: byte_ranks_eq comp_def algebra_simps del: upt.simps)
qed simp

text \<open>The members of a group by their ranks in the world.\<close>

definition members :: "mpi_funs \<Rightarrow> com_state \<Rightarrow> handle \<Rightarrow> nat list" where
  "members mpi s grp = filter (\<lambda>r. Group_translate_ranks mpi (w_group (world s)) (w_ranks (world s)) grp ! r
     \<noteq> MPI_UNDEFINED mpi) [0..<w_size (world s)]"

lemma filter_upt_less: "n \<le> m \<Longrightarrow> filter (\<lambda>k. k < n \<and> P k) [0..<m] = filter P [0..<n]"
proof -
  assume "n \<le> m"
  then have "[0..<m] = [0..<n] @ [n..<m]"
    using upt_add_eq_append [of 0 n "m - n"] by simp
  then show ?thesis
    by (auto simp: filter_empty_conv intro!: filter_cong)
qed

lemma bitvector_ranks:
  assumes "world_ok s"
  shows "comm_ranks 0 (take (w_size_grpv (world s)) (grpv (vt_group_to_bitvector mpi grp s)))
    = map (\<lambda>r. of_nat r + 1) (members mpi s grp)"
proof -
  let ?n = "w_size_grpv (world s)" and ?g = "grpv (vt_group_to_bitvector mpi grp s)"
    and ?rs = "Group_translate_ranks mpi (w_group (world s)) (w_ranks (world s)) grp"
  have size: "w_size (world s) \<le> 8 * ?n" "length (grpv s) = ?n"
    using assms unfolding world_ok_def by (auto split: if_splits; presburger)+
  then have vec: "?g = fold (set_rank mpi ?rs) [0..<w_size (world s)] (replicate ?n 0)"
    using fold_clear [of ?n "grpv s"] by (simp add: vt_group_to_bitvector_def Let_def)
  have bits: "bit (?g ! (k div 8)) (k mod 8) \<longleftrightarrow> k < w_size (world s) \<and> ?rs ! k \<noteq> MPI_UNDEFINED mpi"
    if "k < 8 * ?n" for k
    using fold_set_rank_bit [of "w_size (world s)" "replicate ?n 0" "k div 8" "k mod 8" mpi ?rs] that size
    unfolding vec by (simp add: less_mult_imp_div_less mult.commute)
  have "filter (\<lambda>k. bit (?g ! (k div 8)) (k mod 8)) [0..<8 * ?n]
      = filter (\<lambda>k. k < w_size (world s) \<and> ?rs ! k \<noteq> MPI_UNDEFINED mpi) [0..<8 * ?n]"
    by (rule filter_cong) (simp_all add: bits)
  also have "\<dots> = members mpi s grp"
    unfolding members_def by (rule filter_upt_less) (rule size)
  finally show ?thesis
    by (simp add: comm_ranks_eq vec)
qed

text \<open>
  C29: The definition record of a communicator lists its processes. Defining a communicator with
  the bit vector of its group writes one definition of a process group, with the next id plus
  one, the name of its kind, and for every rank of the world that is in the group, in ascending
  order and nothing else, the process id rank plus one.
\<close>

theorem comm_definition_lists_members:
  assumes "world_ok s"
  shows "vt_def_mpi_comm env c kind (take (w_size_grpv (world s)) (grpv (vt_group_to_bitvector mpi grp s))) t
    = andThen (write_def env c (DefProcessGroup (curid t + 1) (comm_name kind)
          (map (\<lambda>r. of_nat r + 1) (members mpi s grp))) (t\<lparr>curid := curid t + 1\<rparr>))
        (\<lambda>t'. Inr (curid t, t'))"
proof -
  have "strncpy100 (comm_name kind) = comm_name kind"
    by (cases kind) (simp_all add: strncpy100_def comm_name_def)
  then show ?thesis
    by (simp add: vt_def_mpi_comm_def vt_get_curid_def VTGen_write_DEF_PROCESS_GROUP_def bitvector_ranks [OF assms])
qed

theorem comm_definition_lists_members_witness:
  "\<forall>env c t. vt_def_mpi_comm env c VT_MPI_COMM_USER (take 1 (grpv (vt_group_to_bitvector demo_mpi 5 (demo_state [])))) t
    = andThen (write_def env c (DefProcessGroup (curid t + 1) ''__MPI_COMM_USER__'' [1, 3]) (t\<lparr>curid := curid t + 1\<rparr>))
        (\<lambda>t'. Inr (curid t, t'))"
  using comm_definition_lists_members [of "demo_state []" _ _ VT_MPI_COMM_USER demo_mpi 5]
  by (simp add: world_ok_def demo_state_def demo_mpi_def members_def comm_name_def upt_rec)

end
