(* ===== verification/GenProps.thy ===== *)
theory GenProps
  imports OtfGen
begin

unbundle bit_operations_syntax

text \<open>
  What the trace generator promises: a flush hands every entry of the buffer to the OTF library
  in order, followed by its two marks, or finds no room for the second mark; and each call of a writer
  adds its record to what the stream and the buffer stand for.
\<close>

section \<open>The buffer\<close>

lemma unat_u64_u32 [simp]: "unat (ucast (w :: u32) :: u64) = unat w"
proof -
  have "unat w < 2 ^ 32"
    using unsigned_less [of w] by simp
  then show ?thesis
    by (simp add: unsigned_ucast_eq take_bit_eq_mod)
qed

lemma buf_full_iff:
  assumes "unat bytes \<le> unat (buf_size b)" and "pos b < 2 ^ 64"
  shows "buf_full bytes b \<longleftrightarrow> pos b + unat bytes > unat (buf_size b)"
proof -
  have "unat (buf_size b - ucast bytes) = unat (buf_size b) - unat bytes"
    using assms(1) by (simp add: unat_sub word_le_nat_alt)
  moreover have "unat (of_nat (pos b) :: u64) = pos b"
    using assms(2) by (simp add: unat_of_nat take_bit_eq_mod)
  ultimately show ?thesis
    using assms(1) unfolding buf_full_def word_less_nat_alt
    by simp linarith
qed

lemma len24 [simp]:
  "entry_length (Event (Enter t r s)) = 24" "entry_length (Event (Leave t r s)) = 24"
  by (simp_all add: entry_length_def align_length_def)

lemma sized_marks [simp]: "sized (Event (Enter t r s))" "sized (Event (Leave t r s))"
  by (simp_all add: sized_def)

section \<open>The loop of the flush\<close>

abbreviation call_of :: "env \<Rightarrow> vt \<Rightarrow> entry \<Rightarrow> otf_call" where
  "call_of env s \<equiv> entry_call (otf_consts_of env) (pid env s)"

text \<open>Behind the end mark, and in the last flush, the loop only emits.\<close>

lemma flush_loop_marked:
  "holds (mem (buf (gen s))) p es (pos (buf (gen s))) \<Longrightarrow>
   flush_loop env lst True p et s = Inr (et, emit (map (call_of env s) es) s)"
proof (induction es arbitrary: p s)
  case Nil
  then show ?case
    by (simp add: flush_loop.simps)
next
  case (Cons e es)
  have "p < pos (buf (gen s))"
    using Cons.prems(1) by (rule holds_Cons_less)
  then show ?case
    using Cons.prems Cons.IH [of "emit [call_of env s e] s"]
    by (subst flush_loop.simps) (simp add: Let_def pid_def unat_gt_0)
qed

lemma flush_loop_quiet:
  "holds (mem (buf (gen s))) p es (pos (buf (gen s))) \<Longrightarrow> lst \<or> flushcntr (gen s) \<le> 1 \<Longrightarrow>
   flush_loop env lst False p et s = Inr (et, emit (map (call_of env s) es) s)"
proof (induction es arbitrary: p s)
  case Nil
  then show ?case
    by (simp add: flush_loop.simps)
next
  case (Cons e es)
  have p: "p < pos (buf (gen s))"
    using Cons.prems(1) by (rule holds_Cons_less)
  have no_mark: "\<not> (\<not> lst \<and> 1 < flushcntr (gen s))"
    using Cons.prems(2) by auto
  show ?case
    using p Cons.prems no_mark Cons.IH [of "emit [call_of env s e] s"]
      flush_loop_marked [where s = "emit [call_of env s e] s" and env = env and es = es]
    by (subst flush_loop.simps)
      (cases "p + unat (entry_length e) \<ge> pos (buf (gen s))"; auto simp: Let_def pid_def unat_gt_0)
qed

text \<open>In an intermediate flush the mark goes behind the last entry and is emitted after it.\<close>

lemma vt_exit_flush_eq:
  "trace_status s = VT_TRACE_ON \<Longrightarrow> trace_on s \<Longrightarrow> pos (buf (gen s)) + 24 \<le> cap (buf (gen s)) \<Longrightarrow>
   vt_exit_flush t s = Inr (set_buf ((buf (gen s))\<lparr>mem := (mem (buf (gen s)))(pos (buf (gen s)) \<mapsto>
     (Event (Leave t 0 0), 24)), pos := pos (buf (gen s)) + 24\<rparr>) s)"
  by (simp add: vt_exit_flush_def VTGen_write_LEAVE_FLUSH_def write_entry_def put_entry_def)

lemma mark_end_eq:
  assumes "trace_status s = VT_TRACE_ON" and "trace_on s"
  shows "mark_end env s =
    (if pos (buf (gen s)) + 24 \<le> cap (buf (gen s))
     then Inr (Some (wtime env (ticks s)),
       s\<lparr>ticks := ticks s + 1, gen := (gen s)\<lparr>buf := (buf (gen s))\<lparr>mem := (mem (buf (gen s)))
         (pos (buf (gen s)) \<mapsto> (Event (Leave (wtime env (ticks s)) 0 0), 24)),
         pos := pos (buf (gen s)) + 24\<rparr>\<rparr>\<rparr>)
     else Inl OutOfBounds)"
  using assms
  by (simp add: mark_end_def vt_pform_wtime_def vt_exit_flush_def VTGen_write_LEAVE_FLUSH_def
      write_entry_def put_entry_def trace_on_def)

lemma flush_loop_mark:
  "holds (mem (buf (gen s))) p es (pos (buf (gen s))) \<Longrightarrow> es \<noteq> [] \<Longrightarrow>
   1 < flushcntr (gen s) \<Longrightarrow> trace_status s = VT_TRACE_ON \<Longrightarrow> trace_on s \<Longrightarrow>
   flush_loop env False False p et s =
     (let t = wtime env (ticks s); b = buf (gen s)
      in if pos b + 24 \<le> cap b
         then Inr (Some t,
           s\<lparr>ticks := ticks s + 1, otf := otf s @ map (call_of env s) (es @ [Event (Leave t 0 0)]),
             gen := (gen s)\<lparr>buf := b\<lparr>mem := (mem b)(pos b \<mapsto> (Event (Leave t 0 0), 24)),
                                  pos := pos b + 24\<rparr>\<rparr>\<rparr>)
         else Inl OutOfBounds)"
proof (induction es arbitrary: p s)
  case Nil
  then show ?case
    by simp
next
  case (Cons e es)
  note IH = Cons.IH and prems = Cons.prems
  let ?s = "emit [call_of env s e] s" and ?t = "wtime env (ticks s)" and ?b = "buf (gen s)"
  have p: "p < pos ?b"
    using Cons.prems(1) by (rule holds_Cons_less)
  have on: "trace_on ?s"
    using Cons.prems(5) by (simp add: trace_on_def)
  have h: "mem ?b p = Some (e, unat (entry_length e))" "entry_length e \<noteq> 0"
      "holds (mem ?b) (p + unat (entry_length e)) es (pos ?b)"
    using Cons.prems(1) by auto
  have len: "unat (entry_length e) \<noteq> 0"
    using h(2) unat_gt_0 [of "entry_length e"] by simp
  show ?case
  proof (cases es)
    case Nil
    let ?m = "?s\<lparr>ticks := ticks s + 1, gen := (gen s)\<lparr>buf := ?b\<lparr>mem := (mem ?b)
        (pos ?b \<mapsto> (Event (Leave ?t 0 0), 24)), pos := pos ?b + 24\<rparr>\<rparr>\<rparr>"
    have "holds (mem (buf (gen ?m))) (pos ?b) [Event (Leave ?t 0 0)] (pos (buf (gen ?m)))"
      by simp
    note rest = flush_loop_marked [OF this, of env False "Some ?t"]
    have at_end: "p + unat (entry_length e) = pos ?b"
      using h(3) Nil by simp
    have "flush_loop env False False p et s =
        andThen (mark_end env ?s) (\<lambda>(et, s). flush_loop env False True (pos ?b) et s)"
      using p h Cons.prems(3) at_end
      by (subst flush_loop.simps) (simp add: Let_def pid_def unat_gt_0)
    also have "\<dots> = (if pos ?b + 24 \<le> cap ?b then flush_loop env False True (pos ?b) (Some ?t) ?m
        else Inl OutOfBounds)"
      using Cons.prems(4) on by (simp add: mark_end_eq)
    also have "\<dots> = (if pos ?b + 24 \<le> cap ?b then Inr (Some ?t,
        emit [call_of env ?m (Event (Leave ?t 0 0))] ?m) else Inl OutOfBounds)"
      using rest by simp
    finally show ?thesis
      using Nil by (simp add: Let_def pid_def)
  next
    case (Cons x xs)
    have "p + unat (entry_length e) < pos ?b"
      using h(3) Cons by (metis holds_Cons_less)
    then have "flush_loop env False False p et s = flush_loop env False False (p + unat (entry_length e)) et ?s"
      using p h len by (subst flush_loop.simps) (simp add: Let_def pid_def)
    then show ?thesis
      using IH [of ?s "p + unat (entry_length e)"] h(3) Cons prems(3,4) on
      by (simp add: Let_def pid_def)
  qed
qed

section \<open>An intermediate flush\<close>

text \<open>The state behind the opening of the stream.\<close>

definition opened :: "env \<Rightarrow> vt \<Rightarrow> vt" where
  "opened env s =
     (if isfirstflush (gen s)
      then emit (header_calls env s)
             (s\<lparr>gen := (gen s)\<lparr>fileprefix := Some (env_fileprefix env), filecomp := compression_ok env,
                              isfirstflush := False\<rparr>\<rparr>)
      else s)"

lemma opened_simps [simp]:
  "buf (gen (opened env s)) = buf (gen s)" "flushcntr (gen (opened env s)) = flushcntr (gen s)"
  "trace_status (opened env s) = trace_status s" "trace_on (opened env s) = trace_on s"
  "pid env (opened env s) = pid env s" "tid (gen (opened env s)) = tid (gen s)" "ticks (opened env s) = ticks s"
  "isfirstflush (gen (opened env s)) = False" "mode (gen (opened env s)) = mode (gen s)"
  "trace_is_disabled (opened env s) = trace_is_disabled s"
  "header_calls env (opened env s) = header_calls env s" "vtsum (gen (opened env s)) = vtsum (gen s)"
  "otf (opened env s) = otf s @ (if isfirstflush (gen s) then header_calls env s else [])"
  by (simp_all add: opened_def trace_on_def pid_def header_calls_def)

abbreviation flush_enter :: "env \<Rightarrow> u64 \<Rightarrow> entry" where
  "flush_enter env t \<equiv> Event (Enter t (regid env VT__TRC_FLUSH) 0)"

abbreviation flush_leave :: "u64 \<Rightarrow> entry" where
  "flush_leave t \<equiv> Event (Leave t 0 0)"

text \<open>
  The flush of the entries \<open>es\<close>, when tracing is on and this is not the last flush allowed: both
  marks must fit behind the entries.
\<close>

lemma flush_body_eq:
  assumes b: "buf_holds (buf (gen s)) es" and cnt: "1 < flushcntr (gen s)"
    and on: "trace_status s = VT_TRACE_ON" "trace_on s" "\<not> trace_is_disabled s"
    and stream: "isfirstflush (gen s) \<Longrightarrow> open_stream_ok env"
    and room: "pos (buf (gen s)) + 24 \<le> cap (buf (gen s))"
  defines "t \<equiv> wtime env (ticks s)"
  shows "if pos (buf (gen s)) + 48 \<le> cap (buf (gen s))
    then \<exists>m. flush_body env c False bt s = Inr (Some t, (opened env s)
      \<lparr>ticks := ticks s + 1,
       otf := otf (opened env s) @ map (call_of env s) (es @ [flush_enter env bt, flush_leave t]),
       gen := (gen (opened env s))\<lparr>buf := (buf (gen s))\<lparr>mem := m, pos := 0\<rparr>,
         flushcntr := flushcntr (gen s) - 1, rewind_time := 0, rewind_pos := None\<rparr>\<rparr>)
    else flush_body env c False bt s = Inl OutOfBounds"
proof -
  let ?b = "buf (gen s)" and ?e = "flush_enter env bt"
  define b1 where "b1 = ?b\<lparr>mem := (mem ?b)(pos ?b \<mapsto> (?e, 24)), pos := pos ?b + 24\<rparr>"
  define s1 where "s1 = set_buf b1 s"
  define s2 where "s2 = opened env s1"
  have enter: "vt_enter_flush env bt s = Inr s1"
    using on room
    by (simp add: vt_enter_flush_def VTGen_write_ENTER_FLUSH_def write_entry_def put_entry_def s1_def b1_def)
  have stream_open: "(if isfirstflush (gen s1) then open_stream env s1 else Inr s1) = Inr s2"
    using stream by (simp add: s1_def s2_def opened_def open_stream_def)
  have h: "holds (mem (buf (gen s2))) 0 (es @ [?e]) (pos (buf (gen s2)))"
    using b by (auto simp: s2_def s1_def b1_def buf_holds_def holds_append holds_upd)
  have s2: "flushcntr (gen s2) = flushcntr (gen s)" "trace_status s2 = VT_TRACE_ON" "trace_on s2"
      "pid env s2 = pid env s" "ticks s2 = ticks s" "buf (gen s2) = b1"
    using on by (simp_all add: s2_def s1_def trace_on_def pid_def)
  define s3 where "s3 = s2\<lparr>ticks := ticks s + 1, otf := otf s2 @ map (call_of env s) (es @ [?e, flush_leave t]),
      gen := (gen s2)\<lparr>buf := b1\<lparr>mem := (mem b1)(pos b1 \<mapsto> (flush_leave t, 24)), pos := pos b1 + 24\<rparr>\<rparr>\<rparr>"
  have loop: "flush_loop env False False 0 None s2 =
      (if pos b1 + 24 \<le> cap b1 then Inr (Some t, s3) else Inl OutOfBounds)"
    using flush_loop_mark [OF h, of env None] cnt s2 by (simp add: Let_def t_def s3_def)
  have pos_cnt: "flushcntr (gen s) \<noteq> 0"
    using cnt by auto
  have body: "flush_body env c False bt s =
      andThen (flush_loop env False False 0 None s2)
        (\<lambda>(et, s). andThen (flush_finish env c False s) (\<lambda>s. Inr (et, s)))"
    using pos_cnt on(3) stream_open by (simp add: flush_body_def enter)
  have "flushcntr (gen s) - 1 \<noteq> 0" "0 < flushcntr (gen s)"
    using cnt pos_cnt by (auto simp: word_gt_0)
  then have finish: "flush_finish env c False s3 = Inr (s3\<lparr>gen := (gen s3)\<lparr>buf := (buf (gen s3))\<lparr>pos := 0\<rparr>,
      flushcntr := flushcntr (gen s) - 1, rewind_time := 0, rewind_pos := None\<rparr>\<rparr>)"
    using s2(1) by (simp add: flush_finish_def s3_def)
  show ?thesis
  proof (cases "pos ?b + 48 \<le> cap ?b")
    case True
    then have "flush_body env c False bt s = Inr (Some t, s3\<lparr>gen := (gen s3)\<lparr>buf := (buf (gen s3))\<lparr>pos := 0\<rparr>,
        flushcntr := flushcntr (gen s) - 1, rewind_time := 0, rewind_pos := None\<rparr>\<rparr>)"
      by (simp add: body loop finish) (simp add: b1_def)
    moreover have "s3\<lparr>gen := (gen s3)\<lparr>buf := (buf (gen s3))\<lparr>pos := 0\<rparr>,
        flushcntr := flushcntr (gen s) - 1, rewind_time := 0, rewind_pos := None\<rparr>\<rparr> =
      (opened env s)\<lparr>ticks := ticks s + 1,
       otf := otf (opened env s) @ map (call_of env s) (es @ [?e, flush_leave t]),
       gen := (gen (opened env s))\<lparr>buf := (buf (gen s))\<lparr>mem := mem (buf (gen s3)), pos := 0\<rparr>,
         flushcntr := flushcntr (gen s) - 1, rewind_time := 0, rewind_pos := None\<rparr>\<rparr>"
      by (simp add: s3_def s2_def s1_def b1_def opened_def header_calls_def pid_def)
    ultimately show ?thesis
      using True by auto
  next
    case False
    then show ?thesis
      by (simp add: body loop b1_def)
  qed
qed

section \<open>The trace that a stream and a buffer stand for\<close>

text \<open>
  Removing the flush marks from a sequence of calls: an enter record of the flush region and the
  record behind it.
\<close>

definition is_flush_mark :: "u32 \<Rightarrow> otf_call \<Rightarrow> bool" where
  "is_flush_mark r c \<longleftrightarrow> (case c of writeEnter t r' p x \<Rightarrow> r' = r | _ \<Rightarrow> False)"

fun unmark :: "u32 \<Rightarrow> otf_call list \<Rightarrow> otf_call list" where
  "unmark r [] = []"
| "unmark r [c] = (if is_flush_mark r c then [] else [c])"
| "unmark r (c # d # cs) = (if is_flush_mark r c then unmark r cs else c # unmark r (d # cs))"

definition balanced :: "u32 \<Rightarrow> otf_call list \<Rightarrow> bool" where
  "balanced r xs \<longleftrightarrow> (\<forall>ys. unmark r (xs @ ys) = unmark r xs @ unmark r ys)"

lemma unmark_Cons: "\<not> is_flush_mark r c \<Longrightarrow> unmark r (c # cs) = c # unmark r cs"
  by (cases cs) auto

lemma unmark_plain: "\<forall>c \<in> set cs. \<not> is_flush_mark r c \<Longrightarrow> unmark r (cs @ ds) = cs @ unmark r ds"
  by (induction cs) (auto simp: unmark_Cons)

lemma unmark_plain_id: "\<forall>c \<in> set cs. \<not> is_flush_mark r c \<Longrightarrow> unmark r cs = cs"
  using unmark_plain [of cs r "[]"] by simp

lemma balanced_Nil [simp]: "balanced r []"
  by (simp add: balanced_def)

lemma balanced_append: "balanced r xs \<Longrightarrow> balanced r ys \<Longrightarrow> balanced r (xs @ ys)"
  by (simp add: balanced_def)

lemma balanced_plain: "\<forall>c \<in> set cs. \<not> is_flush_mark r c \<Longrightarrow> balanced r cs"
  by (simp add: balanced_def unmark_plain unmark_plain_id)

lemma balanced_marks: "is_flush_mark r c \<Longrightarrow> balanced r [c, d]"
  by (simp add: balanced_def)

text \<open>
  \<open>tracing env s cs\<close>: tracing is on, without statistics, the buffer has the 24 bytes behind its size
  that \<open>VTGen_open\<close> allocates for the marks of a flush, and what is in the stream, behind the records
  of its opening and without the marks, and in the buffer, is \<open>cs\<close>.
\<close>

definition gen_ready :: "env \<Rightarrow> vt \<Rightarrow> bool" where
  "gen_ready env s \<longleftrightarrow> trace_on s \<and> \<not> sum_on s \<and> trace_status s = VT_TRACE_ON \<and> \<not> trace_is_disabled s
     \<and> open_stream_ok env \<and> cap (buf (gen s)) = unat (buf_size (buf (gen s))) + 24
     \<and> pos (buf (gen s)) \<le> unat (buf_size (buf (gen s)))"

abbreviation plain_entry :: "env \<Rightarrow> entry \<Rightarrow> bool" where
  "plain_entry env e \<equiv> (\<forall>t x. e \<noteq> Event (Enter t (regid env VT__TRC_FLUSH) x))"

definition traced :: "env \<Rightarrow> vt \<Rightarrow> otf_call list \<Rightarrow> bool" where
  "traced env s cs \<longleftrightarrow> (\<exists>es body. buf_holds (buf (gen s)) es \<and> (\<forall>e \<in> set es. plain_entry env e)
     \<and> otf s = (if isfirstflush (gen s) then [] else header_calls env s) @ body
     \<and> balanced (regid env VT__TRC_FLUSH) body \<and> (isfirstflush (gen s) \<longrightarrow> body = [])
     \<and> cs = unmark (regid env VT__TRC_FLUSH) body @ map (call_of env s) es)"

definition tracing :: "env \<Rightarrow> vt \<Rightarrow> otf_call list \<Rightarrow> bool" where
  "tracing env s cs \<longleftrightarrow> gen_ready env s \<and> traced env s cs"

text \<open>What does not change: the names and ids of the stream, and the size of the buffer.\<close>

definition same_stream :: "env \<Rightarrow> vt \<Rightarrow> vt \<Rightarrow> bool" where
  "same_stream env s s' \<longleftrightarrow> pid env s' = pid env s \<and> header_calls env s' = header_calls env s
     \<and> buf_size (buf (gen s')) = buf_size (buf (gen s))"

lemma same_stream_trans: "same_stream env s t \<Longrightarrow> same_stream env t u \<Longrightarrow> same_stream env s u"
  by (simp add: same_stream_def)

lemma plain_call: "plain_entry env e \<Longrightarrow> \<not> is_flush_mark (regid env VT__TRC_FLUSH) (entry_call k p e)"
proof (cases e)
  case (Def d)
  then show ?thesis by (cases d) (auto simp: is_flush_mark_def)
next
  case (Event v)
  then show "plain_entry env e \<Longrightarrow> ?thesis" by (cases v) (auto simp: is_flush_mark_def)
next
  case (Comm v)
  then show ?thesis by (cases v) (auto simp: is_flush_mark_def)
next
  case (Summary v)
  then show ?thesis by (cases v) (auto simp: is_flush_mark_def)
qed

abbreviation marks_fit :: "vt \<Rightarrow> bool" where
  "marks_fit s \<equiv> pos (buf (gen s)) + 24 \<le> unat (buf_size (buf (gen s)))"

lemma flush_step:
  assumes "tracing env s cs" and "1 < flushcntr (gen s)" and "marks_fit s"
  shows "\<exists>s'. flush_body env c False bt s = Inr (Some (wtime env (ticks s)), s') \<and> tracing env s' cs
    \<and> flushcntr (gen s') = flushcntr (gen s) - 1 \<and> pos (buf (gen s')) = 0 \<and> same_stream env s s'"
proof -
  let ?r = "regid env VT__TRC_FLUSH" and ?t = "wtime env (ticks s)"
  obtain es body where es: "buf_holds (buf (gen s)) es" "\<forall>e \<in> set es. plain_entry env e"
      and out: "otf s = (if isfirstflush (gen s) then [] else header_calls env s) @ body"
      and body: "balanced ?r body" "isfirstflush (gen s) \<longrightarrow> body = []"
      and cs: "cs = unmark ?r body @ map (call_of env s) es"
    using assms(1) by (auto simp: tracing_def traced_def)
  have ready: "gen_ready env s"
    using assms(1) by (simp add: tracing_def)
  then have "pos (buf (gen s)) + 48 \<le> cap (buf (gen s))"
    using assms(3) by (simp add: gen_ready_def)
  then obtain m where m: "flush_body env c False bt s = Inr (Some ?t, (opened env s)
      \<lparr>ticks := ticks s + 1,
       otf := otf (opened env s) @ map (call_of env s) (es @ [flush_enter env bt, flush_leave ?t]),
       gen := (gen (opened env s))\<lparr>buf := (buf (gen s))\<lparr>mem := m, pos := 0\<rparr>,
         flushcntr := flushcntr (gen s) - 1, rewind_time := 0, rewind_pos := None\<rparr>\<rparr>)"
      (is "_ = Inr (_, ?s')")
    using flush_body_eq [OF es(1) assms(2), of env c bt] ready by (auto simp: gen_ready_def)
  define s' where "s' = ?s'"
  define body' where "body' = body @ map (call_of env s) es @
      [call_of env s (flush_enter env bt), call_of env s (flush_leave ?t)]"
  have plain: "\<forall>c \<in> set (map (call_of env s) es). \<not> is_flush_mark ?r c"
    using es(2) plain_call by auto
  have marks: "is_flush_mark ?r (call_of env s (flush_enter env bt))"
    by (simp add: is_flush_mark_def)
  have bal: "balanced ?r body'"
    unfolding body'_def
    by (rule balanced_append [OF body(1) balanced_append [OF balanced_plain [OF plain] balanced_marks [OF marks]]])
  have "unmark ?r (map (call_of env s) es @ [call_of env s (flush_enter env bt), call_of env s (flush_leave ?t)])
      = map (call_of env s) es"
    using unmark_plain [OF plain] marks by simp
  then have unm: "unmark ?r body' = cs"
    using body(1) by (simp add: balanced_def body'_def cs)
  have s': "header_calls env s' = header_calls env s" "pid env s' = pid env s"
      "buf (gen s') = (buf (gen s))\<lparr>mem := m, pos := 0\<rparr>" "flushcntr (gen s') = flushcntr (gen s) - 1"
      "trace_on s' = trace_on s" "sum_on s' = sum_on s" "trace_status s' = trace_status s"
      "trace_is_disabled s' = trace_is_disabled s" "isfirstflush (gen s') = False"
    by (simp_all add: s'_def header_calls_def opened_def pid_def trace_on_def sum_on_def)
  have "otf s' = header_calls env s @ body'"
    using out body(2) by (simp add: s'_def body'_def)
  then have "traced env s' cs"
    unfolding traced_def using bal unm by (intro exI [of _ "[]"] exI [of _ body']) (simp add: s' buf_holds_def)
  moreover have "gen_ready env s'"
    using ready by (simp add: gen_ready_def s')
  ultimately show ?thesis
    using m unfolding s'_def [symmetric] by (intro exI [of _ s']) (simp add: tracing_def same_stream_def s')
qed

lemma flush_overflows:
  assumes "tracing env s cs" and "1 < flushcntr (gen s)" and "\<not> marks_fit s"
  shows "flush_body env c False bt s = Inl OutOfBounds"
proof -
  obtain es where "buf_holds (buf (gen s)) es"
    using assms(1) by (auto simp: tracing_def traced_def)
  then show ?thesis
    using flush_body_eq [of s es env c bt] assms by (simp add: tracing_def gen_ready_def)
qed

section \<open>Writing an entry\<close>

text \<open>An entry that fits into an empty buffer.\<close>

definition fits :: "vt \<Rightarrow> entry \<Rightarrow> bool" where
  "fits s e \<longleftrightarrow> sized e \<and> align_length (entry_size e) \<le> unat (buf_size (buf (gen s)))"

lemma fits_length: "fits s e \<Longrightarrow> unat (entry_length e) \<le> unat (buf_size (buf (gen s)))"
  by (simp add: fits_def entry_length_sized)

lemma pos_less: "gen_ready env s \<Longrightarrow> pos (buf (gen s)) < 2 ^ 64"
proof -
  assume "gen_ready env s"
  then have "pos (buf (gen s)) \<le> unat (buf_size (buf (gen s)))"
    by (simp add: gen_ready_def)
  moreover have "unat (buf_size (buf (gen s))) < 2 ^ 64"
    using unsigned_less [of "buf_size (buf (gen s))"] by simp
  ultimately show "pos (buf (gen s)) < 2 ^ 64"
    by simp
qed

lemma full_iff:
  "gen_ready env s \<Longrightarrow> fits s e \<Longrightarrow>
   buf_full (entry_length e) (buf (gen s)) \<longleftrightarrow>
     pos (buf (gen s)) + unat (entry_length e) > unat (buf_size (buf (gen s)))"
  by (intro buf_full_iff fits_length pos_less)

lemma write_entry_step:
  assumes t: "tracing env s cs" and e: "fits s e" "plain_entry env e"
    and room: "pos (buf (gen s)) + unat (entry_length e) \<le> unat (buf_size (buf (gen s)))"
  shows "\<exists>s'. write_entry e s = Inr s' \<and> tracing env s' (cs @ [call_of env s e])
    \<and> flushcntr (gen s') = flushcntr (gen s) \<and> same_stream env s s'
    \<and> pos (buf (gen s')) = pos (buf (gen s)) + unat (entry_length e)"
proof -
  have ready: "gen_ready env s"
    using t by (simp add: tracing_def)
  obtain es body where es: "buf_holds (buf (gen s)) es" "\<forall>e \<in> set es. plain_entry env e"
      and out: "otf s = (if isfirstflush (gen s) then [] else header_calls env s) @ body"
      and body: "balanced (regid env VT__TRC_FLUSH) body" "isfirstflush (gen s) \<longrightarrow> body = []"
      and cs: "cs = unmark (regid env VT__TRC_FLUSH) body @ map (call_of env s) es"
    using t by (auto simp: tracing_def traced_def)
  obtain b where b: "put_entry e (buf (gen s)) = Some b"
    using room ready put_entry_eq(1) [of e "buf (gen s)"] unfolding gen_ready_def by fastforce
  define s' where "s' = set_buf b s"
  have s': "header_calls env s' = header_calls env s" "pid env s' = pid env s" "buf (gen s') = b"
      "flushcntr (gen s') = flushcntr (gen s)" "trace_on s' = trace_on s" "sum_on s' = sum_on s"
      "trace_status s' = trace_status s" "trace_is_disabled s' = trace_is_disabled s"
      "isfirstflush (gen s') = isfirstflush (gen s)" "otf s' = otf s"
    by (simp_all add: s'_def header_calls_def pid_def trace_on_def sum_on_def)
  have "buf_holds b (es @ [e])"
    using put_entry_eq(2) [OF b es(1)] e(1) by (simp add: fits_def)
  then have "traced env s' (cs @ [call_of env s e])"
    unfolding traced_def using es(2) e(2) out body cs
    by (intro exI [of _ "es @ [e]"] exI [of _ body]) (auto simp: s')
  moreover have "gen_ready env s'"
    using ready room put_entry_eq(3-5) [OF b] by (simp add: gen_ready_def s')
  ultimately show ?thesis
    using b put_entry_eq(3-5) [OF b]
    by (intro exI [of _ s']) (simp add: write_entry_def tracing_def same_stream_def s' s'_def [symmetric])
qed

text \<open>The number of flushes that are left.\<close>

abbreviation flushes :: "vt \<Rightarrow> nat" where
  "flushes s \<equiv> unat (flushcntr (gen s))"

lemma flushes_dec: "1 < flushcntr (gen s) \<Longrightarrow> unat (flushcntr (gen s) - 1) = flushes s - 1"
  using unat_sub [of 1 "flushcntr (gen s)"] by (auto simp: word_le_nat_alt word_less_nat_alt)

text \<open>
  The effect of a record of \<open>len\<close> bytes on the position and on the number of flushes that are left:
  it fits, or there is a flush before it.
\<close>

definition after_record :: "nat \<Rightarrow> vt \<Rightarrow> vt \<Rightarrow> bool" where
  "after_record len s s' \<longleftrightarrow>
     (if pos (buf (gen s)) + len \<le> unat (buf_size (buf (gen s)))
      then pos (buf (gen s')) = pos (buf (gen s)) + len \<and> flushes s' = flushes s
      else pos (buf (gen s')) = len \<and> Suc (flushes s') = flushes s)"

lemma write_event_step:
  assumes t: "tracing env s cs" and e: "\<And>t. fits s (mk t)" "\<And>t. plain_entry env (mk t)"
    and len: "\<And>t. entry_length (mk t) = entry_length (mk time)"
    and free: "pos (buf (gen s)) + unat (entry_length (mk time)) \<le> unat (buf_size (buf (gen s))) \<or> 1 < flushes s"
  defines "fail \<equiv> \<not> (pos (buf (gen s)) + unat (entry_length (mk time)) \<le> unat (buf_size (buf (gen s))) \<or> marks_fit s)"
  shows "fail \<Longrightarrow> write_event (callees_at env (Suc n)) mk time s = Inl OutOfBounds"
    and "\<not> fail \<Longrightarrow> \<exists>s' t. write_event (callees_at env (Suc n)) mk time s = Inr (True, t, s')
      \<and> tracing env s' (cs @ [call_of env s (mk t)]) \<and> (t = time \<or> t \<in> range (wtime env))
      \<and> after_record (unat (entry_length (mk time))) s s' \<and> same_stream env s s'"
proof -
  have full: "buf_full (entry_length (mk time)) (buf (gen s)) \<longleftrightarrow>
      pos (buf (gen s)) + unat (entry_length (mk time)) > unat (buf_size (buf (gen s)))"
    using full_iff [of env s "mk time"] e(1) t by (simp add: tracing_def)
  let ?t = "wtime env (ticks s)"
  {
    assume fail
    then have "1 < flushcntr (gen s)" "buf_full (entry_length (mk time)) (buf (gen s))" "\<not> marks_fit s"
      using free full by (auto simp: fail_def word_less_nat_alt)
    then show "write_event (callees_at env (Suc n)) mk time s = Inl OutOfBounds"
      using flush_overflows [OF t] by (simp add: write_event_def alloc_event_def)
  next
    assume ok: "\<not> fail"
    show "\<exists>s' t. write_event (callees_at env (Suc n)) mk time s = Inr (True, t, s')
      \<and> tracing env s' (cs @ [call_of env s (mk t)]) \<and> (t = time \<or> t \<in> range (wtime env))
      \<and> after_record (unat (entry_length (mk time))) s s' \<and> same_stream env s s'"
    proof (cases "buf_full (entry_length (mk time)) (buf (gen s))")
      case False
      then have room: "pos (buf (gen s)) + unat (entry_length (mk time)) \<le> unat (buf_size (buf (gen s)))"
        using full by simp
      from write_entry_step [OF t e(1) e(2) room] False room show ?thesis
        by (fastforce simp: write_event_def alloc_event_def after_record_def)
    next
      case True
      then have room: "\<not> pos (buf (gen s)) + unat (entry_length (mk time)) \<le> unat (buf_size (buf (gen s)))"
        using full by simp
      then have cnt: "1 < flushcntr (gen s)" "marks_fit s"
        using free ok by (auto simp: fail_def word_less_nat_alt)
      obtain s1 where s1: "flush_body env (callees_at env n) False time s = Inr (Some ?t, s1)"
          "tracing env s1 cs" "flushcntr (gen s1) = flushcntr (gen s) - 1" "pos (buf (gen s1)) = 0"
          "same_stream env s s1"
        using flush_step [OF t cnt] by blast
      have "flushcntr (gen s1) \<noteq> 0"
        using cnt s1(3) by auto
      have fit: "fits s1 (mk ?t)"
        using e(1) s1(5) by (simp add: fits_def same_stream_def)
      have room1: "pos (buf (gen s1)) + unat (entry_length (mk ?t)) \<le> unat (buf_size (buf (gen s1)))"
        using fits_length [OF fit] s1(4) by simp
      obtain s2 where s2: "write_entry (mk ?t) s1 = Inr s2" "tracing env s2 (cs @ [call_of env s1 (mk ?t)])"
          "flushcntr (gen s2) = flushcntr (gen s1)" "same_stream env s1 s2"
          "pos (buf (gen s2)) = unat (entry_length (mk time))"
        using write_entry_step [OF s1(2) fit e(2) room1] s1(4) len [of ?t] by auto
      have "write_event (callees_at env (Suc n)) mk time s = Inr (True, ?t, s2)"
        using True s1(1) s2(1) \<open>flushcntr (gen s1) \<noteq> 0\<close> by (simp add: write_event_def alloc_event_def)
      moreover have "Suc (flushes s2) = flushes s"
        using s2(3) s1(3) flushes_dec [OF cnt(1)] cnt(1) by (simp add: word_less_nat_alt)
      moreover have "call_of env s1 (mk ?t) = call_of env s (mk ?t)"
        using s1(5) by (simp add: same_stream_def)
      ultimately show ?thesis
        using s2(2,5) room same_stream_trans [OF s1(5) s2(4)] by (auto simp: after_record_def)
    qed
  }
qed

lemma write_def_step:
  assumes t: "tracing env s cs" and e: "fits s (Def d)"
    and free: "pos (buf (gen s)) + unat (entry_length (Def d)) \<le> unat (buf_size (buf (gen s))) \<or> 1 < flushes s"
  defines "fail \<equiv> \<not> (pos (buf (gen s)) + unat (entry_length (Def d)) \<le> unat (buf_size (buf (gen s))) \<or> marks_fit s)"
  shows "fail \<Longrightarrow> write_def env (callees_at env (Suc n)) d s = Inl OutOfBounds"
    and "\<not> fail \<Longrightarrow> \<exists>s'. write_def env (callees_at env (Suc n)) d s = Inr s'
      \<and> tracing env s' (cs @ [call_of env s (Def d)])
      \<and> after_record (unat (entry_length (Def d))) s s' \<and> same_stream env s s'"
proof -
  have full: "buf_full (entry_length (Def d)) (buf (gen s)) \<longleftrightarrow>
      pos (buf (gen s)) + unat (entry_length (Def d)) > unat (buf_size (buf (gen s)))"
    using full_iff [OF _ e, of env] t by (simp add: tracing_def)
  define s0 where "s0 = s\<lparr>ticks := ticks s + 1\<rparr>"
  have eqs: "gen s0 = gen s" "otf s0 = otf s" "header_calls env s0 = header_calls env s" "pid env s0 = pid env s"
      "trace_on s0 = trace_on s" "sum_on s0 = sum_on s" "trace_status s0 = trace_status s"
      "trace_is_disabled s0 = trace_is_disabled s"
    by (simp_all add: s0_def header_calls_def pid_def trace_on_def sum_on_def)
  have s0: "tracing env s0 cs" "flushcntr (gen s0) = flushcntr (gen s)" "same_stream env s s0"
    using t unfolding tracing_def traced_def gen_ready_def same_stream_def by (simp_all only: eqs simp_thms)
  {
    assume fail
    then have "1 < flushcntr (gen s0)" "buf_full (entry_length (Def d)) (buf (gen s))" "\<not> marks_fit s0"
      using free full s0(2) by (auto simp: fail_def word_less_nat_alt eqs)
    then show "write_def env (callees_at env (Suc n)) d s = Inl OutOfBounds"
      using flush_overflows [OF s0(1)] by (simp add: write_def_def alloc_def_def vt_pform_wtime_def s0_def)
  next
    assume ok: "\<not> fail"
    show "\<exists>s'. write_def env (callees_at env (Suc n)) d s = Inr s'
      \<and> tracing env s' (cs @ [call_of env s (Def d)])
      \<and> after_record (unat (entry_length (Def d))) s s' \<and> same_stream env s s'"
    proof (cases "buf_full (entry_length (Def d)) (buf (gen s))")
      case False
      then have room: "pos (buf (gen s)) + unat (entry_length (Def d)) \<le> unat (buf_size (buf (gen s)))"
        using full by simp
      from write_entry_step [OF t e _ room] False room show ?thesis
        by (fastforce simp: write_def_def alloc_def_def after_record_def)
    next
      case True
      then have room: "\<not> pos (buf (gen s)) + unat (entry_length (Def d)) \<le> unat (buf_size (buf (gen s)))"
        using full by simp
      then have cnt: "1 < flushcntr (gen s0)" "marks_fit s0"
        using free ok s0(2) by (auto simp: fail_def word_less_nat_alt eqs)
      obtain s1 where s1: "flush_body env (callees_at env n) False (wtime env (ticks s)) s0 = Inr (Some (wtime env (ticks s0)), s1)"
          "tracing env s1 cs" "flushcntr (gen s1) = flushcntr (gen s0) - 1" "pos (buf (gen s1)) = 0"
          "same_stream env s0 s1"
        using flush_step [OF s0(1) cnt] by blast
      note ss = same_stream_trans [OF s0(3) s1(5)]
      have fit: "fits s1 (Def d)"
        using e ss by (simp add: fits_def same_stream_def)
      have room1: "pos (buf (gen s1)) + unat (entry_length (Def d)) \<le> unat (buf_size (buf (gen s1)))"
        using fits_length [OF fit] s1(4) by simp
      obtain s2 where s2: "write_entry (Def d) s1 = Inr s2" "tracing env s2 (cs @ [call_of env s1 (Def d)])"
          "flushcntr (gen s2) = flushcntr (gen s1)" "same_stream env s1 s2"
          "pos (buf (gen s2)) = unat (entry_length (Def d))"
        using write_entry_step [OF s1(2) fit _ room1] s1(4) by auto
      have "write_def env (callees_at env (Suc n)) d s = Inr s2"
        using True s1(1) s2(1) by (simp add: write_def_def alloc_def_def vt_pform_wtime_def s0_def)
      moreover have "Suc (flushes s2) = flushes s"
        using s2(3) s1(3) flushes_dec [OF cnt(1)] cnt(1) s0(2) by (simp add: word_less_nat_alt)
      moreover have "call_of env s1 (Def d) = call_of env s (Def d)"
        using ss by (simp add: same_stream_def)
      ultimately show ?thesis
        using s2(2,5) room same_stream_trans [OF ss s2(4)] by (auto simp: after_record_def)
    qed
  }
qed

end
