(* ===== verification/Writers.thy ===== *)
theory Writers
  imports GenProps
begin

unbundle bit_operations_syntax

text \<open>
  Sequences of calls of the writers \<open>VTGen_write_*\<close>: in what way a trace is complete.
\<close>

section \<open>Sequences of writer calls\<close>

text \<open>
  A call of a writer with its arguments, without the time stamp for the definitions. The marks of
  the flush and the summaries are written by the library itself only.
\<close>

datatype (plugins only:) writer =
    W_DEFINITION_COMMENT string
  | W_DEF_SCL_FILE u32 string
  | W_DEF_SCL u32 u32 u32
  | W_DEF_FILE_GROUP u32 string
  | W_DEF_FILE u32 string u32
  | W_DEF_FUNCTION_GROUP u32 string
  | W_DEF_FUNCTION u32 string u32 u32
  | W_DEF_COLLECTIVE_OPERATION u32 string u32
  | W_DEF_COUNTER_GROUP u32 string
  | W_DEF_COUNTER u32 string u32 u32 string
  | W_DEF_PROCESS_GROUP u32 string "u32 list"
  | W_DEF_MARKER u32 string u32
  | W_ENTER u64 u32 u32
  | W_LEAVE u64 u32 u32
  | W_FILE_OPERATION u64 u64 u32 u64 u32 u64 u32
  | W_BEGIN_FILE_OPERATION u64 u64 u32
  | W_END_FILE_OPERATION u64 u32 u64 u64 u32 u64 u32
  | W_COUNTER u64 u32 u64
  | W_COMMENT u64 string
  | W_MARKER u64 u32 string
  | W_SEND_MSG u64 u32 u32 u32 u32 u32
  | W_RECV_MSG u64 u32 u32 u32 u32 u32
  | W_COLLECTIVE_OPERATION u64 u64 u32 u32 u32 u32 u32 u32
  | W_BEGIN_COLLECTIVE_OPERATION u64 u32 u64 u32 u32 u64 u64 u32
  | W_END_COLLECTIVE_OPERATION u64 u64
  | W_RMA_PUT u64 u32 u32 u32 u32 u32 u32
  | W_RMA_PUTRE u64 u32 u32 u32 u32 u64 u32
  | W_RMA_GET u64 u32 u32 u32 u32 u64 u32
  | W_RMA_END u64 u32 u32 u32 u32

definition end_of :: "vt_error + ('t \<times> vt) \<Rightarrow> vt_error + vt" where
  "end_of r = andThen r (\<lambda>(_, s). Inr s)"

definition end_of2 :: "vt_error + ('t \<times> 'u \<times> vt) \<Rightarrow> vt_error + vt" where
  "end_of2 r = andThen r (\<lambda>(_, _, s). Inr s)"

primrec run_writer :: "env \<Rightarrow> callees \<Rightarrow> writer \<Rightarrow> vt \<Rightarrow> vt_error + vt" where
  "run_writer env c (W_DEFINITION_COMMENT x) s = VTGen_write_DEFINITION_COMMENT env c x s"
| "run_writer env c (W_DEF_SCL_FILE i n) s = VTGen_write_DEF_SCL_FILE env c i n s"
| "run_writer env c (W_DEF_SCL i f l) s = VTGen_write_DEF_SCL env c i f l s"
| "run_writer env c (W_DEF_FILE_GROUP i n) s = VTGen_write_DEF_FILE_GROUP env c i n s"
| "run_writer env c (W_DEF_FILE i n g) s = VTGen_write_DEF_FILE env c i n g s"
| "run_writer env c (W_DEF_FUNCTION_GROUP i n) s = VTGen_write_DEF_FUNCTION_GROUP env c i n s"
| "run_writer env c (W_DEF_FUNCTION i n d x) s = VTGen_write_DEF_FUNCTION env c i n d x s"
| "run_writer env c (W_DEF_COLLECTIVE_OPERATION i n y) s = VTGen_write_DEF_COLLECTIVE_OPERATION env c i n y s"
| "run_writer env c (W_DEF_COUNTER_GROUP i n) s = VTGen_write_DEF_COUNTER_GROUP env c i n s"
| "run_writer env c (W_DEF_COUNTER i n p g u) s = VTGen_write_DEF_COUNTER env c i n p g u s"
| "run_writer env c (W_DEF_PROCESS_GROUP i n v) s = VTGen_write_DEF_PROCESS_GROUP env c i n v s"
| "run_writer env c (W_DEF_MARKER i n y) s = VTGen_write_DEF_MARKER env c i n y s"
| "run_writer env c (W_ENTER t r x) s = end_of (VTGen_write_ENTER c r x t s)"
| "run_writer env c (W_LEAVE t r x) s = end_of (VTGen_write_LEAVE c r x t s)"
| "run_writer env c (W_FILE_OPERATION t e f h p b x) s = end_of2 (VTGen_write_FILE_OPERATION env c e f h p b x t s)"
| "run_writer env c (W_BEGIN_FILE_OPERATION t m x) s = end_of (VTGen_write_BEGIN_FILE_OPERATION c m x t s)"
| "run_writer env c (W_END_FILE_OPERATION t f m h p b x) s = end_of (VTGen_write_END_FILE_OPERATION c f m h p b x t s)"
| "run_writer env c (W_COUNTER t i v) s = end_of (VTGen_write_COUNTER c i v t s)"
| "run_writer env c (W_COMMENT t x) s = end_of (VTGen_write_COMMENT c x t s)"
| "run_writer env c (W_MARKER t m x) s = end_of (VTGen_write_MARKER c m x t s)"
| "run_writer env c (W_SEND_MSG t p i g l x) s = end_of (VTGen_write_SEND_MSG c p i g l x t s)"
| "run_writer env c (W_RECV_MSG t p i g l x) s = end_of (VTGen_write_RECV_MSG c p i g l x t s)"
| "run_writer env c (W_COLLECTIVE_OPERATION t e r i p a b x) s =
     end_of2 (VTGen_write_COLLECTIVE_OPERATION c e r i p a b x t s)"
| "run_writer env c (W_BEGIN_COLLECTIVE_OPERATION t r m p i a b x) s =
     end_of (VTGen_write_BEGIN_COLLECTIVE_OPERATION c r m p i a b x t s)"
| "run_writer env c (W_END_COLLECTIVE_OPERATION t m) s = end_of (VTGen_write_END_COLLECTIVE_OPERATION c m t s)"
| "run_writer env c (W_RMA_PUT t p q i g l x) s = end_of (VTGen_write_RMA_PUT c p q i g l x t s)"
| "run_writer env c (W_RMA_PUTRE t p q i g l x) s = end_of (VTGen_write_RMA_PUTRE c p q i g l x t s)"
| "run_writer env c (W_RMA_GET t p q i g l x) s = end_of (VTGen_write_RMA_GET c p q i g l x t s)"
| "run_writer env c (W_RMA_END t p i g x) s = end_of (VTGen_write_RMA_END c p i g x t s)"

text \<open>The time stamp of a call, and the entry it makes when its time stamp has become \<open>t'\<close>.\<close>

primrec writer_time :: "writer \<Rightarrow> u64 option" where
  "writer_time (W_ENTER t r x) = Some t"
| "writer_time (W_LEAVE t r x) = Some t"
| "writer_time (W_FILE_OPERATION t e f h p b x) = Some t"
| "writer_time (W_BEGIN_FILE_OPERATION t m x) = Some t"
| "writer_time (W_END_FILE_OPERATION t f m h p b x) = Some t"
| "writer_time (W_COUNTER t i v) = Some t"
| "writer_time (W_COMMENT t x) = Some t"
| "writer_time (W_MARKER t m x) = Some t"
| "writer_time (W_SEND_MSG t p i g l x) = Some t"
| "writer_time (W_RECV_MSG t p i g l x) = Some t"
| "writer_time (W_COLLECTIVE_OPERATION t e r i p a b x) = Some t"
| "writer_time (W_BEGIN_COLLECTIVE_OPERATION t r m p i a b x) = Some t"
| "writer_time (W_END_COLLECTIVE_OPERATION t m) = Some t"
| "writer_time (W_RMA_PUT t p q i g l x) = Some t"
| "writer_time (W_RMA_PUTRE t p q i g l x) = Some t"
| "writer_time (W_RMA_GET t p q i g l x) = Some t"
| "writer_time (W_RMA_END t p i g x) = Some t"
| "writer_time (W_DEFINITION_COMMENT x) = None"
| "writer_time (W_DEF_SCL_FILE i n) = None"
| "writer_time (W_DEF_SCL i f l) = None"
| "writer_time (W_DEF_FILE_GROUP i n) = None"
| "writer_time (W_DEF_FILE i n g) = None"
| "writer_time (W_DEF_FUNCTION_GROUP i n) = None"
| "writer_time (W_DEF_FUNCTION i n d x) = None"
| "writer_time (W_DEF_COLLECTIVE_OPERATION i n y) = None"
| "writer_time (W_DEF_COUNTER_GROUP i n) = None"
| "writer_time (W_DEF_COUNTER i n p g u) = None"
| "writer_time (W_DEF_PROCESS_GROUP i n v) = None"
| "writer_time (W_DEF_MARKER i n y) = None"

primrec writer_entry :: "otf_consts \<Rightarrow> writer \<Rightarrow> u64 \<Rightarrow> entry" where
  "writer_entry k (W_DEFINITION_COMMENT x) = (\<lambda>t'. Def (DefinitionComment x))"
| "writer_entry k (W_DEF_SCL_FILE i n) = (\<lambda>t'. Def (DefSclFile i n))"
| "writer_entry k (W_DEF_SCL i f l) = (\<lambda>t'. Def (DefScl i f l))"
| "writer_entry k (W_DEF_FILE_GROUP i n) = (\<lambda>t'. Def (DefFileGroup i n))"
| "writer_entry k (W_DEF_FILE i n g) = (\<lambda>t'. Def (DefFile i g n))"
| "writer_entry k (W_DEF_FUNCTION_GROUP i n) = (\<lambda>t'. Def (DefFunctionGroup i n))"
| "writer_entry k (W_DEF_FUNCTION i n d x) = (\<lambda>t'. Def (DefFunction i d x n))"
| "writer_entry k (W_DEF_COLLECTIVE_OPERATION i n y) = (\<lambda>t'. Def (DefCollectiveOperation i y n))"
| "writer_entry k (W_DEF_COUNTER_GROUP i n) = (\<lambda>t'. Def (DefCounterGroup i n))"
| "writer_entry k (W_DEF_COUNTER i n p g u) = (\<lambda>t'. Def (DefCounter i p g (strncpy100 u) n))"
| "writer_entry k (W_DEF_PROCESS_GROUP i n v) = (\<lambda>t'. Def (DefProcessGroup i (strncpy100 n) v))"
| "writer_entry k (W_DEF_MARKER i n y) = (\<lambda>t'. Def (DefMarker i y n))"
| "writer_entry k (W_ENTER t r x) = (\<lambda>t'. Event (Enter t' r x))"
| "writer_entry k (W_LEAVE t r x) = (\<lambda>t'. Event (Leave t' r x))"
| "writer_entry k (W_FILE_OPERATION t e f h p b x) =
     (\<lambda>t'. Event (FileOperation t' ((e - t) + t') f h (if p = VT_IOOP_DUP then OTF_FILEOP_OPEN k else p) (ucast b) x))"
| "writer_entry k (W_BEGIN_FILE_OPERATION t m x) = (\<lambda>t'. Event (BeginFileOperation t' m x))"
| "writer_entry k (W_END_FILE_OPERATION t f m h p b x) = (\<lambda>t'. Event (EndFileOperation t' f m h p (ucast b) x))"
| "writer_entry k (W_COUNTER t i v) = (\<lambda>t'. Event (Counter t' i v))"
| "writer_entry k (W_COMMENT t x) = (\<lambda>t'. Event (Comment t' x))"
| "writer_entry k (W_MARKER t m x) = (\<lambda>t'. Event (Marker t' m x))"
| "writer_entry k (W_SEND_MSG t p i g l x) = (\<lambda>t'. Comm (SendMsg t' p i g l x))"
| "writer_entry k (W_RECV_MSG t p i g l x) = (\<lambda>t'. Comm (RecvMsg t' p i g l x))"
| "writer_entry k (W_COLLECTIVE_OPERATION t e r i p a b x) =
     (\<lambda>t'. Comm (CollectiveOperation t' ((e - t) + t') r i p a b x))"
| "writer_entry k (W_BEGIN_COLLECTIVE_OPERATION t r m p i a b x) =
     (\<lambda>t'. Comm (BeginCollectiveOperation t' r m p i a b x))"
| "writer_entry k (W_END_COLLECTIVE_OPERATION t m) = (\<lambda>t'. Comm (EndCollectiveOperation t' m))"
| "writer_entry k (W_RMA_PUT t p q i g l x) = (\<lambda>t'. Comm (RMAPut t' p q i g (ucast l) x))"
| "writer_entry k (W_RMA_PUTRE t p q i g l x) = (\<lambda>t'. Comm (RMAPutRE t' p q i g l x))"
| "writer_entry k (W_RMA_GET t p q i g l x) = (\<lambda>t'. Comm (RMAGet t' p q i g l x))"
| "writer_entry k (W_RMA_END t p i g x) = (\<lambda>t'. Comm (RMAEnd t' p i g x))"

text \<open>Without statistics a writer is the writing of its entry.\<close>

lemma end_of_event:
  assumes "trace_on s" and "write_event c mk t s = Inr (True, t', s')" and "\<not> sum_on s'"
  shows "end_of (andThen (trace_event c mk t s) (with_sum c x p f)) = Inr s'"
    and "end_of (andThen (trace_event c mk t s) without_sum) = Inr s'"
    and "end_of2 (with_etime e (trace_event c mk) (with_sum c x p f) t s) = Inr s'"
  using assms
  by (simp_all add: end_of_def end_of2_def trace_event_def with_sum_def without_sum_def with_etime_def
      sum_prop_on_def)

lemmas writer_defs =
  VTGen_write_DEFINITION_COMMENT_def VTGen_write_DEF_SCL_FILE_def VTGen_write_DEF_SCL_def
  VTGen_write_DEF_FILE_GROUP_def VTGen_write_DEF_FILE_def VTGen_write_DEF_FUNCTION_GROUP_def
  VTGen_write_DEF_FUNCTION_def VTGen_write_DEF_COLLECTIVE_OPERATION_def VTGen_write_DEF_COUNTER_GROUP_def
  VTGen_write_DEF_COUNTER_def VTGen_write_DEF_PROCESS_GROUP_def VTGen_write_DEF_MARKER_def
  VTGen_write_ENTER_def VTGen_write_LEAVE_def VTGen_write_FILE_OPERATION_def
  VTGen_write_BEGIN_FILE_OPERATION_def VTGen_write_END_FILE_OPERATION_def VTGen_write_COUNTER_def
  VTGen_write_COMMENT_def VTGen_write_MARKER_def VTGen_write_SEND_MSG_def VTGen_write_RECV_MSG_def
  VTGen_write_COLLECTIVE_OPERATION_def VTGen_write_BEGIN_COLLECTIVE_OPERATION_def
  VTGen_write_END_COLLECTIVE_OPERATION_def VTGen_write_RMA_PUT_def VTGen_write_RMA_PUTRE_def
  VTGen_write_RMA_GET_def VTGen_write_RMA_END_def

lemma run_writer_event:
  assumes "writer_time w = Some t" and "trace_on s" and "\<not> sum_on s'"
    and "write_event c (writer_entry (otf_consts_of env) w) t s = Inr (True, t', s')"
  shows "run_writer env c w s = Inr s'"
  using assms by (cases w) (simp_all add: writer_defs Let_def end_of_event)

lemma run_writer_fails:
  assumes "writer_time w = Some t" and "trace_on s"
    and "write_event c (writer_entry (otf_consts_of env) w) t s = Inl e"
  shows "run_writer env c w s = Inl e"
  using assms
  by (cases w) (simp_all add: writer_defs Let_def end_of_def end_of2_def trace_event_def with_etime_def)

lemma run_writer_definition:
  assumes "writer_time w = None"
  shows "\<exists>d. (\<forall>k t. writer_entry k w t = Def d) \<and> (\<forall>env c s. run_writer env c w s = write_def env c d s)"
  using assms by (cases w) (auto simp: writer_defs)

lemma writer_entry_length:
  "align_length (entry_size (writer_entry k w t)) = align_length (entry_size (writer_entry k w t'))"
  by (cases w) auto

lemma writer_entry_size: "entry_size (writer_entry k w t) = entry_size (writer_entry k w t')"
  by (cases w) auto

text \<open>The calls that the theorem is about: entries that fit, and no enter record of the flush region.\<close>

definition writer_ok :: "env \<Rightarrow> vt \<Rightarrow> writer \<Rightarrow> bool" where
  "writer_ok env s w \<longleftrightarrow> fits s (writer_entry (otf_consts_of env) w 0)
     \<and> (\<forall>t x. w \<noteq> W_ENTER t (regid env VT__TRC_FLUSH) x)"

lemma writer_ok_plain: "writer_ok env s w \<Longrightarrow> plain_entry env (writer_entry k w t)"
  by (cases w) (auto simp: writer_ok_def)

lemma writer_ok_fits: "writer_ok env s w \<Longrightarrow> fits s (writer_entry (otf_consts_of env) w t)"
  using writer_entry_size [of "otf_consts_of env" w t 0] by (simp add: writer_ok_def fits_def sized_def)

text \<open>The bytes that the record of a call takes in the buffer.\<close>

definition writer_len :: "env \<Rightarrow> writer \<Rightarrow> nat" where
  "writer_len env w = align_length (entry_size (writer_entry (otf_consts_of env) w 0))"

lemma writer_len_entry:
  "writer_ok env s w \<Longrightarrow> unat (entry_length (writer_entry (otf_consts_of env) w t)) = writer_len env w"
  using entry_length_sized [of "writer_entry (otf_consts_of env) w t"] writer_ok_fits [of env s w t]
    writer_entry_length [of "otf_consts_of env" w t 0]
  by (simp add: fits_def writer_len_def)

lemma writer_step:
  assumes t: "tracing env s cs" and w: "writer_ok env s w"
    and free: "pos (buf (gen s)) + writer_len env w \<le> unat (buf_size (buf (gen s))) \<or> 1 < flushes s"
  defines "fail \<equiv> \<not> (pos (buf (gen s)) + writer_len env w \<le> unat (buf_size (buf (gen s))) \<or> marks_fit s)"
  shows "fail \<Longrightarrow> run_writer env (callees_at env (Suc n)) w s = Inl OutOfBounds"
    and "\<not> fail \<Longrightarrow> \<exists>s' t. run_writer env (callees_at env (Suc n)) w s = Inr s'
      \<and> tracing env s' (cs @ [call_of env s (writer_entry (otf_consts_of env) w t)])
      \<and> (\<forall>x. writer_time w = Some x \<longrightarrow> t = x \<or> t \<in> range (wtime env))
      \<and> after_record (writer_len env w) s s' \<and> same_stream env s s'"
proof -
  let ?mk = "writer_entry (otf_consts_of env) w"
  let ?goal = "\<exists>s' t. run_writer env (callees_at env (Suc n)) w s = Inr s'
      \<and> tracing env s' (cs @ [call_of env s (?mk t)])
      \<and> (\<forall>x. writer_time w = Some x \<longrightarrow> t = x \<or> t \<in> range (wtime env))
      \<and> after_record (writer_len env w) s s' \<and> same_stream env s s'"
  note len = writer_len_entry [OF w]
  have "(fail \<longrightarrow> run_writer env (callees_at env (Suc n)) w s = Inl OutOfBounds) \<and> (\<not> fail \<longrightarrow> ?goal)"
  proof (cases "writer_time w")
    case None
    then obtain d where d: "\<And>t. ?mk t = Def d" "\<And>c s. run_writer env c w s = write_def env c d s"
      using run_writer_definition [OF None] by blast
    then have fit: "fits s (Def d)" and l: "unat (entry_length (Def d)) = writer_len env w"
      using writer_ok_fits [OF w, of 0] len [of 0] by simp_all
    show ?thesis
      using write_def_step [OF t fit, of n] free unfolding l fail_def d using None by fastforce
  next
    case (Some x)
    have el: "entry_length (?mk u) = entry_length (?mk x)" for u
      using writer_entry_length [of "otf_consts_of env" w u x] by (simp add: entry_length_def)
    note step = write_event_step [where mk = ?mk and time = x and n = n, OF t writer_ok_fits [OF w] writer_ok_plain [OF w] el]
    have on: "trace_on s"
      using t by (simp add: tracing_def gen_ready_def)
    have off: "\<not> sum_on s'" if "tracing env s' cs'" for s' cs'
      using that by (simp add: tracing_def gen_ready_def)
    show ?thesis
      using step free run_writer_fails [OF Some on] run_writer_event [OF Some on off] Some
      unfolding len fail_def by (metis option.inject)
  qed
  then show "fail \<Longrightarrow> run_writer env (callees_at env (Suc n)) w s = Inl OutOfBounds" and "\<not> fail \<Longrightarrow> ?goal"
    by blast+
qed

primrec run_writers :: "env \<Rightarrow> nat \<Rightarrow> writer list \<Rightarrow> vt \<Rightarrow> vt_error + vt" where
  "run_writers env n [] s = Inr s"
| "run_writers env n (w # ws) s = andThen (run_writer env (callees_at env n) w s) (run_writers env n ws)"

text \<open>The time stamps of the records: that of the call, or the end of the flush before it.\<close>

abbreviation time_ok :: "env \<Rightarrow> writer \<Rightarrow> u64 \<Rightarrow> bool" where
  "time_ok env w t \<equiv> (\<forall>x. writer_time w = Some x \<longrightarrow> t = x \<or> t \<in> range (wtime env))"

abbreviation record_of :: "env \<Rightarrow> vt \<Rightarrow> writer \<Rightarrow> u64 \<Rightarrow> otf_call" where
  "record_of env s w t \<equiv> call_of env s (writer_entry (otf_consts_of env) w t)"

lemma same_stream_ok: "same_stream env s s' \<Longrightarrow> writer_ok env s' w = writer_ok env s w"
  by (simp add: writer_ok_def fits_def same_stream_def)

text \<open>
  The positions in the buffer at which records of the lengths \<open>ls\<close> lead to a flush, in a buffer of
  \<open>n\<close> bytes that is filled up to \<open>p\<close>.
\<close>

primrec flush_levels :: "nat \<Rightarrow> nat \<Rightarrow> nat list \<Rightarrow> nat list" where
  "flush_levels n p [] = []"
| "flush_levels n p (l # ls) = (if p + l \<le> n then flush_levels n (p + l) ls else p # flush_levels n l ls)"

lemma run_writers_tracing:
  fixes env s
  defines "levels \<equiv> \<lambda>s ws. flush_levels (unat (buf_size (buf (gen s)))) (pos (buf (gen s))) (map (writer_len env) ws)"
  assumes "tracing env s cs" and "\<forall>w \<in> set ws. writer_ok env s w" and "length (levels s ws) < flushes s"
  shows "if \<forall>p \<in> set (levels s ws). p + 24 \<le> unat (buf_size (buf (gen s)))
    then \<exists>s' ts. run_writers env (Suc n) ws s = Inr s' \<and> list_all2 (time_ok env) ws ts
     \<and> tracing env s' (cs @ map2 (record_of env s) ws ts) \<and> same_stream env s s'
    else run_writers env (Suc n) ws s = Inl OutOfBounds"
  using assms(2-4)
proof (induction ws arbitrary: s cs)
  case Nil
  then show ?case
    by (simp add: levels_def same_stream_def)
next
  case (Cons w ws)
  let ?size = "unat (buf_size (buf (gen s)))" and ?p = "pos (buf (gen s))" and ?l = "writer_len env w"
  have w: "writer_ok env s w"
    using Cons.prems(2) by simp
  have free: "?p + ?l \<le> ?size \<or> 1 < flushes s"
    using Cons.prems(3) by (simp add: levels_def split: if_splits)
  show ?case
  proof (cases "?p + ?l \<le> ?size \<or> marks_fit s")
    case False
    then show ?thesis
      using writer_step(1) [OF Cons.prems(1) w free, of n] by (simp add: levels_def del: callees_at.simps)
  next
    case True
    then obtain s1 t where s1: "run_writer env (callees_at env (Suc n)) w s = Inr s1"
        "tracing env s1 (cs @ [record_of env s w t])" "time_ok env w t" "after_record ?l s s1" "same_stream env s s1"
      using writer_step(2) [OF Cons.prems(1) w free] by metis
    have size: "buf_size (buf (gen s1)) = buf_size (buf (gen s))" and rec: "record_of env s1 = record_of env s"
      using s1(5) by (simp_all add: same_stream_def)
    have ok: "\<forall>w \<in> set ws. writer_ok env s1 w"
      using Cons.prems(2) same_stream_ok [OF s1(5)] by simp
    have lev: "levels s (w # ws) = (if ?p + ?l \<le> ?size then levels s1 ws else ?p # levels s1 ws)"
      and left: "length (levels s1 ws) < flushes s1"
      using s1(4) Cons.prems(3) size by (auto simp: levels_def after_record_def split: if_splits)
    have all: "(\<forall>p \<in> set (levels s (w # ws)). p + 24 \<le> ?size) \<longleftrightarrow> (\<forall>p \<in> set (levels s1 ws). p + 24 \<le> ?size)"
      using True by (auto simp: lev)
    show ?thesis
    proof (cases "\<forall>p \<in> set (levels s1 ws). p + 24 \<le> ?size")
      case True
      then obtain s2 ts where s2: "run_writers env (Suc n) ws s1 = Inr s2" "list_all2 (time_ok env) ws ts"
          "tracing env s2 ((cs @ [record_of env s w t]) @ map2 (record_of env s1) ws ts)" "same_stream env s1 s2"
        using Cons.IH [OF s1(2) ok left] unfolding size by auto
      have "run_writers env (Suc n) (w # ws) s = Inr s2 \<and> list_all2 (time_ok env) (w # ws) (t # ts)
          \<and> tracing env s2 (cs @ map2 (record_of env s) (w # ws) (t # ts)) \<and> same_stream env s s2"
        using s1 s2 rec same_stream_trans [OF s1(5) s2(4)] by (simp del: callees_at.simps)
      then show ?thesis
        unfolding all if_P [OF True] by blast
    next
      case False
      then have "run_writers env (Suc n) ws s1 = Inl OutOfBounds"
        using Cons.IH [OF s1(2) ok left] unfolding size by presburger
      then have "run_writers env (Suc n) (w # ws) s = Inl OutOfBounds"
        using s1(1) by (simp del: callees_at.simps)
      then show ?thesis
        unfolding all if_not_P [OF False] .
    qed
  qed
qed

text \<open>The last flush empties the buffer and ends the stream with a comment.\<close>

lemma close_tracing:
  assumes "tracing env s cs"
  shows "\<exists>s' body. VTGen_close env (Suc n) s = Inr s' \<and> otf s' = header_calls env s @ body
    \<and> unmark (regid env VT__TRC_FLUSH) body = cs @ [writeEventComment (wtime env (ticks s)) (pid env s) []]
    \<and> pos (buf (gen s')) = 0"
proof -
  let ?r = "regid env VT__TRC_FLUSH" and ?c = "writeEventComment (wtime env (ticks s)) (pid env s) []"
  obtain es body where es: "buf_holds (buf (gen s)) es" "\<forall>e \<in> set es. plain_entry env e"
      and out: "otf s = (if isfirstflush (gen s) then [] else header_calls env s) @ body"
      and body: "balanced ?r body" "isfirstflush (gen s) \<longrightarrow> body = []"
      and cs: "cs = unmark ?r body @ map (call_of env s) es"
    using assms by (auto simp: tracing_def traced_def)
  have ready: "trace_on s" "\<not> sum_on s" "\<not> trace_is_disabled s" "open_stream_ok env"
    using assms by (simp_all add: tracing_def gen_ready_def)
  have open_eq: "(if isfirstflush (gen s) then open_stream env s else Inr s) = Inr (opened env s)"
    using ready(4) by (simp add: opened_def open_stream_def)
  have h: "holds (mem (buf (gen (opened env s)))) 0 es (pos (buf (gen (opened env s))))"
    using es(1) by (simp add: buf_holds_def)
  define s1 where "s1 = emit (map (call_of env s) es) (opened env s)"
  have loop: "flush_loop env True False 0 None (opened env s) = Inr (None, s1)"
    using flush_loop_quiet [OF h, of True env None] by (simp add: s1_def)
  have s1: "trace_on s1 = trace_on s" "pid env s1 = pid env s" "ticks s1 = ticks s"
      "otf s1 = otf (opened env s) @ map (call_of env s) es"
    using opened_simps [of env s] by (simp_all add: s1_def trace_on_def pid_def)
  define s2 where "s2 = last_comment env s1"
  have s2: "otf s2 = otf s1 @ [?c]"
    using ready(1) s1 by (simp add: s2_def last_comment_def vt_pform_wtime_def trace_on_def pid_def)
  obtain s3 where s3: "flush_finish env (callees_at env n) True s2 = Inr s3" "otf s3 = otf s2" "pos (buf (gen s3)) = 0"
    by (simp add: flush_finish_def Let_def)
  have "VTGen_close env (Suc n) s = Inr s3"
    using ready loop s3(1) open_eq s2_def
    by (simp add: VTGen_close_def VTGen_flush_def flush_body_def)
  moreover have "otf s3 = header_calls env s @ (body @ map (call_of env s) es @ [?c])"
    using out body(2) by (simp add: s3 s2 s1)
  moreover have "unmark ?r (body @ map (call_of env s) es @ [?c]) = cs @ [?c]"
  proof -
    have "\<forall>x \<in> set (map (call_of env s) es). \<not> is_flush_mark ?r x"
      using es(2) plain_call by auto
    then show ?thesis
      using body(1) by (simp add: balanced_def unmark_plain cs is_flush_mark_def)
  qed
  ultimately show ?thesis
    using s3(3) by blast
qed

section \<open>A complete trace\<close>

lemma open_tracing:
  assumes "VTGen_open env name suffix parent i bsize s = Inr s'" and "env_mode env = 1"
    and "trace_status s = VT_TRACE_ON" and "\<not> trace_is_disabled s" and "open_stream_ok env"
    and "otf s = []" and "24 \<le> bsize"
  shows "tracing env s' [] \<and> pos (buf (gen s')) = 0 \<and> unat (buf_size (buf (gen s'))) = unat bsize - 24"
proof -
  have "unat (bsize - 24) + 24 = unat bsize"
    using assms(7) by (simp add: unat_sub word_le_nat_alt)
  then show ?thesis
    using assms
    by (auto simp: VTGen_open_def tracing_def traced_def gen_ready_def trace_on_def sum_on_def
        buf_holds_def flush_reserve_def Let_def split: if_splits prod.splits intro!: exI [of _ "[]"])
qed

text \<open>
  C1: The trace of a fresh generator is complete, or its memory is overrun. Tracing is on, statistics
  are off (\<open>VT_MODE\<close> is \<open>TRACE\<close>), each record fits into an empty buffer and none is an enter record of
  the region for flushes, and the records lead to fewer flushes than are allowed
  (\<open>VT_MAX_FLUSHES\<close>), so that with the default of 1 they all fit into the buffer. If each of these
  flushes finds 24 bytes left in the buffer, every call of a writer succeeds, and after the generator
  is closed the OTF stream has the records of its opening, then the record of every call, in the
  order of the calls, and a last comment; apart from the enter and leave records that mark the
  flushes nothing else is in it, and no record is lost. A record has the time stamp of its call, or
  that of the end of the flush that made room for it. If one of the flushes finds less than 24
  bytes, the leave mark of a flush is written behind the allocated memory.
\<close>

theorem trace_complete:
  assumes "VTGen_open env name suffix parent i bsize s0 = Inr s1" and "env_mode env = 1"
    and "trace_status s0 = VT_TRACE_ON" and "\<not> trace_is_disabled s0" and "open_stream_ok env"
    and "otf s0 = []" and "24 \<le> bsize"
    and "\<forall>w \<in> set ws. writer_ok env s1 w"
    and "levels = flush_levels (unat bsize - 24) 0 (map (writer_len env) ws)" and "length levels < flushes s1"
  shows "if \<forall>p \<in> set levels. p + 24 \<le> unat bsize - 24
    then \<exists>s2 s3 ts body. run_writers env (Suc n) ws s1 = Inr s2 \<and> VTGen_close env (Suc n) s2 = Inr s3
      \<and> otf s3 = header_calls env s1 @ body \<and> list_all2 (time_ok env) ws ts
      \<and> unmark (regid env VT__TRC_FLUSH) body
          = map2 (record_of env s1) ws ts @ [writeEventComment (wtime env (ticks s2)) (pid env s1) []]
    else run_writers env (Suc n) ws s1 = Inl OutOfBounds"
proof -
  have t: "tracing env s1 []" and size: "pos (buf (gen s1)) = 0" "unat (buf_size (buf (gen s1))) = unat bsize - 24"
    using open_tracing [OF assms(1-7)] by auto
  note run = run_writers_tracing [OF t assms(8), of n, unfolded size, folded assms(9), OF assms(10)]
  show ?thesis
  proof (cases "\<forall>p \<in> set levels. p + 24 \<le> unat bsize - 24")
    case True
    then obtain s2 ts where s2: "run_writers env (Suc n) ws s1 = Inr s2" "list_all2 (time_ok env) ws ts"
        "tracing env s2 (map2 (record_of env s1) ws ts)" "same_stream env s1 s2"
      using run by auto
    obtain s3 body where s3: "VTGen_close env (Suc n) s2 = Inr s3" "otf s3 = header_calls env s2 @ body"
        "unmark (regid env VT__TRC_FLUSH) body = map2 (record_of env s1) ws ts
           @ [writeEventComment (wtime env (ticks s2)) (pid env s2) []]"
      using close_tracing [OF s2(3), of n] by blast
    have "\<exists>s2 s3 ts body. run_writers env (Suc n) ws s1 = Inr s2 \<and> VTGen_close env (Suc n) s2 = Inr s3
      \<and> otf s3 = header_calls env s1 @ body \<and> list_all2 (time_ok env) ws ts
      \<and> unmark (regid env VT__TRC_FLUSH) body
          = map2 (record_of env s1) ws ts @ [writeEventComment (wtime env (ticks s2)) (pid env s1) []]"
      using s2 s3 by (intro exI [of _ s2] exI [of _ s3] exI [of _ ts] exI [of _ body]) (simp add: same_stream_def)
    then show ?thesis
      unfolding if_P [OF True] .
  next
    case False
    then show ?thesis
      using run unfolding if_not_P [OF False] by blast
  qed
qed

definition demo_env :: env where
  "demo_env = \<lparr>otf_consts_of = \<lparr>OTF_COLLECTIVE_TYPE_UNKNOWN = 0, OTF_COLLECTIVE_TYPE_ALL2ALL = 1,
       OTF_COLLECTIVE_TYPE_ALL2ONE = 2, OTF_COLLECTIVE_TYPE_BARRIER = 3, OTF_COLLECTIVE_TYPE_ONE2ALL = 4,
       OTF_COUNTER_TYPE_ACC = 0, OTF_COUNTER_TYPE_ABS = 1, OTF_COUNTER_SCOPE_START = 0,
       OTF_COUNTER_SCOPE_POINT = 2, OTF_COUNTER_SCOPE_LAST = 4, OTF_COUNTER_SCOPE_NEXT = 6,
       OTF_COUNTER_VARTYPE_SIGNED8 = 8, OTF_COUNTER_VARTYPE_UNSIGNED8 = 0, OTF_COUNTER_VARTYPE_FLOAT = 16,
       OTF_COUNTER_VARTYPE_DOUBLE = 24, OTF_MARKER_TYPE_UNKNOWN = 0, OTF_MARKER_TYPE_ERROR = 1,
       OTF_MARKER_TYPE_WARNING = 2, OTF_MARKER_TYPE_HINT = 3, OTF_FILEOP_OPEN = 0, OTF_FILEOP_CLOSE = 1,
       OTF_FILEOP_READ = 2, OTF_FILEOP_WRITE = 3, OTF_FILEOP_SEEK = 4\<rparr>,
     wtime = (\<lambda>n. of_nat (1000 + n)), clockres = 1000000, my_trace = 0, ldir_check = True,
     ldir_writable = True, gdir_check = True, gdir_writable = True, env_mode = 1, env_stat_props = 15,
     env_stat_msg_dtls = 0, env_stat_collop_dtls = 0, env_stat_intv = 0, env_max_flushes = 0,
     max_stack_depth = 100, regid = (\<lambda>n. of_nat (n + 1)), node_name = ''node'',
     env_fileprefix = ''./a.1.2'', PACKAGE_STRING = ''VampirTrace'', open_stream_ok = True,
     compression_ok = False, vsnprintf0 = (\<lambda>x. x), fnm = (\<lambda>p x. p = x),
     num_traces = 1, sync_flush_env = False, sync_flush_level_env = 80\<rparr>"

definition demo_vt :: vt where
  "demo_vt = \<lparr>gen = \<lparr>fileprefix = None, filecomp = False, tname = [], tnamesuffix = [], ptid = 0, tid = 0,
       flushcntr = 0, isfirstflush = True, mode = 0, sum_props = 0, rewind_pos = None, rewind_time = 0,
       vtsum = None, buf = \<lparr>mem = (\<lambda>_. None), pos = 0, buf_size = 0, cap = 0\<rparr>\<rparr>,
     stack_level = 0, stack_level_at_off = 0, stack_level_at_rewind_mark = 0, trace_status = VT_TRACE_ON,
     rfg_regions = RFG_Regions_init, curid = 1, htab_sfile = (\<lambda>_. []), htab_rdesc = (\<lambda>_. []),
     trc_mid = (\<lambda>_. VT_NO_ID), vt_is_alive = True, trace_is_disabled = False, SumIntv = 0, ticks = 0, otf = []\<rparr>"

definition demo_gen :: "u64 \<Rightarrow> vt" where
  "demo_gen bsize = demo_vt\<lparr>gen := (gen demo_vt)\<lparr>tname := ''Process'', flushcntr := - 1, mode := 1,
     sum_props := 15, buf := \<lparr>mem = (\<lambda>_. None), pos = 0, buf_size = bsize - 24, cap = unat bsize\<rparr>\<rparr>\<rparr>"

lemma demo_open: "VTGen_open demo_env ''Process'' [] 0 0 bsize demo_vt = Inr (demo_gen bsize)"
  by (simp add: VTGen_open_def demo_env_def demo_vt_def demo_gen_def flush_reserve_def VTSum_open_def Let_def)

lemma demo_simps [simp]:
  "env_mode demo_env = 1" "trace_status demo_vt = VT_TRACE_ON" "\<not> trace_is_disabled demo_vt"
  "open_stream_ok demo_env" "otf demo_vt = []" "flushcntr (gen (demo_gen b)) = - 1"
  "buf (gen (demo_gen b)) = \<lparr>mem = (\<lambda>_. None), pos = 0, buf_size = b - 24, cap = unat b\<rparr>"
  by (simp_all add: demo_env_def demo_vt_def demo_gen_def)

lemma unat_max32 [simp]: "unat (- 1 :: u32) = 4294967295"
  by (simp add: unsigned_minus_1_eq_mask mask_eq_exp_minus_1)

text \<open>Two messages, with a flush between them that has just enough room; and two enter records, for which it has none.\<close>

theorem trace_complete_witness:
  "(\<exists>s2 s3 ts body. run_writers demo_env 1 [W_SEND_MSG 5 1 0 2 8 0, W_SEND_MSG 6 1 0 3 8 0] (demo_gen 88) = Inr s2
    \<and> VTGen_close demo_env 1 s2 = Inr s3 \<and> otf s3 = header_calls demo_env (demo_gen 88) @ body
    \<and> list_all2 (time_ok demo_env) [W_SEND_MSG 5 1 0 2 8 0, W_SEND_MSG 6 1 0 3 8 0] ts
    \<and> unmark (regid demo_env VT__TRC_FLUSH) body
        = map2 (record_of demo_env (demo_gen 88)) [W_SEND_MSG 5 1 0 2 8 0, W_SEND_MSG 6 1 0 3 8 0] ts
          @ [writeEventComment (wtime demo_env (ticks s2)) (pid demo_env (demo_gen 88)) []])
   \<and> run_writers demo_env 1 [W_ENTER 1 7 0, W_ENTER 2 8 0] (demo_gen 64) = Inl OutOfBounds"
proof
  have len: "writer_len demo_env (W_SEND_MSG t p c g l x) = 40" "writer_len demo_env (W_ENTER t r x) = 24" for t p c g l x r
    by (simp_all add: writer_len_def align_length_def)
  have ok: "\<forall>w \<in> set [W_SEND_MSG 5 1 0 2 8 0, W_SEND_MSG 6 1 0 3 8 0]. writer_ok demo_env (demo_gen 88) w"
    "\<forall>w \<in> set [W_ENTER 1 7 0, W_ENTER 2 8 0]. writer_ok demo_env (demo_gen 64) w"
    by (simp_all add: writer_ok_def fits_def sized_def align_length_def demo_env_def)
  show "\<exists>s2 s3 ts body. run_writers demo_env 1 [W_SEND_MSG 5 1 0 2 8 0, W_SEND_MSG 6 1 0 3 8 0] (demo_gen 88) = Inr s2
    \<and> VTGen_close demo_env 1 s2 = Inr s3 \<and> otf s3 = header_calls demo_env (demo_gen 88) @ body
    \<and> list_all2 (time_ok demo_env) [W_SEND_MSG 5 1 0 2 8 0, W_SEND_MSG 6 1 0 3 8 0] ts
    \<and> unmark (regid demo_env VT__TRC_FLUSH) body
        = map2 (record_of demo_env (demo_gen 88)) [W_SEND_MSG 5 1 0 2 8 0, W_SEND_MSG 6 1 0 3 8 0] ts
          @ [writeEventComment (wtime demo_env (ticks s2)) (pid demo_env (demo_gen 88)) []]"
    using trace_complete [OF demo_open _ _ _ _ _ _ ok(1), of "[40]" 0] by (simp add: len del: map2_map_map zip_Cons_Cons)
  show "run_writers demo_env 1 [W_ENTER 1 7 0, W_ENTER 2 8 0] (demo_gen 64) = Inl OutOfBounds"
    using trace_complete [OF demo_open _ _ _ _ _ _ ok(2), of "[24]" 0] by (simp add: len)
qed

end
