(* ===== verification/GenLimits.thy ===== *)
theory GenLimits
  imports Writers
begin

unbundle bit_operations_syntax

text \<open>
  The limits of the trace generator: the room for the marks of a flush, the last flush that is
  allowed, the definitions behind it, the end of the recursion between the flush and the
  writers, and the dump of the statistics, which does not end.
\<close>

section \<open>The first flush\<close>

text \<open>A generator as \<open>VTGen_open\<close> makes it, whose buffer has only the room that is allocated.\<close>

definition filling :: "env \<Rightarrow> vt \<Rightarrow> bool" where
  "filling env s \<longleftrightarrow> (\<exists>es. buf_holds (buf (gen s)) es) \<and> pos (buf (gen s)) \<le> unat (buf_size (buf (gen s)))
     \<and> 24 \<le> unat (buf_size (buf (gen s)))
     \<and> cap (buf (gen s)) = unat (buf_size (buf (gen s))) + 24 \<and> trace_on s \<and> \<not> sum_on s
     \<and> trace_status s = VT_TRACE_ON \<and> \<not> trace_is_disabled s \<and> open_stream_ok env \<and> 1 < flushcntr (gen s)"

abbreviation region_event :: "entry \<Rightarrow> bool" where
  "region_event e \<equiv> (\<exists>t r x. e = Event (Enter t r x) \<or> e = Event (Leave t r x))"

lemma open_filling:
  assumes "VTGen_open env name suffix parent i bsize s = Inr s'" and "env_mode env = 1"
    and "trace_status s = VT_TRACE_ON" and "\<not> trace_is_disabled s" and "open_stream_ok env"
    and "48 \<le> bsize" and "1 < flushes s'"
  shows "filling env s' \<and> pos (buf (gen s')) = 0 \<and> unat (buf_size (buf (gen s'))) + 24 = unat bsize"
proof -
  have "48 \<le> unat bsize"
    using assms(6) by (simp add: word_le_nat_alt)
  then have "unat (bsize - 24) + 24 = unat bsize" "24 \<le> unat (bsize - 24)"
    using unat_sub [of 24 bsize] by (simp_all add: word_le_nat_alt)
  moreover have "1 < flushcntr (gen s')"
    using assms(7) by (simp add: word_less_nat_alt)
  ultimately show ?thesis
    using assms(1-5)
    by (auto simp: VTGen_open_def filling_def trace_on_def sum_on_def buf_holds_def flush_reserve_def Let_def
        split: if_splits prod.splits intro!: exI [of _ "[]"])
qed

lemma filling_step:
  assumes f: "filling env s" and e: "\<And>t. region_event (mk t)"
  shows "if pos (buf (gen s)) + 24 \<le> unat (buf_size (buf (gen s)))
    then \<exists>s'. write_event (callees_at env (Suc n)) mk time s = Inr (True, time, s') \<and> filling env s'
      \<and> pos (buf (gen s')) = pos (buf (gen s)) + 24 \<and> buf_size (buf (gen s')) = buf_size (buf (gen s))
    else write_event (callees_at env (Suc n)) mk time s = Inl OutOfBounds"
proof -
  let ?b = "buf (gen s)"
  have len: "entry_length (mk time) = 24" "sized (mk time)"
    using e [of time] by auto
  obtain es where es: "buf_holds ?b es"
    using f by (auto simp: filling_def)
  have lim: "pos ?b < 2 ^ 64"
    using f unsigned_less [of "buf_size ?b", where 'a = nat] by (simp add: filling_def)
  show ?thesis
  proof (cases "pos ?b + 24 \<le> unat (buf_size ?b)")
    case True
    then have "\<not> buf_full 24 ?b"
      using buf_full_iff [of 24 ?b] lim by simp
    moreover obtain b' where b': "put_entry (mk time) ?b = Some b'"
      using True f put_entry_eq(1) [of "mk time" ?b] len by (fastforce simp: filling_def)
    moreover have "buf_holds b' (es @ [mk time])"
      using put_entry_eq(2) [OF b' es] len by simp
    ultimately show ?thesis
      using True f put_entry_eq(3-5) [OF b'] len
      by (auto simp: write_event_def alloc_event_def write_entry_def filling_def trace_on_def sum_on_def)
  next
    case False
    have "24 \<le> unat (buf_size ?b)"
      using f by (simp add: filling_def)
    then have "buf_full 24 ?b"
      using buf_full_iff [of 24 ?b] lim False by simp
    moreover have "flush_body env (callees_at env n) False time s = Inl OutOfBounds"
      using flush_body_eq [OF es, of env "callees_at env n" time] f False by (auto simp: filling_def)
    ultimately show ?thesis
      using False len by (simp add: write_event_def alloc_event_def)
  qed
qed

definition region_call :: "writer \<Rightarrow> bool" where
  "region_call w \<longleftrightarrow> (\<exists>t r x. w = W_ENTER t r x \<or> w = W_LEAVE t r x)"

lemma filling_writer:
  assumes f: "filling env s" and w: "region_call w"
  shows "if pos (buf (gen s)) + 24 \<le> unat (buf_size (buf (gen s)))
    then \<exists>s'. run_writer env (callees_at env (Suc n)) w s = Inr s' \<and> filling env s'
      \<and> pos (buf (gen s')) = pos (buf (gen s)) + 24 \<and> buf_size (buf (gen s')) = buf_size (buf (gen s))
    else run_writer env (callees_at env (Suc n)) w s = Inl OutOfBounds"
proof -
  obtain t r x where wt: "w = W_ENTER t r x \<or> w = W_LEAVE t r x"
    using w by (auto simp: region_call_def)
  let ?mk = "writer_entry (otf_consts_of env) w"
  have mk: "region_event (?mk u)" for u
    using wt by auto
  note step = filling_step [where mk = ?mk and time = t and n = n, OF f mk]
  show ?thesis
  proof (cases "pos (buf (gen s)) + 24 \<le> unat (buf_size (buf (gen s)))")
    case True
    then obtain s' where s': "write_event (callees_at env (Suc n)) ?mk t s = Inr (True, t, s')" "filling env s'"
        "pos (buf (gen s')) = pos (buf (gen s)) + 24" "buf_size (buf (gen s')) = buf_size (buf (gen s))"
      using step by auto
    have "run_writer env (callees_at env (Suc n)) w s = Inr s'"
      using run_writer_event [OF _ _ _ s'(1)] wt f s'(2) by (auto simp: filling_def)
    then show ?thesis
      using True s' by (simp del: callees_at.simps)
  next
    case False
    then have "write_event (callees_at env (Suc n)) ?mk t s = Inl OutOfBounds"
      using step by (simp del: callees_at.simps)
    then show ?thesis
      using False wt f
      by (auto simp: writer_defs end_of_def trace_event_def filling_def simp del: callees_at.simps)
  qed
qed

lemma filling_run:
  "filling env s \<Longrightarrow> \<forall>w \<in> set ws. region_call w \<Longrightarrow>
   unat (buf_size (buf (gen s))) < pos (buf (gen s)) + 24 * length ws \<Longrightarrow>
   run_writers env (Suc n) ws s = Inl OutOfBounds"
proof (induction ws arbitrary: s)
  case Nil
  then show ?case by (simp add: filling_def)
next
  case (Cons w ws)
  then show ?case
    using filling_writer [OF Cons.prems(1), of w n] by (fastforce simp del: callees_at.simps split: if_splits)
qed

text \<open>
  C4: The buffer that \<open>VTGen_open\<close> allocates has no room for both marks of a flush. Where more than
  one flush is allowed (\<open>VT_MAX_FLUSHES\<close> is not the default of 1: the last flush has no leave mark),
  and without statistics (\<open>VT_MODE\<close> is \<open>TRACE\<close>), whatever the size of the buffer, from a fresh
  generator the enter and leave records that fill it end in a write behind the allocated memory, by
  the flush that should make room: \<open>VTGEN_ALIGN_LENGTH\<close> has no outer parentheses, so that 24 bytes
  are reserved for the two marks of 24 bytes.
\<close>

theorem first_flush_overflows:
  assumes "VTGen_open env name suffix parent i bsize s0 = Inr s1" and "env_mode env = 1"
    and "trace_status s0 = VT_TRACE_ON" and "\<not> trace_is_disabled s0" and "open_stream_ok env"
    and "48 \<le> bsize" and "1 < flushes s1"
    and "\<forall>w \<in> set ws. region_call w" and "unat bsize < 24 * (length ws + 1)"
  shows "run_writers env (Suc n) ws s1 = Inl OutOfBounds"
proof -
  have "filling env s1" "pos (buf (gen s1)) = 0" "unat (buf_size (buf (gen s1))) + 24 = unat bsize"
    using open_filling [OF assms(1-7)] by auto
  then show ?thesis
    using filling_run [of env s1 ws n] assms(8,9) by simp
qed

theorem first_flush_overflows_witness:
  "run_writers demo_env 1 [W_ENTER 1 7 0, W_ENTER 2 8 0, W_LEAVE 3 8 0] (demo_gen 72) = Inl OutOfBounds"
  using first_flush_overflows [OF demo_open, of 72 "[W_ENTER 1 7 0, W_ENTER 2 8 0, W_LEAVE 3 8 0]" 0]
  by (simp add: region_call_def)

section \<open>The recursion between the flush and the writers ends\<close>

text \<open>The result is no lack of fuel, and has the property where there is no error.\<close>

definition ends :: "('a \<Rightarrow> bool) \<Rightarrow> vt_error + 'a \<Rightarrow> bool" where
  "ends P r \<longleftrightarrow> (case r of Inl e \<Rightarrow> e \<noteq> OutOfFuel | Inr x \<Rightarrow> P x)"

lemma ends_simps [simp]: "ends P (Inl e) \<longleftrightarrow> e \<noteq> OutOfFuel" "ends P (Inr x) \<longleftrightarrow> P x"
  by (simp_all add: ends_def)

lemma ends_andThen: "ends P r \<Longrightarrow> (\<And>x. P x \<Longrightarrow> ends Q (f x)) \<Longrightarrow> ends Q (andThen r f)"
  by (cases r) auto

lemma ends_mono: "ends P r \<Longrightarrow> (\<And>x. P x \<Longrightarrow> Q x) \<Longrightarrow> ends Q r"
  by (cases r) auto

lemma ends_if: "ends P a \<Longrightarrow> ends P b \<Longrightarrow> ends P (if x then a else b)"
  by simp

text \<open>
  No entry of the memory has the length 0, and there are no statistics; \<open>settled\<close> is the state
  in which no flush is left.
\<close>

definition sane :: "vt \<Rightarrow> bool" where
  "sane s \<longleftrightarrow> (\<forall>p e len. mem (buf (gen s)) p = Some (e, len) \<longrightarrow> len \<noteq> 0) \<and> \<not> sum_on s"

definition settled :: "vt \<Rightarrow> bool" where
  "settled s \<longleftrightarrow> sane s \<and> flushcntr (gen s) = 0"

lemma sane_cong: "mem (buf (gen s')) = mem (buf (gen s)) \<Longrightarrow> mode (gen s') = mode (gen s) \<Longrightarrow> sane s' = sane s"
  by (simp add: sane_def sum_on_def)

lemma settled_cong:
  "mem (buf (gen s')) = mem (buf (gen s)) \<Longrightarrow> mode (gen s') = mode (gen s) \<Longrightarrow>
   flushcntr (gen s') = flushcntr (gen s) \<Longrightarrow> settled s' = settled s"
  using sane_cong [of s' s] by (simp add: settled_def)

lemma settled_sane: "settled s \<Longrightarrow> sane s"
  by (simp add: settled_def)

lemma write_entry_ends:
  assumes "sized e"
  shows "sane s \<Longrightarrow> ends sane (write_entry e s)" and "settled s \<Longrightarrow> ends settled (write_entry e s)"
  using entry_length_pos [OF assms] unat_gt_0 [of "entry_length e"]
  by (auto simp: write_entry_def put_entry_def Let_def sane_def settled_def sum_on_def split: option.splits)

text \<open>A flush that has nothing left to do.\<close>

lemma flush_settled: "flushcntr (gen s) = 0 \<Longrightarrow> c_flush (callees_at env (Suc n)) False t s = Inr (None, s)"
  by (simp add: flush_body_def)

lemma write_def_settled:
  assumes "settled s" and "sized (Def d)"
  shows "ends settled (write_def env (callees_at env (Suc n)) d s)"
proof -
  have "settled (s\<lparr>ticks := ticks s + 1\<rparr>)" "flushcntr (gen (s\<lparr>ticks := ticks s + 1\<rparr>)) = 0"
    using assms(1) settled_cong [of "s\<lparr>ticks := ticks s + 1\<rparr>" s] by (simp_all add: settled_def)
  then show ?thesis
    using assms write_entry_ends(2) flush_settled
    by (auto simp: write_def_def alloc_def_def vt_pform_wtime_def simp del: callees_at.simps)
qed

lemma trace_event_settled:
  assumes "settled s" and "\<And>t. sized (mk t)"
  shows "ends (\<lambda>(_, _, s). settled s) (trace_event (callees_at env (Suc n)) mk time s)"
proof -
  have "ends settled (write_entry (mk time) s)"
    using write_entry_ends(2) [OF assms(2,1)] .
  then show ?thesis
    using assms(1) flush_settled [of s]
    by (auto simp: trace_event_def write_event_def alloc_event_def settled_def simp del: callees_at.simps
        elim!: ends_andThen)
qed

lemma ends_rest:
  assumes "ends (\<lambda>(_, _, s). P s) r" and "\<And>s. P s \<Longrightarrow> \<not> sum_on s"
  shows "ends (\<lambda>(_, s). P s) (andThen r without_sum)"
    and "ends (\<lambda>(_, s). P s) (andThen r (with_sum c x p f))"
  using assms by (cases r; fastforce simp: without_sum_def with_sum_def sum_prop_on_def)+

lemma settled_no_sum: "settled s \<Longrightarrow> \<not> sum_on s"
  by (simp add: settled_def sane_def)

lemma enter_settled:
  assumes "settled s"
  shows "ends (\<lambda>(_, _, s). settled s) (vt_enter env (callees_at env (Suc n)) rid time s)"
proof -
  let ?c = "callees_at env (Suc n)"
  have upd: "settled (s\<lparr>stack_level := l, rfg_regions := r\<rparr>)" for l r
    using assms settled_cong [of "s\<lparr>stack_level := l, rfg_regions := r\<rparr>" s] by simp
  have upd2: "settled (s\<lparr>curid := i\<rparr>) = settled s" "settled (s\<lparr>trc_mid := m\<rparr>) = settled s" for s i m
    by (rule settled_cong; simp)+
  have marker: "settled s \<Longrightarrow> ends (\<lambda>(_, s). settled s) (vt_marker_hint env ?c msg time s)" for s msg
  proof -
    assume s: "settled s"
    have "ends (\<lambda>(_, s). settled s) (vt_def_marker env ?c ''VampirTrace'' VT_MARKER_HINT s)"
      using write_def_settled [of "s\<lparr>curid := curid s + 1\<rparr>" "DefMarker (curid s) VT_MARKER_HINT ''VampirTrace''" env n] s
      by (auto simp: vt_def_marker_def vt_get_curid_def VTGen_write_DEF_MARKER_def upd2 sized_def
          simp del: callees_at.simps elim!: ends_andThen)
    then have "ends settled (if trc_mid s VT__TRC_MARKER_HINT = VT_NO_ID
         then andThen (vt_def_marker env ?c ''VampirTrace'' VT_MARKER_HINT s)
                (\<lambda>(mid, s). Inr (s\<lparr>trc_mid := (trc_mid s)(VT__TRC_MARKER_HINT := mid)\<rparr>))
         else Inr s)"
      using s by (auto simp: upd2 simp del: callees_at.simps elim!: ends_andThen)
    moreover have "settled s' \<Longrightarrow> ends (\<lambda>(_, s). settled s) (VTGen_write_MARKER ?c m (take 4095 msg) time s')" for s' m
      using trace_event_settled [of s' "\<lambda>t. Event (Marker t m (take 4095 msg))" env n time]
      by (auto simp: VTGen_write_MARKER_def sized_def settled_no_sum simp del: callees_at.simps intro!: ends_rest)
    ultimately show ?thesis
      using s by (auto simp: vt_marker_hint_def vt_marker_internal_def simp del: callees_at.simps elim!: ends_andThen)
  qed
  have enter: "settled s \<Longrightarrow> ends (\<lambda>(_, s). settled s) (VTGen_write_ENTER ?c rid 0 time s)" for s time
    using trace_event_settled [of s "\<lambda>t. Event (Enter t rid 0)" env n time]
    by (auto simp: VTGen_write_ENTER_def settled_no_sum simp del: callees_at.simps intro!: ends_rest)
  show ?thesis
    using assms upd
    by (auto simp: vt_enter_def Let_def simp del: callees_at.simps split: prod.splits bool.splits
        intro!: ends_andThen [OF marker] ends_andThen [OF enter])
qed

lemma trace_off_settled:
  assumes "settled s"
  shows "ends settled (vt_trace_off env (callees_at env (Suc n)) True True s)"
proof -
  let ?s = "s\<lparr>ticks := ticks s + 1\<rparr>"
  have upd: "settled (s\<lparr>trace_status := VT_TRACE_OFF_PERMANENT\<rparr>) = settled s" for s
    by (rule settled_cong) simp_all
  have "settled ?s"
    using assms settled_cong [of ?s s] by simp
  from enter_settled [OF this] have enter: "ends settled (andThen (vt_enter env (callees_at env (Suc n)) r t ?s)
      (\<lambda>(_, _, s). Inr s))" for r t
    by (rule ends_andThen) auto
  show ?thesis
    using assms enter
    by (auto simp: vt_trace_off_def vt_pform_wtime_def upd simp del: callees_at.simps
        intro!: ends_andThen [where P = settled])
qed

lemma comment_settled: "settled s \<Longrightarrow> ends settled (vt_def_comment env (callees_at env (Suc n)) t s)"
  by (simp add: vt_def_comment_def VTGen_write_DEFINITION_COMMENT_def write_def_settled sized_def
      del: callees_at.simps)

lemma finish_sane:
  assumes "sane s"
  shows "ends sane (flush_finish env (callees_at env (Suc n)) lst s)"
proof -
  let ?c = "callees_at env (Suc n)"
  define s' where "s' = (reset_pos s)\<lparr>gen := (gen (reset_pos s))\<lparr>flushcntr :=
      (if flushcntr (gen (reset_pos s)) > 0 then flushcntr (gen (reset_pos s)) - 1 else 0)\<rparr>\<rparr>"
  have s': "sane s'"
    using assms sane_cong [of s' s] by (simp add: s'_def)
  have upd: "sane (s\<lparr>gen := (gen s)\<lparr>rewind_time := 0, rewind_pos := None\<rparr>\<rparr>) = sane s" for s
    by (rule sane_cong) simp_all
  have "ends sane (if \<not> lst \<and> flushcntr (gen s') = 0
      then andThen (vt_trace_off env ?c True True s') (vt_def_comment env ?c (max_flushes_text env)) else Inr s')"
  proof (cases "\<not> lst \<and> flushcntr (gen s') = 0")
    case True
    then have "settled s'"
      using s' by (simp add: settled_def)
    from trace_off_settled [OF this] have "ends settled
        (andThen (vt_trace_off env ?c True True s') (vt_def_comment env ?c (max_flushes_text env)))"
      by (rule ends_andThen) (rule comment_settled)
    then show ?thesis
      using True by (simp add: ends_mono settled_sane del: callees_at.simps)
  next
    case False
    then show ?thesis
      using s' by auto
  qed
  then have "ends sane (andThen (if \<not> lst \<and> flushcntr (gen s') = 0
      then andThen (vt_trace_off env ?c True True s') (vt_def_comment env ?c (max_flushes_text env)) else Inr s')
      (\<lambda>s. Inr (s\<lparr>gen := (gen s)\<lparr>rewind_time := 0, rewind_pos := None\<rparr>\<rparr>)))"
    by (rule ends_andThen) (simp add: upd)
  then show ?thesis
    unfolding flush_finish_def Let_def s'_def .
qed

lemma mark_end_sane: "sane s \<Longrightarrow> ends (\<lambda>(_, s). sane s) (mark_end env s)"
proof -
  assume "sane s"
  then have "sane (s\<lparr>ticks := ticks s + 1\<rparr>)"
    using sane_cong [of "s\<lparr>ticks := ticks s + 1\<rparr>" s] by simp
  then show ?thesis
    using write_entry_ends(1) [of "Event (Leave (wtime env (ticks s)) 0 0)" "s\<lparr>ticks := ticks s + 1\<rparr>"]
    by (auto simp: mark_end_def vt_pform_wtime_def vt_exit_flush_def VTGen_write_LEAVE_FLUSH_def
        intro!: ends_andThen [where P = sane])
qed

lemma loop_sane: "sane s \<Longrightarrow> ends (\<lambda>(_, s). sane s) (flush_loop env lst marked p et s)"
proof (induction env lst marked p et s rule: flush_loop.induct)
  case (1 env lst marked p et s)
  show ?case
  proof (cases "p < pos (buf (gen s)) \<and> mem (buf (gen s)) p \<noteq> None")
    case False
    then show ?thesis
      using 1(2) by (subst flush_loop.simps) (cases "mem (buf (gen s)) p"; auto)
  next
    case True
    then obtain e len where m: "p < pos (buf (gen s))" "mem (buf (gen s)) p = Some (e, len)"
      by auto
    then have "len \<noteq> 0"
      using 1(2) by (auto simp: sane_def)
    define s1 where "s1 = emit [entry_call (otf_consts_of env) (pid env s) e] s"
    define at_end where "at_end = (\<not> marked \<and> p + len \<ge> pos (buf (gen s1)))"
    have "sane s1"
      using 1(2) sane_cong [of s1 s] by (simp add: s1_def)
    then have mark: "ends (\<lambda>(_, s). sane s)
        (if at_end \<and> \<not> lst \<and> flushcntr (gen s1) > 1 then mark_end env s1 else Inr (et, s1))"
      using mark_end_sane by simp
    have "flush_loop env lst marked p et s =
        andThen (if at_end \<and> \<not> lst \<and> flushcntr (gen s1) > 1 then mark_end env s1 else Inr (et, s1))
          (\<lambda>(et, s). flush_loop env lst (marked \<or> at_end) (p + len) et s)"
      using m \<open>len \<noteq> 0\<close> by (subst flush_loop.simps) (simp add: Let_def s1_def at_end_def)
    then show ?thesis
      using mark 1(1) [OF m(1,2) refl \<open>len \<noteq> 0\<close> s1_def at_end_def]
      by (cases "if at_end \<and> \<not> lst \<and> flushcntr (gen s1) > 1 then mark_end env s1 else Inr (et, s1)") auto
  qed
qed

lemma flush_sane:
  assumes "sane s"
  shows "ends (\<lambda>(_, s). sane s) (flush_body env (callees_at env (Suc n)) lst time s)"
proof -
  have enter: "ends sane (if \<not> lst then vt_enter_flush env time s else Inr s)"
    using assms write_entry_ends(1) [of "flush_enter env time" s]
    by (auto simp: vt_enter_flush_def VTGen_write_ENTER_FLUSH_def)
  have stream: "sane s \<Longrightarrow> ends sane (if isfirstflush (gen s) then open_stream env s else Inr s)" for s
    by (auto simp: open_stream_def sane_def sum_on_def)
  have comment: "sane s \<Longrightarrow> sane (last_comment env s)" for s
    by (auto simp: last_comment_def vt_pform_wtime_def sane_def sum_on_def)
  have reset: "sane (reset_pos s)"
    using assms sane_cong [of "reset_pos s" s] by simp
  have finish: "sane s \<Longrightarrow> ends (\<lambda>(_, s). sane s)
      (andThen (flush_finish env (callees_at env (Suc n)) lst (if lst then last_comment env s else s))
        (\<lambda>s. Inr (et, s)))" for s and et :: "u64 option"
    by (rule ends_andThen [OF finish_sane]) (simp_all add: comment)
  have loop: "sane s \<Longrightarrow> ends (\<lambda>(_, s). sane s) (andThen (flush_loop env lst False 0 None s)
      (\<lambda>(et, s). andThen (flush_finish env (callees_at env (Suc n)) lst (if lst then last_comment env s else s))
        (\<lambda>s. Inr (et, s))))" for s
    by (rule ends_andThen [OF loop_sane]) (use finish in auto)
  have "ends (\<lambda>(_, s). sane s) (andThen (if \<not> lst then vt_enter_flush env time s else Inr s)
      (\<lambda>s. andThen (if isfirstflush (gen s) then open_stream env s else Inr s)
        (\<lambda>s. andThen (flush_loop env lst False 0 None s)
          (\<lambda>(et, s). andThen (flush_finish env (callees_at env (Suc n)) lst (if lst then last_comment env s else s))
            (\<lambda>s. Inr (et, s))))))"
    by (rule ends_andThen [OF enter], rule ends_andThen [OF stream], assumption, rule loop)
  then show ?thesis
    unfolding flush_body_def by (rule ends_if [rotated, OF ends_if [rotated]]) (simp_all add: assms reset)
qed

lemma write_event_sane:
  assumes "sane s" and "\<And>t. sized (mk t)"
  shows "ends (\<lambda>(_, _, s). sane s) (write_event (callees_at env (Suc (Suc n))) mk time s)"
proof -
  have entry: "sane s \<Longrightarrow> ends (\<lambda>(_, _, s). sane s) (andThen (write_entry (mk t) s) (\<lambda>s. Inr (True, t, s)))" for s t
    by (rule ends_andThen [OF write_entry_ends(1) [OF assms(2)]]) simp_all
  have flush: "ends (\<lambda>(_, s). sane s) (c_flush (callees_at env (Suc (Suc n))) False time s)"
    using flush_sane [OF assms(1)] by simp
  have "ends (\<lambda>(_, _, s). sane s) (alloc_event (callees_at env (Suc (Suc n))) (entry_length (mk time)) time s)"
    using assms(1) ends_andThen [OF flush, of "\<lambda>(_, _, s). sane s"
        "\<lambda>(et, s). Inr (flushcntr (gen s) \<noteq> 0, case et of None \<Rightarrow> time | Some t \<Rightarrow> t, s)"]
    by (auto simp: alloc_event_def simp del: callees_at.simps)
  then show ?thesis
    unfolding write_event_def by (rule ends_andThen) (use entry in auto)
qed

lemma write_def_sane:
  assumes "sane s" and "sized (Def d)"
  shows "ends sane (write_def env (callees_at env (Suc (Suc n))) d s)"
proof -
  have tick: "sane (s\<lparr>ticks := ticks s + 1\<rparr>)"
    using assms(1) sane_cong [of "s\<lparr>ticks := ticks s + 1\<rparr>" s] by simp
  have "ends sane (andThen (c_flush (callees_at env (Suc (Suc n))) False t (s\<lparr>ticks := ticks s + 1\<rparr>)) (\<lambda>(_, s). Inr s))" for t
    by (rule ends_andThen [where P = "\<lambda>(_, s). sane s"])
      (use flush_sane [OF tick, of env n False t] in auto)
  then have "ends sane (alloc_def env (callees_at env (Suc (Suc n))) (entry_length (Def d)) s)"
    using assms(1) by (simp add: alloc_def_def vt_pform_wtime_def del: callees_at.simps)
  then show ?thesis
    unfolding write_def_def by (rule ends_andThen) (rule write_entry_ends(1) [OF assms(2)])
qed

lemma ends_writer:
  assumes "ends (\<lambda>(_, _, s). sane s) (trace_event c mk t s)"
  shows "ends sane (end_of (andThen (trace_event c mk t s) (with_sum c x p f)))"
    and "ends sane (end_of (andThen (trace_event c mk t s) without_sum))"
    and "ends sane (end_of2 (with_etime e (trace_event c mk) (with_sum c x p f) t s))"
  using assms
  by (cases "trace_event c mk t s";
      auto simp: end_of_def end_of2_def with_etime_def with_sum_def without_sum_def sum_prop_on_def sane_def Let_def)+

definition writer_sized :: "env \<Rightarrow> writer \<Rightarrow> bool" where
  "writer_sized env w \<longleftrightarrow> sized (writer_entry (otf_consts_of env) w 0)"

lemma writer_sane:
  assumes "sane s" and "writer_sized env w"
  shows "ends sane (run_writer env (callees_at env (Suc (Suc n))) w s)"
proof (cases "writer_time w")
  case None
  then obtain d where "\<And>k t. writer_entry k w t = Def d" "\<And>env c s. run_writer env c w s = write_def env c d s"
    using run_writer_definition by blast
  then show ?thesis
    using write_def_sane [OF assms(1), of d] assms(2) by (simp add: writer_sized_def del: callees_at.simps)
next
  case (Some t)
  let ?mk = "writer_entry (otf_consts_of env) w" and ?c = "callees_at env (Suc (Suc n))"
  have "sized (?mk u)" for u
    using assms(2) writer_entry_size [of "otf_consts_of env" w u 0] by (simp add: writer_sized_def sized_def)
  then have "ends (\<lambda>(_, _, s). sane s) (trace_event ?c ?mk t s)"
    using write_event_sane [OF assms(1)] assms(1) by (simp add: trace_event_def del: callees_at.simps)
  then show ?thesis
    using Some by (cases w) (simp_all add: writer_defs Let_def ends_writer del: callees_at.simps)
qed

lemma writers_sane:
  "sane s \<Longrightarrow> \<forall>w \<in> set ws. writer_sized env w \<Longrightarrow> ends sane (run_writers env (Suc (Suc n)) ws s)"
  by (induction ws arbitrary: s) (auto simp del: callees_at.simps intro!: ends_andThen [OF writer_sane])

lemma close_sane:
  assumes "sane s"
  shows "ends sane (VTGen_close env (Suc (Suc n)) s)"
proof -
  have "ends sane (andThen (VTGen_flush env (Suc (Suc n)) True 0 s) (\<lambda>(_, s). Inr s))"
    unfolding VTGen_flush_def by (rule ends_andThen [where P = "\<lambda>(_, s). sane s"])
      (use flush_sane [OF assms, of env n True 0] in auto)
  then show ?thesis
    using assms by (simp add: VTGen_close_def sane_def)
qed

text \<open>
  C8: Without statistics the recursion between the writers and the flush ends: from a fresh
  generator on, whatever the maximum number of flushes, the trace status and the state of the
  region stack, no sequence of writer calls and no closing of the generator behind it runs for
  ever. A writer calls the flush, which at its last time calls writers again, and these call a
  flush that returns at once; so the fuel 2 is enough, and so is all fuel above it.
\<close>

theorem writers_terminate:
  assumes "VTGen_open env name suffix parent i bsize s0 = Inr s1"
    and "word_of_int (env_mode env) AND VT_MODE_STAT = (0 :: u8)" and "\<forall>w \<in> set ws. writer_sized env w"
  shows "andThen (run_writers env (n + 2) ws s1) (VTGen_close env (n + 2)) \<noteq> Inl OutOfFuel"
proof -
  have "sane s1"
    using assms(1,2) by (auto simp: VTGen_open_def sane_def sum_on_def Let_def split: if_splits prod.splits)
  then have "ends sane (andThen (run_writers env (Suc (Suc n)) ws s1) (VTGen_close env (Suc (Suc n))))"
    by (rule ends_andThen [OF writers_sane [OF _ assms(3)] close_sane])
  then show ?thesis
    by (auto simp: ends_def)
qed

theorem writers_terminate_witness:
  "andThen (run_writers demo_env 2 [W_ENTER 1 7 0, W_DEF_SCL 1 2 3, W_LEAVE 3 7 0] (demo_gen 72))
     (VTGen_close demo_env 2) \<noteq> Inl OutOfFuel"
  using writers_terminate [OF demo_open, of "[W_ENTER 1 7 0, W_DEF_SCL 1 2 3, W_LEAVE 3 7 0]" 0 72]
  by (simp add: writer_sized_def sized_def numeral_2_eq_2 del: run_writers.simps)

section \<open>The dump of the statistics\<close>

lemma VTSum_enter_next_dump [simp]: "next_dump (VTSum_enter t r u) = next_dump u"
  by (simp add: VTSum_enter_def stack_push_def func_update_def func_stat_add_def Let_def
      split: option.split prod.split)

text \<open>Statistics of functions without trace, while the clock is behind the time of the next dump.\<close>

definition due :: "env \<Rightarrow> vt \<Rightarrow> bool" where
  "due env s \<longleftrightarrow> trace_status s = VT_TRACE_ON \<and> \<not> trace_on s \<and> sum_prop_on VT_SUM_PROP_FUNC s
     \<and> (\<exists>u. vtsum (gen s) = Some u \<and> (\<forall>k \<ge> ticks s. next_dump u \<le> wtime env k))"

lemma enter_due:
  assumes "trace_status s = VT_TRACE_ON" and "\<not> trace_on s" and "sum_prop_on VT_SUM_PROP_FUNC s"
    and "vtsum (gen s) = Some u" and "next_dump u \<le> time" and "\<And>k. ticks s \<le> k \<Longrightarrow> next_dump u \<le> wtime env k"
    and "\<And>s. due env s \<Longrightarrow> c_dump c True s = Inl OutOfFuel"
  shows "VTGen_write_ENTER c rid sid time s = Inl OutOfFuel"
  using assms
  by (auto simp: VTGen_write_ENTER_def trace_event_def with_sum_def sum_call_def due_def sum_prop_on_def
      sum_on_def trace_on_def)

lemma dump_due: "due env s \<Longrightarrow> c_dump (callees_at env n) True s = Inl OutOfFuel"
proof (induction n arbitrary: s)
  case 0
  then show ?case by simp
next
  case (Suc n)
  obtain u where u: "vtsum (gen s) = Some u" "\<And>k. ticks s \<le> k \<Longrightarrow> next_dump u \<le> wtime env k"
    using Suc.prems by (auto simp: due_def)
  let ?s = "s\<lparr>ticks := ticks s + 1\<rparr>"
  have "VTGen_write_ENTER (callees_at env n) (regid env VT__TRC_STAT) 0 (wtime env (ticks s)) ?s = Inl OutOfFuel"
    using Suc.prems u Suc.IH
    by (intro enter_due [where u = u and env = env]) (auto simp: due_def trace_on_def sum_prop_on_def sum_on_def)
  then show ?case
    using Suc.prems by (simp add: dump_body_def vt_pform_wtime_def vt_enter_stat_def due_def)
qed

text \<open>
  C9: Where only statistics are kept and no trace (\<open>VT_MODE\<close> is \<open>STAT\<close>), the dump of the function
  statistics in an interval never returns once its time has come: it marks its begin by an enter record, the statistics
  count this record, find that the dump is due, and dump again, because the time of the next dump is
  only moved behind the dump. Whatever the fuel, a call of \<open>VTGen_write_ENTER\<close> or of
  \<open>VTSum_dump\<close> then has not ended. (With a trace beside the statistics the same recursion fills the
  buffer, and a last flush that is allowed ends it by switching the tracing off.)
\<close>

theorem interval_dump_diverges:
  assumes "trace_status s = VT_TRACE_ON" and "\<not> trace_on s" and "sum_prop_on VT_SUM_PROP_FUNC s"
    and "vtsum (gen s) = Some u" and "\<And>k. ticks s \<le> k \<Longrightarrow> next_dump u \<le> wtime env k"
    and "next_dump u \<le> time"
  shows "VTSum_dump env n True s = Inl OutOfFuel
    \<and> VTGen_write_ENTER (callees_at env n) rid sid time s = Inl OutOfFuel"
proof -
  have "due env s"
    using assms(1-5) by (auto simp: due_def)
  then show ?thesis
    using enter_due [OF assms(1-4,6,5) dump_due] by (simp add: VTSum_dump_def dump_due)
qed

definition demo_stat :: vt where
  "demo_stat = demo_vt\<lparr>gen := (gen demo_vt)\<lparr>mode := 2, sum_props := 1,
     vtsum := Some (fst (VTSum_open 1 0 0 1 1000 0))\<rparr>\<rparr>"

theorem interval_dump_diverges_witness:
  "\<forall>n. VTSum_dump (demo_env\<lparr>wtime := \<lambda>_. 1000\<rparr>) n True demo_stat = Inl OutOfFuel
   \<and> VTGen_write_ENTER (callees_at (demo_env\<lparr>wtime := \<lambda>_. 1000\<rparr>) n) 7 0 5 demo_stat = Inl OutOfFuel"
proof
  have stat: "trace_status demo_stat = VT_TRACE_ON" "\<not> trace_on demo_stat" "sum_prop_on VT_SUM_PROP_FUNC demo_stat"
      "vtsum (gen demo_stat) = Some (fst (VTSum_open 1 0 0 1 1000 0))"
    by (simp_all add: demo_stat_def trace_on_def sum_prop_on_def sum_on_def VT_SUM_PROP_FUNC_def)
  have time: "next_dump (fst (VTSum_open 1 0 0 1 1000 0)) = 1"
    by (simp add: VTSum_open_def Let_def)
  show "VTSum_dump (demo_env\<lparr>wtime := \<lambda>_. 1000\<rparr>) n True demo_stat = Inl OutOfFuel
     \<and> VTGen_write_ENTER (callees_at (demo_env\<lparr>wtime := \<lambda>_. 1000\<rparr>) n) 7 0 5 demo_stat = Inl OutOfFuel" for n
    by (rule interval_dump_diverges [OF stat]) (simp_all add: time)
qed

section \<open>The last flush\<close>

lemma run_writer_dropped:
  assumes "writer_time w = Some t" and "trace_on s"
    and "write_event c (writer_entry (otf_consts_of env) w) t s = Inr (False, t', s')"
  shows "run_writer env c w s = Inr s'"
  using assms
  by (cases w) (simp_all add: writer_defs Let_def trace_event_def end_of_def end_of2_def with_etime_def
      with_sum_def without_sum_def)

lemma write_def_room:
  assumes "\<not> buf_full (entry_length (Def d)) (buf (gen s))"
    and "pos (buf (gen s)) + unat (entry_length (Def d)) \<le> cap (buf (gen s))"
  shows "write_def env c d s = write_entry (Def d) s"
  using assms by (simp add: write_def_def alloc_def_def)

lemma write_entry_room:
  assumes "pos (buf (gen s)) + unat (entry_length e) \<le> cap (buf (gen s))"
  shows "write_entry e s = Inr (set_buf ((buf (gen s))\<lparr>mem := (mem (buf (gen s)))(pos (buf (gen s)) \<mapsto>
    (e, unat (entry_length e))), pos := pos (buf (gen s)) + unat (entry_length e)\<rparr>) s)"
  using assms by (simp add: write_entry_def put_entry_def Let_def)

text \<open>Entering a region that is traced and not at its call limit, while the buffer has room.\<close>

lemma enter_room:
  assumes "trace_status s = VT_TRACE_ON" and "stack_level s < max_stack_depth env"
    and "RFG_Regions_stackPush (rfg_regions s) rid True = (True, r, Some info)" and "callLimitCD info \<notin> {0, 1}"
    and "trace_on s" and "\<not> sum_on s" and "\<not> buf_full 24 (buf (gen s))"
    and "pos (buf (gen s)) + 24 \<le> cap (buf (gen s))"
  shows "vt_enter env c rid t s = Inr (True, t, set_buf ((buf (gen s))
    \<lparr>mem := (mem (buf (gen s)))(pos (buf (gen s)) \<mapsto> (Event (Enter t rid 0), 24)), pos := pos (buf (gen s)) + 24\<rparr>)
    (s\<lparr>stack_level := stack_level s + 1, rfg_regions := r\<rparr>))"
  using assms
  by (simp add: vt_enter_def Let_def VTGen_write_ENTER_def trace_event_def write_event_def alloc_event_def
      write_entry_room with_sum_def sum_prop_on_def trace_on_def sum_on_def)

text \<open>The two entries behind the last flush.\<close>

definition off_comment :: "env \<Rightarrow> entry" where
  "off_comment env = Def (DefinitionComment (take 4095 (max_flushes_text env)))"

lemma off_comment_sized: "sized (off_comment env)"
  by (simp add: off_comment_def sized_def)

lemma last_finish:
  assumes cnt: "flushcntr (gen s) = 1" and on: "trace_status s = VT_TRACE_ON" "trace_on s" "\<not> sum_on s"
    and alive: "vt_is_alive s" and depth: "stack_level s < max_stack_depth env"
    and push: "RFG_Regions_stackPush (rfg_regions s) (regid env VT__TRC_OFF) True = (True, r, Some info)"
      "callLimitCD info \<notin> {0, 1}"
    and room: "24 + align_length (entry_size (off_comment env)) \<le> unat (buf_size (buf (gen s)))"
      "unat (buf_size (buf (gen s))) \<le> cap (buf (gen s))"
  shows "\<exists>s'. flush_finish env c False s = Inr s' \<and> trace_status s' = VT_TRACE_OFF_PERMANENT
    \<and> flushcntr (gen s') = 0 \<and> otf s' = otf s
    \<and> buf_holds (buf (gen s')) [Event (Enter (wtime env (ticks s)) (regid env VT__TRC_OFF) 0), off_comment env]
    \<and> pos (buf (gen s')) \<le> unat (buf_size (buf (gen s'))) \<and> buf_size (buf (gen s')) = buf_size (buf (gen s))
    \<and> cap (buf (gen s')) = cap (buf (gen s))"
proof -
  let ?t = "wtime env (ticks s)" and ?e = "off_comment env" and ?b = "buf (gen s)"
  define s1 where "s1 = (reset_pos s)\<lparr>gen := (gen (reset_pos s))\<lparr>flushcntr := 0\<rparr>, ticks := ticks s + 1\<rparr>"
  define b2 where "b2 = ?b\<lparr>mem := (mem ?b)(0 \<mapsto> (Event (Enter ?t (regid env VT__TRC_OFF) 0), 24)), pos := 24\<rparr>"
  define s2 where "s2 = (set_buf b2 (s1\<lparr>stack_level := stack_level s1 + 1, rfg_regions := r\<rparr>))
      \<lparr>trace_status := VT_TRACE_OFF_PERMANENT\<rparr>"
  let ?len = "unat (entry_length ?e)"
  have len: "?len = align_length (entry_size ?e)" "entry_length ?e \<noteq> 0"
    using entry_length_sized [OF off_comment_sized] entry_length_pos [OF off_comment_sized] by auto
  have s1: "trace_status s1 = VT_TRACE_ON" "trace_on s1" "\<not> sum_on s1" "stack_level s1 = stack_level s"
      "rfg_regions s1 = rfg_regions s" "pos (buf (gen s1)) = 0" "buf_size (buf (gen s1)) = buf_size ?b"
      "cap (buf (gen s1)) = cap ?b"
    using on by (simp_all add: s1_def trace_on_def sum_on_def)
  have "\<not> buf_full 24 (buf (gen s1))"
    using buf_full_iff [of 24 "buf (gen s1)"] room s1 by simp
  then have enter: "vt_enter env c (regid env VT__TRC_OFF) ?t s1 = Inr (True, ?t,
      set_buf b2 (s1\<lparr>stack_level := stack_level s1 + 1, rfg_regions := r\<rparr>))"
    using enter_room [of s1 env "regid env VT__TRC_OFF" r info] s1 depth push room
    by (simp add: b2_def) (simp add: s1_def)
  have off: "vt_trace_off env c True True ((reset_pos s)\<lparr>gen := (gen (reset_pos s))\<lparr>flushcntr := 0\<rparr>\<rparr>) = Inr s2"
    using enter alive on by (simp add: vt_trace_off_def vt_pform_wtime_def s2_def s1_def)
  have b2: "buf (gen s2) = b2" "pos b2 = 24" "cap b2 = cap ?b" "buf_size b2 = buf_size ?b"
    by (simp_all add: s2_def b2_def)
  have "\<not> buf_full (entry_length ?e) b2"
    using buf_full_iff [of "entry_length ?e" b2] room len b2 by simp
  then have comment: "vt_def_comment env c (max_flushes_text env) s2 = write_entry ?e s2"
    using write_def_room [of _ s2] room len b2
    by (simp add: vt_def_comment_def VTGen_write_DEFINITION_COMMENT_def off_comment_def)
  define b3 where "b3 = b2\<lparr>mem := (mem b2)(24 \<mapsto> (?e, ?len)), pos := 24 + ?len\<rparr>"
  have "write_entry ?e s2 = Inr (set_buf b3 s2)"
    using write_entry_room [of s2 ?e] room len b2 by (simp add: b3_def)
  then have "flush_finish env c False s =
      Inr ((set_buf b3 s2)\<lparr>gen := (gen (set_buf b3 s2))\<lparr>rewind_time := 0, rewind_pos := None\<rparr>\<rparr>)"
    using off comment cnt by (simp add: flush_finish_def Let_def)
  moreover have "buf_holds b3 [Event (Enter ?t (regid env VT__TRC_OFF) 0), ?e]"
    using room len b2 by (auto simp: buf_holds_def b3_def b2_def)
  moreover have "pos b3 \<le> unat (buf_size b3)"
    using room len b2 by (simp add: b3_def)
  ultimately show ?thesis
    using b2 by (intro exI) (auto simp: s2_def s1_def b3_def)
qed

lemma last_flush:
  assumes b: "buf_holds (buf (gen s)) es" and cnt: "flushcntr (gen s) = 1"
    and on: "trace_status s = VT_TRACE_ON" "trace_on s" "\<not> sum_on s" "\<not> trace_is_disabled s"
    and stream: "open_stream_ok env" and alive: "vt_is_alive s" and depth: "stack_level s < max_stack_depth env"
    and push: "RFG_Regions_stackPush (rfg_regions s) (regid env VT__TRC_OFF) True = (True, r, Some info)"
      "callLimitCD info \<notin> {0, 1}"
    and room: "24 + align_length (entry_size (off_comment env)) \<le> unat (buf_size (buf (gen s)))"
      "unat (buf_size (buf (gen s))) \<le> cap (buf (gen s))" "pos (buf (gen s)) + 24 \<le> cap (buf (gen s))"
  shows "\<exists>s'. flush_body env c False t s = Inr (None, s') \<and> trace_status s' = VT_TRACE_OFF_PERMANENT
    \<and> flushcntr (gen s') = 0
    \<and> otf s' = otf (opened env s) @ map (call_of env s) (es @ [flush_enter env t])
    \<and> buf_holds (buf (gen s')) [Event (Enter (wtime env (ticks s)) (regid env VT__TRC_OFF) 0), off_comment env]"
proof -
  let ?b = "buf (gen s)" and ?e = "flush_enter env t"
  define b1 where "b1 = ?b\<lparr>mem := (mem ?b)(pos ?b \<mapsto> (?e, 24)), pos := pos ?b + 24\<rparr>"
  define s2 where "s2 = opened env (set_buf b1 s)"
  define s3 where "s3 = emit (map (call_of env s) (es @ [?e])) s2"
  have enter: "vt_enter_flush env t s = Inr (set_buf b1 s)"
    using on room by (simp add: vt_enter_flush_def VTGen_write_ENTER_FLUSH_def write_entry_room b1_def)
  have stream_open: "(if isfirstflush (gen (set_buf b1 s)) then open_stream env (set_buf b1 s)
      else Inr (set_buf b1 s)) = Inr s2"
    using stream by (simp add: s2_def opened_def open_stream_def)
  have s2: "buf (gen s2) = b1" "flushcntr (gen s2) = 1" "pid env s2 = pid env s" "trace_status s2 = VT_TRACE_ON"
      "mode (gen s2) = mode (gen s)" "ticks s2 = ticks s" "otf s2 = otf (opened env s)"
    using cnt on opened_simps [of env "set_buf b1 s"] by (simp_all add: s2_def pid_def header_calls_def)
  have s2': "vt_is_alive s2 = vt_is_alive s" "stack_level s2 = stack_level s" "rfg_regions s2 = rfg_regions s"
    by (simp_all add: s2_def opened_def)
  have "holds (mem (buf (gen s2))) 0 (es @ [?e]) (pos (buf (gen s2)))"
    using b by (auto simp: s2 b1_def buf_holds_def holds_append holds_upd)
  then have loop: "flush_loop env False False 0 None s2 = Inr (None, s3)"
    using flush_loop_quiet [of s2 0 "es @ [?e]" False env None] s2 by (simp add: s3_def)
  have s3: "flushcntr (gen s3) = 1" "trace_status s3 = VT_TRACE_ON" "trace_on s3" "\<not> sum_on s3"
      "vt_is_alive s3" "stack_level s3 < max_stack_depth env" "ticks s3 = ticks s" "rfg_regions s3 = rfg_regions s"
      "buf_size (buf (gen s3)) = buf_size ?b" "cap (buf (gen s3)) = cap ?b"
    using s2 s2' on alive depth by (simp_all add: s3_def trace_on_def sum_on_def b1_def)
  obtain s' where s': "flush_finish env c False s3 = Inr s'" "trace_status s' = VT_TRACE_OFF_PERMANENT"
      "flushcntr (gen s') = 0" "otf s' = otf s3"
      "buf_holds (buf (gen s')) [Event (Enter (wtime env (ticks s3)) (regid env VT__TRC_OFF) 0), off_comment env]"
    using last_finish [of s3 env r info c] s3 push room by auto
  have "flush_body env c False t s = Inr (None, s')"
    using cnt on(4) enter stream_open loop s'(1) by (simp add: flush_body_def)
  then show ?thesis
    using s' s2 s3 by (auto simp: s3_def)
qed

text \<open>
  C5: The last flush that is allowed ends the tracing. When an event finds the buffer full and
  one flush is left, the entries of the buffer go to the stream in order, followed by the enter
  mark of the flush, which gets no leave mark; the trace status becomes "permanently off"; the
  event itself is lost; and the buffer has the enter record of the region "tracing off" and the
  comment on the missing rest, which the closing of the generator writes out.
\<close>

theorem last_flush_ends_tracing:
  assumes "buf_holds (buf (gen s)) es" and "flushcntr (gen s) = 1"
    and "trace_status s = VT_TRACE_ON" "trace_on s" "\<not> sum_on s" "\<not> trace_is_disabled s"
    and "open_stream_ok env" and "vt_is_alive s" and "stack_level s < max_stack_depth env"
    and "RFG_Regions_stackPush (rfg_regions s) (regid env VT__TRC_OFF) True = (True, r, Some info)"
    and "callLimitCD info \<notin> {0, 1}"
    and "24 + align_length (entry_size (off_comment env)) \<le> unat (buf_size (buf (gen s)))"
    and "unat (buf_size (buf (gen s))) \<le> cap (buf (gen s))" and "pos (buf (gen s)) + 24 \<le> cap (buf (gen s))"
    and "writer_time w = Some t"
    and "buf_full (entry_length (writer_entry (otf_consts_of env) w t)) (buf (gen s))"
  shows "\<exists>s'. run_writer env (callees_at env (Suc n)) w s = Inr s' \<and> trace_status s' = VT_TRACE_OFF_PERMANENT
    \<and> flushcntr (gen s') = 0
    \<and> otf s' = otf s @ (if isfirstflush (gen s) then header_calls env s else [])
        @ map (call_of env s) (es @ [flush_enter env t])
    \<and> buf_holds (buf (gen s')) [Event (Enter (wtime env (ticks s)) (regid env VT__TRC_OFF) 0), off_comment env]"
proof -
  obtain s' where s': "flush_body env (callees_at env n) False t s = Inr (None, s')"
      "trace_status s' = VT_TRACE_OFF_PERMANENT" "flushcntr (gen s') = 0"
      "otf s' = otf (opened env s) @ map (call_of env s) (es @ [flush_enter env t])"
      "buf_holds (buf (gen s')) [Event (Enter (wtime env (ticks s)) (regid env VT__TRC_OFF) 0), off_comment env]"
    using last_flush [OF assms(1-14), of "callees_at env n" t] by blast
  have "write_event (callees_at env (Suc n)) (writer_entry (otf_consts_of env) w) t s = Inr (False, t, s')"
    using assms(16) s'(1,3) by (simp add: write_event_def alloc_event_def)
  then have "run_writer env (callees_at env (Suc n)) w s = Inr s'"
    by (rule run_writer_dropped [OF assms(15,4)])
  then show ?thesis
    using s' by auto
qed

text \<open>A generator before its last flush, with a comment in a buffer of 400 bytes.\<close>

abbreviation demo_text :: entry where
  "demo_text \<equiv> Def (DefinitionComment (replicate 330 CHR 0x78))"

definition demo_regions :: RFG_Regions where
  "demo_regions = (the RFG_Regions_init)\<lparr>htab := hash_put (\<lambda>_. []) 6 None ''off'' 9\<rparr>"

definition demo_off :: vt where
  "demo_off = (demo_gen 400)\<lparr>gen := (gen (demo_gen 400))\<lparr>flushcntr := 1, buf :=
     \<lparr>mem = (\<lambda>_. None)(0 \<mapsto> (demo_text, 344)), pos = 344, buf_size = 376, cap = 400\<rparr>\<rparr>,
     rfg_regions := Some demo_regions\<rparr>"

lemma demo_off_push:
  "\<exists>r info. RFG_Regions_stackPush (Some demo_regions) 6 True = (True, r, Some info) \<and> callLimitCD info = 8"
  using push_eq [of demo_regions 6 "\<lparr>regionId = 6, groupName = None, regionName = ''off'', callLimit = 9,
      callLimitCD = 9\<rparr>" True]
  by (auto simp: demo_regions_def RFG_Regions_init_def hash_get_put counted_def)

theorem last_flush_ends_tracing_witness:
  "\<exists>s'. run_writer demo_env (callees_at demo_env 1) (W_SEND_MSG 5 2 1 0 8 0) demo_off = Inr s'
    \<and> trace_status s' = VT_TRACE_OFF_PERMANENT \<and> flushcntr (gen s') = 0
    \<and> otf s' = otf demo_off @ header_calls demo_env demo_off
        @ map (call_of demo_env demo_off) ([demo_text] @ [flush_enter demo_env 5])
    \<and> buf_holds (buf (gen s')) [Event (Enter (wtime demo_env (ticks demo_off)) (regid demo_env VT__TRC_OFF) 0),
        off_comment demo_env]"
proof -
  obtain r info where push: "RFG_Regions_stackPush (Some demo_regions) 6 True = (True, r, Some info)"
      "callLimitCD info = 8"
    using demo_off_push by blast
  have buf: "buf (gen demo_off) = \<lparr>mem = (\<lambda>_. None)(0 \<mapsto> (demo_text, 344)), pos = 344, buf_size = 376, cap = 400\<rparr>"
    by (simp add: demo_off_def)
  have len: "entry_length demo_text = 344" "entry_length (Comm (SendMsg t p c g l x)) = 40" for t p c g l x
    by (simp_all add: entry_length_def align_length_def)
  have b: "buf_holds (buf (gen demo_off)) [demo_text]"
    using len by (simp add: buf buf_holds_def)
  have comment: "24 + align_length (entry_size (off_comment demo_env)) \<le> 376"
    by (simp add: off_comment_def max_flushes_text_def demo_env_def align_length_def dec_int_def dec.simps)
  have full: "buf_full (entry_length (writer_entry (otf_consts_of demo_env) (W_SEND_MSG 5 2 1 0 8 0) 5)) (buf (gen demo_off))"
    using len by (simp add: buf buf_full_def)
  show ?thesis
    using last_flush_ends_tracing [where s = demo_off and env = demo_env and n = 0, OF b _ _ _ _ _ _ _ _ _ _ _ _ _ _ full]
      push comment
    by (simp add: buf) (simp add: demo_off_def demo_gen_def demo_vt_def demo_env_def trace_on_def sum_on_def)
qed

section \<open>Definitions behind the last flush\<close>

definition def_lengths :: "env \<Rightarrow> writer list \<Rightarrow> nat" where
  "def_lengths env ws = sum_list (map (\<lambda>w. align_length (entry_size (writer_entry (otf_consts_of env) w 0))) ws)"

lemma write_def_unchecked:
  assumes "flushcntr (gen s) = 0" and "sized (Def d)"
  shows "if pos (buf (gen s)) + align_length (entry_size (Def d)) \<le> cap (buf (gen s))
    then \<exists>s'. write_def env (callees_at env (Suc n)) d s = Inr s' \<and> flushcntr (gen s') = 0 \<and> otf s' = otf s
      \<and> pos (buf (gen s')) = pos (buf (gen s)) + align_length (entry_size (Def d))
      \<and> cap (buf (gen s')) = cap (buf (gen s))
    else write_def env (callees_at env (Suc n)) d s = Inl OutOfBounds"
proof -
  obtain s1 where s1: "alloc_def env (callees_at env (Suc n)) (entry_length (Def d)) s = Inr s1"
      "gen s1 = gen s" "otf s1 = otf s"
    using assms(1) flush_settled [of "s\<lparr>ticks := ticks s + 1\<rparr>"]
    by (cases "buf_full (entry_length (Def d)) (buf (gen s))")
      (simp_all add: alloc_def_def vt_pform_wtime_def del: callees_at.simps)
  show ?thesis
    using assms s1 entry_length_sized [OF assms(2)]
    by (auto simp: write_def_def write_entry_def put_entry_def Let_def simp del: callees_at.simps)
qed

text \<open>
  When no flush is left, definitions are still written, without a check of the space. A
  sequence of definitions is appended to the buffer if it fits into the allocated memory, and
  otherwise ends in a write behind it; nothing goes to the stream.
\<close>

lemma definitions_behind_last_flush:
  assumes "flushcntr (gen s) = 0" and "pos (buf (gen s)) \<le> cap (buf (gen s))"
    and "\<forall>w \<in> set ws. writer_time w = None \<and> writer_sized env w"
  shows "if pos (buf (gen s)) + def_lengths env ws \<le> cap (buf (gen s))
    then \<exists>s'. run_writers env (Suc n) ws s = Inr s' \<and> otf s' = otf s
      \<and> pos (buf (gen s')) = pos (buf (gen s)) + def_lengths env ws
    else run_writers env (Suc n) ws s = Inl OutOfBounds"
  using assms
proof (induction ws arbitrary: s)
  case Nil
  then show ?case
    by (simp add: def_lengths_def)
next
  case (Cons w ws)
  obtain d where d: "\<And>t. writer_entry (otf_consts_of env) w t = Def d"
      "\<And>c s. run_writer env c w s = write_def env c d s"
    using run_writer_definition [of w] Cons.prems(3) by auto
  have "sized (Def d)"
    using Cons.prems(3) d(1) by (simp add: writer_sized_def)
  note step = write_def_unchecked [OF Cons.prems(1) this, of env n]
  have sum: "def_lengths env (w # ws) = align_length (entry_size (Def d)) + def_lengths env ws"
    by (simp add: def_lengths_def d)
  show ?case
  proof (cases "pos (buf (gen s)) + align_length (entry_size (Def d)) \<le> cap (buf (gen s))")
    case False
    then show ?thesis
      using step by (simp add: d sum del: callees_at.simps)
  next
    case True
    then obtain s1 where s1: "write_def env (callees_at env (Suc n)) d s = Inr s1" "flushcntr (gen s1) = 0"
        "otf s1 = otf s" "pos (buf (gen s1)) = pos (buf (gen s)) + align_length (entry_size (Def d))"
        "cap (buf (gen s1)) = cap (buf (gen s))"
      using step by auto
    show ?thesis
      using Cons.IH [OF s1(2)] s1 True Cons.prems(3)
      by (auto simp: d sum add.assoc simp del: callees_at.simps split: if_splits)
  qed
qed

end
