(* ===== verification/VtEnv.thy ===== *)
theory VtEnv
  imports CString OtfSum
begin

unbundle bit_operations_syntax

text \<open>
  \<open>vtlib/vt_env.c\<close>: the settings that the tracing library reads from environment variables. Each
  function reads its variable at its first call and keeps the value in a static variable.

  The environment is the parameter \<open>ge\<close> (\<open>getenv\<close>). The static variables are kept by the name
  of the environment variable of their function: \<open>ints\<close>, whose value before the first call is a
  sentinel, \<open>sizes\<close>, where 0 is the sentinel, the strings \<open>strs\<close>, and the flags \<open>unread\<close>. A
  program that is ended by \<open>vt_error_msg\<close> is \<open>Inl NotSet\<close>, a null pointer that is dereferenced
  is \<open>Inl NullPointer\<close>.
\<close>

section \<open>State\<close>

datatype env_error = NotSet | NullPointer

record statics =
  ints :: "string \<Rightarrow> int"
  sizes :: "string \<Rightarrow> u64"
  strs :: "string \<Rightarrow> string ptr"
  unread :: "string \<Rightarrow> bool"

type_synonym getenv = "string \<Rightarrow> string ptr"

text \<open>The sentinels: \<open>- 2\<close> where \<open>- 1\<close> may be used, 0 for the flags, \<open>- 1\<close> otherwise.\<close>

definition sentinel :: "string \<Rightarrow> int" where
  "sentinel var =
     (if var = ''VT_FILE_UNIQUE'' then - 2
      else if var \<in> {''VT_MODE'', ''VT_STAT_PROPS'', ''VT_STAT_MSG_DTLS'', ''VT_STAT_COLLOP_DTLS''} then 0
      else - 1)"

definition statics_init :: statics where
  "statics_init = \<lparr>ints = sentinel, sizes = (\<lambda>_. 0), strs = (\<lambda>_. None), unread = (\<lambda>_. True)\<rparr>"

text \<open>What the platform and the installation give.\<close>

record pform =
  pform_exec :: "string ptr"
  pform_gdir :: string
  pform_ldir :: string
  default_nm :: "string ptr"
  metrics_spec_in_cwd :: bool
  installdir_data :: string

text \<open>The test that every function makes: \<open>tmp != NULL && strlen(tmp) > 0\<close>.\<close>

definition given :: "getenv \<Rightarrow> string \<Rightarrow> string option" where
  "given ge var = (case ge var of Some t \<Rightarrow> if t \<noteq> [] then Some t else None | None \<Rightarrow> None)"

section \<open>Parsing\<close>

definition is_alnum :: "char \<Rightarrow> bool" where
  "is_alnum c \<longleftrightarrow> is_digit c \<or> (65 \<le> (of_char c :: nat) \<and> of_char c \<le> (90 :: nat))
     \<or> (97 \<le> (of_char c :: nat) \<and> of_char c \<le> (122 :: nat))"

definition to_lower :: "char \<Rightarrow> char" where
  "to_lower c = (if 65 \<le> (of_char c :: nat) \<and> of_char c \<le> (90 :: nat) then char_of (of_char c + 32 :: nat) else c)"

text \<open>
  \<open>replace_vars\<close>: the first variable of the string, in the form with braces or without, is
  replaced by its value.
\<close>

definition replace_vars :: "getenv \<Rightarrow> string \<Rightarrow> string" where
  "replace_vars ge v =
     (case strchr v CHR ''$'' of
        None \<Rightarrow> v
      | Some i \<Rightarrow>
          (let braces = (drop (i + 1) v \<noteq> [] \<and> hd (drop (i + 1) v) = CHR 0x7B);
               start = (if braces then i + 2 else i + 1);
               name = (if braces then takeWhile (\<lambda>c. c \<noteq> CHR 0x7D) (drop start v)
                       else takeWhile (\<lambda>c. is_alnum c \<or> c = CHR ''_'') (drop start v));
               rest = drop (start + length name) v;
               val = (case ge name of None \<Rightarrow> [] | Some t \<Rightarrow> t)
           in take i v @ val @ (if rest \<noteq> [] then drop (if braces then 1 else 0) rest else [])))"

text \<open>The result has a flag that tells whether it is a copy, and not a pointer into the path.\<close>

definition strip_dir :: "string \<Rightarrow> string \<times> bool" where
  "strip_dir path =
     (if CHR ''/'' \<notin> set path then (path, False)
      else (rev (takeWhile (\<lambda>c. c \<noteq> CHR ''/'') (rev path)), True))"

text \<open>The copy of 127 characters of a value into a local buffer, in lower case.\<close>

definition lowered :: "string \<Rightarrow> string" where
  "lowered t = map to_lower (take 127 t)"

definition parse_bool :: "string \<Rightarrow> int" where
  "parse_bool t = (if lowered t \<in> {''yes'', ''true'', ''1''} then 1 else 0)"

text \<open>\<open>atoll (t) * multiply\<close>, converted to \<open>size_t\<close>.\<close>

definition parse_size :: "string \<Rightarrow> u64" where
  "parse_size t =
     (if t \<noteq> [] then
        (let c = last t;
             multiply = (if is_digit c then 1
                         else if c = CHR ''K'' \<or> c = CHR ''k'' then 1024
                         else if c = CHR ''M'' \<or> c = CHR ''m'' then 1024 * 1024
                         else if c = CHR ''G'' \<or> c = CHR ''g'' then 1024 * 1024 * 1024
                         else 0)
         in word_of_int (fst (strtol t) * multiply))
      else 0)"

text \<open>The value of \<open>atoi\<close>, if it is in its range.\<close>

definition checked :: "(int \<Rightarrow> bool) \<Rightarrow> string \<Rightarrow> env_error + int" where
  "checked P t = (let v = atoi t in if P v then Inr v else Inl NotSet)"

text \<open>
  The loop over the tokens of a list of flags: \<open>names\<close> are the names that are known with their
  flags, \<open>dc\<close> counts the tokens, of which at most \<open>most\<close> may come.
\<close>

fun flag_loop :: "(string \<Rightarrow> u8 option) \<Rightarrow> nat \<Rightarrow> nat \<Rightarrow> u8 \<Rightarrow> string list \<Rightarrow> env_error + u8" where
  "flag_loop names most dc flags [] = Inr flags"
| "flag_loop names most dc flags (tk # tks) =
     (case names tk of
        Some f \<Rightarrow> if dc < most then flag_loop names most (dc + 1) (flags OR f) tks else Inl NotSet
      | None \<Rightarrow> Inl NotSet)"

text \<open>The first token is used without a test.\<close>

definition parse_flags :: "(string \<Rightarrow> u8 option) \<Rightarrow> nat \<Rightarrow> string \<Rightarrow> env_error + int" where
  "parse_flags names most t =
     (let tks = tokens CHR '':'' (lowered t)
      in if tks = [] then Inl NullPointer
         else (case flag_loop names most 0 0 tks of Inl e \<Rightarrow> Inl e | Inr f \<Rightarrow> Inr (uint f)))"

section \<open>Reading a setting\<close>

type_synonym int_setting = "getenv \<Rightarrow> statics \<Rightarrow> env_error + (int \<times> statics)"
type_synonym size_setting = "getenv \<Rightarrow> statics \<Rightarrow> env_error + (u64 \<times> statics)"
type_synonym str_setting = "pform \<Rightarrow> getenv \<Rightarrow> statics \<Rightarrow> string ptr \<times> statics"

definition read_int :: "string \<Rightarrow> int \<Rightarrow> (string \<Rightarrow> env_error + int) \<Rightarrow> int \<Rightarrow> int_setting" where
  "read_int var none parse dflt ge s =
     (if ints s var = none then
        (case (case given ge var of Some t \<Rightarrow> parse t | None \<Rightarrow> Inr dflt) of
           Inl e \<Rightarrow> Inl e
         | Inr v \<Rightarrow> Inr (v, s\<lparr>ints := (ints s)(var := v)\<rparr>))
      else Inr (ints s var, s))"

definition read_size :: "string \<Rightarrow> (string \<Rightarrow> env_error + u64) \<Rightarrow> u64 \<Rightarrow> size_setting" where
  "read_size var parse dflt ge s =
     (if sizes s var = 0 then
        (case (case given ge var of Some t \<Rightarrow> parse t | None \<Rightarrow> Inr dflt) of
           Inl e \<Rightarrow> Inl e
         | Inr v \<Rightarrow> Inr (v, s\<lparr>sizes := (sizes s)(var := v)\<rparr>))
      else Inr (sizes s var, s))"

text \<open>The strings: those with a flag \<open>read\<close>, and those that are read while they are null.\<close>

definition read_once :: "string \<Rightarrow> string ptr \<Rightarrow> getenv \<Rightarrow> statics \<Rightarrow> string ptr \<times> statics" where
  "read_once var dflt ge s =
     (if unread s var then
        (let v = (case given ge var of Some t \<Rightarrow> Some (replace_vars ge t) | None \<Rightarrow> dflt)
         in (v, s\<lparr>unread := (unread s)(var := False), strs := (strs s)(var := v)\<rparr>))
      else (strs s var, s))"

definition read_while_null :: "string \<Rightarrow> string ptr \<Rightarrow> getenv \<Rightarrow> statics \<Rightarrow> string ptr \<times> statics" where
  "read_while_null var dflt ge s =
     (if strs s var = None then
        (let v = (case given ge var of Some t \<Rightarrow> Some (replace_vars ge t) | None \<Rightarrow> dflt)
         in (v, s\<lparr>strs := (strs s)(var := v)\<rparr>))
      else (strs s var, s))"

section \<open>Yes or no\<close>

definition vt_env_gdir_check :: int_setting where
  "vt_env_gdir_check = read_int ''VT_PFORM_GDIR_CHECK'' (- 1) (\<lambda>t. Inr (parse_bool t)) 1"

definition vt_env_ldir_check :: int_setting where
  "vt_env_ldir_check = read_int ''VT_PFORM_LDIR_CHECK'' (- 1) (\<lambda>t. Inr (parse_bool t)) 1"

definition vt_env_pthread_reuse :: int_setting where
  "vt_env_pthread_reuse = read_int ''VT_PTHREAD_REUSE'' (- 1) (\<lambda>t. Inr (parse_bool t)) 1"

definition vt_env_do_unify :: int_setting where
  "vt_env_do_unify = read_int ''VT_UNIFY'' (- 1) (\<lambda>t. Inr (parse_bool t)) 1"

definition vt_env_do_clean :: int_setting where
  "vt_env_do_clean = read_int ''VT_CLEAN'' (- 1) (\<lambda>t. Inr (parse_bool t)) 1"

definition vt_env_memtrace :: int_setting where
  "vt_env_memtrace = read_int ''VT_MEMTRACE'' (- 1) (\<lambda>t. Inr (parse_bool t)) 0"

definition vt_env_memtrace_marker :: int_setting where
  "vt_env_memtrace_marker = read_int ''VT_MEMTRACE_MARKER'' (- 1) (\<lambda>t. Inr (parse_bool t)) 0"

definition vt_env_cpuidtrace :: int_setting where
  "vt_env_cpuidtrace = read_int ''VT_CPUIDTRACE'' (- 1) (\<lambda>t. Inr (parse_bool t)) 0"

definition vt_env_iotrace :: int_setting where
  "vt_env_iotrace = read_int ''VT_IOTRACE'' (- 1) (\<lambda>t. Inr (parse_bool t)) 0"

definition vt_env_libctrace :: int_setting where
  "vt_env_libctrace = read_int ''VT_LIBCTRACE'' (- 1) (\<lambda>t. Inr (parse_bool t)) 1"

definition vt_env_omptrace :: int_setting where
  "vt_env_omptrace = read_int ''VT_OMPTRACE'' (- 1) (\<lambda>t. Inr (parse_bool t)) 1"

definition vt_env_mpitrace :: int_setting where
  "vt_env_mpitrace = read_int ''VT_MPITRACE'' (- 1) (\<lambda>t. Inr (parse_bool t)) 1"

definition vt_env_mpicheck :: int_setting where
  "vt_env_mpicheck = read_int ''VT_MPICHECK'' (- 1) (\<lambda>t. Inr (parse_bool t)) 0"

definition vt_env_mpicheck_errexit :: int_setting where
  "vt_env_mpicheck_errexit = read_int ''VT_MPICHECK_ERREXIT'' (- 1) (\<lambda>t. Inr (parse_bool t)) 0"

definition vt_env_sync_flush :: int_setting where
  "vt_env_sync_flush = read_int ''VT_SYNC_FLUSH'' (- 1) (\<lambda>t. Inr (parse_bool t)) 0"

definition vt_env_compression :: int_setting where
  "vt_env_compression = read_int ''VT_COMPRESSION'' (- 1) (\<lambda>t. Inr (parse_bool t)) 1"

definition vt_env_java_native :: int_setting where
  "vt_env_java_native = read_int ''VT_JAVA_NATIVE'' (- 1) (\<lambda>t. Inr (parse_bool t)) 0"

definition vt_env_java_synthetic :: int_setting where
  "vt_env_java_synthetic = read_int ''VT_JAVA_SYNTHETIC'' (- 1) (\<lambda>t. Inr (parse_bool t)) 0"

definition vt_env_java_group_classes :: int_setting where
  "vt_env_java_group_classes = read_int ''VT_JAVA_GROUP_CLASSES'' (- 1) (\<lambda>t. Inr (parse_bool t)) 1"

definition vt_env_etimesync :: int_setting where
  "vt_env_etimesync = read_int ''VT_ETIMESYNC'' (- 1) (\<lambda>t. Inr (parse_bool t)) 0"

definition vt_env_cudarttrace :: int_setting where
  "vt_env_cudarttrace = read_int ''VT_CUDARTTRACE'' (- 1) (\<lambda>t. Inr (parse_bool t)) 0"

definition vt_env_cudatrace_idle :: int_setting where
  "vt_env_cudatrace_idle = read_int ''VT_CUDATRACE_IDLE'' (- 1) (\<lambda>t. Inr (parse_bool t)) 0"

definition vt_env_cudatrace_kernel :: int_setting where
  "vt_env_cudatrace_kernel = read_int ''VT_CUDATRACE_KERNEL'' (- 1) (\<lambda>t. Inr (parse_bool t)) 1"

definition vt_env_cudatrace_memcpyasync :: int_setting where
  "vt_env_cudatrace_memcpyasync = read_int ''VT_CUDATRACE_MEMCPYASYNC'' (- 1) (\<lambda>t. Inr (parse_bool t)) 1"

section \<open>Numbers\<close>

definition vt_env_stat_intv :: int_setting where
  "vt_env_stat_intv = read_int ''VT_STAT_INTV'' (- 1) (checked (\<lambda>v. 0 \<le> v)) 0"

definition vt_env_max_mpi_comms :: int_setting where
  "vt_env_max_mpi_comms = read_int ''VT_MAX_MPI_COMMS'' (- 1) (checked (\<lambda>v. 2 \<le> v)) 100"

definition vt_env_max_mpi_wins :: int_setting where
  "vt_env_max_mpi_wins = read_int ''VT_MAX_MPI_WINS'' (- 1) (checked (\<lambda>v. 1 \<le> v)) 100"

definition vt_env_rusage_intv :: int_setting where
  "vt_env_rusage_intv = read_int ''VT_RUSAGE_INTV'' (- 1) (checked (\<lambda>v. 0 \<le> v)) 100"

definition vt_env_sync_flush_level :: int_setting where
  "vt_env_sync_flush_level = read_int ''VT_SYNC_FLUSH_LEVEL'' (- 1) (checked (\<lambda>v. 0 \<le> v \<and> v \<le> 100)) 80"

definition vt_env_max_stack_depth :: int_setting where
  "vt_env_max_stack_depth = read_int ''VT_MAX_STACK_DEPTH'' (- 1) (checked (\<lambda>v. 0 \<le> v)) 0"

definition vt_env_max_flushes :: int_setting where
  "vt_env_max_flushes = read_int ''VT_MAX_FLUSHES'' (- 1) (checked (\<lambda>v. 0 \<le> v)) 1"

definition vt_env_etimesync_intv :: int_setting where
  "vt_env_etimesync_intv = read_int ''VT_ETIMESYNC_INTV'' (- 1) (checked (\<lambda>v. 0 \<le> v)) 120"

definition not_negative :: "string \<Rightarrow> env_error + int" where
  "not_negative t = Inr (max 0 (atoi t))"

definition vt_env_verbose :: int_setting where
  "vt_env_verbose = read_int ''VT_VERBOSE'' (- 1) not_negative 1"

definition vt_env_debug :: int_setting where
  "vt_env_debug = read_int ''VT_DEBUG'' (- 1) not_negative 0"

definition vt_env_max_threads :: int_setting where
  "vt_env_max_threads = read_int ''VT_MAX_THREADS'' (- 1) (\<lambda>t. Inr (atoi t)) 65536"

definition vt_env_cudatrace_sync :: int_setting where
  "vt_env_cudatrace_sync = read_int ''VT_CUDATRACE_SYNC'' (- 1)
     (\<lambda>t. Inr (if atoi t = 0 \<and> parse_bool t = 1 then 3 else atoi t)) 3"

definition vt_env_funique :: int_setting where
  "vt_env_funique = read_int ''VT_FILE_UNIQUE'' (- 2)
     (\<lambda>t. if lowered t \<in> {''yes'', ''true'', ''auto''} then Inr 0
          else if atoi t = 0 then Inr (- 1)
          else checked (\<lambda>v. 0 \<le> v) t) (- 1)"

section \<open>Flags\<close>

definition vt_env_mode :: int_setting where
  "vt_env_mode = read_int ''VT_MODE'' 0
     (parse_flags [''trace'' \<mapsto> 1, ''stat'' \<mapsto> 2] 2) 1"

definition vt_env_stat_props :: int_setting where
  "vt_env_stat_props = read_int ''VT_STAT_PROPS'' 0
     (\<lambda>t. if lowered t = ''all'' then Inr (uint (VT_SUM_PROP_FUNC OR VT_SUM_PROP_MSG OR VT_SUM_PROP_COLLOP))
          else parse_flags [''func'' \<mapsto> VT_SUM_PROP_FUNC, ''msg'' \<mapsto> VT_SUM_PROP_MSG,
                            ''collop'' \<mapsto> VT_SUM_PROP_COLLOP] 3 t)
     (uint (VT_SUM_PROP_FUNC OR VT_SUM_PROP_MSG OR VT_SUM_PROP_COLLOP))"

definition vt_env_stat_msg_dtls :: int_setting where
  "vt_env_stat_msg_dtls = read_int ''VT_STAT_MSG_DTLS'' 0
     (parse_flags [''peer'' \<mapsto> VT_SUM_MSG_DTL_PEER, ''comm'' \<mapsto> VT_SUM_MSG_DTL_COMM,
                   ''tag'' \<mapsto> VT_SUM_MSG_DTL_TAG] 3) (uint VT_SUM_MSG_DTL_PEER)"

definition vt_env_stat_collop_dtls :: int_setting where
  "vt_env_stat_collop_dtls = read_int ''VT_STAT_COLLOP_DTLS'' 0
     (parse_flags [''comm'' \<mapsto> VT_SUM_COLLOP_DTL_COMM, ''op'' \<mapsto> VT_SUM_COLLOP_DTL_OP] 2)
     (uint VT_SUM_COLLOP_DTL_OP)"

section \<open>Sizes\<close>

abbreviation (input) VT_MIN_BUFSIZE :: u64 where "VT_MIN_BUFSIZE \<equiv> 0x19000"
abbreviation (input) VT_DEFAULT_BUFSIZE :: u64 where "VT_DEFAULT_BUFSIZE \<equiv> 0x2000000"
abbreviation (input) VT_DEFAULT_COPY_BUFFER_SIZE :: u64 where "VT_DEFAULT_COPY_BUFFER_SIZE \<equiv> 0x100000"

definition vt_env_bsize :: size_setting where
  "vt_env_bsize = read_size ''VT_BUFFER_SIZE''
     (\<lambda>t. let n = parse_size t
          in if n \<le> 0 then Inl NotSet else Inr (if n < VT_MIN_BUFSIZE then VT_MIN_BUFSIZE else n))
     VT_DEFAULT_BUFSIZE"

definition vt_env_copy_bsize :: size_setting where
  "vt_env_copy_bsize = read_size ''VT_COPY_BUFFER_SIZE''
     (\<lambda>t. let n = parse_size t in if n \<le> 0 then Inl NotSet else Inr n) VT_DEFAULT_COPY_BUFFER_SIZE"

definition vt_env_cudatrace_bsize :: size_setting where
  "vt_env_cudatrace_bsize = read_size ''VT_CUDATRACE_BUFFER_SIZE'' (\<lambda>t. Inr (parse_size t)) 0"

section \<open>Strings\<close>

definition vt_env_apppath :: str_setting where
  "vt_env_apppath p = read_once ''VT_APPPATH'' (pform_exec p)"

definition vt_env_dyn_blacklist :: str_setting where
  "vt_env_dyn_blacklist p = read_once ''VT_DYN_BLACKLIST'' None"

definition vt_env_dyn_shlibs :: str_setting where
  "vt_env_dyn_shlibs p = read_once ''VT_DYN_SHLIBS'' None"

definition vt_env_gnu_nm :: str_setting where
  "vt_env_gnu_nm p = read_once ''VT_GNU_NM'' (default_nm p)"

definition vt_env_gnu_nmfile :: str_setting where
  "vt_env_gnu_nmfile p = read_once ''VT_GNU_NMFILE'' None"

definition vt_env_java_filter_spec :: str_setting where
  "vt_env_java_filter_spec p = read_once ''VT_JAVA_FILTER_SPEC'' None"

definition vt_env_filter_spec :: str_setting where
  "vt_env_filter_spec p = read_once ''VT_FILTER_SPEC'' None"

definition vt_env_groups_spec :: str_setting where
  "vt_env_groups_spec p = read_once ''VT_GROUPS_SPEC'' None"

definition vt_env_gdir :: "pform \<Rightarrow> getenv \<Rightarrow> statics \<Rightarrow> string ptr \<times> statics" where
  "vt_env_gdir p ge = read_while_null ''VT_PFORM_GDIR'' (Some (replace_vars ge (pform_gdir p))) ge"

definition vt_env_ldir :: "pform \<Rightarrow> getenv \<Rightarrow> statics \<Rightarrow> string ptr \<times> statics" where
  "vt_env_ldir p ge = read_while_null ''VT_PFORM_LDIR'' (Some (replace_vars ge (pform_ldir p))) ge"

definition vt_env_iolibpathname :: str_setting where
  "vt_env_iolibpathname p = read_while_null ''VT_IOLIB_PATHNAME'' None"

definition vt_env_rusage :: str_setting where
  "vt_env_rusage p ge s =
     (if unread s ''VT_RUSAGE'' then
        (ge ''VT_RUSAGE'', s\<lparr>unread := (unread s)(''VT_RUSAGE'' := False), strs := (strs s)(''VT_RUSAGE'' := ge ''VT_RUSAGE'')\<rparr>)
      else (strs s ''VT_RUSAGE'', s))"

definition vt_env_metrics :: str_setting where
  "vt_env_metrics p ge s =
     (if unread s ''VT_METRICS'' then
        (given ge ''VT_METRICS'',
         s\<lparr>unread := (unread s)(''VT_METRICS'' := False), strs := (strs s)(''VT_METRICS'' := given ge ''VT_METRICS'')\<rparr>)
      else (strs s ''VT_METRICS'', s))"

definition vt_env_metrics_sep :: str_setting where
  "vt_env_metrics_sep p ge s =
     (if strs s ''VT_METRICS_SEP'' = None then
        (let v = (case given ge ''VT_METRICS_SEP'' of Some t \<Rightarrow> Some t | None \<Rightarrow> Some '':'')
         in (v, s\<lparr>strs := (strs s)(''VT_METRICS_SEP'' := v)\<rparr>))
      else (strs s ''VT_METRICS_SEP'', s))"

text \<open>Not kept in a static variable; the copies are cut by one character by their \<open>snprintf\<close>.\<close>

definition vt_env_metrics_spec :: "pform \<Rightarrow> getenv \<Rightarrow> string" where
  "vt_env_metrics_spec p ge =
     (case given ge ''VT_METRICS_SPEC'' of
        Some t \<Rightarrow> t
      | None \<Rightarrow>
          (if metrics_spec_in_cwd p then take (length ''METRICS.SPEC'' + 1) (''./'' @ ''METRICS.SPEC'')
           else take (length (installdir_data p) + length ''METRICS.SPEC'' + 1)
                  (installdir_data p @ ''/'' @ ''METRICS.SPEC'')))"

text \<open>
  \<open>vt_env_fprefix\<close>. Where the path of the application has no directory, \<open>strip_dir\<close> gives the
  path itself, and the suffix is cut off in the buffer of \<open>vt_env_apppath\<close>.
\<close>

definition has_suffix :: "string \<Rightarrow> bool" where
  "has_suffix t \<longleftrightarrow> length t \<ge> 4 \<and> drop (length t - 4) t \<in> {''.out'', ''.exe''}"

definition vt_env_fprefix :: str_setting where
  "vt_env_fprefix p ge s =
     (if strs s ''VT_FILE_PREFIX'' = None then
        (case given ge ''VT_FILE_PREFIX'' of
           Some t \<Rightarrow>
             (let v = Some (replace_vars ge t) in (v, s\<lparr>strs := (strs s)(''VT_FILE_PREFIX'' := v)\<rparr>))
         | None \<Rightarrow>
             (case vt_env_apppath p ge s of
                (app, s) \<Rightarrow>
                  (case (case app of Some t \<Rightarrow> if t \<noteq> [] then Some t else None | None \<Rightarrow> None) of
                     Some path \<Rightarrow>
                       (let (base, copied) = strip_dir path;
                            v = (if has_suffix base then take (length base - 4) base else base);
                            s = (if copied then s else s\<lparr>strs := (strs s)(''VT_APPPATH'' := Some v)\<rparr>)
                        in (Some v, s\<lparr>strs := (strs s)(''VT_FILE_PREFIX'' := Some v)\<rparr>))
                   | None \<Rightarrow> (Some ''a'', s\<lparr>strs := (strs s)(''VT_FILE_PREFIX'' := Some ''a'')\<rparr>))))
      else (strs s ''VT_FILE_PREFIX'', s))"

section \<open>Every setting is read once\<close>

text \<open>The settings that are numbers, by their variables.\<close>

definition int_settings :: "(string \<times> int_setting) list" where
  "int_settings =
    [(''VT_PFORM_GDIR_CHECK'', vt_env_gdir_check), (''VT_PFORM_LDIR_CHECK'', vt_env_ldir_check),
     (''VT_PTHREAD_REUSE'', vt_env_pthread_reuse), (''VT_UNIFY'', vt_env_do_unify), (''VT_CLEAN'', vt_env_do_clean),
     (''VT_MEMTRACE'', vt_env_memtrace), (''VT_MEMTRACE_MARKER'', vt_env_memtrace_marker),
     (''VT_CPUIDTRACE'', vt_env_cpuidtrace), (''VT_IOTRACE'', vt_env_iotrace), (''VT_LIBCTRACE'', vt_env_libctrace),
     (''VT_OMPTRACE'', vt_env_omptrace), (''VT_MPITRACE'', vt_env_mpitrace), (''VT_MPICHECK'', vt_env_mpicheck),
     (''VT_MPICHECK_ERREXIT'', vt_env_mpicheck_errexit), (''VT_SYNC_FLUSH'', vt_env_sync_flush),
     (''VT_COMPRESSION'', vt_env_compression), (''VT_JAVA_NATIVE'', vt_env_java_native),
     (''VT_JAVA_SYNTHETIC'', vt_env_java_synthetic), (''VT_JAVA_GROUP_CLASSES'', vt_env_java_group_classes),
     (''VT_ETIMESYNC'', vt_env_etimesync), (''VT_CUDARTTRACE'', vt_env_cudarttrace),
     (''VT_CUDATRACE_IDLE'', vt_env_cudatrace_idle), (''VT_CUDATRACE_KERNEL'', vt_env_cudatrace_kernel),
     (''VT_CUDATRACE_MEMCPYASYNC'', vt_env_cudatrace_memcpyasync), (''VT_STAT_INTV'', vt_env_stat_intv),
     (''VT_MAX_MPI_COMMS'', vt_env_max_mpi_comms), (''VT_MAX_MPI_WINS'', vt_env_max_mpi_wins),
     (''VT_RUSAGE_INTV'', vt_env_rusage_intv), (''VT_SYNC_FLUSH_LEVEL'', vt_env_sync_flush_level),
     (''VT_MAX_STACK_DEPTH'', vt_env_max_stack_depth), (''VT_MAX_FLUSHES'', vt_env_max_flushes),
     (''VT_ETIMESYNC_INTV'', vt_env_etimesync_intv), (''VT_VERBOSE'', vt_env_verbose), (''VT_DEBUG'', vt_env_debug),
     (''VT_FILE_UNIQUE'', vt_env_funique), (''VT_MODE'', vt_env_mode), (''VT_STAT_PROPS'', vt_env_stat_props),
     (''VT_STAT_MSG_DTLS'', vt_env_stat_msg_dtls), (''VT_STAT_COLLOP_DTLS'', vt_env_stat_collop_dtls)]"

lemma flag_loop_mono: "flag_loop names most dc fl tks = Inr f \<Longrightarrow> bit fl n \<Longrightarrow> bit f n"
proof (induction tks arbitrary: dc fl)
  case (Cons tk tks)
  then obtain g where "flag_loop names most (dc + 1) (fl OR g) tks = Inr f"
    by (auto split: option.splits if_splits)
  then show ?case
    using Cons by (auto simp: bit_or_iff)
qed simp

text \<open>Flags that are known are not 0, and so is what the parser makes of them.\<close>

lemma parse_flags_pos:
  assumes "parse_flags names most t = Inr v" and "\<And>tk f. names tk = Some f \<Longrightarrow> f \<noteq> 0"
  shows "v \<noteq> 0"
proof -
  obtain f where f: "tokens CHR '':'' (lowered t) \<noteq> []" "flag_loop names most 0 0 (tokens CHR '':'' (lowered t)) = Inr f"
      "v = uint f"
    using assms(1) by (auto simp: parse_flags_def Let_def split: if_splits sum.splits)
  then obtain g tks where g: "g \<noteq> 0" "flag_loop names most 1 g tks = Inr f"
    using assms(2) by (cases "tokens CHR '':'' (lowered t)") (auto split: option.splits if_splits)
  from g(1) obtain n where "bit g n"
    by (auto simp: bit_eq_iff)
  then have "bit f n"
    using flag_loop_mono [OF g(2)] by blast
  then show ?thesis
    using unsigned_eq_0_iff [of f, where 'a = int] by (auto simp: f(3))
qed

text \<open>A setting: its value is not the one that stands for "not read yet".\<close>

definition is_setting :: "string \<Rightarrow> int_setting \<Rightarrow> bool" where
  "is_setting var f \<longleftrightarrow> (\<exists>parse dflt. f = read_int var (sentinel var) parse dflt \<and> dflt \<noteq> sentinel var
     \<and> (\<forall>t v. parse t = Inr v \<longrightarrow> v \<noteq> sentinel var))"

lemma read_int_setting:
  assumes "none = sentinel var" and "dflt \<noteq> sentinel var" and "\<And>t v. parse t = Inr v \<Longrightarrow> v \<noteq> sentinel var"
  shows "is_setting var (read_int var none parse dflt)"
  using assms unfolding is_setting_def by blast

lemma parse_bool_cases: "parse_bool t = 0 \<or> parse_bool t = 1"
  by (simp add: parse_bool_def)

lemma checked_eq: "checked P t = Inr v \<longleftrightarrow> v = atoi t \<and> P v"
  by (auto simp: checked_def Let_def)

lemmas setting_defs = vt_env_gdir_check_def vt_env_ldir_check_def vt_env_pthread_reuse_def vt_env_do_unify_def
  vt_env_do_clean_def vt_env_memtrace_def vt_env_memtrace_marker_def vt_env_cpuidtrace_def vt_env_iotrace_def
  vt_env_libctrace_def vt_env_omptrace_def vt_env_mpitrace_def vt_env_mpicheck_def vt_env_mpicheck_errexit_def
  vt_env_sync_flush_def vt_env_compression_def vt_env_java_native_def vt_env_java_synthetic_def
  vt_env_java_group_classes_def vt_env_etimesync_def vt_env_cudarttrace_def vt_env_cudatrace_idle_def
  vt_env_cudatrace_kernel_def vt_env_cudatrace_memcpyasync_def vt_env_stat_intv_def vt_env_max_mpi_comms_def
  vt_env_max_mpi_wins_def vt_env_rusage_intv_def vt_env_sync_flush_level_def vt_env_max_stack_depth_def
  vt_env_max_flushes_def vt_env_etimesync_intv_def vt_env_verbose_def vt_env_debug_def vt_env_funique_def
  vt_env_mode_def vt_env_stat_props_def vt_env_stat_msg_dtls_def vt_env_stat_collop_dtls_def

lemmas flag_defs = VT_SUM_PROP_FUNC_def VT_SUM_PROP_MSG_def VT_SUM_PROP_COLLOP_def VT_SUM_MSG_DTL_PEER_def
  VT_SUM_MSG_DTL_COMM_def VT_SUM_MSG_DTL_TAG_def VT_SUM_COLLOP_DTL_OP_def VT_SUM_COLLOP_DTL_COMM_def

lemma flags_setting:
  "is_setting ''VT_MODE'' vt_env_mode" "is_setting ''VT_STAT_PROPS'' vt_env_stat_props"
  "is_setting ''VT_STAT_MSG_DTLS'' vt_env_stat_msg_dtls" "is_setting ''VT_STAT_COLLOP_DTLS'' vt_env_stat_collop_dtls"
  unfolding setting_defs
  by (rule read_int_setting; auto simp: sentinel_def flag_defs split: if_splits dest!: parse_flags_pos)+

lemma numbers_setting:
  "is_setting ''VT_STAT_INTV'' vt_env_stat_intv" "is_setting ''VT_MAX_MPI_COMMS'' vt_env_max_mpi_comms"
  "is_setting ''VT_MAX_MPI_WINS'' vt_env_max_mpi_wins" "is_setting ''VT_RUSAGE_INTV'' vt_env_rusage_intv"
  "is_setting ''VT_SYNC_FLUSH_LEVEL'' vt_env_sync_flush_level" "is_setting ''VT_MAX_STACK_DEPTH'' vt_env_max_stack_depth"
  "is_setting ''VT_MAX_FLUSHES'' vt_env_max_flushes" "is_setting ''VT_ETIMESYNC_INTV'' vt_env_etimesync_intv"
  "is_setting ''VT_VERBOSE'' vt_env_verbose" "is_setting ''VT_DEBUG'' vt_env_debug"
  "is_setting ''VT_FILE_UNIQUE'' vt_env_funique"
  unfolding setting_defs
  by (rule read_int_setting; simp add: sentinel_def checked_eq not_negative_def split: if_splits)+

lemma switches_setting:
  assumes "0 \<le> dflt" and "sentinel var = - 1"
  shows "is_setting var (read_int var (- 1) (\<lambda>t. Inr (parse_bool t)) dflt)"
  using assms by (intro read_int_setting) (auto simp: parse_bool_def split: if_splits)

lemma int_settings_ok: "\<forall>(var, f) \<in> set int_settings. is_setting var f"
  unfolding int_settings_def
  by (simp add: flags_setting numbers_setting) (simp add: setting_defs switches_setting sentinel_def)

lemma int_settings_distinct: "distinct (map fst int_settings)"
  by (simp add: int_settings_def)

lemma read_keeps:
  assumes "is_setting var f" and "f ge s = Inr (v, s')"
  shows "ints s' var = v \<and> v \<noteq> sentinel var \<and> (\<forall>w. w \<noteq> var \<longrightarrow> ints s' w = ints s w)"
proof -
  obtain parse dflt where f: "f = read_int var (sentinel var) parse dflt" "dflt \<noteq> sentinel var"
      "\<And>t v. parse t = Inr v \<Longrightarrow> v \<noteq> sentinel var"
    using assms(1) by (auto simp: is_setting_def)
  show ?thesis
  proof (cases "ints s var = sentinel var")
    case True
    then have "(case given ge var of Some t \<Rightarrow> parse t | None \<Rightarrow> Inr dflt) = Inr v" "s' = s\<lparr>ints := (ints s)(var := v)\<rparr>"
      using assms(2) by (auto simp: f(1) read_int_def split: sum.splits)
    then show ?thesis
      using f(2,3) by (auto split: option.splits)
  next
    case False
    then show ?thesis
      using assms(2) by (auto simp: f(1) read_int_def)
  qed
qed

lemma read_again:
  assumes "is_setting var f" and "ints s var = v" and "v \<noteq> sentinel var"
  shows "f ge s = Inr (v, s)"
  using assms by (auto simp: is_setting_def read_int_def)

text \<open>
  The two settings whose value may be -1, which also stands for "not read yet", beside the others; and
  the functions for sizes and strings.
\<close>

definition number_settings :: "(string \<times> int_setting) list" where
  "number_settings = int_settings @ [(''VT_MAX_THREADS'', vt_env_max_threads), (''VT_CUDATRACE_SYNC'', vt_env_cudatrace_sync)]"

definition size_settings :: "size_setting list" where
  "size_settings = [vt_env_bsize, vt_env_copy_bsize, vt_env_cudatrace_bsize]"

definition str_settings :: "str_setting list" where
  "str_settings =
    [vt_env_apppath, vt_env_dyn_blacklist, vt_env_dyn_shlibs, vt_env_gnu_nm, vt_env_gnu_nmfile, vt_env_java_filter_spec,
     vt_env_filter_spec, vt_env_groups_spec, vt_env_gdir, vt_env_ldir, vt_env_iolibpathname, vt_env_rusage,
     vt_env_metrics, vt_env_metrics_sep, vt_env_fprefix]"

text \<open>Reading settings one after the other, each in the environment that there is then.\<close>

datatype reading = Read_number int_setting | Read_size size_setting | Read_str str_setting

primrec setting_of :: "reading \<Rightarrow> bool" where
  "setting_of (Read_number f) \<longleftrightarrow> f \<in> snd ` set number_settings"
| "setting_of (Read_size f) \<longleftrightarrow> f \<in> set size_settings"
| "setting_of (Read_str f) \<longleftrightarrow> f \<in> set str_settings"

primrec read_one :: "pform \<Rightarrow> getenv \<Rightarrow> reading \<Rightarrow> statics \<Rightarrow> env_error + statics" where
  "read_one p ge (Read_number f) s = (case f ge s of Inl e \<Rightarrow> Inl e | Inr (v, s) \<Rightarrow> Inr s)"
| "read_one p ge (Read_size f) s = (case f ge s of Inl e \<Rightarrow> Inl e | Inr (v, s) \<Rightarrow> Inr s)"
| "read_one p ge (Read_str f) s = Inr (snd (f p ge s))"

fun read_all :: "pform \<Rightarrow> (getenv \<times> reading) list \<Rightarrow> statics \<Rightarrow> env_error + statics" where
  "read_all p [] s = Inr s"
| "read_all p ((ge, r) # rs) s = (case read_one p ge r s of Inl e \<Rightarrow> Inl e | Inr s \<Rightarrow> read_all p rs s)"

definition reads_int :: "string \<Rightarrow> int_setting \<Rightarrow> bool" where
  "reads_int var f \<longleftrightarrow> (\<exists>parse dflt. f = read_int var (sentinel var) parse dflt)"

lemma number_settings_read: "\<forall>(var, f) \<in> set number_settings. reads_int var f"
proof -
  have "\<forall>(var, f) \<in> set int_settings. reads_int var f"
    using int_settings_ok unfolding is_setting_def reads_int_def by fast
  moreover have "reads_int ''VT_MAX_THREADS'' vt_env_max_threads" "reads_int ''VT_CUDATRACE_SYNC'' vt_env_cudatrace_sync"
    unfolding reads_int_def vt_env_max_threads_def vt_env_cudatrace_sync_def by (auto simp: sentinel_def)
  ultimately show ?thesis
    by (simp add: number_settings_def)
qed

text \<open>A number that was read stays, whatever function is called.\<close>

lemma read_number_keeps:
  assumes "reads_int w f" and "f ge s = Inr (v, s')" and "ints s var \<noteq> sentinel var"
  shows "ints s' var = ints s var"
  using assms by (auto simp: reads_int_def read_int_def split: if_splits sum.splits)

lemma read_size_keeps:
  assumes "f \<in> set size_settings" and "f ge s = Inr (v, s')"
  shows "ints s' = ints s"
proof -
  have "read_size w parse dflt ge s = Inr (v, s') \<Longrightarrow> ints s' = ints s" for w parse dflt
    by (auto simp: read_size_def split: if_splits sum.splits)
  then show ?thesis
    using assms by (auto simp: size_settings_def vt_env_bsize_def vt_env_copy_bsize_def vt_env_cudatrace_bsize_def)
qed

lemma read_once_keeps [simp]:
  "ints (snd (read_once w dflt ge s)) = ints s" "ints (snd (read_while_null w dflt ge s)) = ints s"
  by (simp_all add: read_once_def read_while_null_def Let_def)

lemma fprefix_keeps: "ints (snd (vt_env_fprefix p ge s)) = ints s"
proof -
  obtain v t where app: "vt_env_apppath p ge s = (v, t)" "ints t = ints s"
    using read_once_keeps(1) [of "''VT_APPPATH''" "pform_exec p" ge s] that
    by (cases "vt_env_apppath p ge s") (simp add: vt_env_apppath_def del: read_once_keeps)
  then show ?thesis
    by (auto simp: vt_env_fprefix_def Let_def split: option.split prod.split)
qed

lemma read_str_keeps: "f \<in> set str_settings \<Longrightarrow> ints (snd (f p ge s)) = ints s"
  unfolding str_settings_def
  by (simp, elim disjE) (simp_all add: fprefix_keeps vt_env_apppath_def vt_env_dyn_blacklist_def vt_env_dyn_shlibs_def
      vt_env_gnu_nm_def vt_env_gnu_nmfile_def vt_env_java_filter_spec_def vt_env_filter_spec_def vt_env_groups_spec_def
      vt_env_gdir_def vt_env_ldir_def vt_env_iolibpathname_def vt_env_rusage_def vt_env_metrics_def
      vt_env_metrics_sep_def Let_def)

lemma read_one_keeps:
  assumes "setting_of r" and "read_one p ge r s = Inr s'" and "ints s var \<noteq> sentinel var"
  shows "ints s' var = ints s var"
proof (cases r)
  case (Read_number f)
  then obtain w v where "reads_int w f" "f ge s = Inr (v, s')"
    using assms(1,2) number_settings_read by (auto split: sum.splits)
  then show ?thesis
    using read_number_keeps assms(3) by blast
next
  case (Read_size f)
  then show ?thesis
    using assms(1,2) read_size_keeps [of f ge s] by (auto split: sum.splits)
next
  case (Read_str f)
  then show ?thesis
    using assms(1,2) read_str_keeps [of f p ge s] by auto
qed

lemma read_all_keeps:
  "read_all p rs s = Inr s' \<Longrightarrow> \<forall>(ge, r) \<in> set rs. setting_of r \<Longrightarrow> ints s var \<noteq> sentinel var \<Longrightarrow>
   ints s' var = ints s var"
proof (induction rs arbitrary: s)
  case (Cons x rs)
  obtain ge r where x: "x = (ge, r)"
    by fastforce
  obtain s1 where s1: "read_one p ge r s = Inr s1" "read_all p rs s1 = Inr s'"
    using Cons.prems(1) by (auto simp: x split: sum.splits)
  have "ints s1 var = ints s var"
    using read_one_keeps [OF _ s1(1) Cons.prems(3)] Cons.prems(2) by (simp add: x)
  then show ?case
    using Cons.IH [OF s1(2)] Cons.prems(2,3) by simp
qed simp

text \<open>
  C30: A numeric setting does not change while the program runs. Once a call of one of the functions for
  the numeric settings has returned a value, every later call returns the same value and leaves the
  static variables as they are, whatever functions for numbers, sizes and strings are called in
  between and whatever the program has made of its environment meanwhile. The one exception are
  \<open>VT_MAX_THREADS\<close> and \<open>VT_CUDATRACE_SYNC\<close> with the value -1, which also stands for "not read yet".
  Settings that are strings are not meant: asking for the file prefix can change the path of the
  application.
\<close>

theorem setting_read_once:
  assumes "(var, f) \<in> set number_settings" and "f ge s = Inr (v, s1)"
    and "var \<in> {''VT_MAX_THREADS'', ''VT_CUDATRACE_SYNC''} \<longrightarrow> v \<noteq> - 1"
    and "\<forall>(ge, r) \<in> set rs. setting_of r" and "read_all p rs s1 = Inr s2"
  shows "f ge' s2 = Inr (v, s2)"
proof -
  obtain parse dflt where f: "f = read_int var (sentinel var) parse dflt"
    using assms(1) number_settings_read by (auto simp: reads_int_def)
  have v: "ints s1 var = v"
    using assms(2) by (auto simp: f read_int_def split: if_splits sum.splits)
  have "v \<noteq> sentinel var"
  proof (cases "(var, f) \<in> set int_settings")
    case True
    then have "is_setting var f"
      using int_settings_ok by auto
    then show ?thesis
      using read_keeps [of var f ge s v s1] assms(2) by blast
  next
    case False
    then show ?thesis
      using assms(1,3) by (auto simp: number_settings_def sentinel_def)
  qed
  then show ?thesis
    using read_all_keeps [OF assms(5,4)] v by (simp add: f read_int_def)
qed

definition demo_pform :: pform where
  "demo_pform = \<lparr>pform_exec = Some ''a.out'', pform_gdir = ''.'', pform_ldir = ''/tmp'', default_nm = Some ''nm'',
     metrics_spec_in_cwd = False, installdir_data = ''/usr/share''\<rparr>"

theorem setting_read_once_witness:
  "\<exists>s1 s2. vt_env_max_flushes [''VT_MAX_FLUSHES'' \<mapsto> ''7''] statics_init = Inr (7, s1)
    \<and> read_all demo_pform [(\<lambda>_. None, Read_number vt_env_do_unify), (\<lambda>_. None, Read_str vt_env_gnu_nm)] s1 = Inr s2
    \<and> vt_env_max_flushes [''VT_MAX_FLUSHES'' \<mapsto> ''9''] s2 = Inr (7, s2)"
proof -
  have "atoi ''7'' = 7"
    by (simp add: atoi_def strtol_def is_space_def is_digit_def digits_value_def digit_value_def Let_def)
  then have s1: "vt_env_max_flushes [''VT_MAX_FLUSHES'' \<mapsto> ''7''] statics_init
      = Inr (7, statics_init\<lparr>ints := sentinel(''VT_MAX_FLUSHES'' := 7)\<rparr>)"
    by (simp add: vt_env_max_flushes_def read_int_def given_def checked_def statics_init_def sentinel_def)
  let ?rs = "[(\<lambda>_. None, Read_number vt_env_do_unify), (\<lambda>_. None, Read_str vt_env_gnu_nm)]"
  obtain s2 where s2: "read_all demo_pform ?rs (statics_init\<lparr>ints := sentinel(''VT_MAX_FLUSHES'' := 7)\<rparr>) = Inr s2"
    by (simp add: vt_env_do_unify_def read_int_def given_def statics_init_def sentinel_def)
  have rs: "\<forall>(ge, r) \<in> set ?rs. setting_of r"
    by (simp add: number_settings_def int_settings_def str_settings_def)
  have var: "(''VT_MAX_FLUSHES'', vt_env_max_flushes) \<in> set number_settings"
    by (simp add: number_settings_def int_settings_def)
  have "''VT_MAX_FLUSHES'' \<in> {''VT_MAX_THREADS'', ''VT_CUDATRACE_SYNC''} \<longrightarrow> (7 :: int) \<noteq> - 1"
    by simp
  from setting_read_once [OF var s1 this rs s2] show ?thesis
    using s1 s2 by blast
qed

section \<open>Sizes\<close>

text \<open>The factors of the suffixes of a size.\<close>

definition size_factor :: "string \<Rightarrow> nat option" where
  "size_factor sfx =
     (if sfx = [] then Some 1
      else if sfx \<in> {''K'', ''k''} then Some 1024
      else if sfx \<in> {''M'', ''m''} then Some 1048576
      else if sfx \<in> {''G'', ''g''} then Some 1073741824
      else None)"

lemma suffix_no_digit: "\<forall>c \<in> {CHR ''K'', CHR ''k'', CHR ''M'', CHR ''m'', CHR ''G'', CHR ''g''}. \<not> is_digit c"
  by (simp add: is_digit_def)

lemma size_factor_cases:
  assumes "size_factor sfx = Some m"
  shows "(sfx = [] \<and> m = 1) \<or> (\<exists>c. sfx = [c] \<and> \<not> is_digit c \<and>
     (c \<in> {CHR ''K'', CHR ''k''} \<and> m = 1024 \<or> c \<in> {CHR ''M'', CHR ''m''} \<and> m = 1048576
      \<or> c \<in> {CHR ''G'', CHR ''g''} \<and> m = 1073741824))"
proof -
  consider "sfx = []" "m = 1" | "sfx \<in> {''K'', ''k''}" "m = 1024" | "sfx \<in> {''M'', ''m''}" "m = 1048576"
    | "sfx \<in> {''G'', ''g''}" "m = 1073741824"
    using assms unfolding size_factor_def by (metis option.distinct(1) option.inject)
  then show ?thesis
    using suffix_no_digit by cases auto
qed

lemma parse_size_dec:
  assumes "size_factor sfx = Some m" and "int n \<le> LONG_MAX"
  shows "parse_size (dec n @ sfx) = of_nat (n * m)"
proof -
  have last: "is_digit (last (dec n))"
    using dec_digits [of "last (dec n)" n] by simp
  have val: "fst (strtol (dec n @ sfx)) = int n"
    using strtol_dec [OF assms(2), of sfx] size_factor_cases [OF assms(1)] by auto
  have "word_of_int (int n * int m) = (of_nat (n * m) :: u64)"
    by (simp flip: of_nat_mult)
  then show ?thesis
    using size_factor_cases [OF assms(1)] val last
    by (auto simp: parse_size_def)
qed

text \<open>
  C31: The buffer size is what the user writes: a decimal number with the suffix K, M or G of
  either case, or none, is read as that multiple, as long as it is below \<open>2 ^ 63\<close>; 0 is refused, and less than 100 kB is raised to 100 kB.
\<close>

theorem buffer_size_read:
  assumes "size_factor sfx = Some m" and "n * m < 2 ^ 63" and "ge ''VT_BUFFER_SIZE'' = Some (dec n @ sfx)"
    and "sizes s ''VT_BUFFER_SIZE'' = 0"
  shows "vt_env_bsize ge s =
    (if n = 0 then Inl NotSet
     else Inr (of_nat (max (n * m) 102400), s\<lparr>sizes := (sizes s)(''VT_BUFFER_SIZE'' := of_nat (max (n * m) 102400))\<rparr>))"
proof -
  have m: "0 < m"
    using size_factor_cases [OF assms(1)] by auto
  then have "n \<le> n * m"
    by simp
  then have "n < 2 ^ 63"
    using assms(2) by (rule le_less_trans)
  then have "int n \<le> LONG_MAX"
    by simp
  note size = parse_size_dec [OF assms(1) this]
  have u: "unat (of_nat (n * m) :: u64) = n * m"
    using assms(2) by (simp add: unat_of_nat take_bit_eq_mod del: of_nat_mult)
  have "of_nat (n * m) = (0 :: u64) \<longleftrightarrow> n = 0"
    using u m by (metis mult_is_0 neq0_conv of_nat_0 unsigned_0)
  moreover have "of_nat (n * m) < (0x19000 :: u64) \<longleftrightarrow> n * m < 102400"
    using u by (simp add: word_less_nat_alt del: of_nat_mult)
  ultimately show ?thesis
    using assms(3,4) size by (auto simp: vt_env_bsize_def read_size_def given_def Let_def max_def)
qed

theorem buffer_size_read_witness:
  "vt_env_bsize [''VT_BUFFER_SIZE'' \<mapsto> dec 64 @ ''M''] statics_init
    = Inr (0x4000000, statics_init\<lparr>sizes := (\<lambda>_. 0)(''VT_BUFFER_SIZE'' := 0x4000000)\<rparr>)"
  using buffer_size_read [of "''M''" 1048576 64 "[''VT_BUFFER_SIZE'' \<mapsto> dec 64 @ ''M'']" statics_init]
  by (simp add: size_factor_def statics_init_def)

section \<open>The prefix of the files\<close>

text \<open>
  Asking for the file prefix can spoil the path of the application. Where \<open>VT_FILE_PREFIX\<close>
  is not set and \<open>VT_APPPATH\<close> is a name without a directory and ends in ".out" or ".exe", the
  suffix is cut off in the string that \<open>vt_env_apppath\<close> keeps: from then on it returns the name
  without the suffix, which need not be the name of any file.
\<close>

lemma prefix_cuts_application_path:
  assumes "given ge ''VT_FILE_PREFIX'' = None" and "given ge ''VT_APPPATH'' = Some (name @ sfx)"
    and "sfx \<in> {''.out'', ''.exe''}" and "CHR ''/'' \<notin> set name" and "CHR ''$'' \<notin> set name"
    and "strs s ''VT_FILE_PREFIX'' = None" and "unread s ''VT_APPPATH''"
  shows "\<exists>s'. fst (vt_env_apppath p ge s) = Some (name @ sfx)
    \<and> vt_env_fprefix p ge s = (Some name, s') \<and> vt_env_apppath p ge s' = (Some name, s')"
proof -
  have "CHR ''$'' \<notin> set (name @ sfx)" "CHR ''/'' \<notin> set (name @ sfx)"
    using assms(3-5) by auto
  then have vars: "replace_vars ge (name @ sfx) = name @ sfx" and dir: "strip_dir (name @ sfx) = (name @ sfx, False)"
    by (simp_all add: replace_vars_def strchr_None [THEN iffD2] strip_dir_def)
  have cut: "has_suffix (name @ sfx)" "take (length (name @ sfx) - 4) (name @ sfx) = name" "name @ sfx \<noteq> []"
    using assms(3) by (auto simp: has_suffix_def)
  show ?thesis
    using assms(1,2,6,7) vars dir cut
    by (simp add: vt_env_fprefix_def vt_env_apppath_def read_once_def Let_def)
qed

text \<open>The name of the metrics file in the current directory loses its last character.\<close>

lemma metrics_spec_cut:
  "given ge ''VT_METRICS_SPEC'' = None \<Longrightarrow> metrics_spec_in_cwd p \<Longrightarrow> vt_env_metrics_spec p ge = ''./METRICS.SPE''"
  by (simp add: vt_env_metrics_spec_def)

end
