(* ===== verification/MpiReq.thy ===== *)
theory MpiReq
  imports Tables
begin

unbundle bit_operations_syntax

text \<open>
  \<open>vtlib/vt_mpireq.c\<close>: the outstanding MPI requests. They are kept in a doubly linked list of
  blocks of ten, densely filled up to \<open>lastreq\<close>; a request is deleted by copying the last one
  into its place.

  The blocks are a list in the order of the list from \<open>head_block\<close>, \<open>last_block\<close> is the number
  of a block, and a pointer to a request is the pair of block and index. Freshly allocated
  blocks hold the arbitrary request \<open>junk\<close>. MPI handles are numbers, the null request is 0.
  The MPI functions are parameters: \<open>type_size\<close> for \<open>PMPI_Type_size\<close>, \<open>get_count\<close> for
  \<open>PMPI_Get_count\<close>. \<open>vt_error_msg\<close> ends the program: the result \<open>None\<close>.
\<close>

section \<open>Data\<close>

type_synonym handle = nat

definition ERF_NONE :: u32 where "ERF_NONE = 0x00"
definition ERF_SEND :: u32 where "ERF_SEND = 0x01"
definition ERF_RECV :: u32 where "ERF_RECV = 0x02"
definition ERF_IO :: u32 where "ERF_IO = 0x04"
definition ERF_IS_PERSISTENT :: u32 where "ERF_IS_PERSISTENT = 0x10"
definition ERF_DEALLOCATE :: u32 where "ERF_DEALLOCATE = 0x20"
definition ERF_IS_ACTIVE :: u32 where "ERF_IS_ACTIVE = 0x40"

lemmas erf_defs = ERF_NONE_def ERF_SEND_def ERF_RECV_def ERF_IO_def ERF_IS_PERSISTENT_def
  ERF_DEALLOCATE_def ERF_IS_ACTIVE_def

record VTRequest =
  rq_request :: handle
  rq_flags :: u32
  rq_tag :: int
  rq_dest :: int
  rq_bytes :: int
  rq_datatype :: handle
  rq_comm :: handle
  rq_matchingid :: u64
  rq_handleid :: u64
  rq_fileid :: u32
  rq_fileop :: u32

abbreviation VT_REQBLK_SIZE :: nat where
  "VT_REQBLK_SIZE \<equiv> 10"

type_synonym reqptr = "nat \<times> nat"

record req_state =
  blocks :: "VTRequest list list"
  last_block :: "nat option"
  lastreq :: "reqptr option"
  lastidx :: int

definition req_start :: req_state where
  "req_start = \<lparr>blocks = [], last_block = None, lastreq = None, lastidx = int VT_REQBLK_SIZE\<rparr>"

text \<open>Dereferencing a pointer, and writing through it.\<close>

definition req_at :: "req_state \<Rightarrow> reqptr \<Rightarrow> VTRequest" where
  "req_at s p = blocks s ! fst p ! snd p"

definition req_write :: "reqptr \<Rightarrow> VTRequest \<Rightarrow> req_state \<Rightarrow> req_state" where
  "req_write p r s = s\<lparr>blocks := (blocks s)[fst p := (blocks s ! fst p)[snd p := r]]\<rparr>"

definition vt_request_finalize :: "req_state \<Rightarrow> req_state" where
  "vt_request_finalize s = s\<lparr>blocks := []\<rparr>"

section \<open>Creating a request\<close>

text \<open>The code that both functions start with: \<open>lastreq\<close> moves to the next free slot.\<close>

definition next_slot :: "VTRequest \<Rightarrow> req_state \<Rightarrow> req_state" where
  "next_slot junk s =
     (let s = s\<lparr>lastidx := lastidx s + 1\<rparr>
      in if lastidx s \<ge> int VT_REQBLK_SIZE then
           (let new = replicate VT_REQBLK_SIZE junk;
                s = (if blocks s = [] then s\<lparr>blocks := [new], last_block := Some 0\<rparr>
                     else (case last_block s of
                       None \<Rightarrow> s\<lparr>last_block := Some 0\<rparr>
                     | Some b \<Rightarrow>
                         (let s = (if Suc b = length (blocks s) then s\<lparr>blocks := blocks s @ [new]\<rparr> else s)
                          in s\<lparr>last_block := Some (Suc b)\<rparr>)))
            in s\<lparr>lastreq := Some (the (last_block s), 0), lastidx := 0\<rparr>)
         else s\<lparr>lastreq := map_option (\<lambda>(b, i). (b, Suc i)) (lastreq s)\<rparr>)"

definition vt_request_create ::
  "VTRequest \<Rightarrow> handle \<Rightarrow> u32 \<Rightarrow> int \<Rightarrow> int \<Rightarrow> int \<Rightarrow> handle \<Rightarrow> handle \<Rightarrow> req_state \<Rightarrow> req_state" where
  "vt_request_create junk request flags tag dest bytes datatype comm s =
     (let s = next_slot junk s; p = the (lastreq s)
      in req_write p ((req_at s p)\<lparr>rq_request := request, rq_flags := ERF_NONE OR flags, rq_tag := tag,
           rq_dest := dest, rq_bytes := bytes, rq_datatype := datatype, rq_comm := comm\<rparr>) s)"

definition vt_iorequest_create ::
  "VTRequest \<Rightarrow> handle \<Rightarrow> handle \<Rightarrow> u64 \<Rightarrow> u64 \<Rightarrow> u32 \<Rightarrow> u32 \<Rightarrow> req_state \<Rightarrow> req_state" where
  "vt_iorequest_create junk request datatype matchingid handleid fileid fileop s =
     (let s = next_slot junk s; p = the (lastreq s)
      in req_write p ((req_at s p)\<lparr>rq_request := request, rq_datatype := datatype, rq_flags := ERF_IO,
           rq_matchingid := matchingid, rq_handleid := handleid, rq_fileid := fileid,
           rq_fileop := fileop\<rparr>) s)"

section \<open>Finding a request\<close>

datatype search = Found nat | EndOfList | NextBlock

text \<open>The loop over one block, from the index \<open>i\<close>; \<open>end\<close> is where \<open>lastreq\<close> points, if into it.\<close>

fun search_block :: "VTRequest list \<Rightarrow> nat \<Rightarrow> handle \<Rightarrow> nat option \<Rightarrow> search" where
  "search_block [] i request lst = NextBlock"
| "search_block (q # qs) i request lst =
     (if rq_request q = request then Found i
      else if lst = Some i then EndOfList
      else search_block qs (Suc i) request lst)"

fun search_blocks :: "VTRequest list list \<Rightarrow> nat \<Rightarrow> handle \<Rightarrow> reqptr \<Rightarrow> reqptr option" where
  "search_blocks [] b request lst = None"
| "search_blocks (blk # blks) b request lst =
     (case search_block blk 0 request (if fst lst = b then Some (snd lst) else None) of
        Found i \<Rightarrow> Some (b, i)
      | EndOfList \<Rightarrow> None
      | NextBlock \<Rightarrow> search_blocks blks (Suc b) request lst)"

definition vt_request_get :: "handle \<Rightarrow> req_state \<Rightarrow> reqptr option" where
  "vt_request_get request s =
     (case lastreq s of
        None \<Rightarrow> None
      | Some lst \<Rightarrow> search_blocks (blocks s) 0 request lst)"

section \<open>Deleting a request\<close>

definition vt_request_free :: "reqptr \<Rightarrow> req_state \<Rightarrow> req_state option" where
  "vt_request_free req s =
     (case lastreq s of
        None \<Rightarrow> None
      | Some p \<Rightarrow>
          (let s = req_write req (req_at s p) s;
               s = req_write p ((req_at s p)\<lparr>rq_flags := ERF_NONE, rq_request := 0\<rparr>) s;
               s = s\<lparr>lastidx := lastidx s - 1\<rparr>
           in if lastidx s < 0 then
                (case last_block s of
                   Some (Suc b) \<Rightarrow>
                     Some (s\<lparr>lastidx := int VT_REQBLK_SIZE - 1,
                             lastreq := Some (b, VT_REQBLK_SIZE - 1), last_block := Some b\<rparr>)
                 | _ \<Rightarrow> Some (s\<lparr>lastidx := int VT_REQBLK_SIZE, lastreq := None, last_block := None\<rparr>))
              else Some (s\<lparr>lastreq := Some (fst p, snd p - 1)\<rparr>)))"

section \<open>Completion\<close>

record MPI_Status =
  MPI_SOURCE :: int
  MPI_TAG :: int

text \<open>The trace records that a completed request causes: \<open>vt_mpi_recv\<close> and \<open>vt_ioend\<close>.\<close>

datatype req_event =
    MpiRecv int handle int u32
  | IoEnd u32 u64 u64 u32 u64

text \<open>What the code uses of the MPI library.\<close>

record mpi_lib =
  type_size :: "handle \<Rightarrow> int"
  get_count :: "MPI_Status \<Rightarrow> handle \<Rightarrow> int"
  MPI_PROC_NULL :: int
  MPI_ANY_SOURCE :: int
  MPI_UNDEFINED :: int

text \<open>
  A receive record names the source rank and the communicator, which \<open>VT_RANK_TO_PE\<close> and
  \<open>VT_COMM_ID\<close> translate. The result is the records written, in order, and the state.
\<close>

definition vt_check_request ::
  "mpi_lib \<Rightarrow> reqptr option \<Rightarrow> MPI_Status \<Rightarrow> bool \<Rightarrow> req_state \<Rightarrow> (req_event list \<times> req_state) option" where
  "vt_check_request mpi req status record_event s =
     (case req of
        None \<Rightarrow> Some ([], s)
      | Some p \<Rightarrow>
          (let r = req_at s p
           in if rq_flags r AND ERF_IS_PERSISTENT \<noteq> 0 \<and> rq_flags r AND ERF_IS_ACTIVE = 0 then Some ([], s)
              else
                (let recv = (if record_event \<and> rq_flags r AND ERF_RECV \<noteq> 0
                                \<and> MPI_SOURCE status \<noteq> MPI_PROC_NULL mpi
                                \<and> MPI_SOURCE status \<noteq> MPI_ANY_SOURCE mpi
                             then [MpiRecv (MPI_SOURCE status) (rq_comm r) (MPI_TAG status)
                                    (word_of_int (get_count mpi status (rq_datatype r)
                                                  * type_size mpi (rq_datatype r)))]
                             else []);
                     io = (if record_event \<and> rq_flags r AND ERF_IO \<noteq> 0
                           then (let sz = type_size mpi (rq_datatype r);
                                     count = get_count mpi status (rq_datatype r);
                                     count = (if count = MPI_UNDEFINED mpi then 0 else count)
                                 in [IoEnd (rq_fileid r) (rq_matchingid r) (rq_handleid r) (rq_fileop r)
                                      (word_of_int count * word_of_int sz)])
                           else []);
                     s' = (if rq_flags r AND ERF_IS_PERSISTENT \<noteq> 0 then
                             (let s = req_write p (r\<lparr>rq_flags := rq_flags r AND NOT ERF_IS_ACTIVE\<rparr>) s
                              in if rq_flags r AND NOT ERF_IS_ACTIVE AND ERF_DEALLOCATE \<noteq> 0
                                 then vt_request_free p s else Some s)
                           else vt_request_free p s)
                 in map_option (Pair (recv @ io)) s')))"

section \<open>Saved request arrays\<close>

text \<open>The array \<open>orig_req_arr\<close> with its size; fresh memory holds the arbitrary handle \<open>junk\<close>.\<close>

definition vt_save_request_array :: "handle \<Rightarrow> handle list \<Rightarrow> handle list \<Rightarrow> handle list" where
  "vt_save_request_array junk arr orig =
     (let n = length arr;
          orig = (if length orig = 0 then replicate n junk
                  else if n > length orig then orig @ replicate (n - length orig) junk
                  else orig)
      in fold (\<lambda>i a. a[i := arr ! i]) [0..<n] orig)"

definition vt_saved_request_get :: "handle list \<Rightarrow> nat \<Rightarrow> req_state \<Rightarrow> reqptr option" where
  "vt_saved_request_get orig i s = vt_request_get (orig ! i) s"

section \<open>The blocks as one sequence\<close>

lemma length_concat_uniform:
  "\<forall>b \<in> set bs. length b = n \<Longrightarrow> length (concat bs) = n * length bs"
  by (induction bs) auto

lemma nth_concat_uniform:
  "\<forall>b \<in> set bs. length b = n \<Longrightarrow> b < length bs \<Longrightarrow> i < n \<Longrightarrow> concat bs ! (n * b + i) = bs ! b ! i"
proof (induction bs arbitrary: b)
  case Nil
  then show ?case by simp
next
  case (Cons x bs)
  then show ?case by (cases b) (auto simp: nth_append)
qed

lemma concat_update_uniform:
  "\<forall>b \<in> set bs. length b = n \<Longrightarrow> b < length bs \<Longrightarrow> i < n \<Longrightarrow>
   concat (bs[b := (bs ! b)[i := x]]) = (concat bs)[n * b + i := x]"
proof (induction bs arbitrary: b)
  case Nil
  then show ?case by simp
next
  case (Cons y bs)
  then show ?case by (cases b) (auto simp: list_update_append)
qed

text \<open>
  All requests up to \<open>lastreq\<close>, in their order: what the linked list of blocks implements. The
  number of a request is the number of slots before it.
\<close>

definition req_num :: "reqptr \<Rightarrow> nat" where
  "req_num p = VT_REQBLK_SIZE * fst p + snd p"

definition req_count :: "req_state \<Rightarrow> nat" where
  "req_count s = (case lastreq s of None \<Rightarrow> 0 | Some p \<Rightarrow> Suc (req_num p))"

definition reqs :: "req_state \<Rightarrow> VTRequest list" where
  "reqs s = take (req_count s) (concat (blocks s))"

definition req_ok :: "req_state \<Rightarrow> bool" where
  "req_ok s \<longleftrightarrow> (\<forall>b \<in> set (blocks s). length b = VT_REQBLK_SIZE)
     \<and> (case lastreq s of
           None \<Rightarrow> last_block s = None \<and> lastidx s = int VT_REQBLK_SIZE
         | Some (b, i) \<Rightarrow> last_block s = Some b \<and> lastidx s = int i \<and> i < VT_REQBLK_SIZE
             \<and> b < length (blocks s))"

text \<open>A pointer to one of the requests.\<close>

definition valid_req :: "req_state \<Rightarrow> reqptr \<Rightarrow> bool" where
  "valid_req s p \<longleftrightarrow> snd p < VT_REQBLK_SIZE \<and> req_num p < req_count s"

lemma req_ok_start: "req_ok req_start" and reqs_start: "reqs req_start = []"
  by (simp_all add: req_ok_def req_start_def reqs_def req_count_def)

lemma length_blocks_concat: "req_ok s \<Longrightarrow> length (concat (blocks s)) = VT_REQBLK_SIZE * length (blocks s)"
  by (simp add: req_ok_def length_concat_uniform)

lemma req_count_le: "req_ok s \<Longrightarrow> req_count s \<le> length (concat (blocks s))"
  unfolding length_blocks_concat
  by (cases "lastreq s") (auto simp: req_ok_def req_count_def req_num_def)

lemma length_reqs [simp]: "req_ok s \<Longrightarrow> length (reqs s) = req_count s"
  using req_count_le [of s] by (simp add: reqs_def)

lemma valid_req_block: "req_ok s \<Longrightarrow> valid_req s p \<Longrightarrow> fst p < length (blocks s)"
  by (cases "lastreq s") (auto simp: req_ok_def valid_req_def req_count_def req_num_def)

lemma req_at_reqs: "req_ok s \<Longrightarrow> valid_req s p \<Longrightarrow> req_at s p = reqs s ! req_num p"
  using nth_concat_uniform [of "blocks s" VT_REQBLK_SIZE "fst p" "snd p"] valid_req_block [of s p]
  by (simp add: req_at_def reqs_def req_num_def valid_req_def req_ok_def)

lemma lastreq_valid: "req_ok s \<Longrightarrow> lastreq s = Some p \<Longrightarrow> valid_req s p"
  by (auto simp: req_ok_def valid_req_def req_count_def)

text \<open>A write changes one request of the sequence.\<close>

lemma req_write_ok:
  assumes "req_ok s" and "fst p < length (blocks s)"
  shows "req_ok (req_write p r s)"
proof -
  have "\<forall>b \<in> set ((blocks s)[fst p := (blocks s ! fst p)[snd p := r]]). length b = VT_REQBLK_SIZE"
    using assms set_update_subset_insert [of "blocks s"] by (fastforce simp: req_ok_def)
  then show ?thesis
    using assms by (cases "lastreq s") (auto simp: req_ok_def req_write_def)
qed

lemma req_write_select [simp]:
  "lastreq (req_write p r s) = lastreq s" "last_block (req_write p r s) = last_block s"
  "lastidx (req_write p r s) = lastidx s" "length (blocks (req_write p r s)) = length (blocks s)"
  "req_count (req_write p r s) = req_count s"
  by (simp_all add: req_write_def req_count_def)

lemma concat_req_write:
  assumes "req_ok s" and "fst p < length (blocks s)" and "snd p < VT_REQBLK_SIZE"
  shows "concat (blocks (req_write p r s)) = (concat (blocks s))[req_num p := r]"
  using concat_update_uniform [of "blocks s" VT_REQBLK_SIZE "fst p" "snd p"] assms
  by (simp add: req_ok_def req_write_def req_num_def)

lemma reqs_write:
  assumes "req_ok s" and "valid_req s p"
  shows "reqs (req_write p r s) = (reqs s)[req_num p := r]"
  using concat_req_write [OF assms(1) valid_req_block [OF assms]] assms(2)
  by (simp add: reqs_def valid_req_def take_update_swap)

section \<open>Creation appends\<close>

lemma next_slot_ok:
  assumes "req_ok s"
  shows "\<exists>p. lastreq (next_slot junk s) = Some p \<and> req_num p = req_count s
    \<and> req_ok (next_slot junk s) \<and> take (req_count s) (concat (blocks (next_slot junk s))) = reqs s"
proof (cases "lastreq s")
  case None
  then have "last_block s = None" and "lastidx s = 10"
    using assms by (auto simp: req_ok_def)
  then show ?thesis
    using None assms
    by (auto simp: next_slot_def Let_def req_ok_def req_count_def req_num_def reqs_def)
next
  case (Some p)
  obtain b i where p: "p = (b, i)"
    by (cases p)
  then have ok: "last_block s = Some b" "lastidx s = int i" "i < 10" "b < length (blocks s)"
    using Some assms by (auto simp: req_ok_def)
  have count: "req_count s = Suc (10 * b + i)"
    using Some p by (simp add: req_count_def req_num_def)
  show ?thesis
  proof (cases "i = 9")
    case True
    then show ?thesis
      using Some p ok assms count req_count_le [OF assms]
      by (auto simp: next_slot_def Let_def req_ok_def req_num_def reqs_def)
  next
    case False
    then show ?thesis
      using Some p ok assms count
      by (auto simp: next_slot_def Let_def req_ok_def req_num_def reqs_def)
  qed
qed

lemma store_request:
  assumes "req_ok s" and "t = next_slot junk s" and "p = the (lastreq t)"
  shows "req_ok (req_write p r t)" and "reqs (req_write p r t) = reqs s @ [r]"
    and "lastreq (req_write p r t) = Some p"
proof -
  have t: "lastreq t = Some p" "req_num p = req_count s" "req_ok t"
    "take (req_count s) (concat (blocks t)) = reqs s"
    using next_slot_ok [OF assms(1), of junk] assms(2,3) by auto
  have valid: "valid_req t p"
    using t by (simp add: lastreq_valid)
  show "req_ok (req_write p r t)"
    using t valid by (simp add: req_write_ok valid_req_block)
  have "req_count t = Suc (req_count s)"
    using t by (simp add: req_count_def)
  moreover have "req_count s < length (concat (blocks t))"
    using req_count_le [OF t(3)] calculation by simp
  ultimately have "reqs t = reqs s @ [concat (blocks t) ! req_count s]"
    using t(4) by (simp add: reqs_def take_Suc_conv_app_nth)
  then show "reqs (req_write p r t) = reqs s @ [r]"
    using reqs_write [OF t(3) valid] t(2) assms(1) by (simp add: list_update_append)
  show "lastreq (req_write p r t) = Some p"
    using t by simp
qed

section \<open>Deletion moves the last request\<close>

lemma request_free_ok:
  assumes "req_ok s" and "valid_req s p"
  shows "\<exists>s'. vt_request_free p s = Some s' \<and> req_ok s' \<and> reqs s' = swap_remove (req_num p) (reqs s)"
proof -
  obtain b i where lst: "lastreq s = Some (b, i)"
    using assms(2) by (cases "lastreq s") (auto simp: valid_req_def req_count_def)
  then have ok: "last_block s = Some b" "lastidx s = int i" "i < 10" "b < length (blocks s)"
    using assms(1) by (auto simp: req_ok_def)
  have valid: "valid_req s (b, i)"
    using assms(1) lst by (rule lastreq_valid)
  let ?s1 = "req_write p (req_at s (b, i)) s"
  let ?s2 = "req_write (b, i) ((req_at ?s1 (b, i))\<lparr>rq_flags := ERF_NONE, rq_request := 0\<rparr>) ?s1"
  have count: "req_count s = Suc (10 * b + i)"
    using lst by (simp add: req_count_def req_num_def)
  then have ne: "reqs s \<noteq> []" and len: "length (reqs s) = Suc (10 * b + i)"
    using assms(1) by (auto simp flip: length_0_conv)
  have "req_at s (b, i) = last (reqs s)"
    using req_at_reqs [OF assms(1) valid] ne len by (simp add: last_conv_nth req_num_def)
  then have reqs1: "reqs ?s1 = (reqs s)[req_num p := last (reqs s)]"
    using reqs_write [OF assms] by simp
  have ok1: "req_ok ?s1"
    using assms by (simp add: req_write_ok valid_req_block)
  moreover have "valid_req ?s1 (b, i)"
    using valid by (simp add: valid_req_def)
  ultimately have "reqs ?s2 = (reqs ?s1)[10 * b + i := (req_at ?s1 (b, i))\<lparr>rq_flags := ERF_NONE, rq_request := 0\<rparr>]"
    by (simp add: reqs_write req_num_def)
  then have butl: "take (10 * b + i) (reqs ?s2) = swap_remove (req_num p) (reqs s)"
    using len by (simp add: reqs1 swap_remove_def butlast_conv_take)
  have ok2: "req_ok ?s2"
    by (rule req_write_ok [OF ok1]) (use ok in simp)
  have take: "take n (reqs ?s2) = take n (concat (blocks ?s2))" if "n \<le> 10 * b + i" for n
    using that count by (simp add: reqs_def min_absorb1)
  show ?thesis
  proof (cases "i = 0")
    case False
    let ?s3 = "?s2\<lparr>lastidx := lastidx ?s2 - 1, lastreq := Some (b, i - 1)\<rparr>"
    have "vt_request_free p s = Some ?s3"
      using False lst ok by (simp add: vt_request_free_def Let_def)
    moreover have "req_ok ?s3"
      using ok2 False lst ok by (auto simp: req_ok_def)
    moreover have "reqs ?s3 = take (10 * b + i) (concat (blocks ?s2))"
      using False by (simp add: reqs_def req_count_def req_num_def)
    ultimately show ?thesis
      using butl take [of "10 * b + i"] by auto
  next
    case True
    show ?thesis
    proof (cases b)
      case 0
      let ?s3 = "?s2\<lparr>lastidx := int VT_REQBLK_SIZE, lastreq := None, last_block := None\<rparr>"
      have "vt_request_free p s = Some ?s3"
        using True 0 lst ok by (simp add: vt_request_free_def Let_def)
      moreover have "req_ok ?s3"
        using ok2 by (auto simp: req_ok_def)
      moreover have "reqs ?s3 = []"
        by (simp add: reqs_def req_count_def)
      ultimately show ?thesis
        using butl True 0 by auto
    next
      case (Suc c)
      let ?s3 = "?s2\<lparr>lastidx := int VT_REQBLK_SIZE - 1, lastreq := Some (c, VT_REQBLK_SIZE - 1), last_block := Some c\<rparr>"
      have "vt_request_free p s = Some ?s3"
        using True Suc lst ok by (simp add: vt_request_free_def Let_def)
      moreover have "req_ok ?s3"
        using ok2 Suc ok by (auto simp: req_ok_def)
      moreover have "reqs ?s3 = take (10 * b + i) (concat (blocks ?s2))"
        using True Suc by (simp add: reqs_def req_count_def req_num_def)
      ultimately show ?thesis
        using butl take [of "10 * b + i"] by auto
    qed
  qed
qed

section \<open>The search finds the first request with the handle\<close>

lemma search_block_inner:
  "search_block blk i request None =
     (case find_index (\<lambda>q. rq_request q = request) blk of None \<Rightarrow> NextBlock | Some j \<Rightarrow> Found (i + j))"
  by (induction blk arbitrary: i) (auto split: option.split)

lemma search_block_last:
  "j < length blk \<Longrightarrow> search_block blk i request (Some (i + j)) =
     (case find_index (\<lambda>q. rq_request q = request) (take (Suc j) blk) of None \<Rightarrow> EndOfList | Some k \<Rightarrow> Found (i + k))"
proof (induction blk arbitrary: i j)
  case Nil
  then show ?case by simp
next
  case (Cons q blk)
  show ?case
  proof (cases j)
    case 0
    then show ?thesis by simp
  next
    case (Suc k)
    then have "search_block blk (Suc i) request (Some (Suc i + k)) =
        (case find_index (\<lambda>q. rq_request q = request) (take (Suc k) blk) of None \<Rightarrow> EndOfList | Some l \<Rightarrow> Found (Suc i + l))"
      using Cons.prems by (intro Cons.IH) simp
    then show ?thesis
      using Suc by (auto split: option.split)
  qed
qed

lemma search_blocks_eq:
  "\<forall>blk \<in> set blks. length blk = VT_REQBLK_SIZE \<Longrightarrow> i < VT_REQBLK_SIZE \<Longrightarrow> b < length blks \<Longrightarrow>
   map_option req_num (search_blocks blks c request (c + b, i)) =
     map_option (\<lambda>k. VT_REQBLK_SIZE * c + k)
       (find_index (\<lambda>q. rq_request q = request) (take (Suc (VT_REQBLK_SIZE * b + i)) (concat blks)))"
proof (induction blks arbitrary: b c)
  case Nil
  then show ?case by simp
next
  case (Cons blk blks)
  show ?case
  proof (cases b)
    case 0
    then show ?thesis
      using Cons.prems search_block_last [of i blk 0 request]
      by (auto simp: req_num_def split: option.split)
  next
    case (Suc d)
    have "map_option req_num (search_blocks blks (Suc c) request (Suc c + d, i)) =
      map_option (\<lambda>k. VT_REQBLK_SIZE * Suc c + k)
       (find_index (\<lambda>q. rq_request q = request) (take (Suc (VT_REQBLK_SIZE * d + i)) (concat blks)))"
      using Cons.prems Suc by (intro Cons.IH) auto
    moreover have "take (Suc (10 * b + i)) (blk @ concat blks) = blk @ take (Suc (10 * d + i)) (concat blks)"
      using Cons.prems Suc by simp
    moreover have "length blk = 10"
      using Cons.prems by simp
    ultimately show ?thesis
      using Suc
      by (cases "find_index (\<lambda>q. rq_request q = request) blk")
        (simp_all add: search_block_inner find_index_append req_num_def [of "(c, _)"] option.map_comp comp_def
          algebra_simps)
  qed
qed

lemma request_get_eq:
  assumes "req_ok s"
  shows "map_option req_num (vt_request_get request s) = find_index (\<lambda>q. rq_request q = request) (reqs s)"
proof (cases "lastreq s")
  case None
  then show ?thesis
    by (simp add: vt_request_get_def reqs_def req_count_def)
next
  case (Some p)
  then show ?thesis
    using assms search_blocks_eq [of "blocks s" "snd p" "fst p" 0 request]
    by (cases p) (auto simp: vt_request_get_def reqs_def req_count_def req_num_def req_ok_def option.map_ident)
qed

lemma search_block_bound:
  "search_block blk i request lst = Found j \<Longrightarrow> i \<le> j \<and> j < i + length blk"
  by (induction blk arbitrary: i) (auto split: if_splits, fastforce+)

lemma search_blocks_bound:
  "\<forall>blk \<in> set blks. length blk = VT_REQBLK_SIZE \<Longrightarrow> search_blocks blks c request lst = Some p \<Longrightarrow>
   snd p < VT_REQBLK_SIZE"
  by (induction blks arbitrary: c) (auto split: search.splits dest: search_block_bound)

lemma request_get_valid:
  assumes "req_ok s" and "vt_request_get request s = Some p"
  shows "valid_req s p"
proof -
  have "find_index (\<lambda>q. rq_request q = request) (reqs s) = Some (req_num p)"
    using request_get_eq [OF assms(1), of request] assms(2) by simp
  then have "req_num p < req_count s"
    using assms(1) by (simp add: find_index_Some)
  moreover have "snd p < VT_REQBLK_SIZE"
    using assms search_blocks_bound [of "blocks s"]
    by (auto simp: vt_request_get_def req_ok_def split: option.splits)
  ultimately show ?thesis
    by (simp add: valid_req_def)
qed

section \<open>Completion\<close>

abbreviation persistent :: "VTRequest \<Rightarrow> bool" where
  "persistent r \<equiv> rq_flags r AND ERF_IS_PERSISTENT \<noteq> 0"

abbreviation active :: "VTRequest \<Rightarrow> bool" where
  "active r \<equiv> rq_flags r AND ERF_IS_ACTIVE \<noteq> 0"

abbreviation deallocated :: "VTRequest \<Rightarrow> bool" where
  "deallocated r \<equiv> rq_flags r AND ERF_DEALLOCATE \<noteq> 0"

definition deactivate :: "VTRequest \<Rightarrow> VTRequest" where
  "deactivate r = r\<lparr>rq_flags := rq_flags r AND NOT ERF_IS_ACTIVE\<rparr>"

lemma deactivate_flags:
  "rq_flags r AND NOT ERF_IS_ACTIVE AND ERF_DEALLOCATE = rq_flags r AND ERF_DEALLOCATE"
  by (simp add: erf_defs)

text \<open>The list of requests after the completion of the one with the number \<open>k\<close>.\<close>

definition completed :: "nat \<Rightarrow> VTRequest list \<Rightarrow> VTRequest list" where
  "completed k qs =
     (let r = qs ! k
      in if persistent r \<and> \<not> active r then qs
         else if persistent r \<and> \<not> deallocated r then qs[k := deactivate r]
         else swap_remove k qs)"

text \<open>The records that it writes.\<close>

definition completion_events :: "mpi_lib \<Rightarrow> MPI_Status \<Rightarrow> VTRequest \<Rightarrow> req_event list" where
  "completion_events mpi status r =
     (if persistent r \<and> \<not> active r then []
      else (if rq_flags r AND ERF_RECV \<noteq> 0 \<and> MPI_SOURCE status \<notin> {MPI_PROC_NULL mpi, MPI_ANY_SOURCE mpi}
            then [MpiRecv (MPI_SOURCE status) (rq_comm r) (MPI_TAG status)
                   (word_of_int (get_count mpi status (rq_datatype r) * type_size mpi (rq_datatype r)))]
            else [])
         @ (if rq_flags r AND ERF_IO \<noteq> 0
            then (let n = get_count mpi status (rq_datatype r)
                  in [IoEnd (rq_fileid r) (rq_matchingid r) (rq_handleid r) (rq_fileop r)
                       (if n = MPI_UNDEFINED mpi then 0
                        else word_of_int n * word_of_int (type_size mpi (rq_datatype r)))])
            else []))"

lemma check_request_eq:
  assumes ok: "req_ok s" and valid: "valid_req s p"
  shows "\<exists>s'. vt_check_request mpi (Some p) status rec s =
      Some (if rec then completion_events mpi status (reqs s ! req_num p) else [], s')
    \<and> req_ok s' \<and> reqs s' = completed (req_num p) (reqs s)"
proof -
  let ?k = "req_num p"
  let ?r = "reqs s ! ?k"
  let ?s1 = "req_write p (deactivate ?r) s"
  note at = req_at_reqs [OF ok valid]
  have k: "?k < length (reqs s)"
    using ok valid by (simp add: valid_req_def)
  obtain s2 where s2: "vt_request_free p s = Some s2" "req_ok s2" "reqs s2 = swap_remove ?k (reqs s)"
    using request_free_ok [OF ok valid] by blast
  have ok1: "req_ok ?s1" and valid1: "valid_req ?s1 p"
    using ok valid valid_req_block [OF ok valid] by (simp_all add: req_write_ok valid_req_def)
  obtain s3 where s3: "vt_request_free p ?s1 = Some s3" "req_ok s3" "reqs s3 = swap_remove ?k (reqs s)"
    using request_free_ok [OF ok1 valid1] reqs_write [OF ok valid] swap_remove_update [OF k] by auto
  show ?thesis
  proof (cases "persistent ?r")
    case True
    then show ?thesis
      using at s2 s3 ok ok1 reqs_write [OF ok valid]
      by (cases "active ?r"; cases "deallocated ?r")
        (auto simp: vt_check_request_def completed_def completion_events_def Let_def deactivate_flags
          deactivate_def [symmetric])
  next
    case False
    then show ?thesis
      using at s2 by (auto simp: vt_check_request_def completed_def completion_events_def Let_def)
  qed
qed

section \<open>Properties\<close>

abbreviation no_request :: VTRequest where
  "no_request \<equiv> \<lparr>rq_request = 0, rq_flags = 0, rq_tag = 0, rq_dest = 0, rq_bytes = 0, rq_datatype = 0,
     rq_comm = 0, rq_matchingid = 0, rq_handleid = 0, rq_fileid = 0, rq_fileop = 0\<rparr>"

lemma request_create_eq:
  assumes "req_ok s" and "s' = vt_request_create junk request flags tag dest bytes datatype comm s"
  shows "\<exists>x p. req_ok s' \<and> reqs s' = reqs s @ [x] \<and> lastreq s' = Some p
    \<and> rq_request x = request \<and> rq_flags x = flags \<and> rq_tag x = tag \<and> rq_dest x = dest
    \<and> rq_bytes x = bytes \<and> rq_datatype x = datatype \<and> rq_comm x = comm"
proof -
  let ?t = "next_slot junk s"
  let ?p = "the (lastreq ?t)"
  let ?x = "(req_at ?t ?p)\<lparr>rq_request := request, rq_flags := ERF_NONE OR flags, rq_tag := tag,
    rq_dest := dest, rq_bytes := bytes, rq_datatype := datatype, rq_comm := comm\<rparr>"
  have "s' = req_write ?p ?x ?t"
    using assms(2) by (simp add: vt_request_create_def Let_def)
  then show ?thesis
    using store_request [OF assms(1) refl refl, of junk]
    by (intro exI [of _ ?x] exI [of _ ?p]) (simp add: ERF_NONE_def)
qed

text \<open>
  \<open>vt_request_get\<close> returns a pointer to the first kept request with the handle, and NULL
  exactly when there is none; slots behind the last request are never taken for one.
\<close>

lemma request_get_first:
  assumes "req_ok s"
  shows "(case vt_request_get request s of
      None \<Rightarrow> request \<notin> rq_request ` set (reqs s)
    | Some p \<Rightarrow> valid_req s p \<and> rq_request (req_at s p) = request
        \<and> request \<notin> rq_request ` set (take (req_num p) (reqs s)))"
proof (cases "vt_request_get request s")
  case None
  then show ?thesis
    using request_get_eq [OF assms, of request] find_index_None [of "\<lambda>q. rq_request q = request" "reqs s"]
    by auto
next
  case (Some p)
  then have "find_index (\<lambda>q. rq_request q = request) (reqs s) = Some (req_num p)"
    using request_get_eq [OF assms, of request] by simp
  then have "rq_request (reqs s ! req_num p) = request" and "\<forall>j < req_num p. rq_request (reqs s ! j) \<noteq> request"
    by (simp_all add: find_index_Some)
  moreover have "valid_req s p"
    using assms Some by (rule request_get_valid)
  moreover from calculation have "request \<notin> rq_request ` set (take (req_num p) (reqs s))"
    unfolding in_set_conv_nth image_iff by (metis (no_types, lifting) in_set_conv_nth length_take min_less_iff_conj nth_take)
  ultimately show ?thesis
    using Some req_at_reqs [OF assms, of p] by simp
qed

text \<open>
  The completion of a request writes its receive and its I/O record when events are
  recorded, deletes the request by moving the last one into its place, or only deactivates a
  persistent one that is still needed; an inactive persistent request is left alone. No other
  request is lost or changed, and the internal error is never reached.
\<close>

lemma request_completion:
  assumes "req_ok s" and "valid_req s p"
  shows "\<exists>s'. vt_check_request mpi (Some p) status rec s =
      Some (if rec then completion_events mpi status (reqs s ! req_num p) else [], s')
    \<and> req_ok s' \<and> reqs s' = completed (req_num p) (reqs s)"
  using assms by (rule check_request_eq)

text \<open>
  A receive request whose handle is not in use is found after its creation, and its
  completion writes exactly one receive record, where records are written, and leaves the requests as they were before.
\<close>

lemma receive_done:
  assumes "req_ok s" and "request \<notin> rq_request ` set (reqs s)"
    and "MPI_SOURCE status \<notin> {MPI_PROC_NULL mpi, MPI_ANY_SOURCE mpi}"
    and "s1 = vt_request_create junk request ERF_RECV tag dest bytes datatype comm s"
  shows "\<exists>p s2. vt_request_get request s1 = Some p
    \<and> vt_check_request mpi (Some p) status rec s1 =
        Some (if rec then [MpiRecv (MPI_SOURCE status) comm (MPI_TAG status)
                (word_of_int (get_count mpi status datatype * type_size mpi datatype))] else [], s2)
    \<and> req_ok s2 \<and> reqs s2 = reqs s"
proof -
  obtain x where ok: "req_ok s1" and reqs: "reqs s1 = reqs s @ [x]"
    and x: "rq_request x = request" "rq_flags x = ERF_RECV" "rq_datatype x = datatype" "rq_comm x = comm"
    using request_create_eq [OF assms(1,4)] by auto
  have "find_index (\<lambda>q. rq_request q = request) (reqs s1) = Some (length (reqs s))"
  proof -
    have "find_index (\<lambda>q. rq_request q = request) (reqs s) = None"
      using assms(2) by (force simp: find_index_None)
    then show ?thesis
      using x reqs by (simp add: find_index_append)
  qed
  then obtain p where p: "vt_request_get request s1 = Some p" and num: "req_num p = length (reqs s)"
    using request_get_eq [OF ok, of request] by (cases "vt_request_get request s1") auto
  have valid: "valid_req s1 p"
    using ok p by (rule request_get_valid)
  have events: "completion_events mpi status x = [MpiRecv (MPI_SOURCE status) comm (MPI_TAG status)
      (word_of_int (get_count mpi status datatype * type_size mpi datatype))]"
    using assms(3) x by (simp add: completion_events_def erf_defs)
  have removed: "completed (length (reqs s)) (reqs s1) = reqs s"
    using x reqs by (simp add: completed_def erf_defs swap_remove_last)
  obtain s2 where "vt_check_request mpi (Some p) status rec s1 =
      Some (if rec then completion_events mpi status (reqs s1 ! req_num p) else [], s2)"
    and "req_ok s2" and "reqs s2 = completed (req_num p) (reqs s1)"
    using check_request_eq [OF ok valid, of mpi status rec] by auto
  then show ?thesis
    using p num removed events reqs by simp
qed

end
