(* ===== verification/MpiFile.thy ===== *)
theory MpiFile
  imports Tables Util
begin

text \<open>
  \<open>vtlib/vt_mpifile.c\<close>: the ids of the files that MPI programs open. A hash table maps file
  names to the ids of their definitions, an array without holes maps open file handles to the
  id and the I/O handle of the file.

  What the tracing library does for \<open>vt_def_file\<close> is the parameter \<open>def_file\<close>, which gets the
  file name and the group and returns the new id and the changed state of the library. The
  thread's counter \<open>io_next_handle\<close> is a field of the state. \<open>vt_error_msg\<close> ends the program: the
  result \<open>None\<close>. The limit of open files that \<open>getrlimit\<close> returns is a parameter of
  \<open>vt_mpifile_init\<close>, \<open>None\<close> when it is \<open>RLIM_INFINITY\<close>.
\<close>

section \<open>Data\<close>

abbreviation HASH_MAX :: nat where
  "HASH_MAX \<equiv> 1021"

type_synonym handle = nat

record HashNode_file =
  hn_fname :: string
  hn_fid :: u32

record vt_mpifile_data =
  fid :: u32
  split_collective_id :: u64
  io_handle :: u64
  data_datatype :: handle

record mpifh_entry =
  mpifh :: handle
  file_data :: vt_mpifile_data

type_synonym file_htab = "nat \<Rightarrow> HashNode_file list"

record file_state =
  htab_mpifile :: file_htab
  mpifh_fid_map :: "mpifh_entry list"
  nfiles :: nat
  nmaxfiles :: nat
  mpifile_gid :: u32
  mpifile_initialized :: bool
  io_next_handle :: u64

type_synonym 'w def_file = "string \<Rightarrow> u32 \<Rightarrow> 'w \<Rightarrow> u32 \<times> 'w"

section \<open>The hash table\<close>

definition file_bucket :: "string \<Rightarrow> nat" where
  "file_bucket n = unat (vt_hash (map (\<lambda>c. of_nat (of_char c)) n) 0) mod HASH_MAX"

definition hash_put :: "file_htab \<Rightarrow> string \<Rightarrow> u32 \<Rightarrow> file_htab" where
  "hash_put t n i = t(file_bucket n := \<lparr>hn_fname = n, hn_fid = i\<rparr> # t (file_bucket n))"

definition hash_get :: "file_htab \<Rightarrow> string \<Rightarrow> HashNode_file option" where
  "hash_get t n = chain_find (\<lambda>e. hn_fname e = n) (t (file_bucket n))"

section \<open>Operations\<close>

text \<open>
  \<open>nfiles\<close> is the index of the next free entry; the position of the new entry stands for the
  returned pointer to its data.
\<close>

definition store_id :: "handle \<Rightarrow> u32 \<Rightarrow> file_state \<Rightarrow> (nat \<times> file_state) option" where
  "store_id fh i s =
     (if nfiles s \<ge> nmaxfiles s then None
      else
        (let entry = \<lparr>mpifh = fh, file_data = (file_data (mpifh_fid_map s ! nfiles s))
                                    \<lparr>fid := i, io_handle := io_next_handle s\<rparr>\<rparr>
         in Some (nfiles s, s\<lparr>mpifh_fid_map := (mpifh_fid_map s)[nfiles s := entry],
                              io_next_handle := io_next_handle s + 1, nfiles := nfiles s + 1\<rparr>)))"

definition vt_mpifile_init :: "u32 \<Rightarrow> nat option \<Rightarrow> file_state \<Rightarrow> file_state" where
  "vt_mpifile_init gid rlim s =
     (if mpifile_initialized s then s
      else
        (let n = (case rlim of None \<Rightarrow> 131072 | Some n \<Rightarrow> n)
         in s\<lparr>mpifile_gid := gid, nmaxfiles := n,
              mpifh_fid_map := replicate n \<lparr>mpifh = 0, file_data = \<lparr>fid = 0, split_collective_id = 0, io_handle = 0,
                                                             data_datatype = 0\<rparr>\<rparr>,
              nfiles := 0, htab_mpifile := (\<lambda>_. []), mpifile_initialized := True\<rparr>))"

definition vt_mpifile_finalize :: "file_state \<Rightarrow> file_state" where
  "vt_mpifile_finalize s =
     s\<lparr>htab_mpifile := (\<lambda>_. []), mpifh_fid_map := [], nmaxfiles := 0, nfiles := 0,
       mpifile_initialized := False\<rparr>"

text \<open>The search loop of \<open>vt_mpifile_get_data\<close> and \<open>vt_mpifile_free\<close>.\<close>

definition find_fh :: "handle \<Rightarrow> mpifh_entry list \<Rightarrow> nat \<Rightarrow> nat \<Rightarrow> nat" where
  "find_fh fh m n i = scan (\<lambda>e. mpifh e = fh) m n i"

definition vt_mpifile_get_data :: "handle \<Rightarrow> file_state \<Rightarrow> vt_mpifile_data option" where
  "vt_mpifile_get_data fh s =
     (let i = find_fh fh (mpifh_fid_map s) (nfiles s) 0
      in if i < nfiles s then Some (file_data (mpifh_fid_map s ! i)) else None)"

definition vt_mpifilename_get_id ::
  "'w def_file \<Rightarrow> string \<Rightarrow> file_state \<times> 'w \<Rightarrow> u32 \<times> (file_state \<times> 'w)" where
  "vt_mpifilename_get_id def_file fname sw =
     (case sw of (s, w) \<Rightarrow>
        (case hash_get (htab_mpifile s) fname of
           Some entry \<Rightarrow> (hn_fid entry, s, w)
         | None \<Rightarrow>
             (let (i, w) = def_file fname (mpifile_gid s) w
              in (i, s\<lparr>htab_mpifile := hash_put (htab_mpifile s) fname i\<rparr>, w))))"

definition vt_mpifile_free :: "handle \<Rightarrow> file_state \<Rightarrow> (u32 \<times> file_state) option" where
  "vt_mpifile_free fh s =
     (let i = find_fh fh (mpifh_fid_map s) (nfiles s) 0
      in if i < nfiles s then
           (let n = nfiles s - 1;
                f = fid (file_data (mpifh_fid_map s ! i));
                s = s\<lparr>nfiles := n\<rparr>
            in Some (f, if i < n
                         then s\<lparr>mpifh_fid_map := (mpifh_fid_map s)[i := mpifh_fid_map s ! n]\<rparr> else s))
         else None)"

definition vt_mpifile_create ::
  "'w def_file \<Rightarrow> handle \<Rightarrow> string \<Rightarrow> file_state \<times> 'w \<Rightarrow> (nat \<times> (file_state \<times> 'w)) option" where
  "vt_mpifile_create def_file fh fname sw =
     (case sw of (s, w) \<Rightarrow>
        (let (i, s, w) =
               (case hash_get (htab_mpifile s) fname of
                  Some entry \<Rightarrow> (hn_fid entry, s, w)
                | None \<Rightarrow>
                    (let (i, w) = def_file fname (mpifile_gid s) w
                     in (i, s\<lparr>htab_mpifile := hash_put (htab_mpifile s) fname i\<rparr>, w)))
         in map_option (\<lambda>(p, s). (p, s, w)) (store_id fh i s)))"

section \<open>File names\<close>

lemma file_hash_get_put:
  "hash_get (hash_put t n i) k = (if k = n then Some \<lparr>hn_fname = n, hn_fid = i\<rparr> else hash_get t k)"
  by (auto simp: hash_get_def hash_put_def)

definition name_id :: "file_htab \<Rightarrow> string \<Rightarrow> u32 option" where
  "name_id t n = map_option hn_fid (hash_get t n)"

interpretation file_names: keyed_table name_id hash_put "\<lambda>_. []"
proof
  show "name_id (\<lambda>_. []) k = None" for k
    by (simp add: name_id_def hash_get_def)
  show "name_id (hash_put t k v) k' = (if k' = k then Some v else name_id t k')" for t k v k'
    by (simp add: name_id_def file_hash_get_put)
qed

lemma get_id_eq:
  "vt_mpifilename_get_id def_file fname (s, w) =
     (case name_id (htab_mpifile s) fname of
        Some i \<Rightarrow> (i, s, w)
      | None \<Rightarrow> (let (i, w') = def_file fname (mpifile_gid s) w
                in (i, s\<lparr>htab_mpifile := hash_put (htab_mpifile s) fname i\<rparr>, w')))"
  by (auto simp: vt_mpifilename_get_id_def name_id_def split: option.split)

lemma create_eq:
  "vt_mpifile_create def_file fh fname sw =
     (let (i, s, w) = vt_mpifilename_get_id def_file fname sw
      in map_option (\<lambda>(p, s). (p, s, w)) (store_id fh i s))"
  by (simp add: vt_mpifile_create_def vt_mpifilename_get_id_def split: prod.split option.split)

text \<open>Looking up a sequence of names: the ids in order, and what is left.\<close>

fun get_ids :: "'w def_file \<Rightarrow> string list \<Rightarrow> file_state \<times> 'w \<Rightarrow> u32 list \<times> (file_state \<times> 'w)" where
  "get_ids def_file [] sw = ([], sw)"
| "get_ids def_file (n # ns) sw =
     (let (i, sw) = vt_mpifilename_get_id def_file n sw; (is, sw) = get_ids def_file ns sw
      in (i # is, sw))"

text \<open>The names of a sequence that are not known, each at its first occurrence.\<close>

fun new_names :: "string set \<Rightarrow> string list \<Rightarrow> string list" where
  "new_names known [] = []"
| "new_names known (n # ns) =
     (if n \<in> known then new_names known ns else n # new_names (insert n known) ns)"

lemma new_names_distinct: "distinct (new_names known ns) \<and> set (new_names known ns) = set ns - known"
  by (induction ns arbitrary: known) auto

definition known_names :: "file_state \<Rightarrow> string set" where
  "known_names s = {n. name_id (htab_mpifile s) n \<noteq> None}"

lemma get_ids_known:
  assumes "name_id (htab_mpifile s) n = Some i" and "get_ids def_file ns (s, w) = (is, s', w')"
  shows "name_id (htab_mpifile s') n = Some i"
  using assms
proof (induction ns arbitrary: s w "is")
  case Nil
  then show ?case by simp
next
  case (Cons m ns)
  obtain j s1 w1 where 1: "vt_mpifilename_get_id def_file m (s, w) = (j, s1, w1)"
    by (cases "vt_mpifilename_get_id def_file m (s, w)")
  then have "name_id (htab_mpifile s1) n = Some i"
    using Cons.prems(1)
    by (auto simp: get_id_eq file_names.get_put split: option.splits prod.splits)
  then show ?case
    using Cons.IH 1 Cons.prems(2) by (auto split: prod.splits)
qed

lemma get_ids_eq_known:
  assumes "get_ids def_file ns (s, w) = (is, s', w')"
  shows "map Some is = map (name_id (htab_mpifile s')) ns"
  using assms
proof (induction ns arbitrary: s w "is")
  case Nil
  then show ?case by simp
next
  case (Cons m ns)
  obtain j s1 w1 where 1: "vt_mpifilename_get_id def_file m (s, w) = (j, s1, w1)"
    by (cases "vt_mpifilename_get_id def_file m (s, w)")
  then have "name_id (htab_mpifile s1) m = Some j"
    by (auto simp: get_id_eq file_names.get_put split: option.splits prod.splits)
  then show ?case
    using Cons.IH [of s1 w1] get_ids_known [of s1 m j def_file ns w1] 1 Cons.prems
    by (auto split: prod.splits)
qed

lemma get_ids_definitions:
  assumes "get_ids def_file ns (s, w) = (is, s', w')"
  shows "w' = fold (\<lambda>n w. snd (def_file n (mpifile_gid s) w)) (new_names (known_names s) ns) w"
  using assms
proof (induction ns arbitrary: s w "is")
  case Nil
  then show ?case by simp
next
  case (Cons m ns)
  show ?case
  proof (cases "name_id (htab_mpifile s) m")
    case (Some i)
    then show ?thesis
      using Cons by (auto simp: get_id_eq known_names_def split: prod.splits)
  next
    case None
    obtain i w1 where d: "def_file m (mpifile_gid s) w = (i, w1)"
      by (cases "def_file m (mpifile_gid s) w")
    let ?s1 = "s\<lparr>htab_mpifile := hash_put (htab_mpifile s) m i\<rparr>"
    have "known_names ?s1 = insert m (known_names s)"
      by (auto simp: known_names_def file_names.get_put)
    moreover obtain is1 where "get_ids def_file ns (?s1, w1) = (is1, s', w')"
      using Cons.prems None d by (auto simp: get_id_eq split: prod.splits)
    ultimately show ?thesis
      using Cons.IH [of ?s1 w1 is1] None d by (simp add: known_names_def)
  qed
qed

section \<open>File handles\<close>

definition files_ok :: "file_state \<Rightarrow> bool" where
  "files_ok s \<longleftrightarrow> length (mpifh_fid_map s) = nmaxfiles s \<and> nfiles s \<le> nmaxfiles s"

definition open_files :: "file_state \<Rightarrow> mpifh_entry list" where
  "open_files s = take (nfiles s) (mpifh_fid_map s)"

lemma length_open_files: "files_ok s \<Longrightarrow> length (open_files s) = nfiles s"
  by (simp add: files_ok_def open_files_def)

lemma find_open_file:
  assumes "files_ok s"
  shows "find_fh fh (mpifh_fid_map s) (nfiles s) 0 =
    (case find_index (\<lambda>e. mpifh e = fh) (open_files s) of None \<Rightarrow> nfiles s | Some j \<Rightarrow> j)"
  using assms by (simp add: find_fh_def scan_eq files_ok_def open_files_def)

text \<open>What is known of an open file: the data of the first entry with the handle.\<close>

lemma get_data_eq:
  assumes "files_ok s"
  shows "vt_mpifile_get_data fh s =
    map_option (\<lambda>i. file_data (open_files s ! i)) (find_index (\<lambda>e. mpifh e = fh) (open_files s))"
proof (cases "find_index (\<lambda>e. mpifh e = fh) (open_files s)")
  case None
  then show ?thesis
    by (simp add: vt_mpifile_get_data_def find_open_file [OF assms])
next
  case (Some i)
  then have "i < nfiles s"
    using length_open_files [OF assms] by (simp add: find_index_Some)
  then show ?thesis
    using Some by (simp add: vt_mpifile_get_data_def find_open_file [OF assms] open_files_def)
qed

lemma get_data_map_of:
  "files_ok s \<Longrightarrow> vt_mpifile_get_data fh s = map_of (map (\<lambda>e. (mpifh e, file_data e)) (open_files s)) fh"
proof -
  have "map_option (\<lambda>i. file_data (es ! i)) (find_index (\<lambda>e. mpifh e = fh) es) =
      map_of (map (\<lambda>e. (mpifh e, file_data e)) es) fh" for es
    by (induction es) (auto simp: option.map_comp comp_def)
  then show "files_ok s \<Longrightarrow> ?thesis"
    by (simp add: get_data_eq)
qed

lemma store_id_eq:
  assumes "files_ok s" and "nfiles s < nmaxfiles s"
  shows "\<exists>s' d. store_id fh i s = Some (nfiles s, s') \<and> files_ok s'
    \<and> open_files s' = open_files s @ [\<lparr>mpifh = fh, file_data = d\<rparr>] \<and> fid d = i \<and> io_handle d = io_next_handle s
    \<and> io_next_handle s' = io_next_handle s + 1"
  using assms by (auto simp: store_id_def files_ok_def open_files_def Let_def take_Suc_conv_app_nth)

lemma file_free_eq:
  assumes ok: "files_ok s" and i: "find_index (\<lambda>e. mpifh e = fh) (open_files s) = Some i"
  shows "\<exists>s'. vt_mpifile_free fh s = Some (fid (file_data (open_files s ! i)), s') \<and> files_ok s'
    \<and> open_files s' = swap_remove i (open_files s)"
proof -
  let ?n = "nfiles s - 1"
  have lt: "i < nfiles s"
    using i length_open_files [OF ok] by (simp add: find_index_Some)
  have n: "Suc ?n = nfiles s" and le: "nfiles s \<le> length (mpifh_fid_map s)"
    using lt ok by (auto simp: files_ok_def)
  then have split: "open_files s = take ?n (mpifh_fid_map s) @ [mpifh_fid_map s ! ?n]"
    unfolding open_files_def by (metis Suc_le_lessD take_Suc_conv_app_nth)
  have len: "length (take ?n (mpifh_fid_map s)) = ?n"
    using le by simp
  have "swap_remove i (open_files s) =
      (if i < ?n then (take ?n (mpifh_fid_map s))[i := mpifh_fid_map s ! ?n] else take ?n (mpifh_fid_map s))"
    using lt n len by (simp add: split swap_remove_def list_update_append butlast_append split: nat.split)
  moreover have "open_files s ! i = mpifh_fid_map s ! i"
    using lt by (simp add: open_files_def)
  ultimately show ?thesis
    using lt i ok le
    by (auto simp: vt_mpifile_free_def find_open_file [OF ok] Let_def files_ok_def open_files_def take_update_swap)
qed

section \<open>Properties\<close>

text \<open>
  Looking up a sequence of file names gives every name one id, the one that the table has
  for it in the end, and defines a file exactly once for every name that was not known, in the
  order of the first occurrences.
\<close>

lemma file_ids_defined_once:
  assumes "get_ids def_file ns (s, w) = (is, s', w')"
  shows "map Some is = map (name_id (htab_mpifile s')) ns
    \<and> w' = fold (\<lambda>n w. snd (def_file n (mpifile_gid s) w)) (new_names (known_names s) ns) w
    \<and> distinct (new_names (known_names s) ns)"
  using get_ids_eq_known [OF assms] get_ids_definitions [OF assms] new_names_distinct by blast

abbreviation fresh_state :: "nat \<Rightarrow> file_state" where
  "fresh_state n \<equiv> vt_mpifile_init 9 (Some n) \<lparr>htab_mpifile = \<lambda>_. [], mpifh_fid_map = [], nfiles = 0,
     nmaxfiles = 0, mpifile_gid = 0, mpifile_initialized = False, io_next_handle = 0\<rparr>"

text \<open>
  Opening a file under a handle that is not open records its id with the next I/O handle,
  whatever other files are open; closing it returns that id, forgets exactly this handle and
  keeps the data of every other open file, though their entries move.
\<close>

lemma open_close_file:
  assumes "files_ok s" and "distinct (map mpifh (open_files s))" and "nfiles s < nmaxfiles s"
    and "fh \<notin> mpifh ` set (open_files s)"
  shows "\<exists>i s1 w1 s2. vt_mpifile_create def_file fh fname (s, w) = Some (nfiles s, s1, w1)
    \<and> map_option (\<lambda>d. (fid d, io_handle d)) (vt_mpifile_get_data fh s1) = Some (i, io_next_handle s)
    \<and> name_id (htab_mpifile s1) fname = Some i
    \<and> vt_mpifile_free fh s1 = Some (i, s2)
    \<and> vt_mpifile_get_data fh s2 = None
    \<and> (\<forall>h. h \<noteq> fh \<longrightarrow> vt_mpifile_get_data h s1 = vt_mpifile_get_data h s
                     \<and> vt_mpifile_get_data h s2 = vt_mpifile_get_data h s)"
proof -
  obtain i s0 w1 where g: "vt_mpifilename_get_id def_file fname (s, w) = (i, s0, w1)"
    by (cases "vt_mpifilename_get_id def_file fname (s, w)")
  then have s0: "mpifh_fid_map s0 = mpifh_fid_map s" "nfiles s0 = nfiles s" "nmaxfiles s0 = nmaxfiles s"
    "io_next_handle s0 = io_next_handle s" and name0: "name_id (htab_mpifile s0) fname = Some i"
    by (auto simp: get_id_eq file_names.get_put split: option.splits prod.splits)
  then have ok0: "files_ok s0" and open0: "open_files s0 = open_files s"
    using assms(1) by (simp_all add: files_ok_def open_files_def)
  obtain s1 d where s1: "store_id fh i s0 = Some (nfiles s, s1)" "files_ok s1"
      "open_files s1 = open_files s @ [\<lparr>mpifh = fh, file_data = d\<rparr>]" "fid d = i" "io_handle d = io_next_handle s"
    using store_id_eq [OF ok0, of fh i] s0 open0 assms(3) by auto
  have none: "find_index (\<lambda>e. mpifh e = fh) (open_files s) = None"
    using assms(4) by (force simp: find_index_None)
  then have pos: "find_index (\<lambda>e. mpifh e = fh) (open_files s1) = Some (length (open_files s))"
    by (simp add: s1(3) find_index_append)
  obtain s2 where s2: "vt_mpifile_free fh s1 = Some (i, s2)" "files_ok s2" "open_files s2 = open_files s"
    using file_free_eq [OF s1(2) pos] by (auto simp: s1(3,4) swap_remove_last)
  have "htab_mpifile s1 = htab_mpifile s0"
    using s1(1) by (auto simp: store_id_def Let_def split: if_splits)
  moreover have "map_of (map (\<lambda>e. (mpifh e, file_data e)) (open_files s)) fh = None"
    using assms(4) by (auto simp: map_of_eq_None_iff)
  ultimately show ?thesis
    using s1 s2 g name0 assms(1)
    by (intro exI [of _ i] exI [of _ s1] exI [of _ w1] exI [of _ s2])
      (auto simp: create_eq get_data_map_of map_add_def split: option.split)
qed

end
