(* ===== verification/MpiWrap.thy ===== *)
theory MpiWrap
  imports Trc MpiReq MpiFile
begin

unbundle bit_operations_syntax

text \<open>
  The wrappers of MPI functions (\<open>vtlib/vt_mpiwrap.c\<close>): the frame that all of them share, and
  those for communicators, groups, windows, messages and requests. Each calls the function of the
  MPI library (with the prefix P), records that the program was in it, and keeps the tables of
  \<open>MpiCom\<close> and \<open>MpiReq\<close>.

  The MPI library is a parameter. It has a state \<open>'p\<close>; \<open>pmpi\<close> gives what a call by name and
  arguments returns and stores through the caller's pointers, and the attributes of handles are
  functions of that state. The local variables \<open>time\<close> and \<open>was_recorded\<close> of the running wrapper are
  fields of the state. Memory hooks and the checks of UniMCI are not configured. Products of \<open>int\<close>s
  are taken modulo \<open>2 ^ 32\<close>. A \<open>count\<close> with an array is the length of the list.
\<close>

section \<open>State\<close>

text \<open>Arguments of a call. \<open>Ignored\<close> tells whether the caller gets no status.\<close>

datatype arg = Number int | Handle nat | Buffer nat | Ints "int list" | Handles "nat list" | Text string
  | Ignored bool

record pret =
  result :: int
  out_handle :: nat
  out_status :: MPI_Status
  out_statuses :: "nat \<Rightarrow> MPI_Status"
  out_flag :: bool
  out_index :: int
  out_count :: int
  out_indices :: "nat \<Rightarrow> int"

record 'p wenv =
  tenv :: env
  cal :: callees
  pmpi :: "string \<Rightarrow> arg list \<Rightarrow> 'p \<Rightarrow> pret \<times> 'p"
  mpi :: "'p \<Rightarrow> mpi_lib"
  mcom :: "'p \<Rightarrow> mpi_funs"
  msync :: "'p \<Rightarrow> mpi_sync_lib"
  comm_rank :: "'p \<Rightarrow> nat \<Rightarrow> int"
  comm_size :: "'p \<Rightarrow> nat \<Rightarrow> int"
  MPI_SUCCESS :: int
  MPI_GROUP_NULL :: nat
  mpi_regid :: "string \<Rightarrow> u32"
  req_junk :: VTRequest
  handle_junk :: nat

record 'p app =
  trc :: vt
  com :: com_state
  req :: req_state
  orig_req :: "nat list"
  status_array_size :: int
  files :: file_state
  mpitrace :: bool
  mpi_trace_is_on :: bool
  is_rma_putre :: bool
  mpi_is_finalized :: bool
  coll_matchingid :: u64
  io_matchingid :: u64
  time :: u64
  was_recorded :: bool
  lib :: 'p

section \<open>The frame of a wrapper\<close>

definition is_mpi_trace_on :: "'p app \<Rightarrow> bool" where
  "is_mpi_trace_on s \<longleftrightarrow> vt_is_alive (trc s) \<and> mpi_trace_is_on s"

definition take_time :: "'p wenv \<Rightarrow> 'p app \<Rightarrow> 'p app" where
  "take_time e s = (let (t, v) = vt_pform_wtime (tenv e) (trc s) in s\<lparr>time := t, trc := v\<rparr>)"

definition on_trc :: "(u64 \<Rightarrow> vt \<Rightarrow> vt_error + (u64 \<times> vt)) \<Rightarrow> 'p app \<Rightarrow> vt_error + 'p app" where
  "on_trc f s = andThen (f (time s) (trc s)) (\<lambda>(t, v). Inr (s\<lparr>time := t, trc := v\<rparr>))"

definition enter_mpi :: "'p wenv \<Rightarrow> string \<Rightarrow> 'p app \<Rightarrow> vt_error + 'p app" where
  "enter_mpi e fn s =
     (let s = take_time e (s\<lparr>mpi_trace_is_on := False\<rparr>)
      in andThen (vt_enter (tenv e) (cal e) (mpi_regid e fn) (time s) (trc s))
           (\<lambda>(rec, t, v). Inr (s\<lparr>was_recorded := rec, time := t, trc := v\<rparr>)))"

definition leave_mpi :: "'p wenv \<Rightarrow> 'p app \<Rightarrow> vt_error + 'p app" where
  "leave_mpi e s =
     andThen (on_trc (vt_exit (tenv e) (cal e)) s) (\<lambda>s. Inr (s\<lparr>mpi_trace_is_on := mpitrace s\<rparr>))"

definition call_pmpi :: "'p wenv \<Rightarrow> string \<Rightarrow> arg list \<Rightarrow> 'p app \<Rightarrow> pret \<times> 'p app" where
  "call_pmpi e fn args s = (let (r, p) = pmpi e fn args (lib s) in (r, s\<lparr>lib := p\<rparr>))"

text \<open>
  \<open>before\<close> is what a wrapper does between \<open>vt_enter\<close> and the call, \<open>after\<close> what it does between the
  call and \<open>vt_exit\<close>; \<open>'x\<close> are local variables. The arguments of the traced call may depend on
  \<open>was_recorded\<close>.
\<close>

definition wrapper_st ::
  "'p wenv \<Rightarrow> string \<Rightarrow> (bool \<Rightarrow> arg list) \<Rightarrow> arg list \<Rightarrow> ('p app \<Rightarrow> vt_error + ('x \<times> 'p app)) \<Rightarrow>
   ('x \<Rightarrow> pret \<Rightarrow> 'p app \<Rightarrow> vt_error + 'p app) \<Rightarrow> 'p app \<Rightarrow> vt_error + (pret \<times> 'p app)" where
  "wrapper_st e fn targs args before after s =
     (if is_mpi_trace_on s then
        andThen (enter_mpi e fn s) (\<lambda>s.
        andThen (before s) (\<lambda>(x, s).
          let (r, s) = call_pmpi e fn (targs (was_recorded s)) s
          in andThen (after x r s) (\<lambda>s. andThen (leave_mpi e s) (\<lambda>s. Inr (r, s)))))
      else Inr (call_pmpi e fn args s))"

abbreviation wrapper ::
  "'p wenv \<Rightarrow> string \<Rightarrow> arg list \<Rightarrow> ('p app \<Rightarrow> vt_error + ('x \<times> 'p app)) \<Rightarrow>
   ('x \<Rightarrow> pret \<Rightarrow> 'p app \<Rightarrow> vt_error + 'p app) \<Rightarrow> 'p app \<Rightarrow> vt_error + (pret \<times> 'p app)" where
  "wrapper e fn args \<equiv> wrapper_st e fn (\<lambda>_. args) args"

definition nothing :: "'p app \<Rightarrow> vt_error + (unit \<times> 'p app)" where
  "nothing s = Inr ((), s)"

definition no_locals :: "('p app \<Rightarrow> vt_error + 'p app) \<Rightarrow> 'p app \<Rightarrow> vt_error + (unit \<times> 'p app)" where
  "no_locals f s = andThen (f s) (\<lambda>s. Inr ((), s))"

fun each :: "('a \<Rightarrow> 's \<Rightarrow> vt_error + 's) \<Rightarrow> 'a list \<Rightarrow> 's \<Rightarrow> vt_error + 's" where
  "each f [] s = Inr s"
| "each f (x # xs) s = andThen (f x s) (each f xs)"

text \<open>\<open>MPI_Cancel\<close> only records that it was called.\<close>

definition MPI_Cancel :: "'p wenv \<Rightarrow> nat \<Rightarrow> 'p app \<Rightarrow> vt_error + (pret \<times> 'p app)" where
  "MPI_Cancel e request =
     wrapper e ''MPI_Cancel'' [Handle request] nothing (\<lambda>_ _ s. Inr (take_time e s))"

definition MPI_Finalized :: "'p wenv \<Rightarrow> 'p app \<Rightarrow> bool \<times> int" where
  "MPI_Finalized e s = (mpi_is_finalized s, MPI_SUCCESS e)"

section \<open>The tables\<close>

text \<open>A definition that fails ends the program: the state of the tracing core carries the error.\<close>

definition def_comm_of :: "'p wenv \<Rightarrow> (vt_error + vt) def_comm" where
  "def_comm_of e kind vec w =
     (case w of Inl x \<Rightarrow> (0, Inl x)
      | Inr v \<Rightarrow> (case vt_def_mpi_comm (tenv e) (cal e) kind vec v of
                    Inl x \<Rightarrow> (0, Inl x) | Inr (cid, v) \<Rightarrow> (cid, Inr v)))"

definition next_id_of :: "vt_error + vt \<Rightarrow> u32 \<times> (vt_error + vt)" where
  "next_id_of w = (case w of Inl x \<Rightarrow> (0, Inl x) | Inr v \<Rightarrow> (let (i, v) = vt_get_curid v in (i, Inr v)))"

definition in_com ::
  "(com_state \<times> (vt_error + vt) \<Rightarrow> (com_state \<times> (vt_error + vt)) option) \<Rightarrow> 'p app \<Rightarrow> vt_error + 'p app" where
  "in_com f s =
     (case f (com s, Inr (trc s)) of
        None \<Rightarrow> Inl Aborted
      | Some (c, w) \<Rightarrow> andThen w (\<lambda>v. Inr (s\<lparr>com := c, trc := v\<rparr>)))"

definition comm_create :: "'p wenv \<Rightarrow> nat \<Rightarrow> 'p app \<Rightarrow> vt_error + 'p app" where
  "comm_create e comm s = in_com (vt_comm_create (mcom e (lib s)) (def_comm_of e) comm) s"

definition group_create :: "'p wenv \<Rightarrow> nat \<Rightarrow> 'p app \<Rightarrow> vt_error + 'p app" where
  "group_create e grp s = in_com (vt_group_create (mcom e (lib s)) (def_comm_of e) grp) s"

definition win_create :: "'p wenv \<Rightarrow> nat \<Rightarrow> nat \<Rightarrow> 'p app \<Rightarrow> vt_error + 'p app" where
  "win_create e win comm s = in_com (vt_win_create (mcom e (lib s)) next_id_of win comm) s"

definition or_abort :: "'a option \<Rightarrow> vt_error + 'a" where
  "or_abort x = (case x of None \<Rightarrow> Inl Aborted | Some y \<Rightarrow> Inr y)"

definition VT_RANK_TO_PE :: "'p wenv \<Rightarrow> 'p app \<Rightarrow> int \<Rightarrow> nat \<Rightarrow> u32" where
  "VT_RANK_TO_PE e s rank comm =
     (if comm = MPI_COMM_WORLD (mcom e (lib s)) then word_of_int rank
      else vt_rank_to_pe (mcom e (lib s)) (com s) rank comm)"

definition VT_COMM_ID :: "'p wenv \<Rightarrow> 'p app \<Rightarrow> nat \<Rightarrow> vt_error + u32" where
  "VT_COMM_ID e s comm = or_abort (vt_comm_id (mcom e (lib s)) comm (com s))"

section \<open>Communicators, groups and windows\<close>

text \<open>The functions that give a new communicator, which may be the null handle.\<close>

definition new_comm_wrapper :: "'p wenv \<Rightarrow> string \<Rightarrow> arg list \<Rightarrow> 'p app \<Rightarrow> vt_error + (pret \<times> 'p app)" where
  "new_comm_wrapper e fn args =
     wrapper e fn args nothing (\<lambda>_ r s.
       andThen (if out_handle r \<noteq> MPI_COMM_NULL (mcom e (lib s)) then comm_create e (out_handle r) s else Inr s)
         (\<lambda>s. Inr (take_time e s)))"

definition MPI_Comm_dup :: "'p wenv \<Rightarrow> nat \<Rightarrow> 'p app \<Rightarrow> vt_error + (pret \<times> 'p app)" where
  "MPI_Comm_dup e comm =
     wrapper e ''MPI_Comm_dup'' [Handle comm] nothing
       (\<lambda>_ r s. andThen (comm_create e (out_handle r) s) (\<lambda>s. Inr (take_time e s)))"

definition MPI_Comm_create :: "'p wenv \<Rightarrow> nat \<Rightarrow> nat \<Rightarrow> 'p app \<Rightarrow> vt_error + (pret \<times> 'p app)" where
  "MPI_Comm_create e comm grp = new_comm_wrapper e ''MPI_Comm_create'' [Handle comm, Handle grp]"

definition MPI_Comm_split :: "'p wenv \<Rightarrow> nat \<Rightarrow> int \<Rightarrow> int \<Rightarrow> 'p app \<Rightarrow> vt_error + (pret \<times> 'p app)" where
  "MPI_Comm_split e comm color key = new_comm_wrapper e ''MPI_Comm_split'' [Handle comm, Number color, Number key]"

definition MPI_Cart_create ::
  "'p wenv \<Rightarrow> nat \<Rightarrow> int list \<Rightarrow> int list \<Rightarrow> int \<Rightarrow> 'p app \<Rightarrow> vt_error + (pret \<times> 'p app)" where
  "MPI_Cart_create e comm_old dims periodv reorder =
     new_comm_wrapper e ''MPI_Cart_create''
       [Handle comm_old, Number (int (length dims)), Ints dims, Ints periodv, Number reorder]"

definition MPI_Cart_sub :: "'p wenv \<Rightarrow> nat \<Rightarrow> int list \<Rightarrow> 'p app \<Rightarrow> vt_error + (pret \<times> 'p app)" where
  "MPI_Cart_sub e comm rem_dims = new_comm_wrapper e ''MPI_Cart_sub'' [Handle comm, Ints rem_dims]"

definition MPI_Graph_create ::
  "'p wenv \<Rightarrow> nat \<Rightarrow> int \<Rightarrow> int list \<Rightarrow> int list \<Rightarrow> int \<Rightarrow> 'p app \<Rightarrow> vt_error + (pret \<times> 'p app)" where
  "MPI_Graph_create e comm_old nnodes index edges reorder =
     new_comm_wrapper e ''MPI_Graph_create'' [Handle comm_old, Number nnodes, Ints index, Ints edges, Number reorder]"

definition MPI_Intercomm_create ::
  "'p wenv \<Rightarrow> nat \<Rightarrow> int \<Rightarrow> nat \<Rightarrow> int \<Rightarrow> int \<Rightarrow> 'p app \<Rightarrow> vt_error + (pret \<times> 'p app)" where
  "MPI_Intercomm_create e local_comm local_leader peer_comm remote_leader tag =
     new_comm_wrapper e ''MPI_Intercomm_create''
       [Handle local_comm, Number local_leader, Handle peer_comm, Number remote_leader, Number tag]"

definition MPI_Intercomm_merge :: "'p wenv \<Rightarrow> nat \<Rightarrow> int \<Rightarrow> 'p app \<Rightarrow> vt_error + (pret \<times> 'p app)" where
  "MPI_Intercomm_merge e intercomm high = new_comm_wrapper e ''MPI_Intercomm_merge'' [Handle intercomm, Number high]"

definition MPI_Comm_free :: "'p wenv \<Rightarrow> nat \<Rightarrow> 'p app \<Rightarrow> vt_error + (pret \<times> 'p app)" where
  "MPI_Comm_free e comm =
     wrapper e ''MPI_Comm_free'' [Handle comm]
       (no_locals (\<lambda>s. andThen (or_abort (vt_comm_free comm (com s))) (\<lambda>c. Inr (s\<lparr>com := c\<rparr>))))
       (\<lambda>_ _ s. Inr (take_time e s))"

definition new_group_wrapper :: "'p wenv \<Rightarrow> string \<Rightarrow> arg list \<Rightarrow> 'p app \<Rightarrow> vt_error + (pret \<times> 'p app)" where
  "new_group_wrapper e fn args =
     wrapper e fn args nothing (\<lambda>_ r s.
       andThen (if out_handle r \<noteq> MPI_GROUP_NULL e then group_create e (out_handle r) s else Inr s)
         (\<lambda>s. Inr (take_time e s)))"

definition MPI_Group_union :: "'p wenv \<Rightarrow> nat \<Rightarrow> nat \<Rightarrow> 'p app \<Rightarrow> vt_error + (pret \<times> 'p app)" where
  "MPI_Group_union e group1 group2 = new_group_wrapper e ''MPI_Group_union'' [Handle group1, Handle group2]"

definition MPI_Group_intersection :: "'p wenv \<Rightarrow> nat \<Rightarrow> nat \<Rightarrow> 'p app \<Rightarrow> vt_error + (pret \<times> 'p app)" where
  "MPI_Group_intersection e group1 group2 =
     new_group_wrapper e ''MPI_Group_intersection'' [Handle group1, Handle group2]"

definition MPI_Group_difference :: "'p wenv \<Rightarrow> nat \<Rightarrow> nat \<Rightarrow> 'p app \<Rightarrow> vt_error + (pret \<times> 'p app)" where
  "MPI_Group_difference e group1 group2 =
     new_group_wrapper e ''MPI_Group_difference'' [Handle group1, Handle group2]"

definition MPI_Group_incl :: "'p wenv \<Rightarrow> nat \<Rightarrow> int list \<Rightarrow> 'p app \<Rightarrow> vt_error + (pret \<times> 'p app)" where
  "MPI_Group_incl e grp rs = new_group_wrapper e ''MPI_Group_incl'' [Handle grp, Number (int (length rs)), Ints rs]"

definition MPI_Group_excl :: "'p wenv \<Rightarrow> nat \<Rightarrow> int list \<Rightarrow> 'p app \<Rightarrow> vt_error + (pret \<times> 'p app)" where
  "MPI_Group_excl e grp rs = new_group_wrapper e ''MPI_Group_excl'' [Handle grp, Number (int (length rs)), Ints rs]"

text \<open>The array of ranges is passed on as it is.\<close>

definition MPI_Group_range_incl :: "'p wenv \<Rightarrow> nat \<Rightarrow> int \<Rightarrow> nat \<Rightarrow> 'p app \<Rightarrow> vt_error + (pret \<times> 'p app)" where
  "MPI_Group_range_incl e grp n ranges =
     new_group_wrapper e ''MPI_Group_range_incl'' [Handle grp, Number n, Buffer ranges]"

definition MPI_Group_range_excl :: "'p wenv \<Rightarrow> nat \<Rightarrow> int \<Rightarrow> nat \<Rightarrow> 'p app \<Rightarrow> vt_error + (pret \<times> 'p app)" where
  "MPI_Group_range_excl e grp n ranges =
     new_group_wrapper e ''MPI_Group_range_excl'' [Handle grp, Number n, Buffer ranges]"

definition MPI_Group_free :: "'p wenv \<Rightarrow> nat \<Rightarrow> 'p app \<Rightarrow> vt_error + (pret \<times> 'p app)" where
  "MPI_Group_free e grp =
     wrapper e ''MPI_Group_free'' [Handle grp]
       (no_locals (\<lambda>s. Inr (s\<lparr>com := vt_group_free grp (com s)\<rparr>))) (\<lambda>_ _ s. Inr (take_time e s))"

definition MPI_Win_create ::
  "'p wenv \<Rightarrow> nat \<Rightarrow> int \<Rightarrow> int \<Rightarrow> nat \<Rightarrow> nat \<Rightarrow> 'p app \<Rightarrow> vt_error + (pret \<times> 'p app)" where
  "MPI_Win_create e base sz disp_unit info comm =
     wrapper e ''MPI_Win_create'' [Buffer base, Number sz, Number disp_unit, Handle info, Handle comm] nothing
       (\<lambda>_ r s. andThen (if out_handle r \<noteq> MPI_WIN_NULL (mcom e (lib s)) then win_create e (out_handle r) comm s
                         else Inr s)
                  (\<lambda>s. Inr (take_time e s)))"

definition MPI_Win_free :: "'p wenv \<Rightarrow> nat \<Rightarrow> 'p app \<Rightarrow> vt_error + (pret \<times> 'p app)" where
  "MPI_Win_free e win =
     wrapper e ''MPI_Win_free'' [Handle win]
       (no_locals (\<lambda>s. andThen (or_abort (vt_win_free (mcom e (lib s)) win (com s))) (\<lambda>c. Inr (s\<lparr>com := c\<rparr>))))
       (\<lambda>_ _ s. Inr (take_time e s))"

end
