(* ===== verification/MpiMsg.thy ===== *)
theory MpiMsg
  imports MpiWrap
begin

unbundle bit_operations_syntax

text \<open>
  The wrappers of \<open>vtlib/vt_mpiwrap.c\<close> for messages and requests: blocking and non-blocking
  messages, waiting and testing, persistent requests.
\<close>

section \<open>Records\<close>

definition mpi_send :: "'p wenv \<Rightarrow> int \<Rightarrow> nat \<Rightarrow> int \<Rightarrow> int \<Rightarrow> 'p app \<Rightarrow> vt_error + 'p app" where
  "mpi_send e dest comm tag bytes s =
     andThen (VT_COMM_ID e s comm)
       (\<lambda>cid. on_trc (vt_mpi_send (cal e) (VT_RANK_TO_PE e s dest comm) cid (word_of_int tag) (word_of_int bytes)) s)"

definition mpi_recv :: "'p wenv \<Rightarrow> int \<Rightarrow> nat \<Rightarrow> int \<Rightarrow> int \<Rightarrow> 'p app \<Rightarrow> vt_error + 'p app" where
  "mpi_recv e source comm tag bytes s =
     andThen (VT_COMM_ID e s comm)
       (\<lambda>cid. on_trc (vt_mpi_recv (cal e) (VT_RANK_TO_PE e s source comm) cid (word_of_int tag) (word_of_int bytes)) s)"

definition sz_of :: "'p wenv \<Rightarrow> 'p app \<Rightarrow> nat \<Rightarrow> int" where
  "sz_of e s datatype = type_size (mpi e (lib s)) datatype"

text \<open>The code before the call of a send, and behind the call of a receive.\<close>

definition send_event :: "'p wenv \<Rightarrow> int \<Rightarrow> nat \<Rightarrow> int \<Rightarrow> int \<Rightarrow> nat \<Rightarrow> 'p app \<Rightarrow> vt_error + 'p app" where
  "send_event e cnt datatype dest tag comm s =
     (if dest \<noteq> MPI_PROC_NULL (mpi e (lib s)) \<and> was_recorded s
      then mpi_send e dest comm tag (cnt * sz_of e s datatype) s else Inr s)"

definition recv_event :: "'p wenv \<Rightarrow> nat \<Rightarrow> int \<Rightarrow> nat \<Rightarrow> pret \<Rightarrow> 'p app \<Rightarrow> vt_error + 'p app" where
  "recv_event e datatype source comm r s =
     (if source \<noteq> MPI_PROC_NULL (mpi e (lib s)) \<and> result r = MPI_SUCCESS e \<and> was_recorded s
      then (let cnt = get_count (mpi e (lib s)) (out_status r) datatype;
                cnt = (if cnt = mpi_lib.MPI_UNDEFINED (mpi e (lib s)) then 0 else cnt)
            in mpi_recv e (MPI_SOURCE (out_status r)) comm (MPI_TAG (out_status r)) (cnt * sz_of e s datatype) s)
      else Inr s)"

section \<open>Blocking messages\<close>

text \<open>The functions that send differ in the function of the library that they call.\<close>

definition send_wrapper ::
  "'p wenv \<Rightarrow> string \<Rightarrow> nat \<Rightarrow> int \<Rightarrow> nat \<Rightarrow> int \<Rightarrow> int \<Rightarrow> nat \<Rightarrow> 'p app \<Rightarrow> vt_error + (pret \<times> 'p app)" where
  "send_wrapper e fn mbuf cnt datatype dest tag comm =
     wrapper e fn [Buffer mbuf, Number cnt, Handle datatype, Number dest, Number tag, Handle comm]
       (no_locals (send_event e cnt datatype dest tag comm)) (\<lambda>_ _ s. Inr (take_time e s))"

definition MPI_Send ::
  "'p wenv \<Rightarrow> nat \<Rightarrow> int \<Rightarrow> nat \<Rightarrow> int \<Rightarrow> int \<Rightarrow> nat \<Rightarrow> 'p app \<Rightarrow> vt_error + (pret \<times> 'p app)" where
  "MPI_Send e = send_wrapper e ''MPI_Send''"

definition MPI_Bsend ::
  "'p wenv \<Rightarrow> nat \<Rightarrow> int \<Rightarrow> nat \<Rightarrow> int \<Rightarrow> int \<Rightarrow> nat \<Rightarrow> 'p app \<Rightarrow> vt_error + (pret \<times> 'p app)" where
  "MPI_Bsend e = send_wrapper e ''MPI_Bsend''"

definition MPI_Rsend ::
  "'p wenv \<Rightarrow> nat \<Rightarrow> int \<Rightarrow> nat \<Rightarrow> int \<Rightarrow> int \<Rightarrow> nat \<Rightarrow> 'p app \<Rightarrow> vt_error + (pret \<times> 'p app)" where
  "MPI_Rsend e = send_wrapper e ''MPI_Rsend''"

definition MPI_Ssend ::
  "'p wenv \<Rightarrow> nat \<Rightarrow> int \<Rightarrow> nat \<Rightarrow> int \<Rightarrow> int \<Rightarrow> nat \<Rightarrow> 'p app \<Rightarrow> vt_error + (pret \<times> 'p app)" where
  "MPI_Ssend e = send_wrapper e ''MPI_Ssend''"

text \<open>A status that is ignored is replaced by one of the wrapper's own.\<close>

definition MPI_Recv ::
  "'p wenv \<Rightarrow> nat \<Rightarrow> int \<Rightarrow> nat \<Rightarrow> int \<Rightarrow> int \<Rightarrow> nat \<Rightarrow> bool \<Rightarrow> 'p app \<Rightarrow> vt_error + (pret \<times> 'p app)" where
  "MPI_Recv e mbuf cnt datatype source tag comm ign =
     (let args = \<lambda>ign. [Buffer mbuf, Number cnt, Handle datatype, Number source, Number tag, Handle comm, Ignored ign]
      in wrapper_st e ''MPI_Recv'' (\<lambda>_. args False) (args ign) nothing
           (\<lambda>_ r s. recv_event e datatype source comm r (take_time e s)))"

definition MPI_Sendrecv ::
  "'p wenv \<Rightarrow> nat \<Rightarrow> int \<Rightarrow> nat \<Rightarrow> int \<Rightarrow> int \<Rightarrow> nat \<Rightarrow> int \<Rightarrow> nat \<Rightarrow> int \<Rightarrow> int \<Rightarrow> nat \<Rightarrow> bool \<Rightarrow> 'p app \<Rightarrow>
   vt_error + (pret \<times> 'p app)" where
  "MPI_Sendrecv e sendbuf sendcount sendtype dest sendtag recvbuf recvcount recvtype source recvtag comm ign =
     (let args = \<lambda>ign. [Buffer sendbuf, Number sendcount, Handle sendtype, Number dest, Number sendtag,
                        Buffer recvbuf, Number recvcount, Handle recvtype, Number source, Number recvtag,
                        Handle comm, Ignored ign]
      in wrapper_st e ''MPI_Sendrecv'' (\<lambda>_. args False) (args ign)
           (no_locals (send_event e sendcount sendtype dest sendtag comm))
           (\<lambda>_ r s. recv_event e recvtype source comm r (take_time e s)))"

text \<open>The receive is recorded with the number of bytes sent, and also when the call is not recorded.\<close>

definition MPI_Sendrecv_replace ::
  "'p wenv \<Rightarrow> nat \<Rightarrow> int \<Rightarrow> nat \<Rightarrow> int \<Rightarrow> int \<Rightarrow> int \<Rightarrow> int \<Rightarrow> nat \<Rightarrow> bool \<Rightarrow> 'p app \<Rightarrow>
   vt_error + (pret \<times> 'p app)" where
  "MPI_Sendrecv_replace e mbuf cnt datatype dest sendtag source recvtag comm ign =
     (let args = \<lambda>ign. [Buffer mbuf, Number cnt, Handle datatype, Number dest, Number sendtag, Number source, Number recvtag,
                        Handle comm, Ignored ign]
      in wrapper_st e ''MPI_Sendrecv_replace'' (\<lambda>_. args False) (args ign)
           (\<lambda>s. let sz = sz_of e s datatype
                in andThen (send_event e cnt datatype dest sendtag comm s) (\<lambda>s. Inr (sz, s)))
           (\<lambda>sz r s.
              let s = take_time e s
              in if source \<noteq> MPI_PROC_NULL (mpi e (lib s)) \<and> result r = MPI_SUCCESS e
                 then mpi_recv e (MPI_SOURCE (out_status r)) comm (MPI_TAG (out_status r)) (cnt * sz) s
                 else Inr s))"

section \<open>Non-blocking messages\<close>

definition MPI_Isend ::
  "'p wenv \<Rightarrow> nat \<Rightarrow> int \<Rightarrow> nat \<Rightarrow> int \<Rightarrow> int \<Rightarrow> nat \<Rightarrow> 'p app \<Rightarrow> vt_error + (pret \<times> 'p app)" where
  "MPI_Isend e = send_wrapper e ''MPI_Isend''"

definition MPI_Ibsend ::
  "'p wenv \<Rightarrow> nat \<Rightarrow> int \<Rightarrow> nat \<Rightarrow> int \<Rightarrow> int \<Rightarrow> nat \<Rightarrow> 'p app \<Rightarrow> vt_error + (pret \<times> 'p app)" where
  "MPI_Ibsend e = send_wrapper e ''MPI_Ibsend''"

definition MPI_Issend ::
  "'p wenv \<Rightarrow> nat \<Rightarrow> int \<Rightarrow> nat \<Rightarrow> int \<Rightarrow> int \<Rightarrow> nat \<Rightarrow> 'p app \<Rightarrow> vt_error + (pret \<times> 'p app)" where
  "MPI_Issend e = send_wrapper e ''MPI_Issend''"

definition MPI_Irsend ::
  "'p wenv \<Rightarrow> nat \<Rightarrow> int \<Rightarrow> nat \<Rightarrow> int \<Rightarrow> int \<Rightarrow> nat \<Rightarrow> 'p app \<Rightarrow> vt_error + (pret \<times> 'p app)" where
  "MPI_Irsend e = send_wrapper e ''MPI_Irsend''"

text \<open>A request of the library gets an entry in the table, unless the partner is the null process.\<close>

definition keep_request ::
  "'p wenv \<Rightarrow> u32 \<Rightarrow> int \<Rightarrow> int \<Rightarrow> int \<Rightarrow> int \<Rightarrow> nat \<Rightarrow> nat \<Rightarrow> pret \<Rightarrow> 'p app \<Rightarrow> 'p app" where
  "keep_request e flags partner tag dest bytes datatype comm r s =
     (if partner \<noteq> MPI_PROC_NULL (mpi e (lib s)) \<and> result r = MPI_SUCCESS e
      then s\<lparr>req := vt_request_create (req_junk e) (out_handle r) flags tag dest bytes datatype comm (req s)\<rparr>
      else s)"

definition MPI_Irecv ::
  "'p wenv \<Rightarrow> nat \<Rightarrow> int \<Rightarrow> nat \<Rightarrow> int \<Rightarrow> int \<Rightarrow> nat \<Rightarrow> 'p app \<Rightarrow> vt_error + (pret \<times> 'p app)" where
  "MPI_Irecv e mbuf cnt datatype source tag comm =
     wrapper e ''MPI_Irecv'' [Buffer mbuf, Number cnt, Handle datatype, Number source, Number tag, Handle comm]
       (\<lambda>s. Inr (sz_of e s datatype, s))
       (\<lambda>sz r s. Inr (take_time e
          (keep_request e ERF_RECV source tag 0 (wrap32 (cnt * sz)) datatype comm r s)))"

section \<open>Waiting and testing\<close>

fun record_events :: "'p wenv \<Rightarrow> req_event list \<Rightarrow> 'p app \<Rightarrow> vt_error + 'p app" where
  "record_events e [] s = Inr s"
| "record_events e (MpiRecv source comm tag bytes # evs) s =
     andThen (andThen (VT_COMM_ID e s comm)
       (\<lambda>cid. on_trc (vt_mpi_recv (cal e) (VT_RANK_TO_PE e s source comm) cid (word_of_int tag) bytes) s))
       (record_events e evs)"
| "record_events e (IoEnd f mid hid op bytes # evs) s =
     andThen (on_trc (vt_ioend (cal e) f mid hid op bytes) s) (record_events e evs)"

definition check_request :: "'p wenv \<Rightarrow> reqptr option \<Rightarrow> MPI_Status \<Rightarrow> 'p app \<Rightarrow> vt_error + 'p app" where
  "check_request e p st s =
     (case vt_check_request (mpi e (lib s)) p st (was_recorded s) (req s) of
        None \<Rightarrow> Inl Aborted
      | Some (evs, q) \<Rightarrow> andThen (record_events e evs s) (\<lambda>s. Inr (s\<lparr>req := q\<rparr>)))"

definition save_requests :: "'p wenv \<Rightarrow> nat list \<Rightarrow> 'p app \<Rightarrow> 'p app" where
  "save_requests e requests s =
     s\<lparr>orig_req := vt_save_request_array (handle_junk e) requests (orig_req s)\<rparr>"

text \<open>\<open>vt_saved_request_get\<close> with the index of the library; the array has no other elements.\<close>

definition saved_request :: "int \<Rightarrow> 'p app \<Rightarrow> vt_error + reqptr option" where
  "saved_request i s =
     (if 0 \<le> i \<and> nat i < length (orig_req s) then Inr (vt_saved_request_get (orig_req s) (nat i) (req s))
      else Inl OutOfBounds)"

definition check_saved :: "'p wenv \<Rightarrow> int \<Rightarrow> MPI_Status \<Rightarrow> 'p app \<Rightarrow> vt_error + 'p app" where
  "check_saved e i st s = andThen (saved_request i s) (\<lambda>p. check_request e p st s)"

definition vt_get_status_array :: "int \<Rightarrow> 'p app \<Rightarrow> 'p app" where
  "vt_get_status_array n s =
     (if status_array_size s = 0 then s\<lparr>status_array_size := n\<rparr>
      else if n > status_array_size s then s\<lparr>status_array_size := n\<rparr> else s)"

definition MPI_Wait :: "'p wenv \<Rightarrow> nat \<Rightarrow> bool \<Rightarrow> 'p app \<Rightarrow> vt_error + (pret \<times> 'p app)" where
  "MPI_Wait e request ign =
     wrapper_st e ''MPI_Wait'' (\<lambda>_. [Handle request, Ignored False]) [Handle request, Ignored ign]
       (\<lambda>s. Inr (vt_request_get request (req s), s))
       (\<lambda>p r s. check_request e p (out_status r) (take_time e s))"

text \<open>Saving the requests, and an array for the statuses where the caller has none.\<close>

definition save_all :: "'p wenv \<Rightarrow> nat list \<Rightarrow> bool \<Rightarrow> 'p app \<Rightarrow> 'p app" where
  "save_all e requests ign s =
     save_requests e requests (if ign then vt_get_status_array (int (length requests)) s else s)"

definition MPI_Waitall :: "'p wenv \<Rightarrow> nat list \<Rightarrow> bool \<Rightarrow> 'p app \<Rightarrow> vt_error + (pret \<times> 'p app)" where
  "MPI_Waitall e requests ign =
     wrapper_st e ''MPI_Waitall'' (\<lambda>_. [Handles requests, Ignored False]) [Handles requests, Ignored ign]
       (no_locals (\<lambda>s. Inr (save_all e requests ign s)))
       (\<lambda>_ r s. each (\<lambda>i. check_saved e (int i) (out_statuses r i)) [0..<length requests] (take_time e s))"

definition MPI_Waitany :: "'p wenv \<Rightarrow> nat list \<Rightarrow> bool \<Rightarrow> 'p app \<Rightarrow> vt_error + (pret \<times> 'p app)" where
  "MPI_Waitany e requests ign =
     wrapper_st e ''MPI_Waitany'' (\<lambda>_. [Handles requests, Ignored False]) [Handles requests, Ignored ign]
       (no_locals (\<lambda>s. Inr (save_requests e requests s)))
       (\<lambda>_ r s. andThen (saved_request (out_index r) s)
          (\<lambda>p. check_request e p (out_status r) (take_time e s)))"

text \<open>The loop over the indices of the completed requests.\<close>

definition check_some :: "'p wenv \<Rightarrow> pret \<Rightarrow> 'p app \<Rightarrow> vt_error + 'p app" where
  "check_some e r = each (\<lambda>i. check_saved e (out_indices r i) (out_statuses r i)) [0..<nat (out_count r)]"

definition MPI_Waitsome :: "'p wenv \<Rightarrow> nat list \<Rightarrow> bool \<Rightarrow> 'p app \<Rightarrow> vt_error + (pret \<times> 'p app)" where
  "MPI_Waitsome e requests ign =
     wrapper_st e ''MPI_Waitsome'' (\<lambda>_. [Handles requests, Ignored False]) [Handles requests, Ignored ign]
       (no_locals (\<lambda>s. Inr (save_all e requests ign s)))
       (\<lambda>_ r s. check_some e r (take_time e s))"

definition MPI_Test :: "'p wenv \<Rightarrow> nat \<Rightarrow> bool \<Rightarrow> 'p app \<Rightarrow> vt_error + (pret \<times> 'p app)" where
  "MPI_Test e request ign =
     wrapper_st e ''MPI_Test'' (\<lambda>_. [Handle request, Ignored False]) [Handle request, Ignored ign]
       (\<lambda>s. Inr (vt_request_get request (req s), s))
       (\<lambda>p r s. let s = take_time e s in if out_flag r then check_request e p (out_status r) s else Inr s)"

definition MPI_Testany :: "'p wenv \<Rightarrow> nat list \<Rightarrow> bool \<Rightarrow> 'p app \<Rightarrow> vt_error + (pret \<times> 'p app)" where
  "MPI_Testany e requests ign =
     wrapper_st e ''MPI_Testany'' (\<lambda>_. [Handles requests, Ignored False]) [Handles requests, Ignored ign]
       (no_locals (\<lambda>s. Inr (save_requests e requests s)))
       (\<lambda>_ r s. let s = take_time e s
                in if out_flag r \<and> out_index r \<noteq> mpi_lib.MPI_UNDEFINED (mpi e (lib s))
                   then check_saved e (out_index r) (out_status r) s else Inr s)"

definition MPI_Testall :: "'p wenv \<Rightarrow> nat list \<Rightarrow> bool \<Rightarrow> 'p app \<Rightarrow> vt_error + (pret \<times> 'p app)" where
  "MPI_Testall e requests ign =
     wrapper_st e ''MPI_Testall'' (\<lambda>_. [Handles requests, Ignored False]) [Handles requests, Ignored ign]
       (no_locals (\<lambda>s. Inr (save_all e requests ign s)))
       (\<lambda>_ r s. let s = take_time e s
                in if out_flag r
                   then each (\<lambda>i. check_saved e (int i) (out_statuses r i)) [0..<length requests] s
                   else Inr s)"

definition MPI_Testsome :: "'p wenv \<Rightarrow> nat list \<Rightarrow> bool \<Rightarrow> 'p app \<Rightarrow> vt_error + (pret \<times> 'p app)" where
  "MPI_Testsome e requests ign =
     wrapper_st e ''MPI_Testsome'' (\<lambda>_. [Handles requests, Ignored False]) [Handles requests, Ignored ign]
       (no_locals (\<lambda>s. Inr (save_all e requests ign s)))
       (\<lambda>_ r s. check_some e r (take_time e s))"

section \<open>Persistent requests\<close>

text \<open>The functions that prepare a send or a receive.\<close>

definition init_wrapper ::
  "'p wenv \<Rightarrow> string \<Rightarrow> u32 \<Rightarrow> nat \<Rightarrow> int \<Rightarrow> nat \<Rightarrow> int \<Rightarrow> int \<Rightarrow> nat \<Rightarrow> 'p app \<Rightarrow>
   vt_error + (pret \<times> 'p app)" where
  "init_wrapper e fn kind mbuf cnt datatype partner tag comm =
     wrapper e fn [Buffer mbuf, Number cnt, Handle datatype, Number partner, Number tag, Handle comm]
       (\<lambda>s. Inr (sz_of e s datatype, s))
       (\<lambda>sz r s. Inr (take_time e
          (keep_request e (kind OR ERF_IS_PERSISTENT) partner tag partner (wrap32 (cnt * sz)) datatype comm r s)))"

definition MPI_Send_init ::
  "'p wenv \<Rightarrow> nat \<Rightarrow> int \<Rightarrow> nat \<Rightarrow> int \<Rightarrow> int \<Rightarrow> nat \<Rightarrow> 'p app \<Rightarrow> vt_error + (pret \<times> 'p app)" where
  "MPI_Send_init e = init_wrapper e ''MPI_Send_init'' ERF_SEND"

definition MPI_Recv_init ::
  "'p wenv \<Rightarrow> nat \<Rightarrow> int \<Rightarrow> nat \<Rightarrow> int \<Rightarrow> int \<Rightarrow> nat \<Rightarrow> 'p app \<Rightarrow> vt_error + (pret \<times> 'p app)" where
  "MPI_Recv_init e = init_wrapper e ''MPI_Recv_init'' ERF_RECV"

definition MPI_Bsend_init ::
  "'p wenv \<Rightarrow> nat \<Rightarrow> int \<Rightarrow> nat \<Rightarrow> int \<Rightarrow> int \<Rightarrow> nat \<Rightarrow> 'p app \<Rightarrow> vt_error + (pret \<times> 'p app)" where
  "MPI_Bsend_init e = init_wrapper e ''MPI_Bsend_init'' ERF_SEND"

definition MPI_Ssend_init ::
  "'p wenv \<Rightarrow> nat \<Rightarrow> int \<Rightarrow> nat \<Rightarrow> int \<Rightarrow> int \<Rightarrow> nat \<Rightarrow> 'p app \<Rightarrow> vt_error + (pret \<times> 'p app)" where
  "MPI_Ssend_init e = init_wrapper e ''MPI_Ssend_init'' ERF_SEND"

definition MPI_Rsend_init ::
  "'p wenv \<Rightarrow> nat \<Rightarrow> int \<Rightarrow> nat \<Rightarrow> int \<Rightarrow> int \<Rightarrow> nat \<Rightarrow> 'p app \<Rightarrow> vt_error + (pret \<times> 'p app)" where
  "MPI_Rsend_init e = init_wrapper e ''MPI_Rsend_init'' ERF_SEND"

definition write_flags :: "reqptr \<Rightarrow> u32 \<Rightarrow> 'p app \<Rightarrow> 'p app" where
  "write_flags p f s = s\<lparr>req := req_write p ((req_at (req s) p)\<lparr>rq_flags := f\<rparr>) (req s)\<rparr>"

text \<open>Starting one request.\<close>

definition start_request :: "'p wenv \<Rightarrow> nat \<Rightarrow> 'p app \<Rightarrow> vt_error + 'p app" where
  "start_request e request s =
     (case vt_request_get request (req s) of
        None \<Rightarrow> Inr s
      | Some p \<Rightarrow>
          (let r = req_at (req s) p
           in if rq_flags r AND ERF_IS_PERSISTENT \<noteq> 0 then
                (let s = write_flags p (rq_flags r OR ERF_IS_ACTIVE) s
                 in if (rq_flags r OR ERF_IS_ACTIVE) AND ERF_SEND \<noteq> 0
                       \<and> rq_dest r \<noteq> MPI_PROC_NULL (mpi e (lib s)) \<and> was_recorded s
                    then mpi_send e (rq_dest r) (rq_comm r) (rq_tag r) (rq_bytes r) s
                    else Inr s)
              else Inr s))"

definition MPI_Start :: "'p wenv \<Rightarrow> nat \<Rightarrow> 'p app \<Rightarrow> vt_error + (pret \<times> 'p app)" where
  "MPI_Start e request =
     wrapper e ''MPI_Start'' [Handle request] (no_locals (start_request e request))
       (\<lambda>_ _ s. Inr (take_time e s))"

definition MPI_Startall :: "'p wenv \<Rightarrow> nat list \<Rightarrow> 'p app \<Rightarrow> vt_error + (pret \<times> 'p app)" where
  "MPI_Startall e requests =
     wrapper e ''MPI_Startall'' [Handles requests] (no_locals (each (start_request e) requests))
       (\<lambda>_ _ s. Inr (take_time e s))"

definition MPI_Request_free :: "'p wenv \<Rightarrow> nat \<Rightarrow> 'p app \<Rightarrow> vt_error + (pret \<times> 'p app)" where
  "MPI_Request_free e request =
     wrapper e ''MPI_Request_free'' [Handle request]
       (no_locals (\<lambda>s.
          case vt_request_get request (req s) of
            None \<Rightarrow> Inr s
          | Some p \<Rightarrow>
              (let r = req_at (req s) p
               in if rq_flags r AND ERF_IS_PERSISTENT \<noteq> 0 then
                    (if rq_flags r AND ERF_IS_ACTIVE \<noteq> 0
                     then Inr (write_flags p (rq_flags r OR ERF_DEALLOCATE) s)
                     else andThen (or_abort (vt_request_free p (req s))) (\<lambda>q. Inr (s\<lparr>req := q\<rparr>)))
                  else Inr s)))
       (\<lambda>_ _ s. Inr (take_time e s))"

end
