(* ===== verification/MpiIo.thy ===== *)
theory MpiIo
  imports MpiMsg
begin

unbundle bit_operations_syntax

text \<open>
  The wrappers of \<open>vtlib/vt_mpiwrap.c\<close> for MPI files. The macros \<open>MPIIO_ENTER_IO*\<close> and
  \<open>MPIIO_LEAVE_IO*\<close> are the definitions \<open>io_begin\<close> and \<open>leave_*\<close>; the data of a file are those of
  \<open>MpiFile\<close>. A file that is not known ends the program.
\<close>

section \<open>Operations and flags\<close>

definition VT_IOOP_OPEN :: u32 where "VT_IOOP_OPEN = 0"
definition VT_IOOP_CLOSE :: u32 where "VT_IOOP_CLOSE = 1"
definition VT_IOOP_READ :: u32 where "VT_IOOP_READ = 2"
definition VT_IOOP_WRITE :: u32 where "VT_IOOP_WRITE = 3"
definition VT_IOOP_SEEK :: u32 where "VT_IOOP_SEEK = 4"
definition VT_IOOP_UNLINK :: u32 where "VT_IOOP_UNLINK = 5"
definition VT_IOOP_SYNC :: u32 where "VT_IOOP_SYNC = 8"
definition VT_IOFLAG_IOFAILED :: u32 where "VT_IOFLAG_IOFAILED = 32"
definition VT_IOFLAG_ASYNC :: u32 where "VT_IOFLAG_ASYNC = 64"
definition VT_IOFLAG_COLL :: u32 where "VT_IOFLAG_COLL = 128"

lemmas ioop_defs = VT_IOOP_OPEN_def VT_IOOP_CLOSE_def VT_IOOP_READ_def VT_IOOP_WRITE_def VT_IOOP_SEEK_def
  VT_IOOP_UNLINK_def VT_IOOP_SYNC_def VT_IOFLAG_IOFAILED_def VT_IOFLAG_ASYNC_def VT_IOFLAG_COLL_def

section \<open>The data of a file\<close>

definition def_file_of :: "'p wenv \<Rightarrow> (vt_error + vt) def_file" where
  "def_file_of e fname gid w =
     (case w of Inl x \<Rightarrow> (0, Inl x)
      | Inr v \<Rightarrow> (case vt_def_file (tenv e) (cal e) fname gid v of
                    Inl x \<Rightarrow> (0, Inl x) | Inr (i, v) \<Rightarrow> (i, Inr v)))"

definition file_get :: "nat \<Rightarrow> 'p app \<Rightarrow> vt_error + vt_mpifile_data" where
  "file_get fh s = or_abort (vt_mpifile_get_data fh (files s))"

text \<open>Changing the data through the pointer that \<open>vt_mpifile_get_data\<close> returns.\<close>

definition file_set :: "nat \<Rightarrow> (vt_mpifile_data \<Rightarrow> vt_mpifile_data) \<Rightarrow> file_state \<Rightarrow> file_state" where
  "file_set fh f s =
     (let i = find_fh fh (mpifh_fid_map s) (nfiles s) 0; en = mpifh_fid_map s ! i
      in s\<lparr>mpifh_fid_map := (mpifh_fid_map s)[i := en\<lparr>file_data := f (file_data en)\<rparr>]\<rparr>)"

definition ioend :: "'p wenv \<Rightarrow> vt_mpifile_data \<Rightarrow> u64 \<Rightarrow> u32 \<Rightarrow> u64 \<Rightarrow> 'p app \<Rightarrow> vt_error + 'p app" where
  "ioend e d mid op bytes = on_trc (vt_ioend (cal e) (fid d) mid (io_handle d) op bytes)"

text \<open>The operation, with the flag of a failure where the call failed.\<close>

definition fileop :: "'p wenv \<Rightarrow> pret \<Rightarrow> u32 \<Rightarrow> u32" where
  "fileop e r op = (if result r \<noteq> MPI_SUCCESS e then op OR VT_IOFLAG_IOFAILED else op)"

section \<open>Entering and leaving\<close>

text \<open>\<open>MPIIO_ENTER_IO_W_MATCHINGID\<close>, also with a status.\<close>

definition io_begin :: "'p wenv \<Rightarrow> 'p app \<Rightarrow> vt_error + (u64 \<times> 'p app)" where
  "io_begin e s =
     (if was_recorded s then
        (let mid = io_matchingid s; s = s\<lparr>io_matchingid := io_matchingid s + 1\<rparr>
         in andThen (on_trc (vt_iobegin (cal e) mid) s) (\<lambda>s. Inr (mid, s)))
      else Inr (0, s))"

text \<open>\<open>MPIIO_ENTER_IO_SPLITCOLL\<close>\<close>

definition io_begin_splitcoll :: "'p wenv \<Rightarrow> nat \<Rightarrow> nat \<Rightarrow> 'p app \<Rightarrow> vt_error + (unit \<times> 'p app)" where
  "io_begin_splitcoll e fh datatype s =
     (if was_recorded s then
        andThen (io_begin e s) (\<lambda>(mid, s).
        andThen (file_get fh s) (\<lambda>_.
          Inr ((), s\<lparr>files := file_set fh (\<lambda>d. d\<lparr>split_collective_id := mid, data_datatype := datatype\<rparr>) (files s)\<rparr>)))
      else Inr ((), s))"

text \<open>\<open>MPIIO_LEAVE_IO_W_MATCHINGID\<close>, and with the bytes of the operation as a parameter.\<close>

definition leave_matchingid ::
  "'p wenv \<Rightarrow> nat \<Rightarrow> u32 \<Rightarrow> u64 \<Rightarrow> u64 \<Rightarrow> pret \<Rightarrow> 'p app \<Rightarrow> vt_error + 'p app" where
  "leave_matchingid e fh op bytes mid r s =
     (let s = take_time e s
      in if was_recorded s then andThen (file_get fh s) (\<lambda>d. ioend e d mid (fileop e r op) bytes s) else Inr s)"

text \<open>\<open>MPIIO_LEAVE_IO_W_REQ\<close>\<close>

definition leave_req :: "'p wenv \<Rightarrow> nat \<Rightarrow> nat \<Rightarrow> u32 \<Rightarrow> u64 \<Rightarrow> pret \<Rightarrow> 'p app \<Rightarrow> vt_error + 'p app" where
  "leave_req e fh datatype op mid r s =
     (let s = take_time e s
      in if was_recorded s then
           andThen (file_get fh s) (\<lambda>d.
             if result r = MPI_SUCCESS e
             then Inr (s\<lparr>req := vt_iorequest_create (req_junk e) (out_handle r) datatype mid (io_handle d) (fid d) op (req s)\<rparr>)
             else ioend e d mid (op OR VT_IOFLAG_IOFAILED) 0 s)
         else Inr s)"

text \<open>The bytes of a status: the count of elements, 0 where it is undefined, by their size.\<close>

definition status_bytes :: "'p wenv \<Rightarrow> 'p app \<Rightarrow> pret \<Rightarrow> nat \<Rightarrow> u64" where
  "status_bytes e s r datatype =
     (let cnt = get_count (mpi e (lib s)) (out_status r) datatype;
          cnt = (if cnt = mpi_lib.MPI_UNDEFINED (mpi e (lib s)) then 0 else cnt)
      in word_of_int cnt * word_of_int (sz_of e s datatype))"

text \<open>\<open>MPIIO_LEAVE_IO_SPLITCOLL\<close>\<close>

definition leave_splitcoll :: "'p wenv \<Rightarrow> nat \<Rightarrow> u32 \<Rightarrow> pret \<Rightarrow> 'p app \<Rightarrow> vt_error + 'p app" where
  "leave_splitcoll e fh op r s =
     (let s = take_time e s
      in if was_recorded s then
           andThen (file_get fh s) (\<lambda>d.
             ioend e d (split_collective_id d) (fileop e r op)
               (if result r = MPI_SUCCESS e then status_bytes e s r (data_datatype d) else 0) s)
         else Inr s)"

text \<open>\<open>MPIIO_LEAVE_IO_W_MATCHINGID_STATUS\<close>\<close>

definition leave_matchingid_status ::
  "'p wenv \<Rightarrow> nat \<Rightarrow> nat \<Rightarrow> u32 \<Rightarrow> u64 \<Rightarrow> pret \<Rightarrow> 'p app \<Rightarrow> vt_error + 'p app" where
  "leave_matchingid_status e fh datatype op mid r s =
     (let s = take_time e s
      in if was_recorded s then
           andThen (file_get fh s) (\<lambda>d.
             if result r = MPI_SUCCESS e then ioend e d mid op (status_bytes e s r datatype) s
             else ioend e d mid (op OR VT_IOFLAG_IOFAILED) 0 s)
         else Inr s)"

section \<open>File access\<close>

definition MPI_File_close :: "'p wenv \<Rightarrow> nat \<Rightarrow> 'p app \<Rightarrow> vt_error + (pret \<times> 'p app)" where
  "MPI_File_close e fh =
     wrapper e ''MPI_File_close'' [Handle fh] (io_begin e)
       (\<lambda>mid r s. andThen (leave_matchingid e fh (VT_IOOP_CLOSE OR VT_IOFLAG_COLL) 0 mid r s)
          (\<lambda>s. andThen (or_abort (vt_mpifile_free fh (files s))) (\<lambda>(_, f). Inr (s\<lparr>files := f\<rparr>))))"

text \<open>The handle gets an entry also when the call has failed.\<close>

definition file_create :: "'p wenv \<Rightarrow> nat \<Rightarrow> string \<Rightarrow> 'p app \<Rightarrow> vt_error + (vt_mpifile_data \<times> 'p app)" where
  "file_create e fh fname s =
     andThen (or_abort (vt_mpifile_create (def_file_of e) fh fname (files s, Inr (trc s))))
       (\<lambda>(p, f, w). andThen w (\<lambda>v. Inr (file_data (mpifh_fid_map f ! p), s\<lparr>files := f, trc := v\<rparr>)))"

definition MPI_File_open ::
  "'p wenv \<Rightarrow> nat \<Rightarrow> string \<Rightarrow> int \<Rightarrow> nat \<Rightarrow> 'p app \<Rightarrow> vt_error + (pret \<times> 'p app)" where
  "MPI_File_open e comm fname amode info =
     wrapper e ''MPI_File_open'' [Handle comm, Text fname, Number amode, Handle info] (io_begin e)
       (\<lambda>mid r s. andThen (file_create e (out_handle r) fname (take_time e s))
          (\<lambda>(d, s). if was_recorded s then ioend e d mid (fileop e r (VT_IOOP_OPEN OR VT_IOFLAG_COLL)) 0 s
                    else Inr s))"

definition MPI_File_delete :: "'p wenv \<Rightarrow> string \<Rightarrow> nat \<Rightarrow> 'p app \<Rightarrow> vt_error + (pret \<times> 'p app)" where
  "MPI_File_delete e fname info =
     wrapper e ''MPI_File_delete'' [Text fname, Handle info] (io_begin e)
       (\<lambda>mid r s.
          let s = take_time e s
          in if was_recorded s then
               (let (i, f, w) = vt_mpifilename_get_id (def_file_of e) fname (files s, Inr (trc s))
                in andThen w (\<lambda>v. on_trc (vt_ioend (cal e) i mid 0 (fileop e r VT_IOOP_UNLINK) 0)
                                    (s\<lparr>files := f, trc := v\<rparr>)))
             else Inr s)"

definition MPI_File_sync :: "'p wenv \<Rightarrow> nat \<Rightarrow> 'p app \<Rightarrow> vt_error + (pret \<times> 'p app)" where
  "MPI_File_sync e fh =
     wrapper e ''MPI_File_sync'' [Handle fh] (io_begin e) (leave_matchingid e fh VT_IOOP_SYNC 0)"

definition MPI_File_preallocate :: "'p wenv \<Rightarrow> nat \<Rightarrow> int \<Rightarrow> 'p app \<Rightarrow> vt_error + (pret \<times> 'p app)" where
  "MPI_File_preallocate e fh sz =
     wrapper e ''MPI_File_preallocate'' [Handle fh, Number sz] (io_begin e)
       (leave_matchingid e fh VT_IOOP_WRITE (word_of_int sz))"

definition seek_wrapper :: "'p wenv \<Rightarrow> string \<Rightarrow> nat \<Rightarrow> int \<Rightarrow> int \<Rightarrow> 'p app \<Rightarrow> vt_error + (pret \<times> 'p app)" where
  "seek_wrapper e fn fh offset whence =
     wrapper e fn [Handle fh, Number offset, Number whence] (io_begin e) (leave_matchingid e fh VT_IOOP_SEEK 0)"

definition MPI_File_seek :: "'p wenv \<Rightarrow> nat \<Rightarrow> int \<Rightarrow> int \<Rightarrow> 'p app \<Rightarrow> vt_error + (pret \<times> 'p app)" where
  "MPI_File_seek e = seek_wrapper e ''MPI_File_seek''"

definition MPI_File_seek_shared :: "'p wenv \<Rightarrow> nat \<Rightarrow> int \<Rightarrow> int \<Rightarrow> 'p app \<Rightarrow> vt_error + (pret \<times> 'p app)" where
  "MPI_File_seek_shared e = seek_wrapper e ''MPI_File_seek_shared''"

section \<open>Reading and writing\<close>

text \<open>The frames of the functions that differ in the function of the library and the operation.\<close>

definition rw_wrapper ::
  "'p wenv \<Rightarrow> string \<Rightarrow> u32 \<Rightarrow> nat \<Rightarrow> arg list \<Rightarrow> nat \<Rightarrow> bool \<Rightarrow> 'p app \<Rightarrow> vt_error + (pret \<times> 'p app)" where
  "rw_wrapper e fn op fh args datatype ign =
     wrapper_st e fn (\<lambda>rec. args @ [Ignored (ign \<and> \<not> rec)]) (args @ [Ignored ign]) (io_begin e)
       (leave_matchingid_status e fh datatype op)"

definition irw_wrapper ::
  "'p wenv \<Rightarrow> string \<Rightarrow> u32 \<Rightarrow> nat \<Rightarrow> arg list \<Rightarrow> nat \<Rightarrow> 'p app \<Rightarrow> vt_error + (pret \<times> 'p app)" where
  "irw_wrapper e fn op fh args datatype = wrapper e fn args (io_begin e) (leave_req e fh datatype op)"

definition split_begin_wrapper ::
  "'p wenv \<Rightarrow> string \<Rightarrow> nat \<Rightarrow> arg list \<Rightarrow> nat \<Rightarrow> 'p app \<Rightarrow> vt_error + (pret \<times> 'p app)" where
  "split_begin_wrapper e fn fh args datatype =
     wrapper e fn args (io_begin_splitcoll e fh datatype) (\<lambda>_ _ s. Inr (take_time e s))"

definition split_end_wrapper ::
  "'p wenv \<Rightarrow> string \<Rightarrow> u32 \<Rightarrow> nat \<Rightarrow> nat \<Rightarrow> bool \<Rightarrow> 'p app \<Rightarrow> vt_error + (pret \<times> 'p app)" where
  "split_end_wrapper e fn op fh mbuf ign =
     wrapper_st e fn (\<lambda>rec. [Handle fh, Buffer mbuf, Ignored (ign \<and> \<not> rec)]) [Handle fh, Buffer mbuf, Ignored ign]
       nothing (\<lambda>_. leave_splitcoll e fh op)"

definition MPI_File_read ::
  "'p wenv \<Rightarrow> nat \<Rightarrow> nat \<Rightarrow> int \<Rightarrow> nat \<Rightarrow> bool \<Rightarrow> 'p app \<Rightarrow> vt_error + (pret \<times> 'p app)" where
  "MPI_File_read e fh mbuf cnt datatype ign =
     rw_wrapper e ''MPI_File_read'' VT_IOOP_READ fh
       [Handle fh, Buffer mbuf, Number cnt, Handle datatype] datatype ign"

definition MPI_File_read_all ::
  "'p wenv \<Rightarrow> nat \<Rightarrow> nat \<Rightarrow> int \<Rightarrow> nat \<Rightarrow> bool \<Rightarrow> 'p app \<Rightarrow> vt_error + (pret \<times> 'p app)" where
  "MPI_File_read_all e fh mbuf cnt datatype ign =
     rw_wrapper e ''MPI_File_read_all'' (VT_IOOP_READ OR VT_IOFLAG_COLL) fh
       [Handle fh, Buffer mbuf, Number cnt, Handle datatype] datatype ign"

definition MPI_File_write ::
  "'p wenv \<Rightarrow> nat \<Rightarrow> nat \<Rightarrow> int \<Rightarrow> nat \<Rightarrow> bool \<Rightarrow> 'p app \<Rightarrow> vt_error + (pret \<times> 'p app)" where
  "MPI_File_write e fh mbuf cnt datatype ign =
     rw_wrapper e ''MPI_File_write'' VT_IOOP_WRITE fh
       [Handle fh, Buffer mbuf, Number cnt, Handle datatype] datatype ign"

definition MPI_File_write_all ::
  "'p wenv \<Rightarrow> nat \<Rightarrow> nat \<Rightarrow> int \<Rightarrow> nat \<Rightarrow> bool \<Rightarrow> 'p app \<Rightarrow> vt_error + (pret \<times> 'p app)" where
  "MPI_File_write_all e fh mbuf cnt datatype ign =
     rw_wrapper e ''MPI_File_write_all'' (VT_IOOP_WRITE OR VT_IOFLAG_COLL) fh
       [Handle fh, Buffer mbuf, Number cnt, Handle datatype] datatype ign"

definition MPI_File_read_at ::
  "'p wenv \<Rightarrow> nat \<Rightarrow> int \<Rightarrow> nat \<Rightarrow> int \<Rightarrow> nat \<Rightarrow> bool \<Rightarrow> 'p app \<Rightarrow> vt_error + (pret \<times> 'p app)" where
  "MPI_File_read_at e fh offset mbuf cnt datatype ign =
     rw_wrapper e ''MPI_File_read_at'' VT_IOOP_READ fh
       [Handle fh, Number offset, Buffer mbuf, Number cnt, Handle datatype] datatype ign"

definition MPI_File_read_at_all ::
  "'p wenv \<Rightarrow> nat \<Rightarrow> int \<Rightarrow> nat \<Rightarrow> int \<Rightarrow> nat \<Rightarrow> bool \<Rightarrow> 'p app \<Rightarrow> vt_error + (pret \<times> 'p app)" where
  "MPI_File_read_at_all e fh offset mbuf cnt datatype ign =
     rw_wrapper e ''MPI_File_read_at_all'' (VT_IOOP_READ OR VT_IOFLAG_COLL) fh
       [Handle fh, Number offset, Buffer mbuf, Number cnt, Handle datatype] datatype ign"

definition MPI_File_write_at ::
  "'p wenv \<Rightarrow> nat \<Rightarrow> int \<Rightarrow> nat \<Rightarrow> int \<Rightarrow> nat \<Rightarrow> bool \<Rightarrow> 'p app \<Rightarrow> vt_error + (pret \<times> 'p app)" where
  "MPI_File_write_at e fh offset mbuf cnt datatype ign =
     rw_wrapper e ''MPI_File_write_at'' VT_IOOP_WRITE fh
       [Handle fh, Number offset, Buffer mbuf, Number cnt, Handle datatype] datatype ign"

definition MPI_File_write_at_all ::
  "'p wenv \<Rightarrow> nat \<Rightarrow> int \<Rightarrow> nat \<Rightarrow> int \<Rightarrow> nat \<Rightarrow> bool \<Rightarrow> 'p app \<Rightarrow> vt_error + (pret \<times> 'p app)" where
  "MPI_File_write_at_all e fh offset mbuf cnt datatype ign =
     rw_wrapper e ''MPI_File_write_at_all'' (VT_IOOP_WRITE OR VT_IOFLAG_COLL) fh
       [Handle fh, Number offset, Buffer mbuf, Number cnt, Handle datatype] datatype ign"

definition MPI_File_read_ordered ::
  "'p wenv \<Rightarrow> nat \<Rightarrow> nat \<Rightarrow> int \<Rightarrow> nat \<Rightarrow> bool \<Rightarrow> 'p app \<Rightarrow> vt_error + (pret \<times> 'p app)" where
  "MPI_File_read_ordered e fh mbuf cnt datatype ign =
     rw_wrapper e ''MPI_File_read_ordered'' (VT_IOOP_READ OR VT_IOFLAG_COLL) fh
       [Handle fh, Buffer mbuf, Number cnt, Handle datatype] datatype ign"

definition MPI_File_read_shared ::
  "'p wenv \<Rightarrow> nat \<Rightarrow> nat \<Rightarrow> int \<Rightarrow> nat \<Rightarrow> bool \<Rightarrow> 'p app \<Rightarrow> vt_error + (pret \<times> 'p app)" where
  "MPI_File_read_shared e fh mbuf cnt datatype ign =
     rw_wrapper e ''MPI_File_read_shared'' VT_IOOP_READ fh
       [Handle fh, Buffer mbuf, Number cnt, Handle datatype] datatype ign"

definition MPI_File_write_ordered ::
  "'p wenv \<Rightarrow> nat \<Rightarrow> nat \<Rightarrow> int \<Rightarrow> nat \<Rightarrow> bool \<Rightarrow> 'p app \<Rightarrow> vt_error + (pret \<times> 'p app)" where
  "MPI_File_write_ordered e fh mbuf cnt datatype ign =
     rw_wrapper e ''MPI_File_write_ordered'' (VT_IOOP_WRITE OR VT_IOFLAG_COLL) fh
       [Handle fh, Buffer mbuf, Number cnt, Handle datatype] datatype ign"

definition MPI_File_write_shared ::
  "'p wenv \<Rightarrow> nat \<Rightarrow> nat \<Rightarrow> int \<Rightarrow> nat \<Rightarrow> bool \<Rightarrow> 'p app \<Rightarrow> vt_error + (pret \<times> 'p app)" where
  "MPI_File_write_shared e fh mbuf cnt datatype ign =
     rw_wrapper e ''MPI_File_write_shared'' VT_IOOP_WRITE fh
       [Handle fh, Buffer mbuf, Number cnt, Handle datatype] datatype ign"

text \<open>The non-blocking functions; \<open>MPI_File_iread_at\<close> is recorded as a write.\<close>

definition MPI_File_iread ::
  "'p wenv \<Rightarrow> nat \<Rightarrow> nat \<Rightarrow> int \<Rightarrow> nat \<Rightarrow> 'p app \<Rightarrow> vt_error + (pret \<times> 'p app)" where
  "MPI_File_iread e fh mbuf cnt datatype =
     irw_wrapper e ''MPI_File_iread'' (VT_IOOP_READ OR VT_IOFLAG_ASYNC) fh
       [Handle fh, Buffer mbuf, Number cnt, Handle datatype] datatype"

definition MPI_File_iwrite ::
  "'p wenv \<Rightarrow> nat \<Rightarrow> nat \<Rightarrow> int \<Rightarrow> nat \<Rightarrow> 'p app \<Rightarrow> vt_error + (pret \<times> 'p app)" where
  "MPI_File_iwrite e fh mbuf cnt datatype =
     irw_wrapper e ''MPI_File_iwrite'' (VT_IOOP_WRITE OR VT_IOFLAG_ASYNC) fh
       [Handle fh, Buffer mbuf, Number cnt, Handle datatype] datatype"

definition MPI_File_iread_at ::
  "'p wenv \<Rightarrow> nat \<Rightarrow> int \<Rightarrow> nat \<Rightarrow> int \<Rightarrow> nat \<Rightarrow> 'p app \<Rightarrow> vt_error + (pret \<times> 'p app)" where
  "MPI_File_iread_at e fh offset mbuf cnt datatype =
     irw_wrapper e ''MPI_File_iread_at'' (VT_IOOP_WRITE OR VT_IOFLAG_ASYNC) fh
       [Handle fh, Number offset, Buffer mbuf, Number cnt, Handle datatype] datatype"

definition MPI_File_iwrite_at ::
  "'p wenv \<Rightarrow> nat \<Rightarrow> int \<Rightarrow> nat \<Rightarrow> int \<Rightarrow> nat \<Rightarrow> 'p app \<Rightarrow> vt_error + (pret \<times> 'p app)" where
  "MPI_File_iwrite_at e fh offset mbuf cnt datatype =
     irw_wrapper e ''MPI_File_iwrite_at'' (VT_IOOP_WRITE OR VT_IOFLAG_ASYNC) fh
       [Handle fh, Number offset, Buffer mbuf, Number cnt, Handle datatype] datatype"

definition MPI_File_iread_shared ::
  "'p wenv \<Rightarrow> nat \<Rightarrow> nat \<Rightarrow> int \<Rightarrow> nat \<Rightarrow> 'p app \<Rightarrow> vt_error + (pret \<times> 'p app)" where
  "MPI_File_iread_shared e fh mbuf cnt datatype =
     irw_wrapper e ''MPI_File_iread_shared'' (VT_IOOP_READ OR VT_IOFLAG_ASYNC) fh
       [Handle fh, Buffer mbuf, Number cnt, Handle datatype] datatype"

definition MPI_File_iwrite_shared ::
  "'p wenv \<Rightarrow> nat \<Rightarrow> nat \<Rightarrow> int \<Rightarrow> nat \<Rightarrow> 'p app \<Rightarrow> vt_error + (pret \<times> 'p app)" where
  "MPI_File_iwrite_shared e fh mbuf cnt datatype =
     irw_wrapper e ''MPI_File_iwrite_shared'' (VT_IOOP_WRITE OR VT_IOFLAG_ASYNC) fh
       [Handle fh, Buffer mbuf, Number cnt, Handle datatype] datatype"

text \<open>The split collective functions.\<close>

definition MPI_File_read_all_begin ::
  "'p wenv \<Rightarrow> nat \<Rightarrow> nat \<Rightarrow> int \<Rightarrow> nat \<Rightarrow> 'p app \<Rightarrow> vt_error + (pret \<times> 'p app)" where
  "MPI_File_read_all_begin e fh mbuf cnt datatype =
     split_begin_wrapper e ''MPI_File_read_all_begin'' fh
       [Handle fh, Buffer mbuf, Number cnt, Handle datatype] datatype"

definition MPI_File_read_at_all_begin ::
  "'p wenv \<Rightarrow> nat \<Rightarrow> int \<Rightarrow> nat \<Rightarrow> int \<Rightarrow> nat \<Rightarrow> 'p app \<Rightarrow> vt_error + (pret \<times> 'p app)" where
  "MPI_File_read_at_all_begin e fh offset mbuf cnt datatype =
     split_begin_wrapper e ''MPI_File_read_at_all_begin'' fh
       [Handle fh, Number offset, Buffer mbuf, Number cnt, Handle datatype] datatype"

definition MPI_File_read_ordered_begin ::
  "'p wenv \<Rightarrow> nat \<Rightarrow> nat \<Rightarrow> int \<Rightarrow> nat \<Rightarrow> 'p app \<Rightarrow> vt_error + (pret \<times> 'p app)" where
  "MPI_File_read_ordered_begin e fh mbuf cnt datatype =
     split_begin_wrapper e ''MPI_File_read_ordered_begin'' fh
       [Handle fh, Buffer mbuf, Number cnt, Handle datatype] datatype"

definition MPI_File_write_all_begin ::
  "'p wenv \<Rightarrow> nat \<Rightarrow> nat \<Rightarrow> int \<Rightarrow> nat \<Rightarrow> 'p app \<Rightarrow> vt_error + (pret \<times> 'p app)" where
  "MPI_File_write_all_begin e fh mbuf cnt datatype =
     split_begin_wrapper e ''MPI_File_write_all_begin'' fh
       [Handle fh, Buffer mbuf, Number cnt, Handle datatype] datatype"

definition MPI_File_write_at_all_begin ::
  "'p wenv \<Rightarrow> nat \<Rightarrow> int \<Rightarrow> nat \<Rightarrow> int \<Rightarrow> nat \<Rightarrow> 'p app \<Rightarrow> vt_error + (pret \<times> 'p app)" where
  "MPI_File_write_at_all_begin e fh offset mbuf cnt datatype =
     split_begin_wrapper e ''MPI_File_write_at_all_begin'' fh
       [Handle fh, Number offset, Buffer mbuf, Number cnt, Handle datatype] datatype"

definition MPI_File_write_ordered_begin ::
  "'p wenv \<Rightarrow> nat \<Rightarrow> nat \<Rightarrow> int \<Rightarrow> nat \<Rightarrow> 'p app \<Rightarrow> vt_error + (pret \<times> 'p app)" where
  "MPI_File_write_ordered_begin e fh mbuf cnt datatype =
     split_begin_wrapper e ''MPI_File_write_ordered_begin'' fh
       [Handle fh, Buffer mbuf, Number cnt, Handle datatype] datatype"

definition MPI_File_read_all_end ::
  "'p wenv \<Rightarrow> nat \<Rightarrow> nat \<Rightarrow> bool \<Rightarrow> 'p app \<Rightarrow> vt_error + (pret \<times> 'p app)" where
  "MPI_File_read_all_end e fh mbuf ign =
     split_end_wrapper e ''MPI_File_read_all_end'' (VT_IOOP_READ OR VT_IOFLAG_ASYNC OR VT_IOFLAG_COLL) fh mbuf ign"

definition MPI_File_read_at_all_end ::
  "'p wenv \<Rightarrow> nat \<Rightarrow> nat \<Rightarrow> bool \<Rightarrow> 'p app \<Rightarrow> vt_error + (pret \<times> 'p app)" where
  "MPI_File_read_at_all_end e fh mbuf ign =
     split_end_wrapper e ''MPI_File_read_at_all_end'' (VT_IOOP_READ OR VT_IOFLAG_ASYNC OR VT_IOFLAG_COLL) fh mbuf ign"

definition MPI_File_read_ordered_end ::
  "'p wenv \<Rightarrow> nat \<Rightarrow> nat \<Rightarrow> bool \<Rightarrow> 'p app \<Rightarrow> vt_error + (pret \<times> 'p app)" where
  "MPI_File_read_ordered_end e fh mbuf ign =
     split_end_wrapper e ''MPI_File_read_ordered_end'' (VT_IOOP_READ OR VT_IOFLAG_ASYNC OR VT_IOFLAG_COLL) fh mbuf ign"

definition MPI_File_write_all_end ::
  "'p wenv \<Rightarrow> nat \<Rightarrow> nat \<Rightarrow> bool \<Rightarrow> 'p app \<Rightarrow> vt_error + (pret \<times> 'p app)" where
  "MPI_File_write_all_end e fh mbuf ign =
     split_end_wrapper e ''MPI_File_write_all_end'' (VT_IOOP_WRITE OR VT_IOFLAG_ASYNC OR VT_IOFLAG_COLL) fh mbuf ign"

definition MPI_File_write_at_all_end ::
  "'p wenv \<Rightarrow> nat \<Rightarrow> nat \<Rightarrow> bool \<Rightarrow> 'p app \<Rightarrow> vt_error + (pret \<times> 'p app)" where
  "MPI_File_write_at_all_end e fh mbuf ign =
     split_end_wrapper e ''MPI_File_write_at_all_end'' (VT_IOOP_WRITE OR VT_IOFLAG_ASYNC OR VT_IOFLAG_COLL) fh mbuf ign"

definition MPI_File_write_ordered_end ::
  "'p wenv \<Rightarrow> nat \<Rightarrow> nat \<Rightarrow> bool \<Rightarrow> 'p app \<Rightarrow> vt_error + (pret \<times> 'p app)" where
  "MPI_File_write_ordered_end e fh mbuf ign =
     split_end_wrapper e ''MPI_File_write_ordered_end'' (VT_IOOP_WRITE OR VT_IOFLAG_ASYNC OR VT_IOFLAG_COLL) fh mbuf ign"

end
