(* ===== verification/MpiColl.thy ===== *)
theory MpiColl
  imports MpiMsg
begin

unbundle bit_operations_syntax

text \<open>
  The wrappers of \<open>vtlib/vt_mpiwrap.c\<close> for collective operations and one-sided communication. A
  collective operation is recorded by a begin and an end with a common matching id; the numbers
  of bytes that a process sends and receives depend on its rank in the communicator. The arrays
  of cnts have the length of the communicator.
\<close>

section \<open>The frame of a collective operation\<close>

text \<open>A product of \<open>int\<close>s as an unsigned number of 64 bits.\<close>

definition bytes64 :: "int \<Rightarrow> u64" where
  "bytes64 n = word_of_int (wrap32 n)"

text \<open>\<open>root\<close> is the root of the operation, if it has one; \<open>vol\<close> the bytes sent and received.\<close>

definition coll_begin ::
  "'p wenv \<Rightarrow> string \<Rightarrow> int option \<Rightarrow> nat \<Rightarrow> ('p app \<Rightarrow> int \<times> int) \<Rightarrow> 'p app \<Rightarrow> vt_error + (u64 \<times> 'p app)" where
  "coll_begin e fn root comm vol s =
     (if was_recorded s then
        (let matchid = coll_matchingid s;
             s = s\<lparr>coll_matchingid := coll_matchingid s + 1\<rparr>;
             (sent, recvd) = vol s;
             rpid = (case root of None \<Rightarrow> VT_NO_ID | Some r \<Rightarrow> VT_RANK_TO_PE e s r comm)
         in andThen (VT_COMM_ID e s comm)
              (\<lambda>cid. andThen (on_trc (vt_mpi_collbegin (cal e) (mpi_regid e fn) matchid rpid cid
                                        (bytes64 sent) (bytes64 recvd)) s)
                 (\<lambda>s. Inr (matchid, s))))
      else Inr (0, s))"

definition coll_end :: "'p wenv \<Rightarrow> nat \<Rightarrow> u64 \<Rightarrow> pret \<Rightarrow> 'p app \<Rightarrow> vt_error + 'p app" where
  "coll_end e comm matchid r s =
     (let s = take_time e s
      in if was_recorded s
         then on_trc (vt_mpi_collend (tenv e) (cal e) (msync e (lib s)) matchid comm) s else Inr s)"

definition coll_wrapper ::
  "'p wenv \<Rightarrow> string \<Rightarrow> arg list \<Rightarrow> int option \<Rightarrow> nat \<Rightarrow> ('p app \<Rightarrow> int \<times> int) \<Rightarrow> 'p app \<Rightarrow>
   vt_error + (pret \<times> 'p app)" where
  "coll_wrapper e fn args root comm vol =
     wrapper e fn args (coll_begin e fn root comm vol) (coll_end e comm)"

definition me_of :: "'p wenv \<Rightarrow> 'p app \<Rightarrow> nat \<Rightarrow> int" where
  "me_of e s comm = comm_rank e (lib s) comm"

definition N_of :: "'p wenv \<Rightarrow> 'p app \<Rightarrow> nat \<Rightarrow> int" where
  "N_of e s comm = comm_size e (lib s) comm"

text \<open>\<open>for(i = 0; i<N; i++) sum += cnts[i];\<close>\<close>

definition sum_counts :: "'p wenv \<Rightarrow> 'p app \<Rightarrow> nat \<Rightarrow> int list \<Rightarrow> int" where
  "sum_counts e s comm cnts = sum_list (take (nat (N_of e s comm)) cnts)"

section \<open>Collective operations\<close>

definition MPI_Allreduce ::
  "'p wenv \<Rightarrow> nat \<Rightarrow> nat \<Rightarrow> int \<Rightarrow> nat \<Rightarrow> nat \<Rightarrow> nat \<Rightarrow> 'p app \<Rightarrow> vt_error + (pret \<times> 'p app)" where
  "MPI_Allreduce e sendbuf recvbuf cnt datatype op comm =
     coll_wrapper e ''MPI_Allreduce''
       [Buffer sendbuf, Buffer recvbuf, Number cnt, Handle datatype, Handle op, Handle comm] None comm
       (\<lambda>s. (cnt * sz_of e s datatype, cnt * sz_of e s datatype))"

definition MPI_Barrier :: "'p wenv \<Rightarrow> nat \<Rightarrow> 'p app \<Rightarrow> vt_error + (pret \<times> 'p app)" where
  "MPI_Barrier e comm = coll_wrapper e ''MPI_Barrier'' [Handle comm] None comm (\<lambda>s. (0, 0))"

definition MPI_Bcast ::
  "'p wenv \<Rightarrow> nat \<Rightarrow> int \<Rightarrow> nat \<Rightarrow> int \<Rightarrow> nat \<Rightarrow> 'p app \<Rightarrow> vt_error + (pret \<times> 'p app)" where
  "MPI_Bcast e mbuf cnt datatype root comm =
     coll_wrapper e ''MPI_Bcast'' [Buffer mbuf, Number cnt, Handle datatype, Number root, Handle comm]
       (Some root) comm
       (\<lambda>s. let sendcount = (if me_of e s comm = root then cnt else 0)
            in (sendcount * sz_of e s datatype, cnt * sz_of e s datatype))"

definition MPI_Gather ::
  "'p wenv \<Rightarrow> nat \<Rightarrow> int \<Rightarrow> nat \<Rightarrow> nat \<Rightarrow> int \<Rightarrow> nat \<Rightarrow> int \<Rightarrow> nat \<Rightarrow> 'p app \<Rightarrow> vt_error + (pret \<times> 'p app)" where
  "MPI_Gather e sendbuf sendcount sendtype recvbuf recvcount recvtype root comm =
     coll_wrapper e ''MPI_Gather''
       [Buffer sendbuf, Number sendcount, Handle sendtype, Buffer recvbuf, Number recvcount, Handle recvtype,
        Number root, Handle comm] (Some root) comm
       (\<lambda>s. let (N, rsz) = (if me_of e s comm = root then (N_of e s comm, sz_of e s recvtype) else (0, 0))
            in (sendcount * sz_of e s sendtype, N * recvcount * rsz))"

definition MPI_Reduce ::
  "'p wenv \<Rightarrow> nat \<Rightarrow> nat \<Rightarrow> int \<Rightarrow> nat \<Rightarrow> nat \<Rightarrow> int \<Rightarrow> nat \<Rightarrow> 'p app \<Rightarrow> vt_error + (pret \<times> 'p app)" where
  "MPI_Reduce e sendbuf recvbuf cnt datatype op root comm =
     coll_wrapper e ''MPI_Reduce''
       [Buffer sendbuf, Buffer recvbuf, Number cnt, Handle datatype, Handle op, Number root, Handle comm]
       (Some root) comm
       (\<lambda>s. let recvcount = (if me_of e s comm = root then cnt else 0)
            in (cnt * sz_of e s datatype, recvcount * sz_of e s datatype))"

definition MPI_Gatherv ::
  "'p wenv \<Rightarrow> nat \<Rightarrow> int \<Rightarrow> nat \<Rightarrow> nat \<Rightarrow> int list \<Rightarrow> int list \<Rightarrow> nat \<Rightarrow> int \<Rightarrow> nat \<Rightarrow> 'p app \<Rightarrow>
   vt_error + (pret \<times> 'p app)" where
  "MPI_Gatherv e sendbuf sendcount sendtype recvbuf recvcounts displs recvtype root comm =
     coll_wrapper e ''MPI_Gatherv''
       [Buffer sendbuf, Number sendcount, Handle sendtype, Buffer recvbuf, Ints recvcounts, Ints displs,
        Handle recvtype, Number root, Handle comm] (Some root) comm
       (\<lambda>s. let (recvcount, recvsz) =
                  (if me_of e s comm = root then (sum_counts e s comm recvcounts, sz_of e s recvtype) else (0, 0))
            in (sendcount * sz_of e s sendtype, recvcount * recvsz))"

definition MPI_Allgather ::
  "'p wenv \<Rightarrow> nat \<Rightarrow> int \<Rightarrow> nat \<Rightarrow> nat \<Rightarrow> int \<Rightarrow> nat \<Rightarrow> nat \<Rightarrow> 'p app \<Rightarrow> vt_error + (pret \<times> 'p app)" where
  "MPI_Allgather e sendbuf sendcount sendtype recvbuf recvcount recvtype comm =
     coll_wrapper e ''MPI_Allgather''
       [Buffer sendbuf, Number sendcount, Handle sendtype, Buffer recvbuf, Number recvcount, Handle recvtype,
        Handle comm] None comm
       (\<lambda>s. (sendcount * sz_of e s sendtype, N_of e s comm * recvcount * sz_of e s recvtype))"

definition MPI_Allgatherv ::
  "'p wenv \<Rightarrow> nat \<Rightarrow> int \<Rightarrow> nat \<Rightarrow> nat \<Rightarrow> int list \<Rightarrow> int list \<Rightarrow> nat \<Rightarrow> nat \<Rightarrow> 'p app \<Rightarrow>
   vt_error + (pret \<times> 'p app)" where
  "MPI_Allgatherv e sendbuf sendcount sendtype recvbuf recvcounts displs recvtype comm =
     coll_wrapper e ''MPI_Allgatherv''
       [Buffer sendbuf, Number sendcount, Handle sendtype, Buffer recvbuf, Ints recvcounts, Ints displs,
        Handle recvtype, Handle comm] None comm
       (\<lambda>s. (sendcount * sz_of e s sendtype, sum_counts e s comm recvcounts * sz_of e s recvtype))"

definition MPI_Alltoall ::
  "'p wenv \<Rightarrow> nat \<Rightarrow> int \<Rightarrow> nat \<Rightarrow> nat \<Rightarrow> int \<Rightarrow> nat \<Rightarrow> nat \<Rightarrow> 'p app \<Rightarrow> vt_error + (pret \<times> 'p app)" where
  "MPI_Alltoall e sendbuf sendcount sendtype recvbuf recvcount recvtype comm =
     coll_wrapper e ''MPI_Alltoall''
       [Buffer sendbuf, Number sendcount, Handle sendtype, Buffer recvbuf, Number recvcount, Handle recvtype,
        Handle comm] None comm
       (\<lambda>s. (sz_of e s sendtype * sendcount * N_of e s comm, sz_of e s recvtype * recvcount * N_of e s comm))"

definition MPI_Alltoallv ::
  "'p wenv \<Rightarrow> nat \<Rightarrow> int list \<Rightarrow> int list \<Rightarrow> nat \<Rightarrow> nat \<Rightarrow> int list \<Rightarrow> int list \<Rightarrow> nat \<Rightarrow> nat \<Rightarrow> 'p app \<Rightarrow>
   vt_error + (pret \<times> 'p app)" where
  "MPI_Alltoallv e sendbuf sendcounts sdispls sendtype recvbuf recvcounts rdispls recvtype comm =
     coll_wrapper e ''MPI_Alltoallv''
       [Buffer sendbuf, Ints sendcounts, Ints sdispls, Handle sendtype, Buffer recvbuf, Ints recvcounts,
        Ints rdispls, Handle recvtype, Handle comm] None comm
       (\<lambda>s. (sz_of e s sendtype * sum_counts e s comm sendcounts,
             sz_of e s recvtype * sum_counts e s comm recvcounts))"

definition MPI_Scan ::
  "'p wenv \<Rightarrow> nat \<Rightarrow> nat \<Rightarrow> int \<Rightarrow> nat \<Rightarrow> nat \<Rightarrow> nat \<Rightarrow> 'p app \<Rightarrow> vt_error + (pret \<times> 'p app)" where
  "MPI_Scan e sendbuf recvbuf cnt datatype op comm =
     coll_wrapper e ''MPI_Scan''
       [Buffer sendbuf, Buffer recvbuf, Number cnt, Handle datatype, Handle op, Handle comm] None comm
       (\<lambda>s. (cnt * sz_of e s datatype, cnt * sz_of e s datatype))"

definition MPI_Scatter ::
  "'p wenv \<Rightarrow> nat \<Rightarrow> int \<Rightarrow> nat \<Rightarrow> nat \<Rightarrow> int \<Rightarrow> nat \<Rightarrow> int \<Rightarrow> nat \<Rightarrow> 'p app \<Rightarrow> vt_error + (pret \<times> 'p app)" where
  "MPI_Scatter e sendbuf sendcount sendtype recvbuf recvcount recvtype root comm =
     coll_wrapper e ''MPI_Scatter''
       [Buffer sendbuf, Number sendcount, Handle sendtype, Buffer recvbuf, Number recvcount, Handle recvtype,
        Number root, Handle comm] (Some root) comm
       (\<lambda>s. let (N, sendsz) = (if me_of e s comm = root then (N_of e s comm, sz_of e s sendtype) else (0, 0))
            in (N * sendcount * sendsz, recvcount * sz_of e s recvtype))"

definition MPI_Scatterv ::
  "'p wenv \<Rightarrow> nat \<Rightarrow> int list \<Rightarrow> int list \<Rightarrow> nat \<Rightarrow> nat \<Rightarrow> int \<Rightarrow> nat \<Rightarrow> int \<Rightarrow> nat \<Rightarrow> 'p app \<Rightarrow>
   vt_error + (pret \<times> 'p app)" where
  "MPI_Scatterv e sendbuf sendcounts displs sendtype recvbuf recvcount recvtype root comm =
     coll_wrapper e ''MPI_Scatterv''
       [Buffer sendbuf, Ints sendcounts, Ints displs, Handle sendtype, Buffer recvbuf, Number recvcount,
        Handle recvtype, Number root, Handle comm] (Some root) comm
       (\<lambda>s. let (sendcount, sendsz) =
                  (if me_of e s comm = root then (sum_counts e s comm sendcounts, sz_of e s sendtype) else (0, 0))
            in (sendcount * sendsz, recvcount * sz_of e s recvtype))"

definition MPI_Reduce_scatter ::
  "'p wenv \<Rightarrow> nat \<Rightarrow> nat \<Rightarrow> int list \<Rightarrow> nat \<Rightarrow> nat \<Rightarrow> nat \<Rightarrow> 'p app \<Rightarrow> vt_error + (pret \<times> 'p app)" where
  "MPI_Reduce_scatter e sendbuf recvbuf recvcounts datatype op comm =
     coll_wrapper e ''MPI_Reduce_scatter''
       [Buffer sendbuf, Buffer recvbuf, Ints recvcounts, Handle datatype, Handle op, Handle comm] None comm
       (\<lambda>s. (sum_counts e s comm recvcounts * sz_of e s datatype,
             recvcounts ! nat (me_of e s comm) * sz_of e s datatype))"

text \<open>Every partner of \<open>MPI_Alltoallw\<close> has its own datatypes.\<close>

definition MPI_Alltoallw ::
  "'p wenv \<Rightarrow> nat \<Rightarrow> int list \<Rightarrow> int list \<Rightarrow> nat list \<Rightarrow> nat \<Rightarrow> int list \<Rightarrow> int list \<Rightarrow> nat list \<Rightarrow> nat \<Rightarrow> 'p app \<Rightarrow>
   vt_error + (pret \<times> 'p app)" where
  "MPI_Alltoallw e sendbuf sendcounts sdispls sendtypes recvbuf recvcounts rdispls recvtypes comm =
     coll_wrapper e ''MPI_Alltoallw''
       [Buffer sendbuf, Ints sendcounts, Ints sdispls, Handles sendtypes, Buffer recvbuf, Ints recvcounts,
        Ints rdispls, Handles recvtypes, Handle comm] None comm
       (\<lambda>s. let n = nat (N_of e s comm);
                 total = \<lambda>types cnts. sum_list (map2 (\<lambda>t k. sz_of e s t * k) (take n types) (take n cnts))
            in (total sendtypes sendcounts, total recvtypes recvcounts))"

definition MPI_Exscan ::
  "'p wenv \<Rightarrow> nat \<Rightarrow> nat \<Rightarrow> int \<Rightarrow> nat \<Rightarrow> nat \<Rightarrow> nat \<Rightarrow> 'p app \<Rightarrow> vt_error + (pret \<times> 'p app)" where
  "MPI_Exscan e sendbuf recvbuf cnt datatype op comm =
     coll_wrapper e ''MPI_Exscan''
       [Buffer sendbuf, Buffer recvbuf, Number cnt, Handle datatype, Handle op, Handle comm] None comm
       (\<lambda>s. (cnt * sz_of e s datatype, cnt * sz_of e s datatype))"

section \<open>One-sided communication\<close>

definition win_id :: "'p wenv \<Rightarrow> nat \<Rightarrow> 'p app \<Rightarrow> vt_error + (nat \<times> u32 \<times> u32)" where
  "win_id e win s = or_abort (vt_win_id (mcom e (lib s)) win (com s))"

definition win_set_gid :: "'p wenv \<Rightarrow> nat \<Rightarrow> u32 \<Rightarrow> 'p app \<Rightarrow> vt_error + 'p app" where
  "win_set_gid e win gid s =
     andThen (or_abort (vt_win_set_gid (mcom e (lib s)) win gid (com s))) (\<lambda>c. Inr (s\<lparr>com := c\<rparr>))"

text \<open>What \<open>MPI_Put\<close> and \<open>MPI_Accumulate\<close> record.\<close>

definition rma_put :: "'p wenv \<Rightarrow> int \<Rightarrow> nat \<Rightarrow> int \<Rightarrow> nat \<Rightarrow> 'p app \<Rightarrow> vt_error + 'p app" where
  "rma_put e cnt datatype target win s =
     (if target \<noteq> MPI_PROC_NULL (mpi e (lib s)) \<and> was_recorded s then
        andThen (win_id e win s)
          (\<lambda>(comm, gid, wid).
             on_trc ((if is_rma_putre s then vt_mpi_rma_putre (cal e) else vt_mpi_rma_put (tenv e) (cal e))
                       (VT_RANK_TO_PE e s target comm) gid wid (bytes64 (sz_of e s datatype * cnt))) s)
      else Inr s)"

definition MPI_Put ::
  "'p wenv \<Rightarrow> nat \<Rightarrow> int \<Rightarrow> nat \<Rightarrow> int \<Rightarrow> int \<Rightarrow> int \<Rightarrow> nat \<Rightarrow> nat \<Rightarrow> 'p app \<Rightarrow> vt_error + (pret \<times> 'p app)" where
  "MPI_Put e origin origin_count origin_datatype target_rank target_disp target_count target_datatype win =
     wrapper e ''MPI_Put''
       [Buffer origin, Number origin_count, Handle origin_datatype, Number target_rank, Number target_disp,
        Number target_count, Handle target_datatype, Handle win] nothing
       (\<lambda>_ _ s. andThen (rma_put e origin_count origin_datatype target_rank win s) (\<lambda>s. Inr (take_time e s)))"

definition MPI_Get ::
  "'p wenv \<Rightarrow> nat \<Rightarrow> int \<Rightarrow> nat \<Rightarrow> int \<Rightarrow> int \<Rightarrow> int \<Rightarrow> nat \<Rightarrow> nat \<Rightarrow> 'p app \<Rightarrow> vt_error + (pret \<times> 'p app)" where
  "MPI_Get e origin origin_count origin_datatype target_rank target_disp target_count target_datatype win =
     wrapper e ''MPI_Get''
       [Buffer origin, Number origin_count, Handle origin_datatype, Number target_rank, Number target_disp,
        Number target_count, Handle target_datatype, Handle win] nothing
       (\<lambda>_ _ s. andThen
          (if target_rank \<noteq> MPI_PROC_NULL (mpi e (lib s)) \<and> was_recorded s then
             andThen (win_id e win s)
               (\<lambda>(comm, gid, wid).
                  on_trc (vt_mpi_rma_get (cal e) (VT_RANK_TO_PE e s target_rank comm) gid wid
                            (bytes64 (target_count * sz_of e s target_datatype))) s)
           else Inr s)
          (\<lambda>s. Inr (take_time e s)))"

definition MPI_Accumulate ::
  "'p wenv \<Rightarrow> nat \<Rightarrow> int \<Rightarrow> nat \<Rightarrow> int \<Rightarrow> int \<Rightarrow> int \<Rightarrow> nat \<Rightarrow> nat \<Rightarrow> nat \<Rightarrow> 'p app \<Rightarrow>
   vt_error + (pret \<times> 'p app)" where
  "MPI_Accumulate e origin origin_count origin_datatype target_rank target_disp target_count target_datatype op win =
     wrapper e ''MPI_Accumulate''
       [Buffer origin, Number origin_count, Handle origin_datatype, Number target_rank, Number target_disp,
        Number target_count, Handle target_datatype, Handle op, Handle win] nothing
       (\<lambda>_ _ s. andThen (rma_put e origin_count origin_datatype target_rank win s) (\<lambda>s. Inr (take_time e s)))"

definition rma_end :: "'p wenv \<Rightarrow> u32 \<Rightarrow> u32 \<Rightarrow> 'p app \<Rightarrow> vt_error + 'p app" where
  "rma_end e gid wid = on_trc (vt_mpi_rma_end (cal e) gid wid)"

definition MPI_Win_fence :: "'p wenv \<Rightarrow> int \<Rightarrow> nat \<Rightarrow> 'p app \<Rightarrow> vt_error + (pret \<times> 'p app)" where
  "MPI_Win_fence e assert win =
     wrapper e ''MPI_Win_fence'' [Number assert, Handle win] nothing
       (\<lambda>_ _ s. let s = take_time e s
                in if was_recorded s
                   then andThen (win_id e win s) (\<lambda>(comm, gid, wid). rma_end e gid wid s)
                   else Inr s)"

text \<open>The group of the exposure or access epoch becomes the group of the window.\<close>

definition group_wrapper :: "'p wenv \<Rightarrow> string \<Rightarrow> nat \<Rightarrow> int \<Rightarrow> nat \<Rightarrow> 'p app \<Rightarrow> vt_error + (pret \<times> 'p app)" where
  "group_wrapper e fn grp assert win =
     wrapper e fn [Handle grp, Number assert, Handle win] nothing
       (\<lambda>_ _ s. andThen (or_abort (vt_group_id grp (com s)))
          (\<lambda>gid. andThen (win_set_gid e win gid s) (\<lambda>s. Inr (take_time e s))))"

definition MPI_Win_start :: "'p wenv \<Rightarrow> nat \<Rightarrow> int \<Rightarrow> nat \<Rightarrow> 'p app \<Rightarrow> vt_error + (pret \<times> 'p app)" where
  "MPI_Win_start e = group_wrapper e ''MPI_Win_start''"

definition MPI_Win_post :: "'p wenv \<Rightarrow> nat \<Rightarrow> int \<Rightarrow> nat \<Rightarrow> 'p app \<Rightarrow> vt_error + (pret \<times> 'p app)" where
  "MPI_Win_post e = group_wrapper e ''MPI_Win_post''"

text \<open>The window gets the group of its communicator back.\<close>

definition back_to_comm :: "'p wenv \<Rightarrow> nat \<Rightarrow> nat \<Rightarrow> 'p app \<Rightarrow> vt_error + 'p app" where
  "back_to_comm e win comm s = andThen (VT_COMM_ID e s comm) (\<lambda>cid. win_set_gid e win cid s)"

definition MPI_Win_complete :: "'p wenv \<Rightarrow> nat \<Rightarrow> 'p app \<Rightarrow> vt_error + (pret \<times> 'p app)" where
  "MPI_Win_complete e win =
     wrapper e ''MPI_Win_complete'' [Handle win] nothing
       (\<lambda>_ _ s. let s = take_time e s
                in andThen (win_id e win s) (\<lambda>(comm, gid, wid).
                   andThen (if was_recorded s
                            then andThen (on_trc (vt_comment (cal e) ''__RMASPECIALGROUP__'') s) (rma_end e gid wid)
                            else Inr s)
                     (back_to_comm e win comm)))"

definition MPI_Win_wait :: "'p wenv \<Rightarrow> nat \<Rightarrow> 'p app \<Rightarrow> vt_error + (pret \<times> 'p app)" where
  "MPI_Win_wait e win =
     wrapper e ''MPI_Win_wait'' [Handle win] nothing
       (\<lambda>_ _ s. let s = take_time e s
                in andThen (win_id e win s) (\<lambda>(comm, gid, wid).
                   andThen (if was_recorded s then rma_end e gid wid s else Inr s) (back_to_comm e win comm)))"

definition MPI_Win_test :: "'p wenv \<Rightarrow> nat \<Rightarrow> 'p app \<Rightarrow> vt_error + (pret \<times> 'p app)" where
  "MPI_Win_test e win =
     wrapper e ''MPI_Win_test'' [Handle win] nothing
       (\<lambda>_ r s. let s = take_time e s
                in andThen (win_id e win s) (\<lambda>(comm, gid, wid).
                   andThen (if out_flag r \<and> was_recorded s then rma_end e gid wid s else Inr s)
                     (if out_flag r then back_to_comm e win comm else Inr)))"

definition MPI_Win_lock :: "'p wenv \<Rightarrow> int \<Rightarrow> int \<Rightarrow> int \<Rightarrow> nat \<Rightarrow> 'p app \<Rightarrow> vt_error + (pret \<times> 'p app)" where
  "MPI_Win_lock e lock_type rank assert win =
     wrapper e ''MPI_Win_lock'' [Number lock_type, Number rank, Number assert, Handle win] nothing
       (\<lambda>_ _ s. Inr (take_time e (s\<lparr>is_rma_putre := False\<rparr>)))"

definition MPI_Win_unlock :: "'p wenv \<Rightarrow> int \<Rightarrow> nat \<Rightarrow> 'p app \<Rightarrow> vt_error + (pret \<times> 'p app)" where
  "MPI_Win_unlock e rank win =
     wrapper e ''MPI_Win_unlock'' [Number rank, Handle win] nothing
       (\<lambda>_ _ s. let s = take_time e s
                in if was_recorded s then
                     andThen (win_id e win s) (\<lambda>(comm, gid, wid).
                     andThen (rma_end e gid wid s) (\<lambda>s. Inr (s\<lparr>is_rma_putre := True\<rparr>)))
                   else Inr s)"

end
