(* ===== verification/RegionTrace.thy ===== *)
theory RegionTrace
  imports Trc Writers
begin

unbundle bit_operations_syntax

text \<open>
  The regions of a program as the tracing core records them (\<open>vt_enter\<close>, \<open>vt_exit\<close>,
  \<open>vt_trace_off\<close>, \<open>vt_trace_on\<close> of \<open>vtlib/vt_trc.c\<close> with the call stack of \<open>rfg/rfg_regions.c\<close> and
  the writers of \<open>vtlib/vt_otf_gen.c\<close>), against a specification on call trees: call limits, the
  depth limit and the switch of the tracing decide which calls are in the trace.
\<close>

section \<open>Appending to the buffer\<close>

fun puts :: "entry list \<Rightarrow> VTBuf \<Rightarrow> VTBuf" where
  "puts [] b = b"
| "puts (e # es) b = puts es (b\<lparr>mem := (mem b)(pos b \<mapsto> (e, unat (entry_length e))),
     pos := pos b + unat (entry_length e)\<rparr>)"

definition lengths :: "entry list \<Rightarrow> nat" where
  "lengths es = sum_list (map (\<lambda>e. unat (entry_length e)) es)"

lemma lengths_simps [simp]: "lengths [] = 0" "lengths (e # es) = unat (entry_length e) + lengths es"
  "lengths (es @ fs) = lengths es + lengths fs"
  by (simp_all add: lengths_def)

lemma puts_append [simp]: "puts (es @ fs) b = puts fs (puts es b)"
  by (induction es arbitrary: b) auto

lemma puts_fields [simp]:
  "pos (puts es b) = pos b + lengths es" "buf_size (puts es b) = buf_size b" "cap (puts es b) = cap b"
  by (induction es arbitrary: b) auto

definition room :: "entry list \<Rightarrow> VTBuf \<Rightarrow> bool" where
  "room es b \<longleftrightarrow> pos b + lengths es \<le> unat (buf_size b) \<and> unat (buf_size b) \<le> cap b"

lemma room_append: "room (es @ fs) b \<longleftrightarrow> room es b \<and> room fs (puts es b)"
  by (auto simp: room_def)

lemma puts_holds:
  "buf_holds b fs \<Longrightarrow> \<forall>e \<in> set es. sized e \<Longrightarrow> room es b \<Longrightarrow> buf_holds (puts es b) (fs @ es)"
proof (induction es arbitrary: b fs)
  case (Cons e es)
  let ?b = "puts [e] b"
  have "buf_holds ?b (fs @ [e])"
    using Cons.prems by (auto simp: buf_holds_def holds_append holds_upd room_def)
  moreover have "room es ?b"
    using Cons.prems(3) room_append [of "[e]" es b] by simp
  ultimately show ?case
    using Cons.IH [of ?b "fs @ [e]"] Cons.prems(2) by simp
qed simp

lemma room_not_full:
  assumes "room [e] b"
  shows "\<not> buf_full (entry_length e) b" and "put_entry e b = Some (puts [e] b)"
proof -
  have "pos b < 2 ^ 64"
    using assms unsigned_less [of "buf_size b", where 'a = nat] by (simp add: room_def)
  then show "\<not> buf_full (entry_length e) b"
    using assms buf_full_iff [of "entry_length e" b] by (simp add: room_def)
  show "put_entry e b = Some (puts [e] b)"
    using assms by (simp add: put_entry_def room_def Let_def)
qed

lemma write_event_room:
  "room [mk t] (buf (gen s)) \<Longrightarrow> write_event c mk t s = Inr (True, t, set_buf (puts [mk t] (buf (gen s))) s)"
  using room_not_full [of "mk t" "buf (gen s)"]
  by (simp add: write_event_def alloc_event_def write_entry_def)

lemma write_def_puts:
  "room [Def d] (buf (gen s)) \<Longrightarrow> write_def env c d s = Inr (set_buf (puts [Def d] (buf (gen s))) s)"
  using room_not_full [of "Def d" "buf (gen s)"]
  by (simp add: write_def_def alloc_def_def write_entry_def)

section \<open>The specification\<close>

text \<open>What the tracer remembers: the regions, the level, the id of the marker, and the next id.\<close>

record tracer =
  tab :: "u32 \<Rightarrow> RFG_RegionInfo option"
  level :: int
  hint_mid :: u32
  next_id :: u32

definition tracer_of :: "vt \<Rightarrow> tracer" where
  "tracer_of s = \<lparr>tab = hash_get (htab (the (rfg_regions s))), level = stack_level s,
     hint_mid = trc_mid s VT__TRC_MARKER_HINT, next_id = curid s\<rparr>"

text \<open>
  Entering a region when \<open>on\<close> tells whether calls are recorded: the limit is counted down; the
  call that reaches 1 is announced by a marker, whose id is defined the first time; a call whose
  limit has reached 0 is not recorded.
\<close>

definition hint_entries :: "env \<Rightarrow> RFG_RegionInfo \<Rightarrow> u64 \<Rightarrow> tracer \<Rightarrow> entry list" where
  "hint_entries env info t a =
     (if hint_mid a = VT_NO_ID then [Def (DefMarker (next_id a) VT_MARKER_HINT ''VampirTrace'')] else [])
     @ [Event (Marker t (if hint_mid a = VT_NO_ID then next_id a else hint_mid a)
          (take 4095 (vsnprintf0 env (filter_marktext info))))]"

definition spec_enter :: "env \<Rightarrow> bool \<Rightarrow> u32 \<Rightarrow> u64 \<Rightarrow> tracer \<Rightarrow> bool \<times> entry list \<times> tracer" where
  "spec_enter env on rid t a =
     (let a = a\<lparr>level := level a + 1\<rparr>;
          on = (on \<and> level a \<le> max_stack_depth env);
          info = counted on (the (tab a rid));
          hint = (on \<and> callLimitCD info = 1);
          rec = (on \<and> callLimitCD info \<noteq> 0);
          first = (hint \<and> hint_mid a = VT_NO_ID)
      in (rec,
          (if hint then hint_entries env info t a else []) @ (if rec then [Event (Enter t rid 0)] else []),
          a\<lparr>tab := (tab a)(rid \<mapsto> info), hint_mid := (if first then next_id a else hint_mid a),
            next_id := (if first then next_id a + 1 else next_id a)\<rparr>))"

fun spec_calls :: "env \<Rightarrow> bool \<Rightarrow> call list \<Rightarrow> tracer \<Rightarrow> entry list \<times> tracer" where
  "spec_calls env on [] a = ([], a)"
| "spec_calls env on (Call rid t cs u # ds) a =
     (let (rec, es, a) = spec_enter env on rid t a;
          (es', a) = spec_calls env on cs a;
          (es'', a) = spec_calls env on ds (a\<lparr>level := level a - 1\<rparr>)
      in (es @ es' @ (if rec then [Event (Leave u 0 0)] else []) @ es'', a))"

section \<open>The code\<close>

fun run_calls :: "env \<Rightarrow> callees \<Rightarrow> call list \<Rightarrow> vt \<Rightarrow> vt_error + vt" where
  "run_calls env c [] s = Inr s"
| "run_calls env c (Call rid t cs u # ds) s =
     andThen (vt_enter env c rid t s)
       (\<lambda>(_, _, s). andThen (run_calls env c cs s)
         (\<lambda>s. andThen (vt_exit env c u s) (\<lambda>(_, s). run_calls env c ds s)))"

fun height :: "call list \<Rightarrow> nat" where
  "height [] = 0"
| "height (Call rid t cs u # ds) = max (Suc (height cs)) (height ds)"

fun regions_in :: "call list \<Rightarrow> u32 set" where
  "regions_in [] = {}"
| "regions_in (Call rid t cs u # ds) = insert rid (regions_in cs \<union> regions_in ds)"

text \<open>The state of a tracer that can take calls nested up to the depth \<open>h\<close>.\<close>

definition stack_fits :: "nat \<Rightarrow> RFG_RegionStack \<Rightarrow> bool" where
  "stack_fits h st \<longleftrightarrow> stack_ok st \<and> ssize st < 2147483648 \<and> spos st + int h + int CSTACK_BSIZE < 2147483647"

definition tracer_ok :: "nat \<Rightarrow> vt \<Rightarrow> bool" where
  "tracer_ok h s \<longleftrightarrow> trace_status s \<noteq> VT_TRACE_OFF_PERMANENT \<and> trace_on s \<and> \<not> sum_on s
     \<and> (\<exists>r. rfg_regions s = Some r \<and> stack_fits h (rstack r))"

lemma stack_room_size:
  assumes "stack_ok st" and "ssize st < 2147483648"
  shows "ssize (stack_room st) \<le> max (ssize st) (nat (spos st + 1) + CSTACK_BSIZE)"
  using assms wrap32_id [of "int (ssize st)"]
  by (auto simp: stack_room_def stack_enlarge_def)

lemma push_fits:
  assumes "stack_fits (Suc h) st"
  shows "stack_fits h (stack_write (stack_room st) e)"
    and "stack_abs (stack_write (stack_room st) e) = stack_abs st @ [e]"
    and "spos (stack_write (stack_room st) e) = spos st + 1"
proof -
  have st: "stack_ok st" "ssize st < 2147483648"
    using assms by (simp_all add: stack_fits_def)
  note room = stack_room_ok [OF st]
  have "stack_ok (stack_write (stack_room st) e)"
    using room by (simp add: stack_write_ok)
  moreover have "ssize (stack_write (stack_room st) e) < 2147483648"
    using stack_room_size [OF st] assms by (auto simp: stack_write_def stack_fits_def)
  ultimately show "stack_fits h (stack_write (stack_room st) e)"
    using assms room(3) by (simp add: stack_fits_def stack_write_def)
  show "stack_abs (stack_write (stack_room st) e) = stack_abs st @ [e]"
    using room by (simp add: stack_write_ok)
  show "spos (stack_write (stack_room st) e) = spos st + 1"
    using room(3) by (simp add: stack_write_def)
qed

text \<open>The marker of a call limit.\<close>

lemma write_marker_room:
  "trace_on s \<Longrightarrow> room [Event (Marker t m x)] (buf (gen s)) \<Longrightarrow>
   VTGen_write_MARKER c m x t s = Inr (t, set_buf (puts [Event (Marker t m x)] (buf (gen s))) s)"
  using write_event_room [of "\<lambda>t. Event (Marker t m x)" t s c]
  by (simp add: VTGen_write_MARKER_def trace_event_def without_sum_def del: puts.simps)

lemma marker_hint_room:
  assumes on: "trace_status s = VT_TRACE_ON" "trace_on s"
    and es: "room (hint_entries env info t (tracer_of s)) (buf (gen s))"
  defines "first \<equiv> trc_mid s VT__TRC_MARKER_HINT = VT_NO_ID"
  shows "vt_marker_hint env c (vsnprintf0 env (filter_marktext info)) t s = Inr (t,
    set_buf (puts (hint_entries env info t (tracer_of s)) (buf (gen s)))
      (if first then s\<lparr>curid := curid s + 1, trc_mid := (trc_mid s)(VT__TRC_MARKER_HINT := curid s)\<rparr> else s))"
proof (cases first)
  case True
  let ?d = "DefMarker (curid s) VT_MARKER_HINT ''VampirTrace''"
    and ?m = "Event (Marker t (curid s) (take 4095 (vsnprintf0 env (filter_marktext info))))"
  define s1 where "s1 = set_buf (puts [Def ?d] (buf (gen s))) (s\<lparr>curid := curid s + 1\<rparr>)"
  define s2 where "s2 = s1\<lparr>trc_mid := (trc_mid s1)(VT__TRC_MARKER_HINT := curid s)\<rparr>"
  have hint: "hint_entries env info t (tracer_of s) = [Def ?d, ?m]"
    using True by (simp add: hint_entries_def tracer_of_def first_def)
  then have rooms: "room [Def ?d] (buf (gen s))" "room [?m] (buf (gen s2))" and on2: "trace_on s2"
    using es room_append [of "[Def ?d]" "[?m]" "buf (gen s)"] on(2) by (simp_all add: s2_def s1_def trace_on_def)
  have "vt_def_marker env c ''VampirTrace'' VT_MARKER_HINT s = Inr (curid s, s1)"
    using write_def_puts [of ?d "s\<lparr>curid := curid s + 1\<rparr>" env c] rooms(1)
    by (simp add: vt_def_marker_def vt_get_curid_def VTGen_write_DEF_MARKER_def s1_def)
  then have "vt_marker_hint env c (vsnprintf0 env (filter_marktext info)) t s =
      VTGen_write_MARKER c (curid s) (take 4095 (vsnprintf0 env (filter_marktext info))) t s2"
    using True on by (simp add: vt_marker_hint_def vt_marker_internal_def first_def s2_def)
  also have "\<dots> = Inr (t, set_buf (puts [?m] (buf (gen s2))) s2)"
    by (rule write_marker_room) (fact on2 rooms(2))+
  finally show ?thesis
    using True by (simp add: hint s2_def s1_def)
next
  case False
  let ?m = "Event (Marker t (trc_mid s VT__TRC_MARKER_HINT) (take 4095 (vsnprintf0 env (filter_marktext info))))"
  have hint: "hint_entries env info t (tracer_of s) = [?m]"
    using False by (simp add: hint_entries_def tracer_of_def first_def)
  have "vt_marker_hint env c (vsnprintf0 env (filter_marktext info)) t s =
      VTGen_write_MARKER c (trc_mid s VT__TRC_MARKER_HINT) (take 4095 (vsnprintf0 env (filter_marktext info))) t s"
    using False on by (simp add: vt_marker_hint_def vt_marker_internal_def first_def)
  also have "\<dots> = Inr (t, set_buf (puts [?m] (buf (gen s))) s)"
    using es by (intro write_marker_room on) (simp add: hint)
  finally show ?thesis
    using False by (simp add: hint)
qed

section \<open>Entering and leaving\<close>

abbreviation callstack :: "vt \<Rightarrow> RFG_RegionStackEntry list" where
  "callstack s \<equiv> stack_abs (rstack (the (rfg_regions s)))"

text \<open>What neither call changes.\<close>

definition same_rest :: "vt \<Rightarrow> vt \<Rightarrow> bool" where
  "same_rest s s' \<longleftrightarrow> otf s' = otf s \<and> trace_status s' = trace_status s \<and> vt_is_alive s' = vt_is_alive s
     \<and> stack_level_at_off s' = stack_level_at_off s \<and> ticks s' = ticks s
     \<and> rewind_pos (gen s') = rewind_pos (gen s) \<and> rewind_time (gen s') = rewind_time (gen s)
     \<and> stack_level_at_rewind_mark s' = stack_level_at_rewind_mark s"

lemma same_rest_trans: "same_rest s t \<Longrightarrow> same_rest t u \<Longrightarrow> same_rest s u"
  by (simp add: same_rest_def)

lemma write_region_room:
  assumes "trace_on s" and "\<not> sum_on s"
  shows "room [Event (Enter t r 0)] (buf (gen s)) \<Longrightarrow>
      VTGen_write_ENTER c r 0 t s = Inr (t, set_buf (puts [Event (Enter t r 0)] (buf (gen s))) s)"
    and "room [Event (Leave t 0 0)] (buf (gen s)) \<Longrightarrow>
      VTGen_write_LEAVE c 0 0 t s = Inr (t, set_buf (puts [Event (Leave t 0 0)] (buf (gen s))) s)"
  using assms write_event_room [of "\<lambda>t. Event (Enter t r 0)" t s c] write_event_room [of "\<lambda>t. Event (Leave t 0 0)" t s c]
  by (simp_all add: VTGen_write_ENTER_def VTGen_write_LEAVE_def trace_event_def with_sum_def sum_prop_on_def
      sum_on_def del: puts.simps)

lemma enter_spec:
  assumes ok: "tracer_ok (Suc h) s" and known: "tab (tracer_of s) rid \<noteq> None"
    and sp: "spec_enter env (trace_status s = VT_TRACE_ON) rid t (tracer_of s) = (rec, es, a)"
    and rm: "room es (buf (gen s))"
  shows "\<exists>s'. vt_enter env c rid t s = Inr (rec, t, s') \<and> tracer_ok h s' \<and> tracer_of s' = a
    \<and> buf (gen s') = puts es (buf (gen s)) \<and> same_rest s s'
    \<and> callstack s' = callstack s @ [\<lparr>rinf = rid, climitbypush = callLimitCD (the (tab a rid))\<rparr>]"
proof -
  obtain r where r: "rfg_regions s = Some r" "stack_fits (Suc h) (rstack r)"
    using ok by (auto simp: tracer_ok_def)
  obtain n where n: "hash_get (htab r) rid = Some n"
    using known r by (auto simp: tracer_of_def)
  define on where "on = (trace_status s = VT_TRACE_ON \<and> stack_level s + 1 \<le> max_stack_depth env)"
  define info where "info = counted on n"
  obtain tb where push: "RFG_Regions_stackPush (Some r) rid on = (True, Some (r\<lparr>rstack :=
        stack_write (stack_room (rstack r)) \<lparr>rinf = rid, climitbypush = callLimitCD info\<rparr>, htab := tb\<rparr>), Some info)"
      and tb: "\<And>k. hash_get tb k = (if k = rid then Some info else hash_get (htab r) k)"
    using push_eq [OF n, of on] unfolding info_def by blast
  define r1 where "r1 = r\<lparr>rstack := stack_write (stack_room (rstack r)) \<lparr>rinf = rid, climitbypush = callLimitCD info\<rparr>, htab := tb\<rparr>"
  define s1 where "s1 = s\<lparr>stack_level := stack_level s + 1, rfg_regions := Some r1\<rparr>"
  have tab: "hash_get tb = (hash_get (htab r))(rid \<mapsto> info)"
    using tb by auto
  define hint where "hint = (on \<and> callLimitCD info = 1)"
  define first where "first = (hint \<and> trc_mid s VT__TRC_MARKER_HINT = VT_NO_ID)"
  have hints: "hint_entries env info t (tracer_of s1) = hint_entries env info t ((tracer_of s)\<lparr>level := stack_level s + 1\<rparr>)"
    by (simp add: hint_entries_def tracer_of_def s1_def)
  have rec: "rec = (on \<and> callLimitCD info \<noteq> 0)"
    and es: "es = (if hint then hint_entries env info t (tracer_of s1) else []) @ (if rec then [Event (Enter t rid 0)] else [])"
    and a: "a = \<lparr>tab = (hash_get (htab r))(rid \<mapsto> info), level = stack_level s + 1,
      hint_mid = (if first then curid s else trc_mid s VT__TRC_MARKER_HINT),
      next_id = (if first then curid s + 1 else curid s)\<rparr>"
    using sp n r(1) unfolding hints
    by (auto simp: spec_enter_def Let_def tracer_of_def on_def info_def hint_def first_def)
  define s2 where "s2 = (if first then s1\<lparr>curid := curid s + 1, trc_mid := (trc_mid s)(VT__TRC_MARKER_HINT := curid s)\<rparr> else s1)"
  define b2 where "b2 = puts (if hint then hint_entries env info t (tracer_of s1) else []) (buf (gen s))"
  have rooms: "room (if hint then hint_entries env info t (tracer_of s1) else []) (buf (gen s))"
      "room (if rec then [Event (Enter t rid 0)] else []) b2"
    using rm room_append by (auto simp: es b2_def)
  have on1: "on \<Longrightarrow> trace_status s1 = VT_TRACE_ON" "trace_on s1" "\<not> sum_on s1"
    using ok by (simp_all add: s1_def on_def tracer_ok_def trace_on_def sum_on_def)
  have marker: "(if on \<and> callLimitCD info = 1
      then vt_marker_hint env c (vsnprintf0 env (filter_marktext info)) t s1 else Inr (t, s1)) = Inr (t, set_buf b2 s2)"
    using marker_hint_room [of s1 env info t c] on1 rooms(1)
    by (auto simp: hint_def b2_def s2_def first_def s1_def)
  have "trace_on (set_buf b2 s2)" "\<not> sum_on (set_buf b2 s2)"
    using on1 by (simp_all add: s2_def trace_on_def sum_on_def)
  then have enter: "(if on \<and> callLimitCD info \<noteq> 0
      then andThen (VTGen_write_ENTER c rid 0 t (set_buf b2 s2)) (\<lambda>(t, s). Inr (True, t, s))
      else Inr (False, t, set_buf b2 s2)) = Inr (rec, t, set_buf (puts es (buf (gen s))) s2)"
    using write_region_room(1) [of "set_buf b2 s2" t rid c] rooms(2) rec
    by (auto simp: es b2_def)
  define s' where "s' = set_buf (puts es (buf (gen s))) s2"
  have s2f: "gen s2 = gen s" "stack_level s2 = stack_level s + 1" "rfg_regions s2 = Some r1" "otf s2 = otf s"
      "trace_status s2 = trace_status s" "vt_is_alive s2 = vt_is_alive s"
      "stack_level_at_off s2 = stack_level_at_off s" "ticks s2 = ticks s"
      "stack_level_at_rewind_mark s2 = stack_level_at_rewind_mark s"
      "curid s2 = (if first then curid s + 1 else curid s)"
      "trc_mid s2 VT__TRC_MARKER_HINT = (if first then curid s else trc_mid s VT__TRC_MARKER_HINT)"
    by (simp_all add: s2_def s1_def)
  have "vt_enter env c rid t s = andThen (if on \<and> callLimitCD info = 1
      then vt_marker_hint env c (vsnprintf0 env (filter_marktext info)) t s1 else Inr (t, s1))
      (\<lambda>(t, s). if on \<and> callLimitCD info \<noteq> 0
        then andThen (VTGen_write_ENTER c rid 0 t s) (\<lambda>(t, s). Inr (True, t, s)) else Inr (False, t, s))"
    using ok push r(1)
    by (simp add: vt_enter_def tracer_ok_def Let_def on_def [symmetric] s1_def [symmetric] r1_def [symmetric]
        split del: if_split cong: if_cong)
  also have "\<dots> = Inr (rec, t, s')"
    unfolding marker andThen_simps prod.case enter s'_def ..
  finally have "vt_enter env c rid t s = Inr (rec, t, s')" .
  moreover have "tracer_ok h s'"
    using ok push_fits(1) [OF r(2)] by (simp add: tracer_ok_def s'_def s2f r1_def trace_on_def sum_on_def)
  moreover have "tracer_of s' = a"
    by (simp add: tracer_of_def s'_def s2f a r1_def tab)
  moreover have "same_rest s s'"
    by (simp add: same_rest_def s'_def s2f)
  moreover have "callstack s' = callstack s @ [\<lparr>rinf = rid, climitbypush = callLimitCD (the (tab a rid))\<rparr>]"
    using push_fits(2) [OF r(2)] by (simp add: s'_def s2f r1_def r(1) a)
  ultimately show ?thesis
    by (intro exI [of _ s']) (simp add: s'_def s2f)
qed

lemma exit_spec:
  assumes ok: "tracer_ok h s" and st: "callstack s = st @ [e]"
    and rec: "rec = (trace_status s = VT_TRACE_ON \<and> stack_level s \<le> max_stack_depth env \<and> climitbypush e \<noteq> 0)"
    and rm: "room (if rec then [Event (Leave u 0 0)] else []) (buf (gen s))"
  shows "\<exists>s'. vt_exit env c u s = Inr (u, s') \<and> tracer_ok (Suc h) s'
    \<and> tracer_of s' = (tracer_of s)\<lparr>level := stack_level s - 1\<rparr>
    \<and> buf (gen s') = puts (if rec then [Event (Leave u 0 0)] else []) (buf (gen s)) \<and> same_rest s s' \<and> callstack s' = st"
proof -
  obtain r where r: "rfg_regions s = Some r" "stack_fits h (rstack r)"
    using ok by (auto simp: tracer_ok_def)
  have ne: "stack_ok (rstack r)" "spos (rstack r) \<noteq> - 1"
    using r st stack_empty_iff [of "rstack r"] by (auto simp: stack_fits_def)
  note top = stack_top [OF ne]
  define r1 where "r1 = r\<lparr>rstack := (rstack r)\<lparr>spos := spos (rstack r) - 1\<rparr>\<rparr>"
  have pop: "RFG_Regions_stackPop (Some r) = (True, Some r1, Some e)"
    using ne top(2) st r(1) by (simp add: RFG_Regions_stackPop_def r1_def)
  have fits: "stack_fits (Suc h) (rstack r1)"
    using r(2) top(3) by (simp add: stack_fits_def r1_def)
  define s1 where "s1 = s\<lparr>stack_level := stack_level s - 1, rfg_regions := Some r1\<rparr>"
  define s' where "s' = set_buf (puts (if rec then [Event (Leave u 0 0)] else []) (buf (gen s))) s1"
  have "trace_on s1" "\<not> sum_on s1" "gen s1 = gen s"
    using ok by (simp_all add: s1_def tracer_ok_def trace_on_def sum_on_def)
  then have leave: "(if rec then VTGen_write_LEAVE c 0 0 u s1 else Inr (u, s1)) = Inr (u, s')"
    using write_region_room(2) [of s1 u c] rm by (auto simp: s'_def)
  have "vt_exit env c u s = (if rec then VTGen_write_LEAVE c 0 0 u s1 else Inr (u, s1))"
    using ok pop r(1)
    by (simp add: vt_exit_def tracer_ok_def Let_def rec s1_def [symmetric] split del: if_split cong: if_cong)
  then have "vt_exit env c u s = Inr (u, s')"
    by (simp only: leave)
  moreover have "tracer_ok (Suc h) s'" "tracer_of s' = (tracer_of s)\<lparr>level := stack_level s - 1\<rparr>" "callstack s' = st"
    using ok fits top(4) st r(1)
    by (simp_all add: tracer_ok_def s'_def s1_def trace_on_def sum_on_def tracer_of_def r1_def)
  moreover have "same_rest s s'" "buf (gen s') = puts (if rec then [Event (Leave u 0 0)] else []) (buf (gen s))"
    by (simp_all add: s'_def s1_def same_rest_def)
  ultimately show ?thesis
    by blast
qed

lemma spec_enter_fields:
  "spec_enter env on rid t a = (rec, es, a') \<Longrightarrow>
   level a' = level a + 1 \<and> dom (tab a') = insert rid (dom (tab a))
     \<and> rec = (on \<and> level a + 1 \<le> max_stack_depth env \<and> callLimitCD (the (tab a' rid)) \<noteq> 0)"
  by (auto simp: spec_enter_def Let_def)

lemma spec_calls_fields:
  "level (snd (spec_calls env on cs a)) = level a \<and> dom (tab (snd (spec_calls env on cs a))) = regions_in cs \<union> dom (tab a)"
proof (induction env on cs a rule: spec_calls.induct)
  case (2 env on rid t cs u ds a)
  obtain rec es a1 where e: "spec_enter env on rid t a = (rec, es, a1)"
    using prod_cases3 by blast
  obtain es1 a2 where c: "spec_calls env on cs a1 = (es1, a2)"
    by fastforce
  obtain es2 a3 where d: "spec_calls env on ds (a2\<lparr>level := level a2 - 1\<rparr>) = (es2, a3)"
    by fastforce
  have eq: "snd (spec_calls env on (Call rid t cs u # ds) a) = a3"
    by (simp add: e c d)
  show ?case
    using 2(1) [OF e [symmetric] refl refl] 2(2) [OF e [symmetric] refl refl c [symmetric] refl] spec_enter_fields [OF e]
    unfolding eq c d by auto
qed simp

text \<open>
  The code runs as the specification says, as long as the buffer has room: this is a simulation
  of \<open>spec_calls\<close> by \<open>vt_enter\<close> and \<open>vt_exit\<close>, with the abstraction \<open>tracer_of\<close>.
\<close>

lemma run_calls_spec:
  "tracer_ok h s \<Longrightarrow> height cs \<le> h \<Longrightarrow> regions_in cs \<subseteq> dom (tab (tracer_of s)) \<Longrightarrow>
   spec_calls env (trace_status s = VT_TRACE_ON) cs (tracer_of s) = (es, a) \<Longrightarrow> room es (buf (gen s)) \<Longrightarrow>
   \<exists>s'. run_calls env c cs s = Inr s' \<and> tracer_ok h s' \<and> tracer_of s' = a
     \<and> buf (gen s') = puts es (buf (gen s)) \<and> same_rest s s' \<and> callstack s' = callstack s"
proof (induction env c cs s arbitrary: h es a rule: run_calls.induct)
  case (1 env c s)
  then show ?case
    by (auto simp: same_rest_def)
next
  case (2 env c rid t cs u ds s)
  let ?on = "trace_status s = VT_TRACE_ON"
  obtain h' where h: "h = Suc h'" "height cs \<le> h'" "height ds \<le> h"
    using 2(4) by (cases h) auto
  obtain rec es0 a0 where e: "spec_enter env ?on rid t (tracer_of s) = (rec, es0, a0)"
    using prod_cases3 by blast
  obtain es1 a1 where c: "spec_calls env ?on cs a0 = (es1, a1)"
    by fastforce
  obtain es2 a2 where d: "spec_calls env ?on ds (a1\<lparr>level := level a1 - 1\<rparr>) = (es2, a2)"
    by fastforce
  let ?l = "if rec then [Event (Leave u 0 0)] else []"
  have es: "es = es0 @ es1 @ ?l @ es2" and a: "a = a2"
    using 2(6) by (simp_all add: e c d)
  note f0 = spec_enter_fields [OF e]
  have f1: "level a1 = level a0" "dom (tab a1) = regions_in cs \<union> dom (tab a0)"
    using spec_calls_fields [of env ?on cs a0] by (simp_all add: c)
  have rm: "room es0 (buf (gen s))" "room es1 (puts es0 (buf (gen s)))" "room ?l (puts es1 (puts es0 (buf (gen s))))"
      "room es2 (puts ?l (puts es1 (puts es0 (buf (gen s)))))"
    using 2(7) unfolding es room_append by blast+
  have known: "tab (tracer_of s) rid \<noteq> None" "regions_in cs \<subseteq> dom (tab a0)" "regions_in ds \<subseteq> dom (tab a1)"
    using 2(5) f0 f1 by auto
  let ?e = "\<lparr>rinf = rid, climitbypush = callLimitCD (the (tab a0 rid))\<rparr>"
  obtain s0 where s0: "vt_enter env c rid t s = Inr (rec, t, s0)" "tracer_ok h' s0" "tracer_of s0 = a0"
      "buf (gen s0) = puts es0 (buf (gen s))" "same_rest s s0" "callstack s0 = callstack s @ [?e]"
    using enter_spec [OF _ known(1) e rm(1)] 2(3) h(1) by blast
  have on0: "(trace_status s0 = VT_TRACE_ON) = ?on"
    using s0(5) by (simp add: same_rest_def)
  obtain s1 where s1: "run_calls env c cs s0 = Inr s1" "tracer_ok h' s1" "tracer_of s1 = a1"
      "buf (gen s1) = puts es1 (buf (gen s0))" "same_rest s0 s1" "callstack s1 = callstack s0"
    using 2(1) [OF s0(1) refl refl s0(2) h(2), of es1 a1] known(2) rm(2) c by (auto simp: s0 on0)
  have on1: "(trace_status s1 = VT_TRACE_ON) = ?on"
    using s1(5) on0 by (simp add: same_rest_def)
  have rec: "rec = (trace_status s1 = VT_TRACE_ON \<and> stack_level s1 \<le> max_stack_depth env \<and> climitbypush ?e \<noteq> 0)"
    using f0 f1(1) s1(3) by (auto simp: on1 tracer_of_def)
  obtain s2 where s2: "vt_exit env c u s1 = Inr (u, s2)" "tracer_ok h s2" "tracer_of s2 = a1\<lparr>level := level a1 - 1\<rparr>"
      "buf (gen s2) = puts ?l (buf (gen s1))" "same_rest s1 s2" "callstack s2 = callstack s"
    using exit_spec [OF s1(2) _ rec, of "callstack s" u c] rm(3) s0(4,6) s1(3,4,6) h(1)
    by (auto simp: tracer_of_def)
  have on2: "(trace_status s2 = VT_TRACE_ON) = ?on"
    using s2(5) on1 by (simp add: same_rest_def)
  obtain s3 where s3: "run_calls env c ds s2 = Inr s3" "tracer_ok h s3" "tracer_of s3 = a2"
      "buf (gen s3) = puts es2 (buf (gen s2))" "same_rest s2 s3" "callstack s3 = callstack s2"
    using 2(2) [OF s0(1) refl refl s1(1) s2(1) refl s2(2) h(3), of es2 a2] known(3) rm(4) d by (auto simp: s0 s1 s2 on2)
  have "same_rest s s3"
    using s0(5) s1(5) s2(5) s3(5) by (blast intro: same_rest_trans)
  then show ?case
    using s0 s1 s2 s3 by (simp add: es a)
qed

section \<open>Call limits\<close>

lemma spec_enter_sized: "spec_enter env on rid t a = (rec, es, a') \<Longrightarrow> \<forall>e \<in> set es. sized e"
  by (auto simp: spec_enter_def Let_def hint_entries_def sized_def split: if_splits)

lemma spec_calls_sized: "\<forall>e \<in> set (fst (spec_calls env on cs a)). sized e"
proof (induction env on cs a rule: spec_calls.induct)
  case (2 env on rid t cs u ds a)
  obtain rec es a1 where e: "spec_enter env on rid t a = (rec, es, a1)"
    using prod_cases3 by blast
  obtain es1 a2 where c: "spec_calls env on cs a1 = (es1, a2)"
    by fastforce
  obtain es2 a3 where d: "spec_calls env on ds (a2\<lparr>level := level a2 - 1\<rparr>) = (es2, a3)"
    by fastforce
  have "fst (spec_calls env on (Call rid t cs u # ds) a) = es @ es1 @ (if rec then [Event (Leave u 0 0)] else []) @ es2"
    by (simp add: e c d)
  then show ?case
    using 2(1) [OF e [symmetric] refl refl] 2(2) [OF e [symmetric] refl refl c [symmetric] refl]
      spec_enter_sized [OF e] unfolding c d by (auto split: if_splits)
qed simp

fun calls_of :: "u32 \<Rightarrow> call list \<Rightarrow> nat" where
  "calls_of r [] = 0"
| "calls_of r (Call rid t cs u # ds) = (if rid = r then 1 else 0) + calls_of r cs + calls_of r ds"

definition enters_of :: "u32 \<Rightarrow> entry list \<Rightarrow> nat" where
  "enters_of r es = length (filter (\<lambda>e. \<exists>t x. e = Event (Enter t r x)) es)"

lemma enters_of_simps [simp]: "enters_of r [] = 0" "enters_of r (es @ fs) = enters_of r es + enters_of r fs"
  "enters_of r [Event (Leave t x y)] = 0" "enters_of r [Event (Enter t rid x)] = (if rid = r then 1 else 0)"
  "enters_of r (hint_entries env info t a) = 0"
  by (simp_all add: enters_of_def hint_entries_def)

text \<open>How many of \<open>k\<close> calls are recorded under the count-down \<open>l\<close>, and what is left of it.\<close>

definition recorded :: "int \<Rightarrow> nat \<Rightarrow> nat" where
  "recorded l k = (if l > 0 then min k (nat (l - 1)) else if l = 0 then 0 else k)"

lemma recorded_add: "recorded l (j + k) = recorded l j + recorded (remaining l j) k"
  by (auto simp: recorded_def remaining_def)

lemma remaining_add: "remaining l (j + k) = remaining (remaining l j) k"
  by (auto simp: remaining_def)

lemma spec_enter_count:
  assumes "spec_enter env True rid t a = (rec, es, a')" and "level a < max_stack_depth env" and "tab a r = Some n"
    and "tab a rid \<noteq> None"
  defines "k \<equiv> if rid = r then 1 else 0"
  shows "enters_of r es = recorded (callLimitCD n) k
    \<and> tab a' r = Some (n\<lparr>callLimitCD := remaining (callLimitCD n) k\<rparr>)"
  using assms by (auto simp: spec_enter_def Let_def counted_def recorded_def remaining_def)

lemma spec_calls_count:
  "on \<Longrightarrow> level a + int (height cs) \<le> max_stack_depth env \<Longrightarrow> regions_in cs \<subseteq> dom (tab a) \<Longrightarrow> tab a r = Some n \<Longrightarrow>
   enters_of r (fst (spec_calls env on cs a)) = recorded (callLimitCD n) (calls_of r cs)
   \<and> tab (snd (spec_calls env on cs a)) r = Some (n\<lparr>callLimitCD := remaining (callLimitCD n) (calls_of r cs)\<rparr>)"
proof (induction env on cs a arbitrary: n rule: spec_calls.induct)
  case (1 env on a)
  then show ?case
    by (simp add: recorded_def)
next
  case (2 env on rid t cs u ds a)
  obtain rec es a1 where e: "spec_enter env on rid t a = (rec, es, a1)"
    using prod_cases3 by blast
  obtain es1 a2 where c: "spec_calls env on cs a1 = (es1, a2)"
    by fastforce
  obtain es2 a3 where d: "spec_calls env on ds (a2\<lparr>level := level a2 - 1\<rparr>) = (es2, a3)"
    by fastforce
  let ?k = "if rid = r then 1 else 0" and ?l = "callLimitCD n"
  note f0 = spec_enter_fields [OF e]
  have f1: "level a2 = level a1" "dom (tab a2) = regions_in cs \<union> dom (tab a1)"
    using spec_calls_fields [of env on cs a1] by (simp_all add: c)
  have lv: "level a < max_stack_depth env" "level a1 + int (height cs) \<le> max_stack_depth env"
      "level (a2\<lparr>level := level a2 - 1\<rparr>) + int (height ds) \<le> max_stack_depth env"
    using 2(4) f0 f1 by auto
  have enter: "enters_of r es = recorded ?l ?k" "tab a1 r = Some (n\<lparr>callLimitCD := remaining ?l ?k\<rparr>)"
    using spec_enter_count [OF _ lv(1) 2(6), of rid t rec es a1] e 2(3,5) by auto
  have known: "regions_in cs \<subseteq> dom (tab a1)" "regions_in ds \<subseteq> dom (tab (a2\<lparr>level := level a2 - 1\<rparr>))"
    using 2(5) f0 f1 by auto
  have sub: "enters_of r es1 = recorded (remaining ?l ?k) (calls_of r cs)"
      "tab a2 r = Some (n\<lparr>callLimitCD := remaining ?l (?k + calls_of r cs)\<rparr>)"
    using 2(1) [OF e [symmetric] refl refl 2(3) lv(2) known(1) enter(2)] by (simp_all add: c remaining_add)
  have rest: "enters_of r es2 = recorded (remaining ?l (?k + calls_of r cs)) (calls_of r ds)"
      "tab a3 r = Some (n\<lparr>callLimitCD := remaining ?l (?k + calls_of r cs + calls_of r ds)\<rparr>)"
    using 2(2) [OF e [symmetric] refl refl c [symmetric] refl 2(3) lv(3) known(2), of
        "n\<lparr>callLimitCD := remaining ?l (?k + calls_of r cs)\<rparr>"] sub(2)
    by (simp_all add: d remaining_add)
  have "enters_of r (fst (spec_calls env on (Call rid t cs u # ds) a)) = enters_of r es + enters_of r es1 + enters_of r es2"
    by (simp add: e c d)
  also have "\<dots> = recorded ?l (?k + calls_of r cs + calls_of r ds)"
    by (simp only: enter(1) sub(1) rest(1) recorded_add)
  finally show ?case
    using rest(2) by (simp add: e c d)
qed

section \<open>Properties\<close>

text \<open>
  C2: Entering and leaving regions refines the recording of call trees. As long as the buffer
  has room, a program that calls regions as in \<open>cs\<close> leaves in the buffer, behind what it held,
  exactly the entries of \<open>spec_calls\<close>: an enter and a leave record around those of the inner
  calls for every call that is recorded, a marker before the call with which a region reaches
  its limit, with its definition before the first one, and nothing of the calls beyond the
  limit or the maximum depth, or while tracing is off. The call stack and the stream are as
  before.
\<close>

theorem calls_refine_spec:
  assumes "tracer_ok h s" and "height cs \<le> h" and "regions_in cs \<subseteq> dom (tab (tracer_of s))"
    and "spec_calls env (trace_status s = VT_TRACE_ON) cs (tracer_of s) = (es, a)"
    and "buf_holds (buf (gen s)) fs" and "room es (buf (gen s))"
  shows "\<exists>s'. run_calls env c cs s = Inr s' \<and> buf_holds (buf (gen s')) (fs @ es) \<and> tracer_of s' = a
    \<and> callstack s' = callstack s \<and> otf s' = otf s \<and> trace_status s' = trace_status s"
proof -
  have "\<forall>e \<in> set es. sized e"
    using spec_calls_sized [of env "trace_status s = VT_TRACE_ON" cs "tracer_of s"] assms(4) by simp
  then have "buf_holds (puts es (buf (gen s))) (fs @ es)"
    using puts_holds [OF assms(5) _ assms(6)] by blast
  moreover obtain s' where "run_calls env c cs s = Inr s'" "tracer_of s' = a" "buf (gen s') = puts es (buf (gen s))"
      "same_rest s s'" "callstack s' = callstack s"
    using run_calls_spec [OF assms(1-4,6)] by blast
  ultimately show ?thesis
    by (auto simp: same_rest_def)
qed

text \<open>
  C3: The call limit of a region. While the calls are not nested too deep, of \<open>k\<close> calls of a
  region whose count-down is \<open>l\<close>, wherever they are in the tree, the buffer gets the enter
  records of the first \<open>l - 1\<close> if \<open>l\<close> is positive, of none if it is 0, and of all if the region
  is unlimited.
\<close>

theorem call_limit_respected:
  assumes "tracer_ok h s" and "height cs \<le> h" and "regions_in cs \<subseteq> dom (tab (tracer_of s))"
    and "trace_status s = VT_TRACE_ON" and "stack_level s + int (height cs) \<le> max_stack_depth env"
    and "buf_holds (buf (gen s)) fs" and "room (fst (spec_calls env True cs (tracer_of s))) (buf (gen s))"
    and "tab (tracer_of s) r = Some n"
  shows "\<exists>s' es. run_calls env c cs s = Inr s' \<and> buf_holds (buf (gen s')) (fs @ es)
    \<and> enters_of r es =
        (if callLimitCD n > 0 then min (calls_of r cs) (nat (callLimitCD n - 1))
         else if callLimitCD n = 0 then 0 else calls_of r cs)"
proof -
  obtain es a where sp: "spec_calls env True cs (tracer_of s) = (es, a)"
    by fastforce
  have es: "\<forall>e \<in> set es. sized e" "room es (buf (gen s))"
    using spec_calls_sized [of env True cs "tracer_of s"] assms(7) sp by simp_all
  obtain s' where "run_calls env c cs s = Inr s'" "buf (gen s') = puts es (buf (gen s))"
    using run_calls_spec [OF assms(1-3), of env es a c] sp es(2) assms(4) by auto
  moreover have "buf_holds (puts es (buf (gen s))) (fs @ es)"
    using puts_holds [OF assms(6) es] .
  moreover have "enters_of r es = recorded (callLimitCD n) (calls_of r cs)"
    using spec_calls_count [of True "tracer_of s" cs env r n] assms(3,5,8) sp by (simp add: tracer_of_def)
  ultimately show ?thesis
    by (auto simp: recorded_def)
qed

lemma counted_False [simp]: "counted False n = n"
  by (simp add: counted_def)

lemma spec_enter_off: "tab a rid \<noteq> None \<Longrightarrow> spec_enter env False rid t a = (False, [], a\<lparr>level := level a + 1\<rparr>)"
  by (cases a) (auto simp: spec_enter_def Let_def map_upd_triv)

lemma spec_calls_off: "\<not> on \<Longrightarrow> regions_in cs \<subseteq> dom (tab a) \<Longrightarrow> spec_calls env on cs a = ([], a)"
proof (induction env on cs a rule: spec_calls.induct)
  case (2 env on rid t cs u ds a)
  let ?a = "a\<lparr>level := level a + 1\<rparr>"
  have e: "spec_enter env on rid t a = (False, [], ?a)"
    using spec_enter_off [of a rid env t] 2(3,4) by auto
  have cs: "spec_calls env on cs ?a = ([], ?a)"
    using 2(1) [OF e [symmetric] refl refl 2(3)] 2(4) by simp
  have "spec_calls env on ds (?a\<lparr>level := level ?a - 1\<rparr>) = ([], ?a\<lparr>level := level ?a - 1\<rparr>)"
    using 2(2) [OF e [symmetric] refl refl cs [symmetric] refl 2(3)] 2(4) by simp
  then show ?case
    by (simp add: e cs)
qed simp

text \<open>
  The marks of a section with tracing switched off, which \<open>VT_User_trace_off__\<close> and
  \<open>VT_User_trace_on__\<close> ask for, are those of a call of the region for it without a body.
\<close>

definition off_call :: "env \<Rightarrow> bool \<Rightarrow> vt \<Rightarrow> call list" where
  "off_call env mark s =
     (if mark then [Call (regid env VT__TRC_OFF) (wtime env (ticks s)) [] (wtime env (Suc (ticks s)))] else [])"

text \<open>\<open>s0\<close> and \<open>s1\<close>: behind the entering of that region, and with tracing off; \<open>s2\<close>: behind the calls.\<close>

lemma silent_section:
  assumes "tracer_ok h s0" and "height cs \<le> h" and "regions_in cs \<subseteq> dom (tab (tracer_of s0))"
    and "room [] (buf (gen s0))" and "vt_is_alive s0"
  defines "s1 \<equiv> s0\<lparr>trace_status := VT_TRACE_OFF, stack_level_at_off := stack_level s0\<rparr>"
  shows "\<exists>s2. run_calls env c cs s1 = Inr s2 \<and> tracer_ok h s2 \<and> tracer_of s2 = tracer_of s0
    \<and> buf (gen s2) = buf (gen s0) \<and> same_rest s1 s2 \<and> callstack s2 = callstack s0
    \<and> vt_trace_on env c mark s2 =
        (if mark then andThen (vt_exit env c (wtime env (ticks s0)) (s2\<lparr>trace_status := VT_TRACE_ON, ticks := Suc (ticks s0)\<rparr>))
           (\<lambda>(_, s). Inr s)
         else Inr (s2\<lparr>trace_status := VT_TRACE_ON\<rparr>))"
proof -
  have s1: "tracer_ok h s1" "tracer_of s1 = tracer_of s0" "gen s1 = gen s0" "rfg_regions s1 = rfg_regions s0"
      "trace_status s1 = VT_TRACE_OFF" "vt_is_alive s1" "stack_level_at_off s1 = stack_level s0" "ticks s1 = ticks s0"
    using assms(1,5) by (simp_all add: s1_def tracer_ok_def tracer_of_def trace_on_def sum_on_def)
  obtain s2 where s2: "run_calls env c cs s1 = Inr s2" "tracer_ok h s2" "tracer_of s2 = tracer_of s0"
      "buf (gen s2) = buf (gen s0)" "same_rest s1 s2" "callstack s2 = callstack s1"
    using run_calls_spec [OF s1(1) assms(2), of env "[]" "tracer_of s0" c] spec_calls_off [OF _ assms(3)] assms(3,4) s1
    by auto
  have "trace_status s2 = VT_TRACE_OFF" "vt_is_alive s2" "stack_level_at_off s2 = stack_level s2" "ticks s2 = ticks s0"
    using s2(3,5) s1 by (simp_all add: same_rest_def tracer_of_def)
  then have "vt_trace_on env c mark s2 =
        (if mark then andThen (vt_exit env c (wtime env (ticks s0)) (s2\<lparr>trace_status := VT_TRACE_ON, ticks := Suc (ticks s0)\<rparr>))
           (\<lambda>(_, s). Inr s)
         else Inr (s2\<lparr>trace_status := VT_TRACE_ON\<rparr>))"
    by (simp add: vt_trace_on_def vt_pform_wtime_def)
  then show ?thesis
    using s2 s1(4) by auto
qed

lemma marked_section:
  assumes "tracer_ok (Suc h) s" and "height cs \<le> h" and "regions_in cs \<subseteq> dom (tab (tracer_of s))"
    and "tab (tracer_of s) (regid env VT__TRC_OFF) \<noteq> None"
    and "trace_status s = VT_TRACE_ON" and "vt_is_alive s"
    and sp: "spec_calls env True (off_call env True s) (tracer_of s) = (es, a)" and rm: "room es (buf (gen s))"
  shows "\<exists>s1 s2 s3. vt_trace_off env c True False s = Inr s1 \<and> run_calls env c cs s1 = Inr s2
    \<and> vt_trace_on env c True s2 = Inr s3 \<and> trace_status s3 = VT_TRACE_ON
    \<and> buf (gen s3) = puts es (buf (gen s)) \<and> otf s3 = otf s \<and> tracer_of s3 = a \<and> callstack s3 = callstack s"
proof -
  let ?rid = "regid env VT__TRC_OFF" and ?t = "wtime env (ticks s)" and ?u = "wtime env (Suc (ticks s))"
  define s' where "s' = s\<lparr>ticks := ticks s + 1\<rparr>"
  have s': "tracer_ok (Suc h) s'" "tracer_of s' = tracer_of s" "gen s' = gen s" "trace_status s' = VT_TRACE_ON"
      "vt_is_alive s'" "ticks s' = ticks s + 1" "rfg_regions s' = rfg_regions s" "otf s' = otf s"
    using assms(1,5,6) by (simp_all add: s'_def tracer_ok_def tracer_of_def trace_on_def sum_on_def)
  obtain rec es0 a0 where e: "spec_enter env True ?rid ?t (tracer_of s) = (rec, es0, a0)"
    using prod_cases3 by blast
  let ?l = "if rec then [Event (Leave ?u 0 0)] else []"
  have es: "es = es0 @ ?l" and a: "a = a0\<lparr>level := level a0 - 1\<rparr>"
    using sp by (simp_all add: off_call_def e)
  note f = spec_enter_fields [OF e]
  have rooms: "room es0 (buf (gen s'))" "room ?l (puts es0 (buf (gen s')))" "room [] (puts es0 (buf (gen s')))"
    using rm room_append [of es0 ?l "buf (gen s)"] room_append [of es0 "[]" "buf (gen s)"] by (simp_all add: es s'(3))
  let ?e = "\<lparr>rinf = ?rid, climitbypush = callLimitCD (the (tab a0 ?rid))\<rparr>"
  have known: "tab (tracer_of s') ?rid \<noteq> None" and sp': "spec_enter env (trace_status s' = VT_TRACE_ON) ?rid ?t (tracer_of s') = (rec, es0, a0)"
    using assms(4) e by (simp_all add: s')
  obtain s0 where s0: "vt_enter env c ?rid ?t s' = Inr (rec, ?t, s0)" "tracer_ok h s0" "tracer_of s0 = a0"
      "buf (gen s0) = puts es0 (buf (gen s'))" "same_rest s' s0" "callstack s0 = callstack s' @ [?e]"
    using enter_spec [OF s'(1) known sp' rooms(1)] by blast
  have alive: "vt_is_alive s0" "trace_status s0 = VT_TRACE_ON" "ticks s0 = Suc (ticks s)"
    using s0(5) s' by (simp_all add: same_rest_def)
  define s1 where "s1 = s0\<lparr>trace_status := VT_TRACE_OFF, stack_level_at_off := stack_level s0\<rparr>"
  have off: "vt_trace_off env c True False s = Inr s1"
    using assms(5,6) s0(1) alive by (simp add: vt_trace_off_def vt_pform_wtime_def s'_def s1_def)
  have dom: "regions_in cs \<subseteq> dom (tab (tracer_of s0))"
    using assms(3) f s0(3) by auto
  obtain s2 where s2: "run_calls env c cs s1 = Inr s2" "tracer_ok h s2" "tracer_of s2 = a0"
      "buf (gen s2) = puts es0 (buf (gen s))" "same_rest s1 s2" "callstack s2 = callstack s @ [?e]"
      "vt_trace_on env c True s2 = andThen (vt_exit env c ?u (s2\<lparr>trace_status := VT_TRACE_ON, ticks := Suc (ticks s0)\<rparr>))
         (\<lambda>(_, s). Inr s)"
    using silent_section [OF s0(2) assms(2) dom _ alive(1), of env c True] rooms(3) s0(3,4,6) alive(3) s'(3,7)
    unfolding s1_def by auto
  define s3 where "s3 = s2\<lparr>trace_status := VT_TRACE_ON, ticks := Suc (ticks s0)\<rparr>"
  have s3: "tracer_ok h s3" "tracer_of s3 = a0" "buf (gen s3) = puts es0 (buf (gen s))" "callstack s3 = callstack s @ [?e]"
      "stack_level s3 = level a0" "trace_status s3 = VT_TRACE_ON" "otf s3 = otf s"
    using s2(2-6) s0(5) s'(8) by (auto simp: s3_def tracer_ok_def tracer_of_def trace_on_def sum_on_def same_rest_def s1_def)
  have rec: "rec = (trace_status s3 = VT_TRACE_ON \<and> stack_level s3 \<le> max_stack_depth env \<and> climitbypush ?e \<noteq> 0)"
    using f by (simp add: s3)
  obtain s4 where "vt_exit env c ?u s3 = Inr (?u, s4)" "tracer_of s4 = a0\<lparr>level := level a0 - 1\<rparr>"
      "buf (gen s4) = puts ?l (buf (gen s3))" "same_rest s3 s4" "callstack s4 = callstack s"
    using exit_spec [OF s3(1,4) rec, of ?u c] rooms(2) s3(2,3,5) s'(3) by auto
  moreover from this have "vt_trace_on env c True s2 = Inr s4"
    unfolding s2(7) s3_def [symmetric] by simp
  ultimately show ?thesis
    using off s2(1) s3(3,6,7)
    by (intro exI [of _ s1] exI [of _ s2] exI [of _ s4]) (auto simp: es a same_rest_def)
qed

text \<open>
  C7: A section of the program with tracing switched off, not for good, leaves no trace but its marks. Between
  \<open>vt_trace_off\<close> and \<open>vt_trace_on\<close> at the same level of the call stack, calls of regions, whatever the
  callees of the writers are, write nothing and count no call limit down. With the marks, as the user
  interface switches the tracing, the section adds to the buffer, the counts and the ids what one
  call of the region "tracing off" does, an enter and a leave record where its call limit and the
  depth allow them; without the marks it adds nothing. The stream and the call stack are as they
  were, and tracing is on.
\<close>

theorem off_section_silent:
  assumes "tracer_ok (Suc h) s" and "height cs \<le> h" and "regions_in cs \<subseteq> dom (tab (tracer_of s))"
    and "tab (tracer_of s) (regid env VT__TRC_OFF) \<noteq> None"
    and "trace_status s = VT_TRACE_ON" and "vt_is_alive s" and "buf_holds (buf (gen s)) fs"
    and "spec_calls env True (off_call env mark s) (tracer_of s) = (es, a)" and "room es (buf (gen s))"
  shows "\<exists>s1 s2 s3. vt_trace_off env c mark False s = Inr s1 \<and> run_calls env c cs s1 = Inr s2
    \<and> vt_trace_on env c mark s2 = Inr s3 \<and> trace_status s3 = VT_TRACE_ON
    \<and> buf_holds (buf (gen s3)) (fs @ es) \<and> otf s3 = otf s \<and> tracer_of s3 = a \<and> callstack s3 = callstack s"
proof (cases mark)
  case True
  have "\<forall>e \<in> set es. sized e"
    using spec_calls_sized [of env True "off_call env mark s" "tracer_of s"] assms(8) by simp
  then have "buf_holds (puts es (buf (gen s))) (fs @ es)"
    using puts_holds [OF assms(7) _ assms(9)] by blast
  moreover have "spec_calls env True (off_call env True s) (tracer_of s) = (es, a)"
    using assms(8) True by simp
  ultimately show ?thesis
    using marked_section [where env = env and c = c, OF assms(1-6) _ assms(9)] True by fastforce
next
  case False
  then have es: "es = []" "a = tracer_of s"
    using assms(8) by (simp_all add: off_call_def)
  have ok: "tracer_ok h s"
    using assms(1) by (auto simp: tracer_ok_def stack_fits_def)
  have rm: "room [] (buf (gen s))"
    using assms(9) es by simp
  have off: "vt_trace_off env c False False s = Inr (s\<lparr>trace_status := VT_TRACE_OFF, stack_level_at_off := stack_level s\<rparr>)"
    using assms(5,6) by (simp add: vt_trace_off_def)
  obtain s2 where "run_calls env c cs (s\<lparr>trace_status := VT_TRACE_OFF, stack_level_at_off := stack_level s\<rparr>) = Inr s2"
      "tracer_of s2 = tracer_of s" "buf (gen s2) = buf (gen s)"
      "same_rest (s\<lparr>trace_status := VT_TRACE_OFF, stack_level_at_off := stack_level s\<rparr>) s2"
      "callstack s2 = callstack s" "vt_trace_on env c False s2 = Inr (s2\<lparr>trace_status := VT_TRACE_ON\<rparr>)"
    using silent_section [OF ok assms(2,3) rm assms(6), of env c False] by auto
  then show ?thesis
    using off es False assms(7) by (auto simp: same_rest_def tracer_of_def)
qed

lemma holds_lengths: "holds m p es q \<Longrightarrow> q = p + lengths es"
  by (induction es arbitrary: p) fastforce+

lemma holds_puts:
  assumes "buf_holds b fs" and "\<forall>e \<in> set es. sized e" and "room es b"
  shows "holds (mem (puts es b)) 0 fs (pos b)" and "holds (mem (puts es b)) (pos b) es (pos (puts es b))"
proof -
  have all: "holds (mem (puts es b)) 0 (fs @ es) (pos (puts es b))"
    using puts_holds [OF assms] by (simp add: buf_holds_def)
  then obtain q where q: "holds (mem (puts es b)) 0 fs q" "holds (mem (puts es b)) q es (pos (puts es b))"
    by (auto simp: holds_append)
  moreover have "q = pos b"
    using holds_lengths [OF q(1)] assms(1) holds_lengths [of "mem b" 0 fs "pos b"] by (simp add: buf_holds_def)
  ultimately show "holds (mem (puts es b)) 0 fs (pos b)" "holds (mem (puts es b)) (pos b) es (pos (puts es b))"
    by simp_all
qed

lemma lengths_filter: "lengths (filter P es) \<le> lengths es"
  by (induction es) auto

text \<open>
  C6: A rewound section leaves only its definitions. When a rewind mark is set, regions are
  called, and the trace is rewound at the same level of the call stack, the buffer holds what it
  held at the mark, the definitions that were made since, in their order, and an enter and a
  leave record of the region "rewind", from the time of the mark to the time of the rewind; no
  event of the section is left, and nothing went to the stream.
\<close>

theorem rewound_section:
  assumes "tracer_ok h s" and "height cs \<le> h" and "regions_in cs \<subseteq> dom (tab (tracer_of s))"
    and "trace_status s = VT_TRACE_ON" and "buf_holds (buf (gen s)) fs"
    and "spec_calls env True cs (tracer_of s) = (es, a)"
    and "room (es @ [Event (Enter t (regid env VT__TRC_REWIND) 0), Event (Leave u 0 0)]) (buf (gen s))"
  shows "\<exists>s1 s2. run_calls env c cs (vt_set_rewind_mark t s) = Inr s1 \<and> vt_rewind env c u s1 = Inr (u, s2)
    \<and> buf_holds (buf (gen s2)) (fs @ filter is_def es
        @ [Event (Enter t (regid env VT__TRC_REWIND) 0), Event (Leave u 0 0)])
    \<and> otf s2 = otf s"
proof -
  let ?b = "buf (gen s)" and ?ds = "filter is_def es"
    and ?en = "Event (Enter t (regid env VT__TRC_REWIND) 0)" and ?lv = "Event (Leave u 0 0)"
  define s0 where "s0 = vt_set_rewind_mark t s"
  have s0: "tracer_ok h s0" "tracer_of s0 = tracer_of s" "buf (gen s0) = ?b" "trace_status s0 = VT_TRACE_ON"
      "otf s0 = otf s" "rewind_pos (gen s0) = Some (pos ?b)" "rewind_time (gen s0) = t"
      "stack_level_at_rewind_mark s0 = stack_level s"
    using assms(1,4) by (simp_all add: s0_def vt_set_rewind_mark_def VTGen_set_rewind_mark_def tracer_ok_def
        tracer_of_def trace_on_def sum_on_def)
  have es: "\<forall>e \<in> set es. sized e" "room es ?b"
    using spec_calls_sized [of env True cs "tracer_of s"] assms(6,7) by (auto simp: room_append)
  obtain s1 where s1: "run_calls env c cs s0 = Inr s1" "tracer_ok h s1" "tracer_of s1 = a"
      "buf (gen s1) = puts es ?b" "same_rest s0 s1"
    using run_calls_spec [OF s0(1) assms(2), of env es a c] assms(3,6) es(2) s0 by auto
  have rest: "trace_status s1 = VT_TRACE_ON" "otf s1 = otf s" "rewind_pos (gen s1) = Some (pos ?b)"
      "rewind_time (gen s1) = t" "stack_level_at_rewind_mark s1 = stack_level s"
    using s1(5) s0 by (simp_all add: same_rest_def)
  have level: "stack_level s1 = stack_level s"
    using s1(3) spec_calls_fields [of env True cs "tracer_of s"] assms(6) by (auto simp: tracer_of_def)
  obtain mark b where b: "rewind_loop (pos ?b) (pos ?b) (puts es ?b) = Some (mark, b)" "buf_size b = buf_size ?b"
      "cap b = cap ?b" "holds (mem b) 0 (fs @ ?ds) mark"
    using rewind_loop_holds [OF holds_puts [OF assms(5) es]] by auto
  have mark: "mark = pos ?b + lengths ?ds"
    using holds_lengths [OF b(4)] assms(5) holds_lengths [of "mem ?b" 0 fs "pos ?b"] by (simp add: buf_holds_def)
  define s2 where "s2 = s1\<lparr>gen := (gen s1)\<lparr>buf := b\<lparr>pos := mark\<rparr>, rewind_pos := Some mark\<rparr>\<rparr>"
  have rew: "VTGen_rewind s1 = Inr (t, s2)"
    using rest b(1) s1(4) by (simp add: VTGen_rewind_def s2_def)
  have s2: "trace_on s2" "\<not> sum_on s2" "trace_status s2 = VT_TRACE_ON" "buf (gen s2) = b\<lparr>pos := mark\<rparr>" "otf s2 = otf s"
    using s1(2) rest by (simp_all add: s2_def tracer_ok_def trace_on_def sum_on_def)
  have rm: "room [?en, ?lv] (b\<lparr>pos := mark\<rparr>)"
    using assms(7) lengths_filter [of is_def es] by (simp add: room_def b mark)
  then have rm1: "room [?en] (buf (gen s2))" and rm2: "room [?lv] (puts [?en] (b\<lparr>pos := mark\<rparr>))"
    using room_append [of "[?en]" "[?lv]"] by (simp_all add: s2)
  define s3 where "s3 = set_buf (puts [?en] (b\<lparr>pos := mark\<rparr>)) s2"
  have enter: "vt_enter_rewind env c t s2 = Inr (t, s3)"
    using write_region_room(1) [OF s2(1,2) rm1] s2(3,4) by (simp add: vt_enter_rewind_def if_on_def s3_def)
  have s3: "trace_on s3" "\<not> sum_on s3" "trace_status s3 = VT_TRACE_ON" "room [?lv] (buf (gen s3))"
    using s2 rm2 by (simp_all add: s3_def trace_on_def sum_on_def)
  define s4 where "s4 = set_buf (puts [?en, ?lv] (b\<lparr>pos := mark\<rparr>)) s2"
  have "vt_exit_rewind c u s3 = Inr (u, s4)"
    using write_region_room(2) [OF s3(1,2,4)] s3(3) by (simp add: vt_exit_rewind_def if_on_def s3_def s4_def)
  then have "vt_rewind env c u s1 = Inr (u, s4)"
    using rest level rew enter by (simp add: vt_rewind_def VTGen_is_rewind_mark_present_def)
  moreover have "buf_holds (puts [?en, ?lv] (b\<lparr>pos := mark\<rparr>)) ((fs @ ?ds) @ [?en, ?lv])"
    using rm b(3,4) by (intro puts_holds) (auto simp: buf_holds_def room_def)
  ultimately show ?thesis
    using s1(1) s2(5) unfolding s0_def by (intro exI [of _ s1] exI [of _ s4]) (simp add: s4_def)
qed

section \<open>Witnesses\<close>

text \<open>A program with a region 7 without limit, and a region 8 with the count-down 2.\<close>

definition demo_table :: rfg_htab where
  "demo_table = hash_put (hash_put (\<lambda>_. []) 7 None ''main'' (- 1)) 8 None ''f'' 2"

definition demo_app :: vt where
  "demo_app = (demo_gen 1024)\<lparr>rfg_regions := Some ((the RFG_Regions_init)\<lparr>htab := demo_table\<rparr>)\<rparr>"

definition demo_calls :: "call list" where
  "demo_calls = [Call 7 1 [Call 8 2 [] 3, Call 8 4 [] 5] 6]"

abbreviation demo_f :: RFG_RegionInfo where
  "demo_f \<equiv> \<lparr>regionId = 8, groupName = None, regionName = ''f'', callLimit = 2, callLimitCD = 2\<rparr>"

lemma demo_table_get: "hash_get demo_table r =
  (if r = 8 then Some demo_f
   else if r = 7 then Some \<lparr>regionId = 7, groupName = None, regionName = ''main'', callLimit = - 1, callLimitCD = - 1\<rparr>
   else None)"
  by (simp add: demo_table_def hash_get_put) (simp add: hash_get_def)

lemma demo_tracer: "tracer_of demo_app = \<lparr>tab = hash_get demo_table, level = 0, hint_mid = VT_NO_ID, next_id = 1\<rparr>"
  by (simp add: demo_app_def tracer_of_def RFG_Regions_init_def demo_gen_def demo_vt_def)

lemma demo_app_ok: "tracer_ok 2 demo_app" "trace_status demo_app = VT_TRACE_ON" "vt_is_alive demo_app"
  "stack_level demo_app = 0" "buf_holds (buf (gen demo_app)) []" "height demo_calls \<le> 2"
  "buf (gen demo_app) = \<lparr>mem = (\<lambda>_. None), pos = 0, buf_size = 1000, cap = 1024\<rparr>"
  by (simp_all add: demo_app_def tracer_ok_def RFG_Regions_init_def demo_gen_def demo_vt_def trace_on_def
      sum_on_def stack_fits_def stack_ok_init buf_holds_def demo_calls_def) (simp add: stack_init_def)

lemma demo_known: "regions_in demo_calls \<subseteq> dom (tab (tracer_of demo_app))"
  by (auto simp: demo_calls_def demo_tracer demo_table_get)

abbreviation demo_entries :: "entry list" where
  "demo_entries \<equiv> [Event (Enter 1 7 0), Def (DefMarker 1 VT_MARKER_HINT ''VampirTrace''),
     Event (Marker 2 1 (take 4095 (filter_marktext (demo_f\<lparr>callLimitCD := 1\<rparr>)))), Event (Enter 2 8 0),
     Event (Leave 3 0 0), Event (Leave 6 0 0)]"

lemma demo_spec: "\<exists>a. spec_calls demo_env True demo_calls (tracer_of demo_app) = (demo_entries, a)"
  by (simp add: demo_calls_def demo_tracer spec_enter_def Let_def demo_table_get counted_def hint_entries_def demo_env_def)

lemma demo_room: "room demo_entries (buf (gen demo_app))"
  by (simp add: room_def demo_app_ok entry_length_def align_length_def filter_marktext_def dec_int_def dec.simps)

theorem calls_refine_spec_witness:
  "\<exists>s'. run_calls demo_env (callees_at demo_env 0) demo_calls demo_app = Inr s' \<and> buf_holds (buf (gen s')) ([] @ demo_entries)"
proof -
  obtain a where "spec_calls demo_env (trace_status demo_app = VT_TRACE_ON) demo_calls (tracer_of demo_app) = (demo_entries, a)"
    using demo_spec by (auto simp: demo_app_ok(2))
  from calls_refine_spec [OF demo_app_ok(1,6) demo_known this demo_app_ok(5) demo_room] show ?thesis
    by blast
qed

theorem call_limit_respected_witness:
  "\<exists>s' es. run_calls demo_env (callees_at demo_env 0) demo_calls demo_app = Inr s'
    \<and> buf_holds (buf (gen s')) ([] @ es) \<and> enters_of 8 es = 1"
proof -
  have depth: "stack_level demo_app + int (height demo_calls) \<le> max_stack_depth demo_env"
    by (simp add: demo_app_ok demo_calls_def demo_env_def)
  have rm: "room (fst (spec_calls demo_env True demo_calls (tracer_of demo_app))) (buf (gen demo_app))"
    using demo_spec demo_room by auto
  have t: "tab (tracer_of demo_app) 8 = Some demo_f"
    by (simp add: demo_tracer demo_table_get)
  have "calls_of 8 demo_calls = 2"
    by (simp add: demo_calls_def)
  then show ?thesis
    using call_limit_respected [OF demo_app_ok(1,6) demo_known demo_app_ok(2) depth demo_app_ok(5) rm t] by simp
qed

text \<open>The same application where the region "tracing off" is defined.\<close>

definition demo_switch :: vt where
  "demo_switch = demo_app\<lparr>rfg_regions := Some ((the RFG_Regions_init)\<lparr>htab :=
     hash_put demo_table (regid demo_env VT__TRC_OFF) None ''off'' (- 1)\<rparr>)\<rparr>"

lemma demo_switch_ok: "tracer_ok (Suc 2) demo_switch" "trace_status demo_switch = VT_TRACE_ON" "vt_is_alive demo_switch"
  "buf_holds (buf (gen demo_switch)) []" "regions_in demo_calls \<subseteq> dom (tab (tracer_of demo_switch))"
  "tab (tracer_of demo_switch) (regid demo_env VT__TRC_OFF) \<noteq> None" "ticks demo_switch = 0"
  "buf (gen demo_switch) = \<lparr>mem = (\<lambda>_. None), pos = 0, buf_size = 1000, cap = 1024\<rparr>"
  by (simp_all add: demo_switch_def demo_app_def tracer_ok_def RFG_Regions_init_def demo_gen_def demo_vt_def trace_on_def
      sum_on_def stack_fits_def stack_ok_init buf_holds_def demo_calls_def tracer_of_def hash_get_put demo_table_get
      demo_env_def dom_def) (simp add: stack_init_def)

theorem off_section_silent_witness:
  "\<exists>s1 s2 s3. vt_trace_off demo_env (callees_at demo_env 0) True False demo_switch = Inr s1
    \<and> run_calls demo_env (callees_at demo_env 0) demo_calls s1 = Inr s2
    \<and> vt_trace_on demo_env (callees_at demo_env 0) True s2 = Inr s3
    \<and> buf_holds (buf (gen s3)) [Event (Enter 1000 (regid demo_env VT__TRC_OFF) 0), Event (Leave 1001 0 0)]"
proof -
  let ?es = "[Event (Enter 1000 (regid demo_env VT__TRC_OFF) 0), Event (Leave 1001 0 0)]"
  obtain a where sp: "spec_calls demo_env True (off_call demo_env True demo_switch) (tracer_of demo_switch) = (?es, a)"
    by (simp add: off_call_def demo_switch_ok(7) spec_enter_def Let_def counted_def)
      (simp add: demo_switch_def demo_app_def tracer_of_def hash_get_put demo_env_def demo_gen_def demo_vt_def)
  have "room ?es (buf (gen demo_switch))"
    by (simp add: room_def demo_switch_ok(8))
  then show ?thesis
    using off_section_silent [OF demo_switch_ok(1) demo_app_ok(6) demo_switch_ok(5,6,2,3,4) sp,
        where c = "callees_at demo_env 0", unfolded append_Nil] by blast
qed

theorem rewound_section_witness:
  "\<exists>s1 s2. run_calls demo_env (callees_at demo_env 0) demo_calls (vt_set_rewind_mark 1 demo_app) = Inr s1
    \<and> vt_rewind demo_env (callees_at demo_env 0) 9 s1 = Inr (9, s2)
    \<and> buf_holds (buf (gen s2)) ([] @ filter is_def demo_entries
        @ [Event (Enter 1 (regid demo_env VT__TRC_REWIND) 0), Event (Leave 9 0 0)])"
proof -
  obtain a where sp: "spec_calls demo_env True demo_calls (tracer_of demo_app) = (demo_entries, a)"
    using demo_spec by blast
  have "room (demo_entries @ [Event (Enter 1 (regid demo_env VT__TRC_REWIND) 0), Event (Leave 9 0 0)]) (buf (gen demo_app))"
    by (simp add: room_def demo_app_ok entry_length_def align_length_def filter_marktext_def dec_int_def dec.simps)
  from rewound_section [OF demo_app_ok(1,6) demo_known demo_app_ok(2,5) sp this] show ?thesis
    by blast
qed

end
