(* ===== verification/MpiTrace.thy ===== *)
theory MpiTrace
  imports MpiColl MpiIo RegionTrace
begin

unbundle bit_operations_syntax

text \<open>
  What the wrappers of MPI functions record: the entries that a traced call leaves in the buffer,
  where the buffer has room for them.
\<close>

section \<open>Entering and leaving\<close>

lemma room_app: "room (es @ fs) b \<Longrightarrow> room es b" "room (es @ fs) b \<Longrightarrow> room fs (puts es b)"
  by (simp_all add: room_append)

lemma tracer_set_buf [simp]: "tracer_ok h (set_buf b v) = tracer_ok h v" "tracer_of (set_buf b v) = tracer_of v"
  "tracer_ok h (v\<lparr>ticks := n\<rparr>) = tracer_ok h v" "tracer_of (v\<lparr>ticks := n\<rparr>) = tracer_of v"
  "tracer_ok h (v\<lparr>ticks := n, gen := (gen v)\<lparr>buf := b\<rparr>\<rparr>) = tracer_ok h v"
  "tracer_of (v\<lparr>ticks := n, gen := (gen v)\<lparr>buf := b\<rparr>\<rparr>) = tracer_of v"
  by (simp_all add: tracer_ok_def tracer_of_def trace_on_def sum_on_def)

lemma enter_mpi_spec:
  assumes "tracer_ok (Suc h) (trc s)" and "tab (tracer_of (trc s)) (mpi_regid e fn) \<noteq> None"
    and "spec_enter (tenv e) (trace_status (trc s) = VT_TRACE_ON) (mpi_regid e fn) (wtime (tenv e) (ticks (trc s)))
           (tracer_of (trc s)) = (rec, es, a)"
    and "room es (buf (gen (trc s)))"
  shows "\<exists>v. enter_mpi e fn s =
      Inr (s\<lparr>mpi_trace_is_on := False, time := wtime (tenv e) (ticks (trc s)), was_recorded := rec, trc := v\<rparr>)
    \<and> tracer_ok h v \<and> tracer_of v = a \<and> buf (gen v) = puts es (buf (gen (trc s)))
    \<and> same_rest ((trc s)\<lparr>ticks := ticks (trc s) + 1\<rparr>) v
    \<and> callstack v = callstack (trc s) @ [\<lparr>rinf = mpi_regid e fn, climitbypush = callLimitCD (the (tab a (mpi_regid e fn)))\<rparr>]"
proof -
  let ?v = "(trc s)\<lparr>ticks := ticks (trc s) + 1\<rparr>"
  obtain v where v: "vt_enter (tenv e) (cal e) (mpi_regid e fn) (wtime (tenv e) (ticks (trc s))) ?v =
      Inr (rec, wtime (tenv e) (ticks (trc s)), v)" "tracer_ok h v" "tracer_of v = a"
    "buf (gen v) = puts es (buf (gen (trc s)))" "same_rest ?v v"
    "callstack v = callstack (trc s) @ [\<lparr>rinf = mpi_regid e fn, climitbypush = callLimitCD (the (tab a (mpi_regid e fn)))\<rparr>]"
    using enter_spec [of h ?v "mpi_regid e fn" "tenv e" "wtime (tenv e) (ticks (trc s))" rec es a "cal e"] assms
    by auto
  then show ?thesis
    by (intro exI [of _ v]) (simp add: enter_mpi_def take_time_def vt_pform_wtime_def)
qed

lemma leave_mpi_spec:
  assumes "tracer_ok h (trc s)" and "callstack (trc s) = st @ [c]"
    and "rec = (trace_status (trc s) = VT_TRACE_ON \<and> stack_level (trc s) \<le> max_stack_depth (tenv e) \<and> climitbypush c \<noteq> 0)"
    and "room (if rec then [Event (Leave (time s) 0 0)] else []) (buf (gen (trc s)))"
  shows "\<exists>v. leave_mpi e s = Inr (s\<lparr>trc := v, mpi_trace_is_on := mpitrace s\<rparr>) \<and> tracer_ok (Suc h) v
    \<and> tracer_of v = (tracer_of (trc s))\<lparr>level := stack_level (trc s) - 1\<rparr>
    \<and> buf (gen v) = puts (if rec then [Event (Leave (time s) 0 0)] else []) (buf (gen (trc s)))
    \<and> same_rest (trc s) v \<and> callstack v = st"
proof -
  obtain v where "vt_exit (tenv e) (cal e) (time s) (trc s) = Inr (time s, v)" "tracer_ok (Suc h) v"
    "tracer_of v = (tracer_of (trc s))\<lparr>level := stack_level (trc s) - 1\<rparr>"
    "buf (gen v) = puts (if rec then [Event (Leave (time s) 0 0)] else []) (buf (gen (trc s)))"
    "same_rest (trc s) v" "callstack v = st"
    using exit_spec [OF assms] by blast
  then show ?thesis
    by (intro exI [of _ v]) (simp add: leave_mpi_def on_trc_def)
qed

section \<open>A traced call\<close>

text \<open>What a part of a wrapper does that writes the entries \<open>es\<close> to the buffer and reads the clock \<open>n\<close> times.\<close>

definition emits :: "'p wenv \<Rightarrow> entry list \<Rightarrow> nat \<Rightarrow> 'p app \<Rightarrow> 'p app \<Rightarrow> bool" where
  "emits e es n s s' \<longleftrightarrow>
     trc s' = set_buf (puts es (buf (gen (trc s)))) ((trc s)\<lparr>ticks := ticks (trc s) + n\<rparr>)
     \<and> time s' = (if n = 0 then time s else wtime (tenv e) (ticks (trc s) + n - 1))
     \<and> was_recorded s' = was_recorded s \<and> mpitrace s' = mpitrace s"

lemma emits_refl: "emits e [] 0 s s"
  by (simp add: emits_def)

lemma emits_take_time: "emits e [] 1 s (take_time e s)"
  by (simp add: emits_def take_time_def vt_pform_wtime_def)

lemma emits_trans:
  "emits e es 0 s t \<Longrightarrow> emits e fs n t u \<Longrightarrow> emits e (es @ fs) n s u"
  "emits e es n s t \<Longrightarrow> emits e fs 0 t u \<Longrightarrow> emits e (es @ fs) n s u"
  by (simp_all add: emits_def)

text \<open>
  A call that is traced: when \<open>before\<close> and \<open>after\<close> write the entries \<open>bs\<close> and \<open>cs\<close>, the buffer gets
  the entries of entering the region, those, and the entry of leaving it.
\<close>

lemma traced_call:
  fixes s :: "'p app"
  assumes on: "is_mpi_trace_on s" and ok: "tracer_ok (Suc h) (trc s)"
    and known: "tab (tracer_of (trc s)) (mpi_regid e fn) \<noteq> None"
    and sp: "spec_enter (tenv e) (trace_status (trc s) = VT_TRACE_ON) (mpi_regid e fn)
               (wtime (tenv e) (ticks (trc s))) (tracer_of (trc s)) = (rec, es, a)"
    and lib: "pmpi e fn (targs rec) (lib s) = (r, p)"
    and before: "\<And>v. tracer_ok h v \<Longrightarrow> trace_status v = trace_status (trc s) \<Longrightarrow>
        buf (gen v) = puts es (buf (gen (trc s))) \<Longrightarrow>
        \<exists>x s2. before (s\<lparr>mpi_trace_is_on := False, time := wtime (tenv e) (ticks (trc s)), was_recorded := rec,
                         trc := v\<rparr>) = Inr (x, s2)
          \<and> emits e bs 0 (s\<lparr>mpi_trace_is_on := False, time := wtime (tenv e) (ticks (trc s)), was_recorded := rec,
                            trc := v\<rparr>) s2
          \<and> lib s2 = lib s \<and> P x s2"
    and after: "\<And>x s2. P x s2 \<Longrightarrow> was_recorded s2 = rec \<Longrightarrow> tracer_ok h (trc s2) \<Longrightarrow>
        trace_status (trc s2) = trace_status (trc s) \<Longrightarrow> ticks (trc s2) = ticks (trc s) + 1 \<Longrightarrow>
        buf (gen (trc s2)) = puts (es @ bs) (buf (gen (trc s))) \<Longrightarrow>
        \<exists>s4. after x r (s2\<lparr>lib := p\<rparr>) = Inr s4 \<and> emits e cs 1 (s2\<lparr>lib := p\<rparr>) s4 \<and> Q s4"
    and leaves: "ls = (if rec then [Event (Leave (wtime (tenv e) (ticks (trc s) + 1)) 0 0)] else [])"
    and rm: "room (es @ bs @ cs @ ls) (buf (gen (trc s)))"
  shows "\<exists>s'. wrapper_st e fn targs args before after s = Inr (r, s')
    \<and> buf (gen (trc s')) = puts (es @ bs @ cs @ ls) (buf (gen (trc s)))
    \<and> tracer_ok (Suc h) (trc s') \<and> tracer_of (trc s') = a\<lparr>level := level a - 1\<rparr>
    \<and> callstack (trc s') = callstack (trc s) \<and> mpi_trace_is_on s' = mpitrace s \<and> mpitrace s' = mpitrace s
    \<and> same_rest ((trc s)\<lparr>ticks := ticks (trc s) + 2\<rparr>) (trc s')
    \<and> (\<exists>s4 v. Q s4 \<and> s' = s4\<lparr>trc := v, mpi_trace_is_on := mpitrace s\<rparr>)"
proof -
  let ?t = "wtime (tenv e) (ticks (trc s))"
  let ?c = "\<lparr>rinf = mpi_regid e fn, climitbypush = callLimitCD (the (tab a (mpi_regid e fn)))\<rparr>"
  obtain v where v: "enter_mpi e fn s = Inr (s\<lparr>mpi_trace_is_on := False, time := ?t, was_recorded := rec, trc := v\<rparr>)"
    "tracer_ok h v" "tracer_of v = a" "buf (gen v) = puts es (buf (gen (trc s)))"
    "same_rest ((trc s)\<lparr>ticks := ticks (trc s) + 1\<rparr>) v" "callstack v = callstack (trc s) @ [?c]"
    using enter_mpi_spec [OF ok known sp] room_app [OF rm] by blast
  define s1 where "s1 = s\<lparr>mpi_trace_is_on := False, time := ?t, was_recorded := rec, trc := v\<rparr>"
  obtain x s2 where s2: "before s1 = Inr (x, s2)" "emits e bs 0 s1 s2" "lib s2 = lib s" "P x s2"
    using before [of v] v by (auto simp: s1_def same_rest_def)
  have e2: "trc s2 = set_buf (puts bs (buf (gen v))) v" "was_recorded s2 = rec" "mpitrace s2 = mpitrace s"
    using s2(2) by (simp_all add: emits_def s1_def)
  obtain s4 where s4: "after x r (s2\<lparr>lib := p\<rparr>) = Inr s4" "emits e cs 1 (s2\<lparr>lib := p\<rparr>) s4" "Q s4"
    using after [OF s2(4) e2(2)] v e2 by (auto simp: same_rest_def)
  have e4: "trc s4 = set_buf (puts (bs @ cs) (buf (gen v))) (v\<lparr>ticks := ticks v + 1\<rparr>)"
    "time s4 = wtime (tenv e) (ticks (trc s) + 1)" "mpitrace s4 = mpitrace s"
    using s4(2) e2 v(5) by (simp_all add: emits_def same_rest_def)
  have rec: "rec = (trace_status (trc s4) = VT_TRACE_ON \<and> stack_level (trc s4) \<le> max_stack_depth (tenv e) \<and> climitbypush ?c \<noteq> 0)"
    using spec_enter_fields [OF sp] v(3,5) e4(1) by (auto simp: same_rest_def tracer_of_def)
  have ls4: "(if rec then [Event (Leave (time s4) 0 0)] else []) = ls"
    by (simp only: leaves e4(2))
  have room4: "room ls (buf (gen (trc s4)))"
    using rm e4(1) v(4) by (simp add: room_append)
  have ok4: "tracer_ok h (trc s4)" "callstack (trc s4) = callstack (trc s) @ [?c]"
    using v(2,6) e4(1) by simp_all
  obtain w where w: "leave_mpi e s4 = Inr (s4\<lparr>trc := w, mpi_trace_is_on := mpitrace s4\<rparr>)" "tracer_ok (Suc h) w"
    "tracer_of w = (tracer_of (trc s4))\<lparr>level := stack_level (trc s4) - 1\<rparr>"
    "buf (gen w) = puts ls (buf (gen (trc s4)))" "callstack w = callstack (trc s)" "same_rest (trc s4) w"
    using leave_mpi_spec [OF ok4 rec, unfolded ls4, OF room4] by blast
  have "wrapper_st e fn targs args before after s = Inr (r, s4\<lparr>trc := w, mpi_trace_is_on := mpitrace s4\<rparr>)"
    using on v(1) s2(1,3) s4(1) w(1) e2(2) lib
    by (simp add: wrapper_st_def call_pmpi_def flip: s1_def)
  moreover have "level a = stack_level v"
    using v(3) by (auto simp: tracer_of_def)
  moreover have "same_rest ((trc s)\<lparr>ticks := ticks (trc s) + 2\<rparr>) w"
    using v(5) w(6) e4(1) by (simp add: same_rest_def)
  ultimately show ?thesis
    using w e4 v(3,4) s4(3) by (auto simp: tracer_of_def)
qed

section \<open>Messages\<close>

lemma on_trc_emits:
  assumes "f (time s) (trc s) = Inr (time s, set_buf (puts es (buf (gen (trc s)))) (trc s))"
  shows "\<exists>s'. on_trc f s = Inr s' \<and> emits e es 0 s s' \<and> lib s' = lib s \<and> com s' = com s \<and> req s' = req s
    \<and> s' = s\<lparr>trc := trc s'\<rparr>"
  using assms by (simp add: on_trc_def emits_def)

lemma write_message_room:
  assumes "tracer_ok h v" and "trace_status v = VT_TRACE_ON"
  shows "room [Comm (SendMsg t (p + 1) (c + 1) tag n 0)] (buf (gen v)) \<Longrightarrow> vt_mpi_send cl p c tag n t v =
      Inr (t, set_buf (puts [Comm (SendMsg t (p + 1) (c + 1) tag n 0)] (buf (gen v))) v)"
    and "room [Comm (RecvMsg t (p + 1) (c + 1) tag n 0)] (buf (gen v)) \<Longrightarrow> vt_mpi_recv cl p c tag n t v =
      Inr (t, set_buf (puts [Comm (RecvMsg t (p + 1) (c + 1) tag n 0)] (buf (gen v))) v)"
  using assms write_event_room [of "\<lambda>t. Comm (SendMsg t (p + 1) (c + 1) tag n 0)" t v cl]
    write_event_room [of "\<lambda>t. Comm (RecvMsg t (p + 1) (c + 1) tag n 0)" t v cl]
  by (simp_all add: vt_mpi_send_def vt_mpi_recv_def if_on_def VTGen_write_SEND_MSG_def VTGen_write_RECV_MSG_def
      trace_event_def with_sum_def sum_prop_on_def sum_on_def tracer_ok_def del: puts.simps)

text \<open>The entry for a message that is sent, if the partner is a process.\<close>

definition send_entries :: "'p wenv \<Rightarrow> 'p app \<Rightarrow> u64 \<Rightarrow> int \<Rightarrow> nat \<Rightarrow> int \<Rightarrow> int \<Rightarrow> nat \<Rightarrow> u32 \<Rightarrow> entry list" where
  "send_entries e s t cnt datatype dest tag comm cid =
     (if dest = MPI_PROC_NULL (mpi e (lib s)) then []
      else [Comm (SendMsg t (VT_RANK_TO_PE e s dest comm + 1) (cid + 1) (word_of_int tag)
                    (word_of_int (cnt * sz_of e s datatype)) 0)])"

lemma send_event_emits:
  assumes "tracer_ok h (trc s)" and "was_recorded s \<longrightarrow> trace_status (trc s) = VT_TRACE_ON"
    and "VT_COMM_ID e s comm = Inr cid"
    and "es = (if was_recorded s then send_entries e s (time s) cnt datatype dest tag comm cid else [])"
    and "room es (buf (gen (trc s)))"
  shows "\<exists>s'. send_event e cnt datatype dest tag comm s = Inr s' \<and> emits e es 0 s s' \<and> lib s' = lib s"
proof (cases "was_recorded s \<and> dest \<noteq> MPI_PROC_NULL (mpi e (lib s))")
  case True
  then have es: "es = [Comm (SendMsg (time s) (VT_RANK_TO_PE e s dest comm + 1) (cid + 1) (word_of_int tag)
                    (word_of_int (cnt * sz_of e s datatype)) 0)]"
    using assms(4) by (simp add: send_entries_def)
  show ?thesis
    using on_trc_emits [of "vt_mpi_send (cal e) (VT_RANK_TO_PE e s dest comm) cid (word_of_int tag)
        (word_of_int (cnt * sz_of e s datatype))" s es e] write_message_room(1) [OF assms(1)] assms(2,3,5) True
    by (auto simp: send_event_def mpi_send_def es simp del: puts.simps)
next
  case False
  then show ?thesis
    using assms(4) by (auto simp: send_event_def send_entries_def emits_refl)
qed

text \<open>
  C11: a traced send leaves, in this order, the entry of entering the function, the entry of the
  message and the entry of leaving the function. The message has the time of entering, the
  global rank of its receiver, the id of its communicator, its tag, and its size in bytes; it is
  left out where the call itself is not recorded, and for the null process. The eight functions
  that send differ only in the function of the library that they call; the caller gets the
  result of that function.
\<close>

theorem send_recorded:
  assumes "(fn, send) \<in> {(''MPI_Send'', MPI_Send e), (''MPI_Bsend'', MPI_Bsend e), (''MPI_Rsend'', MPI_Rsend e),
      (''MPI_Ssend'', MPI_Ssend e), (''MPI_Isend'', MPI_Isend e), (''MPI_Ibsend'', MPI_Ibsend e),
      (''MPI_Issend'', MPI_Issend e), (''MPI_Irsend'', MPI_Irsend e)}"
    and "is_mpi_trace_on s" and "tracer_ok (Suc h) (trc s)"
    and "tab (tracer_of (trc s)) (mpi_regid e fn) \<noteq> None" and "VT_COMM_ID e s comm = Inr cid"
    and "t = wtime (tenv e) (ticks (trc s))" and "u = wtime (tenv e) (ticks (trc s) + 1)"
    and "spec_enter (tenv e) (trace_status (trc s) = VT_TRACE_ON) (mpi_regid e fn) t (tracer_of (trc s)) = (rec, es, a)"
    and "ents = es @ (if rec then send_entries e s t cnt datatype dest tag comm cid @ [Event (Leave u 0 0)] else [])"
    and "room ents (buf (gen (trc s)))"
  shows "\<exists>s'. send mbuf cnt datatype dest tag comm s =
      Inr (fst (pmpi e fn [Buffer mbuf, Number cnt, Handle datatype, Number dest, Number tag, Handle comm] (lib s)), s')
    \<and> buf (gen (trc s')) = puts ents (buf (gen (trc s)))
    \<and> tracer_ok (Suc h) (trc s') \<and> callstack (trc s') = callstack (trc s) \<and> mpi_trace_is_on s' = mpitrace s"
proof -
  let ?bs = "if rec then send_entries e s t cnt datatype dest tag comm cid else []"
  let ?ls = "if rec then [Event (Leave (wtime (tenv e) (ticks (trc s) + 1)) 0 0)] else []"
  have ents: "ents = es @ ?bs @ [] @ ?ls"
    using assms(7,9) by simp
  have rec: "rec \<longrightarrow> trace_status (trc s) = VT_TRACE_ON"
    using spec_enter_fields [OF assms(8)] by simp
  have room: "room (es @ ?bs @ [] @ ?ls) (buf (gen (trc s)))"
    using assms(10) ents by simp
  obtain r p where lib: "pmpi e fn [Buffer mbuf, Number cnt, Handle datatype, Number dest, Number tag, Handle comm]
      (lib s) = (r, p)"
    by fastforce
  have sp: "spec_enter (tenv e) (trace_status (trc s) = VT_TRACE_ON) (mpi_regid e fn) (wtime (tenv e) (ticks (trc s)))
      (tracer_of (trc s)) = (rec, es, a)"
    using assms(6,8) by simp
  have before: "\<exists>x s2. no_locals (send_event e cnt datatype dest tag comm) (s\<lparr>mpi_trace_is_on := False,
        time := wtime (tenv e) (ticks (trc s)), was_recorded := rec, trc := v\<rparr>) = Inr (x, s2)
      \<and> emits e ?bs 0 (s\<lparr>mpi_trace_is_on := False, time := wtime (tenv e) (ticks (trc s)), was_recorded := rec,
                          trc := v\<rparr>) s2 \<and> lib s2 = lib s \<and> True"
    if v: "tracer_ok h v" "trace_status v = trace_status (trc s)" "buf (gen v) = puts es (buf (gen (trc s)))" for v
  proof -
    let ?s = "s\<lparr>mpi_trace_is_on := False, time := wtime (tenv e) (ticks (trc s)), was_recorded := rec, trc := v\<rparr>"
    have p1: "tracer_ok h (trc ?s)" and p2: "was_recorded ?s \<longrightarrow> trace_status (trc ?s) = VT_TRACE_ON"
      and p3: "VT_COMM_ID e ?s comm = Inr cid" and p5: "room ?bs (buf (gen (trc ?s)))"
      using v rec room assms(5) by (simp_all add: VT_COMM_ID_def room_append)
    have p4: "?bs = (if was_recorded ?s then send_entries e ?s (time ?s) cnt datatype dest tag comm cid else [])"
      using assms(6) by (simp add: send_entries_def VT_RANK_TO_PE_def sz_of_def)
    obtain s2 where "send_event e cnt datatype dest tag comm ?s = Inr s2" "emits e ?bs 0 ?s s2" "lib s2 = lib s"
      using send_event_emits [OF p1 p2 p3 p4 p5] by auto
    then show ?thesis
      by (auto simp: no_locals_def)
  qed
  have "\<exists>s'. send_wrapper e fn mbuf cnt datatype dest tag comm s = Inr (r, s')
    \<and> buf (gen (trc s')) = puts (es @ ?bs @ [] @ ?ls) (buf (gen (trc s)))
    \<and> tracer_ok (Suc h) (trc s') \<and> tracer_of (trc s') = a\<lparr>level := level a - 1\<rparr>
    \<and> callstack (trc s') = callstack (trc s) \<and> mpi_trace_is_on s' = mpitrace s \<and> mpitrace s' = mpitrace s
    \<and> same_rest ((trc s)\<lparr>ticks := ticks (trc s) + 2\<rparr>) (trc s')
    \<and> (\<exists>s4 v. True \<and> s' = s4\<lparr>trc := v, mpi_trace_is_on := mpitrace s\<rparr>)"
    unfolding send_wrapper_def
  proof (rule traced_call [OF assms(2-4) sp lib before _ refl room])
    show "\<exists>s4. Inr (take_time e (s2\<lparr>lib := p\<rparr>)) = Inr s4 \<and> emits e [] 1 (s2\<lparr>lib := p\<rparr>) s4 \<and> True" for s2
      using emits_take_time by auto
  qed
  then show ?thesis
    using assms(1) lib ents
    by (auto simp: MPI_Send_def MPI_Bsend_def MPI_Rsend_def MPI_Ssend_def MPI_Isend_def MPI_Ibsend_def MPI_Issend_def
        MPI_Irsend_def)
qed

section \<open>Non-blocking receives\<close>

text \<open>The entry of a message that was received.\<close>

definition recv_entry :: "'p wenv \<Rightarrow> 'p app \<Rightarrow> u64 \<Rightarrow> nat \<Rightarrow> nat \<Rightarrow> MPI_Status \<Rightarrow> u32 \<Rightarrow> entry" where
  "recv_entry e s t datatype comm st cid =
     Comm (RecvMsg t (VT_RANK_TO_PE e s (MPI_SOURCE st) comm + 1) (cid + 1) (word_of_int (MPI_TAG st))
       (word_of_int (get_count (mpi e (lib s)) st datatype * sz_of e s datatype)) 0)"

text \<open>\<open>MPI_Irecv\<close> only enters the request into the table.\<close>

lemma irecv_traced:
  fixes s :: "'p app"
  assumes "is_mpi_trace_on s" and "tracer_ok (Suc h) (trc s)"
    and "tab (tracer_of (trc s)) (mpi_regid e ''MPI_Irecv'') \<noteq> None"
    and sp: "spec_enter (tenv e) (trace_status (trc s) = VT_TRACE_ON) (mpi_regid e ''MPI_Irecv'')
          (wtime (tenv e) (ticks (trc s))) (tracer_of (trc s)) = (rec, es, a)"
    and lib: "pmpi e ''MPI_Irecv'' [Buffer mbuf, Number cnt, Handle datatype, Number source, Number tag, Handle comm]
          (lib s) = (r, p)"
    and ok: "source \<noteq> MPI_PROC_NULL (mpi e p)" "result r = MPI_SUCCESS e"
    and ls: "ls = (if rec then [Event (Leave (wtime (tenv e) (ticks (trc s) + 1)) 0 0)] else [])"
    and rm: "room (es @ ls) (buf (gen (trc s)))"
  shows "\<exists>s'. MPI_Irecv e mbuf cnt datatype source tag comm s = Inr (r, s')
    \<and> buf (gen (trc s')) = puts (es @ ls) (buf (gen (trc s)))
    \<and> tracer_ok (Suc h) (trc s') \<and> tracer_of (trc s') = a\<lparr>level := level a - 1\<rparr>
    \<and> callstack (trc s') = callstack (trc s) \<and> mpi_trace_is_on s' = mpitrace s \<and> mpitrace s' = mpitrace s
    \<and> same_rest ((trc s)\<lparr>ticks := ticks (trc s) + 2\<rparr>) (trc s') \<and> lib s' = p \<and> com s' = com s
    \<and> req s' = vt_request_create (req_junk e) (out_handle r) ERF_RECV tag 0 (wrap32 (cnt * sz_of e s datatype))
                 datatype comm (req s)"
proof -
  let ?P = "\<lambda>sz t. sz = sz_of e s datatype \<and> req t = req s \<and> com t = com s"
  let ?Q = "\<lambda>t. lib t = p \<and> com t = com s
    \<and> req t = vt_request_create (req_junk e) (out_handle r) ERF_RECV tag 0 (wrap32 (cnt * sz_of e s datatype))
                 datatype comm (req s)"
  have "\<exists>s'. MPI_Irecv e mbuf cnt datatype source tag comm s = Inr (r, s')
    \<and> buf (gen (trc s')) = puts (es @ [] @ [] @ ls) (buf (gen (trc s)))
    \<and> tracer_ok (Suc h) (trc s') \<and> tracer_of (trc s') = a\<lparr>level := level a - 1\<rparr>
    \<and> callstack (trc s') = callstack (trc s) \<and> mpi_trace_is_on s' = mpitrace s \<and> mpitrace s' = mpitrace s
    \<and> same_rest ((trc s)\<lparr>ticks := ticks (trc s) + 2\<rparr>) (trc s')
    \<and> (\<exists>s4 v. ?Q s4 \<and> s' = s4\<lparr>trc := v, mpi_trace_is_on := mpitrace s\<rparr>)"
    unfolding MPI_Irecv_def
  proof (rule traced_call [OF assms(1-3) sp lib _ _ ls, where P = ?P])
    fix sz :: int and t :: "'p app"
    assume "?P sz t"
    then have "keep_request e ERF_RECV source tag 0 (wrap32 (cnt * sz)) datatype comm r (t\<lparr>lib := p\<rparr>) =
        t\<lparr>lib := p, req := vt_request_create (req_junk e) (out_handle r) ERF_RECV tag 0
                            (wrap32 (cnt * sz_of e s datatype)) datatype comm (req s)\<rparr>"
      using ok by (simp add: keep_request_def)
    then show "\<exists>s4. Inr (take_time e (keep_request e ERF_RECV source tag 0 (wrap32 (cnt * sz)) datatype comm r (t\<lparr>lib := p\<rparr>)))
        = Inr s4 \<and> emits e [] 1 (t\<lparr>lib := p\<rparr>) s4 \<and> ?Q s4"
      using \<open>?P sz t\<close> by (simp add: emits_def take_time_def vt_pform_wtime_def)
  qed (use rm in \<open>auto simp: emits_refl sz_of_def\<close>)
  then show ?thesis
    by auto
qed

text \<open>\<open>MPI_Wait\<close> on a request that is a receive.\<close>

lemma wait_traced:
  fixes s :: "'p app"
  assumes "is_mpi_trace_on s" and "tracer_ok (Suc h) (trc s)"
    and "tab (tracer_of (trc s)) (mpi_regid e ''MPI_Wait'') \<noteq> None"
    and sp: "spec_enter (tenv e) (trace_status (trc s) = VT_TRACE_ON) (mpi_regid e ''MPI_Wait'')
          (wtime (tenv e) (ticks (trc s))) (tracer_of (trc s)) = (rec, es, a)"
    and lib: "pmpi e ''MPI_Wait'' [Handle request, Ignored False] (lib s) = (r, p)"
    and get: "vt_request_get request (req s) = q"
    and check: "vt_check_request (mpi e p) q (out_status r) rec (req s) =
          Some (if rec then [MpiRecv (MPI_SOURCE (out_status r)) comm (MPI_TAG (out_status r))
                  (word_of_int (get_count (mpi e p) (out_status r) datatype * type_size (mpi e p) datatype))] else [], rq)"
    and cid: "VT_COMM_ID e (s\<lparr>lib := p\<rparr>) comm = Inr cid"
    and u: "u = wtime (tenv e) (ticks (trc s) + 1)"
    and ms: "ms = (if rec then [recv_entry e (s\<lparr>lib := p\<rparr>) u datatype comm (out_status r) cid] else [])"
    and ls: "ls = (if rec then [Event (Leave u 0 0)] else [])"
    and rm: "room (es @ ms @ ls) (buf (gen (trc s)))"
  shows "\<exists>s'. MPI_Wait e request ign s = Inr (r, s') \<and> buf (gen (trc s')) = puts (es @ ms @ ls) (buf (gen (trc s)))
    \<and> tracer_ok (Suc h) (trc s') \<and> tracer_of (trc s') = a\<lparr>level := level a - 1\<rparr>
    \<and> callstack (trc s') = callstack (trc s) \<and> mpi_trace_is_on s' = mpitrace s
    \<and> lib s' = p \<and> com s' = com s \<and> req s' = rq"
proof -
  let ?P = "\<lambda>x t. x = q \<and> req t = req s \<and> com t = com s"
  let ?Q = "\<lambda>t. lib t = p \<and> com t = com s \<and> req t = rq"
  have on: "rec \<longrightarrow> trace_status (trc s) = VT_TRACE_ON"
    using spec_enter_fields [OF sp] by simp
  have rm': "room (es @ [] @ ms @ ls) (buf (gen (trc s)))"
    using rm by simp
  have "\<exists>s'. MPI_Wait e request ign s = Inr (r, s')
    \<and> buf (gen (trc s')) = puts (es @ [] @ ms @ ls) (buf (gen (trc s)))
    \<and> tracer_ok (Suc h) (trc s') \<and> tracer_of (trc s') = a\<lparr>level := level a - 1\<rparr>
    \<and> callstack (trc s') = callstack (trc s) \<and> mpi_trace_is_on s' = mpitrace s \<and> mpitrace s' = mpitrace s
    \<and> same_rest ((trc s)\<lparr>ticks := ticks (trc s) + 2\<rparr>) (trc s')
    \<and> (\<exists>s4 v. ?Q s4 \<and> s' = s4\<lparr>trc := v, mpi_trace_is_on := mpitrace s\<rparr>)"
    unfolding MPI_Wait_def
  proof (rule traced_call [OF assms(1-3) sp lib _ _ ls [unfolded u] rm', where P = ?P])
    fix x and t :: "'p app"
    assume t: "?P x t" "was_recorded t = rec" "tracer_ok h (trc t)" "trace_status (trc t) = trace_status (trc s)"
      "ticks (trc t) = ticks (trc s) + 1" "buf (gen (trc t)) = puts (es @ []) (buf (gen (trc s)))"
    let ?t = "take_time e (t\<lparr>lib := p\<rparr>)"
    have tt: "trc ?t = (trc t)\<lparr>ticks := ticks (trc s) + 2\<rparr>" "time ?t = u" "was_recorded ?t = rec" "lib ?t = p"
      "com ?t = com s" "req ?t = req s" "mpitrace ?t = mpitrace t"
      using t by (simp_all add: take_time_def vt_pform_wtime_def u)
    have "\<exists>s4. check_request e q (out_status r) ?t = Inr s4 \<and> emits e ms 1 (t\<lparr>lib := p\<rparr>) s4 \<and> ?Q s4"
    proof (cases rec)
      case False
      then show ?thesis
        using check tt ms t(5) by (simp add: check_request_def emits_def t(2) u)
    next
      case True
      let ?ent = "recv_entry e (s\<lparr>lib := p\<rparr>) u datatype comm (out_status r) cid"
      have "room [?ent] (buf (gen (trc ?t)))"
        using room_app(2) [OF rm] room_app(1) [of "[?ent]" ls] ms True t(6) tt(1) by simp
      moreover have "tracer_ok h (trc ?t)" and "trace_status (trc ?t) = VT_TRACE_ON"
        using t(3,4) on True tt(1) by simp_all
      moreover have "VT_COMM_ID e ?t comm = Inr cid" and "VT_RANK_TO_PE e ?t src comm = VT_RANK_TO_PE e (s\<lparr>lib := p\<rparr>) src comm" for src
        using cid tt(4,5) by (simp_all add: VT_COMM_ID_def VT_RANK_TO_PE_def)
      ultimately show ?thesis
        using write_message_room(2) [of h "trc ?t"] check True ms t(5) tt
        by (simp add: check_request_def recv_entry_def sz_of_def on_trc_def emits_def t(2) u del: puts.simps)
    qed
    then show "\<exists>s4. check_request e x (out_status r) ?t = Inr s4 \<and> emits e ms 1 (t\<lparr>lib := p\<rparr>) s4 \<and> ?Q s4"
      using t(1) by simp
  qed (use get in \<open>auto simp: emits_refl\<close>)
  then show ?thesis
    by auto
qed

text \<open>
  C12: a receive that is started by \<open>MPI_Irecv\<close> and completed by \<open>MPI_Wait\<close> leaves exactly one
  message in the trace, inside the second call: from the source, with the tag and the size that the
  status of the completion gives, not those of the start. It is left out where the second call is
  not recorded. The table of requests is afterwards what it was before.
\<close>

theorem nonblocking_receive:
  assumes "is_mpi_trace_on s" and "mpitrace s" and "tracer_ok (Suc h) (trc s)" and "req_ok (req s)"
    and "tab (tracer_of (trc s)) (mpi_regid e ''MPI_Irecv'') \<noteq> None"
    and "tab (tracer_of (trc s)) (mpi_regid e ''MPI_Wait'') \<noteq> None"
    and "pmpi e ''MPI_Irecv'' [Buffer mbuf, Number cnt, Handle datatype, Number source, Number tag, Handle comm]
          (lib s) = (r1, p1)"
    and "source \<noteq> MPI_PROC_NULL (mpi e p1)" and "result r1 = MPI_SUCCESS e"
    and "out_handle r1 \<notin> rq_request ` set (reqs (req s))"
    and "pmpi e ''MPI_Wait'' [Handle (out_handle r1), Ignored False] p1 = (r2, p2)"
    and "MPI_SOURCE (out_status r2) \<notin> {MPI_PROC_NULL (mpi e p2), MPI_ANY_SOURCE (mpi e p2)}"
    and "VT_COMM_ID e (s\<lparr>lib := p2\<rparr>) comm = Inr cid"
    and "clk = (\<lambda>k. wtime (tenv e) (ticks (trc s) + k))" and "on = (trace_status (trc s) = VT_TRACE_ON)"
    and "spec_enter (tenv e) on (mpi_regid e ''MPI_Irecv'') (clk 0) (tracer_of (trc s)) = (rec1, es1, a1)"
    and "spec_enter (tenv e) on (mpi_regid e ''MPI_Wait'') (clk 2) (a1\<lparr>level := level a1 - 1\<rparr>) = (rec2, es2, a2)"
    and "ents = es1 @ (if rec1 then [Event (Leave (clk 1) 0 0)] else []) @ es2
        @ (if rec2 then [recv_entry e (s\<lparr>lib := p2\<rparr>) (clk 3) datatype comm (out_status r2) cid,
                         Event (Leave (clk 3) 0 0)] else [])"
    and "room ents (buf (gen (trc s)))"
  shows "\<exists>s1 s2. MPI_Irecv e mbuf cnt datatype source tag comm s = Inr (r1, s1)
    \<and> MPI_Wait e (out_handle r1) ign s1 = Inr (r2, s2)
    \<and> buf (gen (trc s2)) = puts ents (buf (gen (trc s))) \<and> tracer_ok (Suc h) (trc s2)
    \<and> req_ok (req s2) \<and> reqs (req s2) = reqs (req s)"
proof -
  let ?ls1 = "if rec1 then [Event (Leave (clk 1) 0 0)] else []"
  let ?ms = "if rec2 then [recv_entry e (s\<lparr>lib := p2\<rparr>) (clk 3) datatype comm (out_status r2) cid] else []"
  let ?ls2 = "if rec2 then [Event (Leave (clk 3) 0 0)] else []"
  have ents: "ents = es1 @ ?ls1 @ es2 @ ?ms @ ?ls2"
    using assms(18) by simp
  then have "room ((es1 @ ?ls1) @ es2 @ ?ms @ ?ls2) (buf (gen (trc s)))"
    using assms(19) by simp
  then have rm: "room (es1 @ ?ls1) (buf (gen (trc s)))" "room (es2 @ ?ms @ ?ls2) (puts (es1 @ ?ls1) (buf (gen (trc s))))"
    by (fact room_app)+
  have c: "wtime (tenv e) (ticks (trc s)) = clk 0" "wtime (tenv e) (ticks (trc s) + 1) = clk 1"
    by (simp_all add: assms(14))
  obtain s1 where s1: "MPI_Irecv e mbuf cnt datatype source tag comm s = Inr (r1, s1)"
    "buf (gen (trc s1)) = puts (es1 @ ?ls1) (buf (gen (trc s)))"
    "tracer_ok (Suc h) (trc s1)" "tracer_of (trc s1) = a1\<lparr>level := level a1 - 1\<rparr>"
    "mpi_trace_is_on s1 = mpitrace s" "same_rest ((trc s)\<lparr>ticks := ticks (trc s) + 2\<rparr>) (trc s1)" "lib s1 = p1"
    "com s1 = com s" "req s1 = vt_request_create (req_junk e) (out_handle r1) ERF_RECV tag 0
        (wrap32 (cnt * sz_of e s datatype)) datatype comm (req s)"
    using irecv_traced [OF assms(1,3,5) assms(16) [unfolded assms(15), folded c] assms(7,8,9) refl rm(1) [folded c]]
    unfolding c by blast
  obtain q rq where q: "vt_request_get (out_handle r1) (req s1) = Some q"
    "vt_check_request (mpi e p2) (Some q) (out_status r2) rec2 (req s1) =
        Some (if rec2 then [MpiRecv (MPI_SOURCE (out_status r2)) comm (MPI_TAG (out_status r2))
                (word_of_int (get_count (mpi e p2) (out_status r2) datatype * type_size (mpi e p2) datatype))] else [], rq)"
    "req_ok rq" "reqs rq = reqs (req s)"
    using receive_done [OF assms(4,10,12) s1(9)] by blast
  have on: "is_mpi_trace_on s1"
    using assms(1,2) s1(5,6) by (simp add: is_mpi_trace_on_def same_rest_def)
  have known: "tab (tracer_of (trc s1)) (mpi_regid e ''MPI_Wait'') \<noteq> None"
    using spec_enter_fields [OF assms(16)] assms(6) s1(4) by auto
  have tk: "ticks (trc s1) = ticks (trc s) + 2" "trace_status (trc s1) = trace_status (trc s)"
    using s1(6) by (simp_all add: same_rest_def)
  have sp: "spec_enter (tenv e) (trace_status (trc s1) = VT_TRACE_ON) (mpi_regid e ''MPI_Wait'')
      (wtime (tenv e) (ticks (trc s1))) (tracer_of (trc s1)) = (rec2, es2, a2)"
    using assms(14,15,17) s1(4) tk by simp
  have clk3: "clk 3 = wtime (tenv e) (ticks (trc s1) + 1)"
    using assms(14) tk by (simp add: numeral_3_eq_3)
  have ms: "?ms = (if rec2 then [recv_entry e (s1\<lparr>lib := p2\<rparr>) (clk 3) datatype comm (out_status r2) cid] else [])"
    using s1(8) by (simp add: recv_entry_def VT_RANK_TO_PE_def sz_of_def)
  have cid: "VT_COMM_ID e (s1\<lparr>lib := p2\<rparr>) comm = Inr cid"
    using assms(13) s1(8) by (simp add: VT_COMM_ID_def)
  obtain s2 where "MPI_Wait e (out_handle r1) ign s1 = Inr (r2, s2)"
    "buf (gen (trc s2)) = puts (es2 @ ?ms @ ?ls2) (buf (gen (trc s1)))" "tracer_ok (Suc h) (trc s2)" "req s2 = rq"
    using wait_traced [OF on s1(3) known sp _ q(1,2) cid clk3 ms refl, of ign] assms(11) rm(2) s1(2,7) by auto
  then show ?thesis
    using s1(1,2) q(3,4) ents by (intro exI [of _ s1] exI [of _ s2]) simp
qed

section \<open>Collective operations\<close>

lemma write_coll_room:
  assumes "tracer_ok h v" and "trace_status v = VT_TRACE_ON"
  shows "room [Comm (BeginCollectiveOperation t rid mid (root_pid rp) (c + 1) n k 0)] (buf (gen v)) \<Longrightarrow>
      vt_mpi_collbegin cl rid mid rp c n k t v = Inr (t,
        set_buf (puts [Comm (BeginCollectiveOperation t rid mid (root_pid rp) (c + 1) n k 0)] (buf (gen v))) v)"
    and "room [Comm (EndCollectiveOperation t mid)] (buf (gen v)) \<Longrightarrow> \<not> sync_flush_env env \<Longrightarrow>
      vt_mpi_collend env cl ms mid cm t v =
        Inr (t, set_buf (puts [Comm (EndCollectiveOperation t mid)] (buf (gen v))) v)"
  using assms
    write_event_room [of "\<lambda>t. Comm (BeginCollectiveOperation t rid mid (root_pid rp) (c + 1) n k 0)" t v cl]
    write_event_room [of "\<lambda>t. Comm (EndCollectiveOperation t mid)" t v cl]
  by (simp_all add: vt_mpi_collbegin_def vt_mpi_collend_def vt_mpi_sync_def if_on_def
      VTGen_write_BEGIN_COLLECTIVE_OPERATION_def VTGen_write_END_COLLECTIVE_OPERATION_def trace_event_def
      with_sum_def without_sum_def sum_prop_on_def sum_on_def tracer_ok_def del: puts.simps)

definition root_of :: "'p wenv \<Rightarrow> 'p app \<Rightarrow> int option \<Rightarrow> nat \<Rightarrow> u32" where
  "root_of e s root comm = root_pid (case root of None \<Rightarrow> VT_NO_ID | Some r \<Rightarrow> VT_RANK_TO_PE e s r comm)"

text \<open>The volumes depend on the MPI library only.\<close>

definition lib_only :: "('p app \<Rightarrow> int \<times> int) \<Rightarrow> bool" where
  "lib_only vol \<longleftrightarrow> (\<forall>s s'. lib s = lib s' \<longrightarrow> vol s = vol s')"

lemma lib_onlyD: "lib_only vol \<Longrightarrow> lib s = lib s' \<Longrightarrow> vol s = vol s'"
  unfolding lib_only_def by blast

lemma coll_begin_emits:
  fixes s :: "'p app"
  assumes "tracer_ok h (trc s)" and "was_recorded s \<longrightarrow> trace_status (trc s) = VT_TRACE_ON"
    and "VT_COMM_ID e s comm = Inr cid" and "lib_only vol"
    and "bs = (if was_recorded s
          then [Comm (BeginCollectiveOperation (time s) (mpi_regid e fn) (coll_matchingid s) (root_of e s root comm)
                  (cid + 1) (bytes64 (fst (vol s))) (bytes64 (snd (vol s))) 0)] else [])"
    and "room bs (buf (gen (trc s)))"
  shows "\<exists>s'. coll_begin e fn root comm vol s = Inr (if was_recorded s then coll_matchingid s else 0, s')
    \<and> emits e bs 0 s s' \<and> lib s' = lib s
    \<and> coll_matchingid s' = coll_matchingid s + (if was_recorded s then 1 else 0)"
proof (cases "was_recorded s")
  case False
  then show ?thesis
    using assms(5) by (simp add: coll_begin_def emits_refl)
next
  case True
  let ?s = "s\<lparr>coll_matchingid := coll_matchingid s + 1\<rparr>"
  have same: "vol ?s = vol s" "VT_COMM_ID e ?s comm = Inr cid" "VT_RANK_TO_PE e ?s = VT_RANK_TO_PE e s"
    using assms(3) lib_onlyD [OF assms(4), of ?s s] by (auto simp: VT_COMM_ID_def VT_RANK_TO_PE_def fun_eq_iff)
  have "room [Comm (BeginCollectiveOperation (time s) (mpi_regid e fn) (coll_matchingid s) (root_of e s root comm)
                  (cid + 1) (bytes64 (fst (vol s))) (bytes64 (snd (vol s))) 0)] (buf (gen (trc s)))"
    using assms(5,6) True by simp
  from write_coll_room(1) [OF assms(1) _ this [unfolded root_of_def]] show ?thesis
    using assms(2,5) True same
    by (cases root) (simp_all add: coll_begin_def on_trc_def emits_def root_of_def split_beta Let_def del: puts.simps)
qed

text \<open>
  C13: a traced collective operation is recorded by a begin and an end with the same matching id,
  between the entries of entering and leaving the function. The ids are counted, so that no two
  operations share one. The begin has the root as a global rank, the id of the communicator and
  the two numbers of bytes that the wrapper passes, modulo \<open>2 ^ 32\<close> in the range of an \<open>int\<close>; how the
  operations compute them is not part of it (they are the parameter \<open>vol\<close>). Where the call is not recorded there is neither, and no id is used.
\<close>

theorem collective_recorded:
  assumes "is_mpi_trace_on s" and "tracer_ok (Suc h) (trc s)" and "tab (tracer_of (trc s)) (mpi_regid e fn) \<noteq> None"
    and "VT_COMM_ID e s comm = Inr cid" and "lib_only vol" and "\<not> sync_flush_env (tenv e)"
    and "t = wtime (tenv e) (ticks (trc s))" and "u = wtime (tenv e) (ticks (trc s) + 1)"
    and "spec_enter (tenv e) (trace_status (trc s) = VT_TRACE_ON) (mpi_regid e fn) t (tracer_of (trc s)) = (rec, es, a)"
    and "ents = es @ (if rec
          then [Comm (BeginCollectiveOperation t (mpi_regid e fn) (coll_matchingid s) (root_of e s root comm)
                  (cid + 1) (bytes64 (fst (vol s))) (bytes64 (snd (vol s))) 0),
                Comm (EndCollectiveOperation u (coll_matchingid s)), Event (Leave u 0 0)] else [])"
    and "room ents (buf (gen (trc s)))"
  shows "\<exists>s'. coll_wrapper e fn args root comm vol s = Inr (fst (pmpi e fn args (lib s)), s')
    \<and> buf (gen (trc s')) = puts ents (buf (gen (trc s)))
    \<and> tracer_ok (Suc h) (trc s') \<and> callstack (trc s') = callstack (trc s)
    \<and> coll_matchingid s' = coll_matchingid s + (if rec then 1 else 0)"
proof -
  let ?bs = "if rec then [Comm (BeginCollectiveOperation t (mpi_regid e fn) (coll_matchingid s)
      (root_of e s root comm) (cid + 1) (bytes64 (fst (vol s))) (bytes64 (snd (vol s))) 0)] else []"
  let ?cs = "if rec then [Comm (EndCollectiveOperation u (coll_matchingid s))] else []"
  let ?ls = "if rec then [Event (Leave (wtime (tenv e) (ticks (trc s) + 1)) 0 0)] else []"
  let ?P = "\<lambda>x s'. x = (if rec then coll_matchingid s else 0)
      \<and> coll_matchingid s' = coll_matchingid s + (if rec then 1 else 0)"
  let ?Q = "\<lambda>s'. coll_matchingid s' = coll_matchingid s + (if rec then 1 else 0)"
  have ents: "ents = es @ ?bs @ ?cs @ ?ls"
    using assms(8,10) by simp
  then have rm: "room (es @ ?bs @ ?cs @ ?ls) (buf (gen (trc s)))"
    using assms(11) by simp
  have sp: "spec_enter (tenv e) (trace_status (trc s) = VT_TRACE_ON) (mpi_regid e fn) (wtime (tenv e) (ticks (trc s)))
      (tracer_of (trc s)) = (rec, es, a)"
    using assms(7,9) by simp
  have rec: "rec \<longrightarrow> trace_status (trc s) = VT_TRACE_ON"
    using spec_enter_fields [OF sp] by simp
  obtain r p where lib: "pmpi e fn args (lib s) = (r, p)"
    by fastforce
  have "\<exists>s'. coll_wrapper e fn args root comm vol s = Inr (r, s')
    \<and> buf (gen (trc s')) = puts (es @ ?bs @ ?cs @ ?ls) (buf (gen (trc s)))
    \<and> tracer_ok (Suc h) (trc s') \<and> tracer_of (trc s') = a\<lparr>level := level a - 1\<rparr>
    \<and> callstack (trc s') = callstack (trc s) \<and> mpi_trace_is_on s' = mpitrace s \<and> mpitrace s' = mpitrace s
    \<and> same_rest ((trc s)\<lparr>ticks := ticks (trc s) + 2\<rparr>) (trc s')
    \<and> (\<exists>s4 v. ?Q s4 \<and> s' = s4\<lparr>trc := v, mpi_trace_is_on := mpitrace s\<rparr>)"
    unfolding coll_wrapper_def
  proof (rule traced_call [OF assms(1-3) sp lib _ _ refl rm, where P = ?P])
    fix v
    assume v: "tracer_ok h v" "trace_status v = trace_status (trc s)" "buf (gen v) = puts es (buf (gen (trc s)))"
    let ?s = "s\<lparr>mpi_trace_is_on := False, time := wtime (tenv e) (ticks (trc s)), was_recorded := rec, trc := v\<rparr>"
    have vol: "vol ?s = vol s"
      by (rule lib_onlyD [OF assms(5)]) simp
    have p1: "tracer_ok h (trc ?s)" and p2: "was_recorded ?s \<longrightarrow> trace_status (trc ?s) = VT_TRACE_ON"
      and p3: "VT_COMM_ID e ?s comm = Inr cid" and p5: "room ?bs (buf (gen (trc ?s)))"
      using v rec room_app(1) [OF room_app(2) [OF rm]] assms(4) by (simp_all add: VT_COMM_ID_def)
    have p4: "?bs = (if was_recorded ?s
          then [Comm (BeginCollectiveOperation (time ?s) (mpi_regid e fn) (coll_matchingid ?s) (root_of e ?s root comm)
                  (cid + 1) (bytes64 (fst (vol ?s))) (bytes64 (snd (vol ?s))) 0)] else [])"
      using assms(7) vol by (cases rec; cases root) (simp_all add: root_of_def VT_RANK_TO_PE_def)
    show "\<exists>x s2. coll_begin e fn root comm vol ?s = Inr (x, s2) \<and> emits e ?bs 0 ?s s2 \<and> lib s2 = lib s \<and> ?P x s2"
      using coll_begin_emits [OF p1 p2 p3 assms(5) p4 p5] by auto
  next
    fix x and t :: "'a app"
    assume t: "?P x t" "was_recorded t = rec" "tracer_ok h (trc t)" "trace_status (trc t) = trace_status (trc s)"
      "ticks (trc t) = ticks (trc s) + 1" "buf (gen (trc t)) = puts (es @ ?bs) (buf (gen (trc s)))"
    let ?t = "take_time e (t\<lparr>lib := p\<rparr>)"
    have tt: "trc ?t = (trc t)\<lparr>ticks := ticks (trc s) + 2\<rparr>" "time ?t = u" "was_recorded ?t = rec"
      "coll_matchingid ?t = coll_matchingid t" "mpitrace ?t = mpitrace t"
      using t assms(8) by (simp_all add: take_time_def vt_pform_wtime_def)
    have "room ?cs (puts (es @ ?bs) (buf (gen (trc s))))"
      using rm by (simp add: room_append)
    then have "rec \<Longrightarrow> room [Comm (EndCollectiveOperation u (coll_matchingid s))] (buf (gen (trc ?t)))"
      using t(6) tt(1) by simp
    note end_room = this
    show "\<exists>s4. coll_end e comm x r (t\<lparr>lib := p\<rparr>) = Inr s4 \<and> emits e ?cs 1 (t\<lparr>lib := p\<rparr>) s4 \<and> ?Q s4"
    proof (cases rec)
      case True
      then show ?thesis
        using write_coll_room(2) [of h "trc ?t" u "coll_matchingid s" "tenv e" "cal e"] end_room t tt rec assms(6,8)
        by (simp add: coll_end_def on_trc_def emits_def del: puts.simps)
    next
      case False
      then show ?thesis
        using t(1) tt(3,4) emits_take_time [of e "t\<lparr>lib := p\<rparr>"] by (simp add: coll_end_def)
    qed
  qed
  then show ?thesis
    using lib ents by auto
qed

section \<open>Examples\<close>

text \<open>
  A process with rank 0 of four. The library gives the request 9 to \<open>MPI_Irecv\<close>, and a message
  from rank 2 with tag 5 to everything else; it counts the calls. Region 7 stands for its functions.
\<close>

definition demo_pret :: "nat \<Rightarrow> pret" where
  "demo_pret h = \<lparr>result = 0, out_handle = h, out_status = \<lparr>MPI_SOURCE = 2, MPI_TAG = 5\<rparr>,
     out_statuses = (\<lambda>_. \<lparr>MPI_SOURCE = 2, MPI_TAG = 5\<rparr>), out_flag = True, out_index = - 3, out_count = 0,
     out_indices = (\<lambda>_. 0)\<rparr>"

definition demo_wenv :: "nat wenv" where
  "demo_wenv = \<lparr>tenv = demo_env, cal = callees_at demo_env 0, pmpi = (\<lambda>_ _ p. (demo_pret 9, p + 1)),
     mpi = (\<lambda>_. \<lparr>type_size = (\<lambda>_. 8), get_count = (\<lambda>_ _. 3), MPI_PROC_NULL = - 1, MPI_ANY_SOURCE = - 2,
                  mpi_lib.MPI_UNDEFINED = - 3\<rparr>),
     mcom = (\<lambda>_. \<lparr>MPI_COMM_WORLD = 1, MPI_COMM_SELF = 2, MPI_COMM_NULL = 0, MPI_WIN_NULL = 0,
                  mpi_funs.MPI_UNDEFINED = - 3, Comm_test_inter = (\<lambda>_. False), Comm_group = (\<lambda>c. c + 10),
                  Comm_remote_group = (\<lambda>c. c), Group_size = (\<lambda>_. 4),
                  Group_translate_ranks = (\<lambda>_ rs _. rs), Win_get_group = (\<lambda>w. w)\<rparr>),
     msync = (\<lambda>_. \<lparr>is_world = (\<lambda>c. c = 1), sync_comm_size = (\<lambda>_. 4), allreduce_or = (\<lambda>_ n. n)\<rparr>), comm_rank = (\<lambda>_ _. 0), comm_size = (\<lambda>_ _. 4), MPI_SUCCESS = 0,
     MPI_GROUP_NULL = 0, mpi_regid = (\<lambda>_. 7), req_junk = no_request, handle_junk = 0\<rparr>"

definition demo_mpi_app :: "nat app" where
  "demo_mpi_app = \<lparr>trc = demo_app,
     com = demo_state [\<lparr>c_comm = 1, c_group = 11, c_cid = 1\<rparr>, \<lparr>c_comm = 2, c_group = 12, c_cid = 2\<rparr>],
     req = req_start, orig_req = [], status_array_size = 0, files = fresh_state 3, mpitrace = True,
     mpi_trace_is_on = True, is_rma_putre = False, mpi_is_finalized = False, coll_matchingid = 0,
     io_matchingid = 0, time = 0, was_recorded = False, lib = 0\<rparr>"

lemma demo_on: "is_mpi_trace_on demo_mpi_app" "mpitrace demo_mpi_app" "tracer_ok (Suc 1) (trc demo_mpi_app)"
  "req_ok (req demo_mpi_app)" "reqs (req demo_mpi_app) = []" "lib demo_mpi_app = 0"
  "tab (tracer_of (trc demo_mpi_app)) (mpi_regid demo_wenv fn) \<noteq> None"
  "VT_COMM_ID demo_wenv (demo_mpi_app\<lparr>lib := k\<rparr>) 1 = Inr 1" "VT_COMM_ID demo_wenv demo_mpi_app 1 = Inr 1"
  using demo_app_ok by (simp_all add: is_mpi_trace_on_def demo_mpi_app_def demo_wenv_def demo_tracer demo_table_get
      req_ok_start reqs_start VT_COMM_ID_def or_abort_def vt_comm_id_def demo_state_def numeral_2_eq_2)

lemma demo_pmpi: "pmpi demo_wenv fn args p = (demo_pret 9, p + 1)" "MPI_SUCCESS demo_wenv = 0"
  "MPI_PROC_NULL (mpi demo_wenv p) = - 1" "MPI_ANY_SOURCE (mpi demo_wenv p) = - 2" "tenv demo_wenv = demo_env"
  "mpi_lib.MPI_UNDEFINED (mpi demo_wenv p) = - 3" "VT_RANK_TO_PE demo_wenv s r 1 = word_of_int r" "VT_RANK_TO_PE demo_wenv s r (Suc 0) = word_of_int r"
  "sz_of demo_wenv s ty = 8" "get_count (mpi demo_wenv p) st ty = 3"
  by (simp_all add: demo_wenv_def VT_RANK_TO_PE_def sz_of_def)

lemma demo_enter: "spec_enter demo_env True (mpi_regid demo_wenv fn) t a = spec_enter demo_env True 7 t a"
  by (simp add: demo_wenv_def)

lemma demo_times: "wtime demo_env (ticks (trc demo_mpi_app) + k) = wtime demo_env (ticks demo_app + k)"
  "trace_status (trc demo_mpi_app) = VT_TRACE_ON" "tracer_of (trc demo_mpi_app) = tracer_of demo_app"
  "buf (gen (trc demo_mpi_app)) = buf (gen demo_app)"
  by (simp_all add: demo_mpi_app_def demo_app_ok)

lemma demo_enters: "\<exists>es a. spec_enter demo_env True (mpi_regid demo_wenv fn) t (tracer_of demo_app) = (True, es, a)
    \<and> spec_enter demo_env True (mpi_regid demo_wenv fn) u (a\<lparr>level := level a - 1\<rparr>) = (True, [Event (Enter u 7 0)],
        a\<lparr>level := level a\<rparr>)
    \<and> es = [Event (Enter t 7 0)]"
  by (simp add: spec_enter_def demo_wenv_def demo_tracer demo_table_get counted_def Let_def demo_env_def)

lemma demo_room_of: "room [Event (Enter t 7 0), Comm (SendMsg t p c tag n k), Event (Leave u 0 0)] (buf (gen demo_app))"
  "room [Event (Enter t 7 0), Event (Leave u 0 0), Event (Enter t' 7 0), Comm (RecvMsg v p c tag n k),
     Event (Leave u' 0 0)] (buf (gen demo_app))"
  "room [Event (Enter t 7 0), Comm (BeginCollectiveOperation t r m p c b d k), Comm (EndCollectiveOperation u m),
     Event (Leave u 0 0)] (buf (gen demo_app))"
  "room [Event (Enter t 7 0), Event (Leave u 0 0)] (buf (gen demo_app))"
  by (simp_all add: room_def demo_app_ok entry_length_def align_length_def)

theorem send_recorded_witness:
  "\<exists>s'. MPI_Send demo_wenv 0 3 6 2 5 1 demo_mpi_app = Inr (demo_pret 9, s')
    \<and> buf (gen (trc s')) = puts [Event (Enter 1000 7 0), Comm (SendMsg 1000 3 2 5 24 0), Event (Leave 1001 0 0)]
        (buf (gen demo_app))"
proof -
  obtain a where sp: "spec_enter demo_env True (mpi_regid demo_wenv ''MPI_Send'') 1000 (tracer_of demo_app) =
      (True, [Event (Enter 1000 7 0)], a)"
    using demo_enters [of "''MPI_Send''" 1000] by auto
  have t: "(1000 :: u64) = wtime (tenv demo_wenv) (ticks (trc demo_mpi_app))"
    "(1001 :: u64) = wtime (tenv demo_wenv) (ticks (trc demo_mpi_app) + 1)"
    by (simp_all add: demo_mpi_app_def demo_wenv_def demo_env_def demo_app_def demo_gen_def demo_vt_def)
  have sp': "spec_enter (tenv demo_wenv) (trace_status (trc demo_mpi_app) = VT_TRACE_ON)
      (mpi_regid demo_wenv ''MPI_Send'') 1000 (tracer_of (trc demo_mpi_app)) = (True, [Event (Enter 1000 7 0)], a)"
    using sp by (simp add: demo_times demo_pmpi)
  have "[Event (Enter 1000 7 0), Comm (SendMsg 1000 3 2 5 24 0), Event (Leave 1001 0 0)] =
      [Event (Enter 1000 7 0)] @ (if True then send_entries demo_wenv demo_mpi_app 1000 3 6 2 5 1 1
        @ [Event (Leave 1001 0 0)] else [])"
    by (simp add: send_entries_def demo_pmpi)
  from send_recorded [OF _ demo_on(1,3,7,9) t sp' this, of "MPI_Send demo_wenv" 0] show ?thesis
    using demo_room_of(1) by (auto simp: demo_times demo_pmpi simp del: puts.simps)
qed

theorem nonblocking_receive_witness:
  "\<exists>s1 s2. MPI_Irecv demo_wenv 0 4 6 (- 2) (- 1) 1 demo_mpi_app = Inr (demo_pret 9, s1)
    \<and> MPI_Wait demo_wenv 9 True s1 = Inr (demo_pret 9, s2) \<and> reqs (req s2) = []
    \<and> buf (gen (trc s2)) = puts [Event (Enter 1000 7 0), Event (Leave 1001 0 0), Event (Enter 1002 7 0),
        Comm (RecvMsg 1003 3 2 5 24 0), Event (Leave 1003 0 0)] (buf (gen demo_app))"
proof -
  let ?clk = "\<lambda>k. wtime (tenv demo_wenv) (ticks (trc demo_mpi_app) + k)"
  have clk: "?clk 0 = 1000" "?clk 1 = 1001" "?clk 2 = 1002" "?clk 3 = 1003"
    by (simp_all add: demo_mpi_app_def demo_wenv_def demo_env_def demo_app_def demo_gen_def demo_vt_def)
  let ?on = "trace_status (trc demo_mpi_app) = VT_TRACE_ON"
  obtain a where sp: "spec_enter (tenv demo_wenv) ?on (mpi_regid demo_wenv ''MPI_Irecv'') (?clk 0)
        (tracer_of (trc demo_mpi_app)) = (True, [Event (Enter 1000 7 0)], a)"
    "spec_enter (tenv demo_wenv) ?on (mpi_regid demo_wenv ''MPI_Wait'') (?clk 2)
        (a\<lparr>level := level a - 1\<rparr>) = (True, [Event (Enter 1002 7 0)], a\<lparr>level := level a\<rparr>)"
    using demo_enters [of "''MPI_Irecv''" 1000 1002] unfolding clk
    by (auto simp: demo_times demo_pmpi demo_enter)
  have fin: "MPI_SOURCE (out_status (demo_pret 9)) \<notin> {MPI_PROC_NULL (mpi demo_wenv 2), MPI_ANY_SOURCE (mpi demo_wenv 2)}"
    "result (demo_pret 9) = MPI_SUCCESS demo_wenv" "- 2 \<noteq> MPI_PROC_NULL (mpi demo_wenv 1)"
    "out_handle (demo_pret 9) \<notin> rq_request ` set (reqs (req demo_mpi_app))" "out_handle (demo_pret 9) = 9"
    by (simp_all add: demo_pmpi demo_pret_def demo_on)
  have lib: "pmpi demo_wenv ''MPI_Irecv'' args (lib demo_mpi_app) = (demo_pret 9, 1)"
    "pmpi demo_wenv ''MPI_Wait'' args 1 = (demo_pret 9, 2)" for args
    by (simp_all add: demo_pmpi demo_on)
  have ents: "[Event (Enter 1000 7 0), Event (Leave 1001 0 0), Event (Enter 1002 7 0),
      Comm (RecvMsg 1003 3 2 5 24 0), Event (Leave 1003 0 0)] =
    [Event (Enter 1000 7 0)] @ (if True then [Event (Leave (?clk 1) 0 0)] else []) @ [Event (Enter 1002 7 0)]
      @ (if True then [recv_entry demo_wenv (demo_mpi_app\<lparr>lib := 2\<rparr>) (?clk 3) 6 1 (out_status (demo_pret 9)) 1,
                       Event (Leave (?clk 3) 0 0)] else [])"
    unfolding clk by (simp add: recv_entry_def demo_pmpi demo_pret_def)
  from nonblocking_receive [OF demo_on(1-4,7,7) lib(1) fin(3,2,4) lib(2) fin(1) demo_on(8) refl refl sp ents,
      of 0 4 "- 1" True] show ?thesis
    using demo_room_of(2) unfolding demo_times demo_on(5) fin(5) by (auto simp del: puts.simps)
qed

theorem collective_recorded_witness:
  "\<exists>s'. MPI_Bcast demo_wenv 0 3 6 2 1 demo_mpi_app = Inr (demo_pret 9, s')
    \<and> buf (gen (trc s')) = puts [Event (Enter 1000 7 0), Comm (BeginCollectiveOperation 1000 7 0 3 2 0 24 0),
          Comm (EndCollectiveOperation 1001 0), Event (Leave 1001 0 0)] (buf (gen demo_app))
    \<and> coll_matchingid s' = 1"
proof -
  let ?vol = "\<lambda>s. let sendcount = (if me_of demo_wenv s 1 = 2 then 3 else 0)
            in (sendcount * sz_of demo_wenv s 6, 3 * sz_of demo_wenv s 6)"
  have vol: "lib_only ?vol" "?vol demo_mpi_app = (0, 24)"
    by (simp_all add: lib_only_def me_of_def sz_of_def demo_wenv_def)
  obtain a where sp: "spec_enter demo_env True (mpi_regid demo_wenv ''MPI_Bcast'') 1000 (tracer_of demo_app) =
      (True, [Event (Enter 1000 7 0)], a)"
    using demo_enters [of "''MPI_Bcast''" 1000] by auto
  have t: "(1000 :: u64) = wtime (tenv demo_wenv) (ticks (trc demo_mpi_app))"
    "(1001 :: u64) = wtime (tenv demo_wenv) (ticks (trc demo_mpi_app) + 1)"
    by (simp_all add: demo_mpi_app_def demo_wenv_def demo_env_def demo_app_def demo_gen_def demo_vt_def)
  have sp': "spec_enter (tenv demo_wenv) (trace_status (trc demo_mpi_app) = VT_TRACE_ON)
      (mpi_regid demo_wenv ''MPI_Bcast'') 1000 (tracer_of (trc demo_mpi_app)) = (True, [Event (Enter 1000 7 0)], a)"
    using sp by (simp add: demo_times demo_pmpi)
  have ns: "\<not> sync_flush_env (tenv demo_wenv)" "mpi_regid demo_wenv f = 7" "coll_matchingid demo_mpi_app = 0" for f
    by (simp_all add: demo_wenv_def demo_env_def demo_mpi_app_def)
  have ents: "[Event (Enter 1000 7 0), Comm (BeginCollectiveOperation 1000 7 0 3 2 0 24 0),
      Comm (EndCollectiveOperation 1001 0), Event (Leave 1001 0 0)] = [Event (Enter 1000 7 0)] @ (if True
        then [Comm (BeginCollectiveOperation 1000 (mpi_regid demo_wenv ''MPI_Bcast'') (coll_matchingid demo_mpi_app)
                (root_of demo_wenv demo_mpi_app (Some 2) 1) (1 + 1) (bytes64 (fst (?vol demo_mpi_app)))
                (bytes64 (snd (?vol demo_mpi_app))) 0),
              Comm (EndCollectiveOperation 1001 (coll_matchingid demo_mpi_app)), Event (Leave 1001 0 0)] else [])"
    unfolding vol(2) by (simp add: ns root_of_def root_pid_def demo_pmpi bytes64_def)
  from collective_recorded [OF demo_on(1,3,7,9) vol(1) ns(1) t sp' ents, of
      "[Buffer 0, Number 3, Handle 6, Number 2, Handle 1]"] show ?thesis
    using demo_room_of(3) unfolding demo_times MPI_Bcast_def by (auto simp: ns demo_pmpi simp del: puts.simps)
qed

end
