(* ===== verification/Programs.thy ===== *)
theory Programs
  imports TraceState
begin

text \<open>
  Programs that make calls of wrapped functions: the next call may depend on what the calls before it
  returned. A program runs until its end or until an error ends it. Two contracts of the calls carry
  over to programs: a simulation (the traced run and the run that is not traced), and an invariant,
  which may use up a budget, one unit per call.
\<close>

datatype ('s, 'r) prog = Finished | Then "'s \<Rightarrow> vt_error + ('r \<times> 's)" "'r \<Rightarrow> ('s, 'r) prog"

primrec run_prog :: "('s, 'r) prog \<Rightarrow> 's \<Rightarrow> vt_error + ('r list \<times> 's)" where
  "run_prog Finished s = Inr ([], s)"
| "run_prog (Then f k) s =
     andThen (f s) (\<lambda>(r, s). andThen (run_prog (k r) s) (\<lambda>(rs, s). Inr (r # rs, s)))"

primrec prog_of :: "(('s \<Rightarrow> vt_error + ('r \<times> 's)) \<Rightarrow> bool) \<Rightarrow> ('s, 'r) prog \<Rightarrow> bool" where
  "prog_of call Finished \<longleftrightarrow> True"
| "prog_of call (Then f k) \<longleftrightarrow> call f \<and> (\<forall>r. prog_of call (k r))"

lemma prog_of_mono: "prog_of call p \<Longrightarrow> (\<And>f. call f \<Longrightarrow> call' f) \<Longrightarrow> prog_of call' p"
  by (induction p) auto

lemma run_Then: "run_prog (Then f k) s = Inr (rs, s') \<longleftrightarrow>
    (\<exists>r s1 rs1. f s = Inr (r, s1) \<and> run_prog (k r) s1 = Inr (rs1, s') \<and> rs = r # rs1)"
  by (auto simp: andThen_Inr)

locale simulated_calls =
  fixes call :: "('s \<Rightarrow> vt_error + ('r \<times> 's)) \<Rightarrow> bool"
    and sim :: "'s \<Rightarrow> 's \<Rightarrow> bool"
  assumes call_sim: "call f \<Longrightarrow> f s = Inr (r, s') \<Longrightarrow> sim s u \<Longrightarrow> \<exists>u'. f u = Inr (r, u') \<and> sim s' u'"
begin

lemma run_sim: "prog_of call p \<Longrightarrow> run_prog p s = Inr (rs, s') \<Longrightarrow> sim s u \<Longrightarrow>
  \<exists>u'. run_prog p u = Inr (rs, u') \<and> sim s' u'"
proof (induction p arbitrary: s rs u)
  case (Then f k)
  then obtain r s1 rs1 where 1: "f s = Inr (r, s1)" and 2: "run_prog (k r) s1 = Inr (rs1, s')" "rs = r # rs1"
    by (auto simp only: run_Then)
  obtain u1 where u1: "f u = Inr (r, u1)" "sim s1 u1"
    using call_sim [of f s r s1 u] 1 Then.prems by auto
  then show ?case
    using Then.IH [OF rangeI _ 2(1) u1(2)] Then.prems(1) 2(2) by auto
qed simp

end

locale invariant_calls =
  fixes call :: "('s \<Rightarrow> vt_error + ('r \<times> 's)) \<Rightarrow> bool"
    and inv :: "nat \<Rightarrow> 's \<Rightarrow> bool"
  assumes call_inv: "call f \<Longrightarrow> f s = Inr (r, s') \<Longrightarrow> inv (Suc n) s \<Longrightarrow> inv n s'"
begin

lemma run_inv: "prog_of call p \<Longrightarrow> run_prog p s = Inr (rs, s') \<Longrightarrow> inv (length rs + n) s \<Longrightarrow> inv n s'"
proof (induction p arbitrary: s rs)
  case (Then f k)
  then obtain r s1 rs1 where 1: "f s = Inr (r, s1)" and 2: "run_prog (k r) s1 = Inr (rs1, s')" "rs = r # rs1"
    by (auto simp only: run_Then)
  have "inv (length rs1 + n) s1"
    using call_inv [of f s r s1 "length rs1 + n"] 1 Then.prems 2(2) by simp
  then show ?case
    using Then.IH [OF rangeI _ 2(1)] Then.prems(1) by simp
qed simp

end

end
