(* ===== verification/MpiProps.thy ===== *)
theory MpiProps
  imports MpiIo MpiTrace Programs
begin

unbundle bit_operations_syntax

text \<open>
  What the wrappers of MPI functions guarantee: a program computes the same with and without
  tracing, MPI tracing is as configured between the calls, and the tables stay well formed.
\<close>

section \<open>The calls\<close>

inductive mpi_call :: "'p wenv \<Rightarrow> ('p app \<Rightarrow> vt_error + (pret \<times> 'p app)) \<Rightarrow> bool" for e where
  "mpi_call e (MPI_Cancel e a)"
| "mpi_call e (MPI_Comm_dup e a)"
| "mpi_call e (MPI_Comm_create e a b)"
| "mpi_call e (MPI_Comm_split e a b c)"
| "mpi_call e (MPI_Cart_create e a b c d)"
| "mpi_call e (MPI_Cart_sub e a b)"
| "mpi_call e (MPI_Graph_create e a b c d g)"
| "mpi_call e (MPI_Intercomm_create e a b c d g)"
| "mpi_call e (MPI_Intercomm_merge e a b)"
| "mpi_call e (MPI_Comm_free e a)"
| "mpi_call e (MPI_Group_union e a b)"
| "mpi_call e (MPI_Group_intersection e a b)"
| "mpi_call e (MPI_Group_difference e a b)"
| "mpi_call e (MPI_Group_incl e a b)"
| "mpi_call e (MPI_Group_excl e a b)"
| "mpi_call e (MPI_Group_range_incl e a b c)"
| "mpi_call e (MPI_Group_range_excl e a b c)"
| "mpi_call e (MPI_Group_free e a)"
| "mpi_call e (MPI_Win_create e a b c d g)"
| "mpi_call e (MPI_Win_free e a)"
| "mpi_call e (MPI_Send e a b c d g h)"
| "mpi_call e (MPI_Bsend e a b c d g h)"
| "mpi_call e (MPI_Rsend e a b c d g h)"
| "mpi_call e (MPI_Ssend e a b c d g h)"
| "mpi_call e (MPI_Recv e a b c d g h i)"
| "mpi_call e (MPI_Sendrecv e a b c d g h i j k l m n)"
| "mpi_call e (MPI_Sendrecv_replace e a b c d g h i j k)"
| "mpi_call e (MPI_Isend e a b c d g h)"
| "mpi_call e (MPI_Ibsend e a b c d g h)"
| "mpi_call e (MPI_Issend e a b c d g h)"
| "mpi_call e (MPI_Irsend e a b c d g h)"
| "mpi_call e (MPI_Irecv e a b c d g h)"
| "mpi_call e (MPI_Wait e a b)"
| "mpi_call e (MPI_Waitall e a b)"
| "mpi_call e (MPI_Waitany e a b)"
| "mpi_call e (MPI_Waitsome e a b)"
| "mpi_call e (MPI_Test e a b)"
| "mpi_call e (MPI_Testany e a b)"
| "mpi_call e (MPI_Testall e a b)"
| "mpi_call e (MPI_Testsome e a b)"
| "mpi_call e (MPI_Send_init e a b c d g h)"
| "mpi_call e (MPI_Recv_init e a b c d g h)"
| "mpi_call e (MPI_Bsend_init e a b c d g h)"
| "mpi_call e (MPI_Ssend_init e a b c d g h)"
| "mpi_call e (MPI_Rsend_init e a b c d g h)"
| "mpi_call e (MPI_Start e a)"
| "mpi_call e (MPI_Startall e a)"
| "mpi_call e (MPI_Request_free e a)"
| "mpi_call e (MPI_Allreduce e a b c d g h)"
| "mpi_call e (MPI_Barrier e a)"
| "mpi_call e (MPI_Bcast e a b c d g)"
| "mpi_call e (MPI_Gather e a b c d g h i j)"
| "mpi_call e (MPI_Reduce e a b c d g h i)"
| "mpi_call e (MPI_Gatherv e a b c d g h i j k)"
| "mpi_call e (MPI_Allgather e a b c d g h i)"
| "mpi_call e (MPI_Allgatherv e a b c d g h i j)"
| "mpi_call e (MPI_Alltoall e a b c d g h i)"
| "mpi_call e (MPI_Alltoallv e a b c d g h i j k)"
| "mpi_call e (MPI_Scan e a b c d g h)"
| "mpi_call e (MPI_Scatter e a b c d g h i j)"
| "mpi_call e (MPI_Scatterv e a b c d g h i j k)"
| "mpi_call e (MPI_Reduce_scatter e a b c d g h)"
| "mpi_call e (MPI_Alltoallw e a b c d g h i j k)"
| "mpi_call e (MPI_Exscan e a b c d g h)"
| "mpi_call e (MPI_Put e a b c d g h i j)"
| "mpi_call e (MPI_Get e a b c d g h i j)"
| "mpi_call e (MPI_Accumulate e a b c d g h i j k)"
| "mpi_call e (MPI_Win_fence e a b)"
| "mpi_call e (MPI_Win_start e a b c)"
| "mpi_call e (MPI_Win_post e a b c)"
| "mpi_call e (MPI_Win_complete e a)"
| "mpi_call e (MPI_Win_wait e a)"
| "mpi_call e (MPI_Win_test e a)"
| "mpi_call e (MPI_Win_lock e a b c d)"
| "mpi_call e (MPI_Win_unlock e a b)"
| "mpi_call e (MPI_File_close e a)"
| "mpi_call e (MPI_File_open e a b c d)"
| "mpi_call e (MPI_File_delete e a b)"
| "mpi_call e (MPI_File_sync e a)"
| "mpi_call e (MPI_File_preallocate e a b)"
| "mpi_call e (MPI_File_seek e a b c)"
| "mpi_call e (MPI_File_seek_shared e a b c)"
| "mpi_call e (MPI_File_read e a b c d g)"
| "mpi_call e (MPI_File_read_all e a b c d g)"
| "mpi_call e (MPI_File_write e a b c d g)"
| "mpi_call e (MPI_File_write_all e a b c d g)"
| "mpi_call e (MPI_File_read_at e a b c d g h)"
| "mpi_call e (MPI_File_read_at_all e a b c d g h)"
| "mpi_call e (MPI_File_write_at e a b c d g h)"
| "mpi_call e (MPI_File_write_at_all e a b c d g h)"
| "mpi_call e (MPI_File_read_ordered e a b c d g)"
| "mpi_call e (MPI_File_read_shared e a b c d g)"
| "mpi_call e (MPI_File_write_ordered e a b c d g)"
| "mpi_call e (MPI_File_write_shared e a b c d g)"
| "mpi_call e (MPI_File_iread e a b c d)"
| "mpi_call e (MPI_File_iwrite e a b c d)"
| "mpi_call e (MPI_File_iread_at e a b c d g)"
| "mpi_call e (MPI_File_iwrite_at e a b c d g)"
| "mpi_call e (MPI_File_iread_shared e a b c d)"
| "mpi_call e (MPI_File_iwrite_shared e a b c d)"
| "mpi_call e (MPI_File_read_all_begin e a b c d)"
| "mpi_call e (MPI_File_read_at_all_begin e a b c d g)"
| "mpi_call e (MPI_File_read_ordered_begin e a b c d)"
| "mpi_call e (MPI_File_write_all_begin e a b c d)"
| "mpi_call e (MPI_File_write_at_all_begin e a b c d g)"
| "mpi_call e (MPI_File_write_ordered_begin e a b c d)"
| "mpi_call e (MPI_File_read_all_end e a b c)"
| "mpi_call e (MPI_File_read_at_all_end e a b c)"
| "mpi_call e (MPI_File_read_ordered_end e a b c)"
| "mpi_call e (MPI_File_write_all_end e a b c)"
| "mpi_call e (MPI_File_write_at_all_end e a b c)"
| "mpi_call e (MPI_File_write_ordered_end e a b c)"

lemmas mpi_defs =
  MPI_Cancel_def MPI_Comm_dup_def MPI_Comm_create_def MPI_Comm_split_def MPI_Cart_create_def 
  MPI_Cart_sub_def MPI_Graph_create_def MPI_Intercomm_create_def MPI_Intercomm_merge_def 
  MPI_Comm_free_def MPI_Group_union_def MPI_Group_intersection_def MPI_Group_difference_def 
  MPI_Group_incl_def MPI_Group_excl_def MPI_Group_range_incl_def MPI_Group_range_excl_def 
  MPI_Group_free_def MPI_Win_create_def MPI_Win_free_def MPI_Send_def MPI_Bsend_def MPI_Rsend_def 
  MPI_Ssend_def MPI_Recv_def MPI_Sendrecv_def MPI_Sendrecv_replace_def MPI_Isend_def MPI_Ibsend_def 
  MPI_Issend_def MPI_Irsend_def MPI_Irecv_def MPI_Wait_def MPI_Waitall_def MPI_Waitany_def 
  MPI_Waitsome_def MPI_Test_def MPI_Testany_def MPI_Testall_def MPI_Testsome_def MPI_Send_init_def 
  MPI_Recv_init_def MPI_Bsend_init_def MPI_Ssend_init_def MPI_Rsend_init_def MPI_Start_def 
  MPI_Startall_def MPI_Request_free_def MPI_Allreduce_def MPI_Barrier_def MPI_Bcast_def 
  MPI_Gather_def MPI_Reduce_def MPI_Gatherv_def MPI_Allgather_def MPI_Allgatherv_def MPI_Alltoall_def 
  MPI_Alltoallv_def MPI_Scan_def MPI_Scatter_def MPI_Scatterv_def MPI_Reduce_scatter_def 
  MPI_Alltoallw_def MPI_Exscan_def MPI_Put_def MPI_Get_def MPI_Accumulate_def MPI_Win_fence_def 
  MPI_Win_start_def MPI_Win_post_def MPI_Win_complete_def MPI_Win_wait_def MPI_Win_test_def 
  MPI_Win_lock_def MPI_Win_unlock_def MPI_File_close_def MPI_File_open_def MPI_File_delete_def 
  MPI_File_sync_def MPI_File_preallocate_def MPI_File_seek_def MPI_File_seek_shared_def 
  MPI_File_read_def MPI_File_read_all_def MPI_File_write_def MPI_File_write_all_def 
  MPI_File_read_at_def MPI_File_read_at_all_def MPI_File_write_at_def MPI_File_write_at_all_def 
  MPI_File_read_ordered_def MPI_File_read_shared_def MPI_File_write_ordered_def 
  MPI_File_write_shared_def MPI_File_iread_def MPI_File_iwrite_def MPI_File_iread_at_def 
  MPI_File_iwrite_at_def MPI_File_iread_shared_def MPI_File_iwrite_shared_def 
  MPI_File_read_all_begin_def MPI_File_read_at_all_begin_def MPI_File_read_ordered_begin_def 
  MPI_File_write_all_begin_def MPI_File_write_at_all_begin_def MPI_File_write_ordered_begin_def 
  MPI_File_read_all_end_def MPI_File_read_at_all_end_def MPI_File_read_ordered_end_def 
  MPI_File_write_all_end_def MPI_File_write_at_all_end_def MPI_File_write_ordered_end_def 

section \<open>What the parts of a wrapper keep\<close>

text \<open>The library, and the setting for the tracing of MPI functions.\<close>

definition kept :: "'p app \<Rightarrow> 'p app \<Rightarrow> bool" where
  "kept s s' \<longleftrightarrow> lib s' = lib s \<and> mpitrace s' = mpitrace s"

named_theorems parts "what the parts of a wrapper keep"

lemma kept_refl [simp]: "kept s s"
  by (simp add: kept_def)

lemma kept_trans: "kept s t \<Longrightarrow> kept t u \<Longrightarrow> kept s u"
  by (simp add: kept_def)

lemma take_time_fields [simp]: "lib (take_time e s) = lib s" "mpitrace (take_time e s) = mpitrace s"
  "was_recorded (take_time e s) = was_recorded s" "com (take_time e s) = com s" "req (take_time e s) = req s"
  "files (take_time e s) = files s" "orig_req (take_time e s) = orig_req s"
  by (simp_all add: take_time_def split_beta)

lemma on_trc_kept [parts]: "on_trc f s = Inr s' \<Longrightarrow> kept s s'"
  by (auto simp: on_trc_def andThen_Inr kept_def)

lemma in_com_kept [parts]: "in_com f s = Inr s' \<Longrightarrow> kept s s'"
  by (auto simp: in_com_def andThen_Inr kept_def split: option.splits)

lemma each_kept:
  assumes "\<And>x s s'. f x s = Inr s' \<Longrightarrow> kept s s'"
  shows "each f xs s = Inr s' \<Longrightarrow> kept s s'"
proof (induction xs arbitrary: s)
  case (Cons x xs)
  then obtain u where "f x s = Inr u" "each f xs u = Inr s'"
    by (auto simp: andThen_Inr)
  then show ?case
    using assms [of x s u] Cons.IH [of u] kept_trans [of s u s'] by simp
qed simp

lemmas chain = andThen_Inr kept_def split_beta Let_def

lemma tables_kept [parts]:
  "comm_create e c s = Inr s' \<Longrightarrow> kept s s'" "group_create e c s = Inr s' \<Longrightarrow> kept s s'"
  "win_create e c d s = Inr s' \<Longrightarrow> kept s s'" "win_set_gid e c i s = Inr s' \<Longrightarrow> kept s s'"
  "back_to_comm e c d s = Inr s' \<Longrightarrow> kept s s'"
  by (auto simp: comm_create_def group_create_def win_create_def win_set_gid_def back_to_comm_def chain
      dest: in_com_kept)

lemma record_events_kept [parts]: "record_events e evs s = Inr s' \<Longrightarrow> kept s s'"
proof (induction e evs s rule: record_events.induct)
  case (2 e source comm tag bytes evs s)
  then show ?case
    by (fastforce simp: chain dest: on_trc_kept)
next
  case (3 e f mid hid op bytes evs s)
  then show ?case
    by (fastforce simp: chain dest: on_trc_kept)
qed simp

lemma check_request_kept [parts]: "check_request e p st s = Inr s' \<Longrightarrow> kept s s'"
  by (auto simp: check_request_def chain split: option.splits dest!: record_events_kept)

lemma messages_kept [parts]:
  "mpi_send e a b c d s = Inr s' \<Longrightarrow> kept s s'" "mpi_recv e a b c d s = Inr s' \<Longrightarrow> kept s s'"
  "check_saved e i st s = Inr s' \<Longrightarrow> kept s s'" "rma_end e w1 w2 s = Inr s' \<Longrightarrow> kept s s'"
  "ioend e dt w3 w4 w5 s = Inr s' \<Longrightarrow> kept s s'"
  by (auto simp: mpi_send_def mpi_recv_def check_saved_def rma_end_def ioend_def andThen_Inr
      dest: on_trc_kept check_request_kept)

lemma events_kept [parts]:
  "send_event e cnt ty dest tag comm s = Inr s' \<Longrightarrow> kept s s'" "recv_event e ty src comm r s = Inr s' \<Longrightarrow> kept s s'"
  "start_request e q s = Inr s' \<Longrightarrow> kept s s'" "rma_put e cnt ty dest win s = Inr s' \<Longrightarrow> kept s s'"
  "check_some e r s = Inr s' \<Longrightarrow> kept s s'"
  by (auto simp: send_event_def recv_event_def start_request_def rma_put_def write_flags_def check_some_def chain
      split: if_splits option.splits dest!: messages_kept on_trc_kept each_kept [rotated])

lemma loops_kept [parts]:
  "each (\<lambda>i. check_saved e (g i) (h i)) is s = Inr s' \<Longrightarrow> kept s s'"
  "each (start_request e) qs s = Inr s' \<Longrightarrow> kept s s'"
  by (rule each_kept; auto dest: messages_kept events_kept)+

lemma keep_request_kept [simp]: "kept s (keep_request e fl a b c d g h r s)" "kept s (save_all e qs ign s)"
  "kept s (save_requests e qs s)" "kept s (take_time e s)"
  by (auto simp: keep_request_def save_all_def save_requests_def vt_get_status_array_def kept_def)

lemma io_kept [parts]:
  "io_begin e s = Inr (mid, s') \<Longrightarrow> kept s s'" "io_begin_splitcoll e fh d s = Inr (u, s') \<Longrightarrow> kept s s'"
  "leave_matchingid e fh op b mid r s = Inr s' \<Longrightarrow> kept s s'" "leave_req e fh d op mid r s = Inr s' \<Longrightarrow> kept s s'"
  "leave_splitcoll e fh op r s = Inr s' \<Longrightarrow> kept s s'"
  "leave_matchingid_status e fh d op mid r s = Inr s' \<Longrightarrow> kept s s'"
  "file_create e fh fname s = Inr (x, s') \<Longrightarrow> kept s s'"
  by (auto simp: io_begin_def io_begin_splitcoll_def leave_matchingid_def leave_req_def leave_splitcoll_def
      leave_matchingid_status_def file_create_def chain
      split: if_splits dest!: messages_kept on_trc_kept)

lemma coll_kept [parts]:
  "coll_begin e fn root comm vol s = Inr (mid, s') \<Longrightarrow> kept s s'" "coll_end e comm mid r s = Inr s' \<Longrightarrow> kept s s'"
  by (auto simp: coll_begin_def coll_end_def chain split: if_splits dest!: on_trc_kept)

section \<open>Transparency\<close>

text \<open>Documented behaviour of MPI: a call does the same whether or not the caller asks for its status.\<close>

fun no_status :: "arg \<Rightarrow> arg" where
  "no_status (Ignored b) = Ignored False"
| "no_status x = x"

definition status_optional :: "'p wenv \<Rightarrow> bool" where
  "status_optional e \<longleftrightarrow>
     (\<forall>fn args args' p. map no_status args = map no_status args' \<longrightarrow> pmpi e fn args p = pmpi e fn args' p)"

text \<open>
  A wrapper is transparent when its result and its effect on the library are those of the wrapper
  without tracing. It is left with the tracing as configured.
\<close>

definition transparent :: "('p app \<Rightarrow> vt_error + (pret \<times> 'p app)) \<Rightarrow> bool" where
  "transparent f \<longleftrightarrow> (\<forall>s r s' (u :: 'p app). f s = Inr (r, s') \<longrightarrow> lib u = lib s \<longrightarrow> \<not> mpi_trace_is_on u \<longrightarrow>
     (\<exists>u'. f u = Inr (r, u') \<and> lib u' = lib s' \<and> \<not> mpi_trace_is_on u')
     \<and> mpitrace s' = mpitrace s \<and> (mpi_trace_is_on s = mpitrace s \<longrightarrow> mpi_trace_is_on s' = mpitrace s'))"

lemma wrapper_Inr:
  assumes "is_mpi_trace_on s" and "wrapper_st e fn targs args before after s = Inr (r, s')"
  shows "\<exists>s1 x s2 s3 s4. enter_mpi e fn s = Inr s1 \<and> before s1 = Inr (x, s2)
    \<and> call_pmpi e fn (targs (was_recorded s2)) s2 = (r, s3) \<and> after x r s3 = Inr s4 \<and> leave_mpi e s4 = Inr s'"
proof -
  obtain s1 where 1: "enter_mpi e fn s = Inr s1"
    using assms by (auto simp: wrapper_st_def andThen_def split: sum.splits)
  then obtain x s2 where 2: "before s1 = Inr (x, s2)"
    using assms by (cases "before s1") (auto simp: wrapper_st_def)
  obtain q s3 where 3: "call_pmpi e fn (targs (was_recorded s2)) s2 = (q, s3)"
    by fastforce
  have "andThen (after x q s3) (\<lambda>s. andThen (leave_mpi e s) (\<lambda>s. Inr (q, s))) = Inr (r, s')"
    using assms 1 2 3 by (simp add: wrapper_st_def)
  then show ?thesis
    using 1 2 3 by (auto simp: andThen_Inr)
qed

lemma wrapper_transparent:
  fixes e :: "'p wenv"
  assumes opt: "status_optional e" and args: "\<And>rec. map no_status (targs rec) = map no_status args"
    and before: "\<And>s x s'. before s = Inr (x, s') \<Longrightarrow> kept s s'"
    and after: "\<And>x r s s'. after x r s = Inr s' \<Longrightarrow> kept s s'"
  shows "transparent (wrapper_st e fn targs args before after)"
  unfolding transparent_def
proof (intro allI impI)
  fix s r s' and u :: "'p app"
  assume run: "wrapper_st e fn targs args before after s = Inr (r, s')"
    and u: "lib u = lib s" "\<not> mpi_trace_is_on u"
  have same: "pmpi e fn (targs rec) p = pmpi e fn args p" for rec p
    using opt args unfolding status_optional_def by blast
  have "fst (pmpi e fn args (lib s)) = r \<and> lib s' = snd (pmpi e fn args (lib s)) \<and> mpitrace s' = mpitrace s
     \<and> (mpi_trace_is_on s = mpitrace s \<longrightarrow> mpi_trace_is_on s' = mpitrace s')"
  proof (cases "is_mpi_trace_on s")
    case True
    obtain s1 x s2 s3 s4 where 1: "enter_mpi e fn s = Inr s1" and 2: "before s1 = Inr (x, s2)"
      and 3: "call_pmpi e fn (targs (was_recorded s2)) s2 = (r, s3)" and 4: "after x r s3 = Inr s4"
      and 5: "leave_mpi e s4 = Inr s'"
      using wrapper_Inr [OF True run] by blast
    have "kept s s1"
      using 1 by (auto simp: enter_mpi_def chain take_time_def)
    moreover have "kept s1 s2"
      using before [OF 2] .
    moreover have "kept s3 s4"
      using after [OF 4] .
    moreover have "kept s4 s'" and "mpi_trace_is_on s' = mpitrace s'"
      using 5 by (auto simp: leave_mpi_def chain dest!: on_trc_kept)
    ultimately show ?thesis
      using 3 by (auto simp: kept_def call_pmpi_def split_beta same)
  next
    case False
    then show ?thesis
      using run by (auto simp: wrapper_st_def call_pmpi_def split_beta)
  qed
  moreover have "wrapper_st e fn targs args before after u =
      Inr (fst (pmpi e fn args (lib s)), u\<lparr>lib := snd (pmpi e fn args (lib s))\<rparr>)"
    using u by (simp add: wrapper_st_def is_mpi_trace_on_def call_pmpi_def split_beta)
  ultimately show "(\<exists>u'. wrapper_st e fn targs args before after u = Inr (r, u') \<and> lib u' = lib s' \<and> \<not> mpi_trace_is_on u')
     \<and> mpitrace s' = mpitrace s \<and> (mpi_trace_is_on s = mpitrace s \<longrightarrow> mpi_trace_is_on s' = mpitrace s')"
    using u by auto
qed

lemma nothing_kept [parts]: "nothing s = Inr (x, s') \<Longrightarrow> kept s s'"
  by (simp add: nothing_def)

lemma no_locals_kept: "no_locals f s = Inr (x, s') \<Longrightarrow> (\<And>s s'. f s = Inr s' \<Longrightarrow> kept s s') \<Longrightarrow> kept s s'"
  by (auto simp: no_locals_def andThen_Inr)

lemma frames_transparent:
  assumes opt: "status_optional e"
  shows "transparent (new_comm_wrapper e fn args)" "transparent (new_group_wrapper e fn args)"
    "transparent (send_wrapper e fn a b c d g h)" "transparent (init_wrapper e fn fl a b c d g h)"
    "transparent (coll_wrapper e fn args root comm vol)" "transparent (group_wrapper e fn a b c)"
    "transparent (seek_wrapper e fn a b d)" "transparent (rw_wrapper e fn op a args c ign)"
    "transparent (irw_wrapper e fn op a args c)" "transparent (split_begin_wrapper e fn a args c)"
    "transparent (split_end_wrapper e fn op a c ign)"
  unfolding new_comm_wrapper_def new_group_wrapper_def send_wrapper_def init_wrapper_def coll_wrapper_def
    group_wrapper_def seek_wrapper_def rw_wrapper_def irw_wrapper_def split_begin_wrapper_def split_end_wrapper_def
  by (rule wrapper_transparent [OF opt];
      auto simp: chain no_locals_def split: if_splits dest!: parts [unfolded kept_def]
        simp: keep_request_kept [unfolded kept_def])+

lemma mpi_call_transparent:
  assumes "mpi_call e f" and opt: "status_optional e"
  shows "transparent f"
  using assms(1)
  by cases (simp_all only: mpi_defs Let_def frames_transparent [OF opt],
    (rule wrapper_transparent [OF opt];
      auto simp: chain no_locals_def or_abort_def write_flags_def keep_request_kept [unfolded kept_def]
        split: if_splits option.splits dest!: parts [unfolded kept_def])+)

lemma transparentD:
  fixes u :: "'p app"
  assumes "transparent f" and "f s = Inr (r, s')"
  shows "lib u = lib s \<Longrightarrow> \<not> mpi_trace_is_on u \<Longrightarrow> \<exists>u'. f u = Inr (r, u') \<and> lib u' = lib s' \<and> \<not> mpi_trace_is_on u'"
    and "mpitrace s' = mpitrace s" and "mpi_trace_is_on s = mpitrace s \<Longrightarrow> mpi_trace_is_on s' = mpitrace s'"
  using assms(1) [unfolded transparent_def, rule_format, OF assms(2), of u]
    assms(1) [unfolded transparent_def, rule_format, OF assms(2), of "s\<lparr>mpi_trace_is_on := False\<rparr>"]
  by simp_all

interpretation mpi_tracing: simulated_calls transparent "\<lambda>s u. lib u = lib s \<and> \<not> mpi_trace_is_on u"
  by unfold_locales (use transparentD(1) in blast)

interpretation mpi_setting: invariant_calls transparent
  "\<lambda>_ s. mpitrace s = m \<and> (on \<longrightarrow> mpi_trace_is_on s = mpitrace s)" for m on
  by unfold_locales (use transparentD(2,3) in metis)

section \<open>Properties\<close>

text \<open>
  C10: tracing the MPI functions does not change what a program computes. When a program of any
  MPI calls, in which each call may depend on the results of those before it, ends without an
  error while it is traced, then it does the same calls with the same results and the same effect on
  the library when tracing is off. When each call starts with tracing as configured, it is so after
  the program as well.
\<close>

theorem mpi_program_unaffected:
  assumes "status_optional e" and "prog_of (mpi_call e) prog" and "run_prog prog s = Inr (rs, s')"
  shows "(\<exists>u. run_prog prog (s\<lparr>mpi_trace_is_on := False\<rparr>) = Inr (rs, u) \<and> lib u = lib s')
    \<and> (mpi_trace_is_on s = mpitrace s \<longrightarrow> mpi_trace_is_on s' = mpitrace s') \<and> mpitrace s' = mpitrace s"
proof -
  have prog: "prog_of transparent prog"
    by (rule prog_of_mono [OF assms(2)]) (rule mpi_call_transparent [OF _ assms(1)])
  show ?thesis
    using mpi_tracing.run_sim [OF prog assms(3), of "s\<lparr>mpi_trace_is_on := False\<rparr>"]
      mpi_setting.run_inv [OF prog assms(3), of "mpitrace s" "mpi_trace_is_on s = mpitrace s"] by auto
qed

abbreviation demo_prog :: "(nat app, pret) prog" where
  "demo_prog \<equiv> Then (MPI_Irecv demo_wenv 0 4 6 2 5 1) (\<lambda>_. Finished)"

lemma demo_prog_run: "\<exists>s'. run_prog demo_prog demo_mpi_app = Inr ([demo_pret 9], s')" "prog_of (mpi_call demo_wenv) demo_prog"
proof -
  obtain a where sp: "spec_enter (tenv demo_wenv) (trace_status (trc demo_mpi_app) = VT_TRACE_ON)
      (mpi_regid demo_wenv ''MPI_Irecv'') (wtime (tenv demo_wenv) (ticks (trc demo_mpi_app)))
      (tracer_of (trc demo_mpi_app)) = (True, [Event (Enter (wtime demo_env (ticks (trc demo_mpi_app))) 7 0)], a)"
    using demo_enters [of "''MPI_Irecv''" "wtime demo_env (ticks (trc demo_mpi_app))"]
    by (auto simp: demo_times demo_pmpi)
  have ok: "2 \<noteq> MPI_PROC_NULL (mpi demo_wenv 1)" "result (demo_pret 9) = MPI_SUCCESS demo_wenv"
    "pmpi demo_wenv ''MPI_Irecv'' args (lib demo_mpi_app) = (demo_pret 9, 1)" for args
    by (simp_all add: demo_pmpi demo_pret_def demo_on)
  obtain s' where s': "MPI_Irecv demo_wenv 0 4 6 2 5 1 demo_mpi_app = Inr (demo_pret 9, s')"
    using irecv_traced [OF demo_on(1,3,7) sp ok(3,1,2) refl, of 0 4 6 5 1] demo_room_of(4) by (auto simp: demo_times)
  then show "\<exists>s'. run_prog demo_prog demo_mpi_app = Inr ([demo_pret 9], s')"
    by simp
  show "prog_of (mpi_call demo_wenv) demo_prog"
    by (simp add: mpi_call.intros)
qed

theorem mpi_program_unaffected_witness:
  "\<exists>s' u. run_prog demo_prog demo_mpi_app = Inr ([demo_pret 9], s')
    \<and> run_prog demo_prog (demo_mpi_app\<lparr>mpi_trace_is_on := False\<rparr>) = Inr ([demo_pret 9], u)
    \<and> lib u = lib s' \<and> mpi_trace_is_on s'"
proof -
  obtain s' where run: "run_prog demo_prog demo_mpi_app = Inr ([demo_pret 9], s')"
    using demo_prog_run(1) ..
  have opt: "status_optional demo_wenv"
    by (simp add: status_optional_def demo_pmpi)
  have on: "mpi_trace_is_on demo_mpi_app" "mpitrace demo_mpi_app"
    by (simp_all add: demo_mpi_app_def)
  show ?thesis
    using mpi_program_unaffected [OF opt demo_prog_run(2) run] run on by blast
qed

end
