(* ===== verification/MpiTables.thy ===== *)
theory MpiTables
  imports MpiProps
begin

text \<open>
  The tables of the MPI wrappers over arbitrary programs of MPI calls: the requests, the open files,
  the communicators and the windows stay well formed, and no call uses a pointer to a request that
  is not there.
\<close>

section \<open>Well-formed tables\<close>

definition tables_ok :: "'p app \<Rightarrow> bool" where
  "tables_ok s \<longleftrightarrow> req_ok (req s) \<and> files_ok (files s) \<and> comms_ok (com s) \<and> wins_ok (com s)"

lemma tables_ok_fields [simp]:
  "tables_ok (s\<lparr>trc := v\<rparr>) = tables_ok s" "tables_ok (s\<lparr>time := t\<rparr>) = tables_ok s"
  "tables_ok (s\<lparr>was_recorded := b\<rparr>) = tables_ok s" "tables_ok (s\<lparr>mpi_trace_is_on := b\<rparr>) = tables_ok s"
  "tables_ok (s\<lparr>lib := p\<rparr>) = tables_ok s" "tables_ok (s\<lparr>orig_req := os\<rparr>) = tables_ok s"
  "tables_ok (s\<lparr>status_array_size := n\<rparr>) = tables_ok s" "tables_ok (s\<lparr>is_rma_putre := b\<rparr>) = tables_ok s"
  "tables_ok (s\<lparr>coll_matchingid := m\<rparr>) = tables_ok s" "tables_ok (s\<lparr>io_matchingid := m\<rparr>) = tables_ok s"
  by (simp_all add: tables_ok_def)

lemma tables_ok_time [simp]: "tables_ok (take_time e s) = tables_ok s"
  by (simp add: take_time_def split_beta)

named_theorems keeps "what keeps the tables well formed"

lemma on_trc_keeps [keeps]: "on_trc f s = Inr s' \<Longrightarrow> tables_ok s \<Longrightarrow> tables_ok s'"
  by (auto simp: on_trc_def andThen_Inr)

lemma on_trc_req: "on_trc f s = Inr s' \<Longrightarrow> req s' = req s"
  by (auto simp: on_trc_def andThen_Inr)

lemma each_keeps:
  assumes "\<And>x s s'. f x s = Inr s' \<Longrightarrow> tables_ok s \<Longrightarrow> tables_ok s'"
  shows "each f xs s = Inr s' \<Longrightarrow> tables_ok s \<Longrightarrow> tables_ok s'"
  by (induction xs arbitrary: s) (auto simp: andThen_Inr dest: assms)

section \<open>Communicators and windows\<close>

text \<open>Both invariants only speak of lengths.\<close>

definition com_ok :: "com_state \<Rightarrow> bool" where
  "com_ok c \<longleftrightarrow> comms_ok c \<and> wins_ok c"

lemma com_ok_bitvector [simp]: "com_ok (vt_group_to_bitvector m g c) = com_ok c"
  by (simp add: com_ok_def comms_ok_def wins_ok_def vt_group_to_bitvector_def Let_def)

lemma com_ok_add_comm: "com_ok c \<Longrightarrow> last_comm c < max_comms c \<Longrightarrow> com_ok (add_comm a b i c)"
  by (simp add: com_ok_def comms_ok_def wins_ok_def add_comm_def)

lemma com_ok_win_search: "win_search m w c = (i, c') \<Longrightarrow> com_ok c' = com_ok c"
  by (auto simp: win_search_def com_ok_def comms_ok_def wins_ok_def split: prod.splits)

lemma com_create_ok:
  "vt_comm_create m d a (c, w) = Some (c', w') \<Longrightarrow> com_ok c \<Longrightarrow> com_ok c'"
  "vt_group_create m d g (c, w) = Some (c', w') \<Longrightarrow> com_ok c \<Longrightarrow> com_ok c'"
proof -
  have bits: "last_comm (vt_group_to_bitvector m g c) = last_comm c" "max_comms (vt_group_to_bitvector m g c) = max_comms c" for g
    by (simp_all add: vt_group_to_bitvector_def Let_def)
  have ids: "com_ok (c\<lparr>world_cid := i\<rparr>) = com_ok c" "com_ok (c\<lparr>self_cid := i\<rparr>) = com_ok c"
    "com_ok (c\<lparr>comms := (comms c)[k := x]\<rparr>) = com_ok c" for c i k x
    by (simp_all add: com_ok_def comms_ok_def wins_ok_def)
  show "vt_comm_create m d a (c, w) = Some (c', w') \<Longrightarrow> com_ok c \<Longrightarrow> com_ok c'"
    by (auto simp: vt_comm_create_def Let_def bits ids split: if_splits prod.splits intro!: com_ok_add_comm)
  show "vt_group_create m d g (c, w) = Some (c', w') \<Longrightarrow> com_ok c \<Longrightarrow> com_ok c'"
    by (auto simp: vt_group_create_def Let_def bits split: if_splits prod.splits intro!: com_ok_add_comm)
qed

lemma com_wins [simp]: "com_ok (c\<lparr>wins := (wins c)[i := x]\<rparr>) = com_ok c"
  by (simp add: com_ok_def comms_ok_def wins_ok_def)

lemma win_create_ok: "vt_win_create m n w a (c, x) = Some (c', y) \<Longrightarrow> com_ok c \<Longrightarrow> com_ok c'"
  using com_ok_win_search [of m w c] unfolding vt_win_create_def
  by (auto simp: Let_def split: prod.splits option.splits if_splits)
    (simp_all add: com_ok_def comms_ok_def wins_ok_def)

lemma com_change_ok:
  "vt_comm_free a c = Some c' \<Longrightarrow> com_ok c \<Longrightarrow> com_ok c'"
  "vt_win_free m w c = Some c' \<Longrightarrow> com_ok c \<Longrightarrow> com_ok c'"
  "vt_win_set_gid m w g c = Some c' \<Longrightarrow> com_ok c \<Longrightarrow> com_ok c'"
  by (auto simp: vt_comm_free_def com_ok_def comms_ok_def wins_ok_def Let_def split: if_splits)
    (auto simp: vt_win_free_def vt_win_set_gid_def split: prod.splits option.splits
      dest!: com_ok_win_search simp: com_ok_def comms_ok_def wins_ok_def Let_def)

lemma group_free_id [simp]: "vt_group_free g c = c"
  by (simp add: vt_group_free_def)

lemma tables_ok_com: "tables_ok s \<Longrightarrow> com_ok (com s)" "tables_ok s \<Longrightarrow> com_ok c \<Longrightarrow> tables_ok (s\<lparr>com := c\<rparr>)"
  by (simp_all add: tables_ok_def com_ok_def)

lemma com_keeps [keeps]:
  "comm_create e a s = Inr s' \<Longrightarrow> tables_ok s \<Longrightarrow> tables_ok s'" "group_create e a s = Inr s' \<Longrightarrow> tables_ok s \<Longrightarrow> tables_ok s'"
  "win_create e a b s = Inr s' \<Longrightarrow> tables_ok s \<Longrightarrow> tables_ok s'" "win_set_gid e a g s = Inr s' \<Longrightarrow> tables_ok s \<Longrightarrow> tables_ok s'"
  "back_to_comm e a b s = Inr s' \<Longrightarrow> tables_ok s \<Longrightarrow> tables_ok s'"
  by (auto simp: comm_create_def group_create_def win_create_def win_set_gid_def back_to_comm_def in_com_def
      andThen_Inr or_abort_def split: option.splits
      intro!: tables_ok_com(2))
    (erule com_create_ok win_create_ok com_change_ok; erule tables_ok_com(1))+

section \<open>Requests\<close>

lemma tables_ok_req: "tables_ok s \<Longrightarrow> req_ok (req s)" "tables_ok s \<Longrightarrow> req_ok q \<Longrightarrow> tables_ok (s\<lparr>req := q\<rparr>)"
  by (simp_all add: tables_ok_def)

text \<open>A pointer that the table gave out, in the state of the table when it is used.\<close>

definition pointer_ok :: "reqptr option \<Rightarrow> req_state \<Rightarrow> bool" where
  "pointer_ok p q \<longleftrightarrow> (case p of None \<Rightarrow> True | Some p \<Rightarrow> valid_req q p)"

lemma pointer_ok_get: "req_ok q \<Longrightarrow> pointer_ok (vt_request_get r q) q"
  by (auto simp: pointer_ok_def intro: request_get_valid split: option.split)

lemma pointer_got: "vt_request_get r q = Some p \<Longrightarrow> req_ok q \<Longrightarrow> pointer_ok (Some p) q"
  by (auto simp: pointer_ok_def intro: request_get_valid)

lemma saved_pointer_ok: "saved_request i s = Inr p \<Longrightarrow> tables_ok s \<Longrightarrow> pointer_ok p (req s)"
  by (auto simp: saved_request_def vt_saved_request_get_def pointer_ok_get tables_ok_def split: if_splits)

lemma check_request_ok:
  "vt_check_request m p st rec q = Some (evs, q') \<Longrightarrow> req_ok q \<Longrightarrow> pointer_ok p q \<Longrightarrow> req_ok q'"
proof (cases p)
  case None
  then show "vt_check_request m p st rec q = Some (evs, q') \<Longrightarrow> req_ok q \<Longrightarrow> req_ok q'"
    by (auto simp: vt_check_request_def)
next
  case (Some x)
  then show "vt_check_request m p st rec q = Some (evs, q') \<Longrightarrow> req_ok q \<Longrightarrow> pointer_ok p q \<Longrightarrow> req_ok q'"
    using check_request_eq [of q x m st rec] by (auto simp: pointer_ok_def)
qed

lemma record_events_keeps [keeps]: "record_events e evs s = Inr s' \<Longrightarrow> tables_ok s \<Longrightarrow> tables_ok s'"
  by (induction e evs s rule: record_events.induct) (auto simp: andThen_Inr dest: on_trc_keeps)

lemma check_request_keeps:
  "check_request e p st s = Inr s' \<Longrightarrow> tables_ok s \<Longrightarrow> pointer_ok p (req s) \<Longrightarrow> tables_ok s'"
  by (auto simp: check_request_def andThen_Inr split: option.splits
      intro!: tables_ok_req(2) intro: record_events_keeps check_request_ok [OF _ tables_ok_req(1)])

lemma messages_keeps [keeps]:
  "mpi_send e a b c d s = Inr s' \<Longrightarrow> tables_ok s \<Longrightarrow> tables_ok s'" "mpi_recv e a b c d s = Inr s' \<Longrightarrow> tables_ok s \<Longrightarrow> tables_ok s'"
  "check_saved e i st s = Inr s' \<Longrightarrow> tables_ok s \<Longrightarrow> tables_ok s'" "rma_end e w1 w2 s = Inr s' \<Longrightarrow> tables_ok s \<Longrightarrow> tables_ok s'"
  "ioend e dt w3 w4 w5 s = Inr s' \<Longrightarrow> tables_ok s \<Longrightarrow> tables_ok s'"
  by (auto simp: mpi_send_def mpi_recv_def check_saved_def rma_end_def ioend_def andThen_Inr
      dest: on_trc_keeps check_request_keeps saved_pointer_ok)

lemma write_flags_ok: "tables_ok s \<Longrightarrow> pointer_ok (Some p) (req s) \<Longrightarrow> tables_ok (write_flags p f s)"
  by (auto simp: write_flags_def pointer_ok_def intro!: tables_ok_req(2) req_write_ok valid_req_block
      dest: tables_ok_req(1))

lemma start_request_keeps [keeps]: "start_request e q s = Inr s' \<Longrightarrow> tables_ok s \<Longrightarrow> tables_ok s'"
  using pointer_ok_get [of "req s" q] write_flags_ok [of s] tables_ok_req(1) [of s]
  by (fastforce simp: start_request_def Let_def split: if_splits option.splits dest: messages_keeps(1))

lemma free_ok: "vt_request_free p q = Some q' \<Longrightarrow> req_ok q \<Longrightarrow> pointer_ok (Some p) q \<Longrightarrow> req_ok q'"
  using request_free_ok [of q p] by (auto simp: pointer_ok_def)

lemma keep_request_keeps [simp]: "tables_ok s \<Longrightarrow> tables_ok (keep_request e fl a b c d g h r s)"
  using request_create_eq [OF _ refl] by (fastforce simp: keep_request_def intro!: tables_ok_req(2) dest: tables_ok_req(1))

lemma iorequest_ok: "req_ok q \<Longrightarrow> req_ok (vt_iorequest_create junk r d mid hid f op q)"
  using store_request(1) [of q "next_slot junk q" junk] by (simp add: vt_iorequest_create_def Let_def)

lemma save_keeps [simp]: "tables_ok (save_all e qs ign s) = tables_ok s" "tables_ok (save_requests e qs s) = tables_ok s"
  by (simp_all add: save_all_def save_requests_def vt_get_status_array_def)

section \<open>Files\<close>

lemma tables_ok_files: "tables_ok s \<Longrightarrow> files_ok (files s)" "tables_ok s \<Longrightarrow> files_ok f \<Longrightarrow> tables_ok (s\<lparr>files := f\<rparr>)"
  by (simp_all add: tables_ok_def)

lemma files_change_ok:
  "vt_mpifile_create d fh n (f, w) = Some (p, f', w') \<Longrightarrow> files_ok f \<Longrightarrow> files_ok f'"
  "vt_mpifilename_get_id d n (f, w) = (i, f', w') \<Longrightarrow> files_ok f \<Longrightarrow> files_ok f'"
  "vt_mpifile_free fh f = Some (j, f') \<Longrightarrow> files_ok f \<Longrightarrow> files_ok f'"
  "files_ok (file_set fh g f) = files_ok f"
  by (auto simp: vt_mpifile_create_def vt_mpifilename_get_id_def vt_mpifile_free_def file_set_def store_id_def
      files_ok_def Let_def split: option.splits prod.splits if_splits)

lemma file_create_keeps [keeps]: "file_create e fh n s = Inr (d, s') \<Longrightarrow> tables_ok s \<Longrightarrow> tables_ok s'"
  by (auto simp: file_create_def or_abort_def andThen_Inr split: option.splits
      intro!: tables_ok_files(2)) (erule files_change_ok(1); erule tables_ok_files(1))

lemma io_keeps [keeps]:
  "io_begin e s = Inr (mid, s') \<Longrightarrow> tables_ok s \<Longrightarrow> tables_ok s'"
  "io_begin_splitcoll e fh d s = Inr (u, s') \<Longrightarrow> tables_ok s \<Longrightarrow> tables_ok s'"
  "leave_matchingid e fh op b mid r s = Inr s' \<Longrightarrow> tables_ok s \<Longrightarrow> tables_ok s'"
  "leave_req e fh d op mid r s = Inr s' \<Longrightarrow> tables_ok s \<Longrightarrow> tables_ok s'"
  "leave_splitcoll e fh op r s = Inr s' \<Longrightarrow> tables_ok s \<Longrightarrow> tables_ok s'"
  "leave_matchingid_status e fh d op mid r s = Inr s' \<Longrightarrow> tables_ok s \<Longrightarrow> tables_ok s'"
proof -
  show io: "io_begin e s = Inr (mid, s') \<Longrightarrow> tables_ok s \<Longrightarrow> tables_ok s'" for s mid s'
    by (auto simp: io_begin_def andThen_Inr Let_def split: if_splits dest!: on_trc_keeps)
  show "io_begin_splitcoll e fh d s = Inr (u, s') \<Longrightarrow> tables_ok s \<Longrightarrow> tables_ok s'"
    by (auto simp: io_begin_splitcoll_def andThen_Inr files_change_ok(4) split: if_splits
        intro!: tables_ok_files(2) dest!: io intro: tables_ok_files(1))
  show "leave_req e fh d op mid r s = Inr s' \<Longrightarrow> tables_ok s \<Longrightarrow> tables_ok s'"
    by (auto simp: leave_req_def andThen_Inr Let_def split: if_splits
        intro!: tables_ok_req(2) iorequest_ok dest: messages_keeps(5) intro: tables_ok_req(1))
qed (auto simp: leave_matchingid_def leave_splitcoll_def leave_matchingid_status_def andThen_Inr Let_def
    split: if_splits dest!: messages_keeps(5))

lemma events_keeps [keeps]:
  "send_event e cnt ty dest tag comm s = Inr s' \<Longrightarrow> tables_ok s \<Longrightarrow> tables_ok s'"
  "recv_event e ty src comm r s = Inr s' \<Longrightarrow> tables_ok s \<Longrightarrow> tables_ok s'"
  "rma_put e cnt ty dest win s = Inr s' \<Longrightarrow> tables_ok s \<Longrightarrow> tables_ok s'"
  by (auto simp: send_event_def recv_event_def rma_put_def andThen_Inr Let_def
      split: if_splits dest!: messages_keeps on_trc_keeps)

lemma loops_keeps [keeps]:
  "each (\<lambda>i. check_saved e (g i) (h i)) is s = Inr s' \<Longrightarrow> tables_ok s \<Longrightarrow> tables_ok s'"
  "each (start_request e) qs s = Inr s' \<Longrightarrow> tables_ok s \<Longrightarrow> tables_ok s'"
  "check_some e r s = Inr s' \<Longrightarrow> tables_ok s \<Longrightarrow> tables_ok s'"
  unfolding check_some_def by (erule each_keeps [rotated]; auto dest: messages_keeps start_request_keeps)+

lemma coll_keeps [keeps]:
  "coll_begin e fn root comm vol s = Inr (mid, s') \<Longrightarrow> tables_ok s \<Longrightarrow> tables_ok s'"
  "coll_end e comm mid r s = Inr s' \<Longrightarrow> tables_ok s \<Longrightarrow> tables_ok s'"
  by (auto simp: coll_begin_def coll_end_def andThen_Inr split_beta Let_def split: if_splits dest!: on_trc_keeps)

section \<open>Wrappers\<close>

text \<open>\<open>P\<close> relates the local variables of a wrapper to the table of requests.\<close>

definition sound :: "('p app \<Rightarrow> vt_error + (pret \<times> 'p app)) \<Rightarrow> bool" where
  "sound f \<longleftrightarrow> (\<forall>s r s'. tables_ok s \<longrightarrow> f s = Inr (r, s') \<longrightarrow> tables_ok s')"

lemma wrapper_sound:
  assumes before: "\<And>s x s'. before s = Inr (x, s') \<Longrightarrow> tables_ok s \<Longrightarrow> tables_ok s' \<and> P x (req s')"
    and after: "\<And>x r s s'. after x r s = Inr s' \<Longrightarrow> tables_ok s \<Longrightarrow> P x (req s) \<Longrightarrow> tables_ok s'"
  shows "sound (wrapper_st e fn targs args before after)"
  unfolding sound_def
proof (intro allI impI)
  fix s r s'
  assume ok: "tables_ok s" and run: "wrapper_st e fn targs args before after s = Inr (r, s')"
  show "tables_ok s'"
  proof (cases "is_mpi_trace_on s")
    case True
    obtain s1 x s2 s3 s4 where 1: "enter_mpi e fn s = Inr s1" and 2: "before s1 = Inr (x, s2)"
      and 3: "call_pmpi e fn (targs (was_recorded s2)) s2 = (r, s3)" and 4: "after x r s3 = Inr s4"
      and 5: "leave_mpi e s4 = Inr s'"
      using wrapper_Inr [OF True run] by blast
    have "tables_ok s1"
      using 1 ok by (auto simp: enter_mpi_def andThen_Inr Let_def)
    then have "tables_ok s3 \<and> P x (req s3)"
      using before [OF 2] 3 by (auto simp: call_pmpi_def split_beta)
    then have "tables_ok s4"
      using after [OF 4] by blast
    then show ?thesis
      using 5 by (auto simp: leave_mpi_def andThen_Inr dest!: on_trc_keeps)
  next
    case False
    then show ?thesis
      using run ok by (auto simp: wrapper_st_def call_pmpi_def split_beta)
  qed
qed

lemmas wrapper_sound_plain = wrapper_sound [where P = "\<lambda>_ _. True", simplified]
lemmas wrapper_sound_pointer = wrapper_sound [where P = pointer_ok]

lemma nothing_keeps [keeps]: "nothing s = Inr (x, s') \<Longrightarrow> tables_ok s \<Longrightarrow> tables_ok s'"
  by (simp add: nothing_def)

lemma frames_sound:
  "sound (new_comm_wrapper e fn args)" "sound (new_group_wrapper e fn args)" "sound (send_wrapper e fn a b c d g h)"
  "sound (init_wrapper e fn fl a b c d g h)" "sound (coll_wrapper e fn args root comm vol)"
  "sound (group_wrapper e fn a b c)" "sound (seek_wrapper e fn a b d)" "sound (rw_wrapper e fn op a args c ign)"
  "sound (irw_wrapper e fn op a args c)" "sound (split_begin_wrapper e fn a args c)"
  "sound (split_end_wrapper e fn op a c ign)"
  unfolding new_comm_wrapper_def new_group_wrapper_def send_wrapper_def init_wrapper_def coll_wrapper_def
    group_wrapper_def seek_wrapper_def rw_wrapper_def irw_wrapper_def split_begin_wrapper_def split_end_wrapper_def
  by (rule wrapper_sound_plain;
      auto simp: andThen_Inr no_locals_def split: if_splits dest!: keeps)+

lemma request_calls_sound:
  "sound (MPI_Wait e q ign)" "sound (MPI_Test e q ign)" "sound (MPI_Waitany e qs ign)" "sound (MPI_Request_free e q)"
proof -
  show "sound (MPI_Wait e q ign)" "sound (MPI_Test e q ign)"
    unfolding MPI_Wait_def MPI_Test_def
    by (rule wrapper_sound_pointer; auto simp: pointer_ok_get Let_def split: if_splits
        dest: tables_ok_req(1) dest!: check_request_keeps)+
  show "sound (MPI_Waitany e qs ign)"
    unfolding MPI_Waitany_def
    by (rule wrapper_sound_plain; auto simp: andThen_Inr no_locals_def dest: saved_pointer_ok dest!: check_request_keeps)
  show "sound (MPI_Request_free e q)"
    unfolding MPI_Request_free_def
    by (rule wrapper_sound_plain; auto simp: andThen_Inr no_locals_def or_abort_def Let_def
        split: if_splits option.splits intro!: tables_ok_req(2) write_flags_ok intro: pointer_got free_ok tables_ok_req(1))
qed

lemma files_keeps:
  assumes "tables_ok s"
  shows "vt_mpifile_free fh (files s) = Some (j, f) \<Longrightarrow> tables_ok (s\<lparr>files := f\<rparr>)"
    and "vt_mpifilename_get_id d n (files s, w) = (j, f, w') \<Longrightarrow> tables_ok ((take_time e s)\<lparr>files := f\<rparr>)"
proof -
  assume "vt_mpifile_free fh (files s) = Some (j, f)"
  then show "tables_ok (s\<lparr>files := f\<rparr>)"
    using assms files_change_ok(3) [of fh "files s" j f] by (simp add: tables_ok_def)
next
  assume "vt_mpifilename_get_id d n (files s, w) = (j, f, w')"
  then show "tables_ok ((take_time e s)\<lparr>files := f\<rparr>)"
    using assms files_change_ok(2) [of d n "files s" w j f w'] by (simp add: tables_ok_def)
qed

lemma table_calls_sound:
  "sound (MPI_Comm_free e c)" "sound (MPI_Win_free e w)" "sound (MPI_File_close e fh)" "sound (MPI_File_delete e n i)"
proof -
  show "sound (MPI_Comm_free e c)" "sound (MPI_Win_free e w)"
    unfolding MPI_Comm_free_def MPI_Win_free_def
    by (rule wrapper_sound_plain; auto simp: andThen_Inr no_locals_def or_abort_def split: option.splits
        intro!: tables_ok_com(2); (erule com_change_ok; erule tables_ok_com(1)))+
  show "sound (MPI_File_close e fh)"
    unfolding MPI_File_close_def
    by (rule wrapper_sound_plain; auto simp: andThen_Inr or_abort_def split: option.splits
        intro: files_keeps(1) dest: io_keeps(1) dest!: io_keeps(3))
  show "sound (MPI_File_delete e n i)"
    unfolding MPI_File_delete_def
    by (rule wrapper_sound_plain; auto simp: andThen_Inr Let_def split: if_splits prod.splits intro: files_keeps(2)
        dest: io_keeps(1) dest!: on_trc_keeps)
qed

lemma mpi_call_sound:
  assumes "mpi_call e f"
  shows "sound f"
  using assms
  by cases (simp_all only: request_calls_sound table_calls_sound,
    simp_all only: mpi_defs Let_def frames_sound,
    (rule wrapper_sound_plain; (auto simp: andThen_Inr no_locals_def split: if_splits dest!: keeps; fail))+)

interpretation mpi_tables: invariant_calls sound "\<lambda>_. tables_ok"
  by unfold_locales (auto simp: sound_def)

section \<open>Properties\<close>

text \<open>
  C14: whatever MPI calls a program makes, and whatever the MPI library returns, the tables that the
  wrappers keep stay well formed: the blocks of the requests with the position of the last one,
  the handles of files, and the arrays of communicators and windows with their numbers of used
  entries. A request that is found in the table afterwards can be completed.
\<close>

theorem mpi_tables_well_formed:
  assumes "prog_of (mpi_call e) prog" and "tables_ok s" and "run_prog prog s = Inr (rs, s')"
  shows "tables_ok s' \<and> vt_check_request m (vt_request_get h (req s')) st rec (req s') \<noteq> None"
proof -
  have ok: "tables_ok s'"
    using mpi_tables.run_inv [OF prog_of_mono [OF assms(1), of sound] assms(3)] mpi_call_sound assms(2) by blast
  then have req: "req_ok (req s')"
    by (simp add: tables_ok_def)
  show ?thesis
  proof (cases "vt_request_get h (req s')")
    case None
    then show ?thesis
      using ok by (simp add: vt_check_request_def)
  next
    case (Some p)
    then show ?thesis
      using ok check_request_eq [OF req request_get_valid [OF req Some], of m st rec] by auto
  qed
qed

theorem mpi_tables_well_formed_witness:
  "\<exists>s'. run_prog demo_prog demo_mpi_app = Inr ([demo_pret 9], s') \<and> tables_ok s'"
proof -
  obtain s' where run: "run_prog demo_prog demo_mpi_app = Inr ([demo_pret 9], s')"
    using demo_prog_run(1) ..
  have ok: "tables_ok demo_mpi_app"
    by (simp add: tables_ok_def demo_mpi_app_def req_ok_start files_ok_def comms_ok_def wins_ok_def demo_state_def
        vt_mpifile_init_def)
  show ?thesis
    using mpi_tables_well_formed [OF demo_prog_run(2) ok run] run by blast
qed

section \<open>Errors\<close>

text \<open>
  C15: when \<open>MPI_Waitany\<close> finds no active request, the library stores \<open>MPI_UNDEFINED\<close>, a negative
  number, as the index. The wrapper uses it as an index into the array of saved requests, outside
  its bounds.
\<close>

theorem waitany_no_active_request:
  assumes "is_mpi_trace_on s" and "tracer_ok (Suc h) (trc s)"
    and "tab (tracer_of (trc s)) (mpi_regid e ''MPI_Waitany'') \<noteq> None"
    and "spec_enter (tenv e) (trace_status (trc s) = VT_TRACE_ON) (mpi_regid e ''MPI_Waitany'')
          (wtime (tenv e) (ticks (trc s))) (tracer_of (trc s)) = (rec, es, a)"
    and "room es (buf (gen (trc s)))"
    and "pmpi e ''MPI_Waitany'' [Handles requests, Ignored False] (lib s) = (r, p)"
    and "out_index r = mpi_lib.MPI_UNDEFINED (mpi e p)" and "mpi_lib.MPI_UNDEFINED (mpi e p) < 0"
  shows "MPI_Waitany e requests ign s = Inl OutOfBounds"
proof -
  obtain s1 where s1: "enter_mpi e ''MPI_Waitany'' s = Inr s1" "lib s1 = lib s"
    using enter_mpi_spec [OF assms(2,3,4,5)] by auto
  have "lib (save_requests e requests s1) = lib s"
    using s1(2) by (simp add: save_requests_def)
  then show ?thesis
    using assms(1,6-8) s1
    by (simp add: MPI_Waitany_def wrapper_st_def no_locals_def call_pmpi_def saved_request_def split_beta)
qed

theorem waitany_no_active_request_witness:
  "MPI_Waitany demo_wenv [0, 0] True demo_mpi_app = Inl OutOfBounds"
proof -
  obtain a where sp: "spec_enter (tenv demo_wenv) (trace_status (trc demo_mpi_app) = VT_TRACE_ON)
      (mpi_regid demo_wenv ''MPI_Waitany'') (wtime (tenv demo_wenv) (ticks (trc demo_mpi_app)))
      (tracer_of (trc demo_mpi_app)) = (True, [Event (Enter (wtime demo_env (ticks (trc demo_mpi_app))) 7 0)], a)"
    using demo_enters [of "''MPI_Waitany''" "wtime demo_env (ticks (trc demo_mpi_app))"]
    by (auto simp: demo_times demo_pmpi)
  have rm: "room [Event (Enter (wtime demo_env (ticks (trc demo_mpi_app))) 7 0)] (buf (gen (trc demo_mpi_app)))"
    using room_app(1) [of "[Event (Enter (wtime demo_env (ticks (trc demo_mpi_app))) 7 0)]" "[Event (Leave 0 0 0)]"]
      demo_room_of(4) by (simp add: demo_times)
  have lib: "pmpi demo_wenv ''MPI_Waitany'' [Handles [0, 0], Ignored False] (lib demo_mpi_app) = (demo_pret 9, 1)"
    by (simp add: demo_pmpi demo_on)
  show ?thesis
    by (rule waitany_no_active_request [OF demo_on(1,3,7) sp rm lib]) (simp_all add: demo_pmpi demo_pret_def)
qed

end
