(* ===== verification/CompAdapter.thy ===== *)
theory CompAdapter
  imports Trc
begin

text \<open>
  What the adapters for instrumentation by compilers have in common (\<open>vtlib/vt_comp_*.c\<close>,
  \<open>vtlib/vt_dyninst.c\<close>): tables that map the addresses of functions to region ids, and the contract
  that each adapter fulfils. The contract is stated as a machine that keeps a map from functions to
  region ids, defines a region when its function is entered the first time, and records every
  enter and exit. The locale \<open>adapter\<close> says that an adapter behaves like this machine; the lemmas
  inside it lift that to whole programs.

  The adapters call \<open>vt_open\<close> when the first function is entered. It is the parameter \<open>opn\<close>.
  Memory hooks are not configured. Addresses are positive, as those of user space are.
\<close>

section \<open>Tables of addresses\<close>

type_synonym 'd addr_htab = "nat \<Rightarrow> (nat \<times> 'd) list"

abbreviation COMP_HASH_MAX :: nat where
  "COMP_HASH_MAX \<equiv> 1021"

definition addr_put :: "'d addr_htab \<Rightarrow> nat \<Rightarrow> 'd \<Rightarrow> 'd addr_htab" where
  "addr_put t h d = (let i = h mod COMP_HASH_MAX in t(i := (h, d) # t i))"

definition addr_get :: "'d addr_htab \<Rightarrow> nat \<Rightarrow> 'd option" where
  "addr_get t h = map_option snd (chain_find (\<lambda>e. fst e = h) (t (h mod COMP_HASH_MAX)))"

text \<open>Writing through the pointer that \<open>hash_get\<close> returns: to the first node with the address.\<close>

fun update_first :: "nat \<Rightarrow> ('d \<Rightarrow> 'd) \<Rightarrow> (nat \<times> 'd) list \<Rightarrow> (nat \<times> 'd) list" where
  "update_first h f [] = []"
| "update_first h f ((k, d) # es) = (if k = h then (k, f d) # es else (k, d) # update_first h f es)"

definition addr_update :: "nat \<Rightarrow> ('d \<Rightarrow> 'd) \<Rightarrow> 'd addr_htab \<Rightarrow> 'd addr_htab" where
  "addr_update h f t = (let i = h mod COMP_HASH_MAX in t(i := update_first h f (t i)))"

lemma addr_get_put: "addr_get (addr_put t h d) k = (if k = h then Some d else addr_get t k)"
  by (auto simp: addr_get_def addr_put_def Let_def)

lemma find_update_first:
  "chain_find (\<lambda>e. fst e = k) (update_first h f es) =
    (if k = h then map_option (\<lambda>e. (fst e, f (snd e))) (chain_find (\<lambda>e. fst e = k) es)
     else chain_find (\<lambda>e. fst e = k) es)"
  by (induction h f es rule: update_first.induct) auto

lemma addr_get_update: "addr_get (addr_update h f t) k = (if k = h then map_option f (addr_get t k) else addr_get t k)"
  by (auto simp: addr_get_def addr_update_def Let_def find_update_first option.map_comp comp_def)

interpretation addresses: keyed_table addr_get addr_put "\<lambda>_. []"
  by unfold_locales (simp_all add: addr_get_put, simp add: addr_get_def)

text \<open>All nodes changed, as the finalisation does.\<close>

definition addr_map :: "('d \<Rightarrow> 'd) \<Rightarrow> 'd addr_htab \<Rightarrow> 'd addr_htab" where
  "addr_map f t i = map (\<lambda>(k, d). (k, f d)) (t i)"

lemma addr_get_map: "addr_get (addr_map f t) k = map_option f (addr_get t k)"
proof -
  have "chain_find (\<lambda>e. fst e = k) (map (\<lambda>(k, d). (k, f d)) es) =
      map_option (\<lambda>(k, d). (k, f d)) (chain_find (\<lambda>e. fst e = k) es)" for es
    by (rule find_map_same) auto
  then show ?thesis
    by (cases "chain_find (\<lambda>e. fst e = k) (t (k mod COMP_HASH_MAX))") (auto simp: addr_get_def addr_map_def)
qed

section \<open>The contract\<close>

text \<open>What the program does: it enters and leaves functions.\<close>

datatype event = Entered nat | Left nat

abbreviation fun_of :: "event \<Rightarrow> nat" where
  "fun_of ev \<equiv> (case ev of Entered k \<Rightarrow> k | Left k \<Rightarrow> k)"

text \<open>
  The abstract machine. \<open>reg\<close> defines the region of a function. It has no step when the ids are used
  up, and none that leaves a function which was never entered.
\<close>

type_synonym regdef = "nat \<Rightarrow> vt \<Rightarrow> vt_error + (u32 \<times> vt)"

definition learn :: "regdef \<Rightarrow> nat \<Rightarrow> (nat \<rightharpoonup> u32) \<times> vt \<Rightarrow> vt_error + (u32 \<times> (nat \<rightharpoonup> u32) \<times> vt)" where
  "learn reg k mv =
     (case mv of (m, v) \<Rightarrow>
        (case m k of
           Some r \<Rightarrow> Inr (r, m, v)
         | None \<Rightarrow> andThen (reg k v) (\<lambda>(r, v). if r = VT_NO_ID then Inl Aborted else Inr (r, m(k \<mapsto> r), v))))"

fun spec_step :: "env \<Rightarrow> callees \<Rightarrow> regdef \<Rightarrow> event \<Rightarrow> (nat \<rightharpoonup> u32) \<times> vt \<Rightarrow> vt_error + ((nat \<rightharpoonup> u32) \<times> vt)" where
  "spec_step env c reg (Entered k) (m, v) =
     (if \<not> vt_is_alive v then Inr (m, v)
      else (let (t, v) = vt_pform_wtime env v
            in andThen (learn reg k (m, v)) (\<lambda>(r, m, v). andThen (vt_enter env c r t v) (\<lambda>(_, _, v). Inr (m, v)))))"
| "spec_step env c reg (Left k) (m, v) =
     (if \<not> vt_is_alive v then Inr (m, v)
      else if m k = None then Inl Aborted
      else (let (t, v) = vt_pform_wtime env v in andThen (vt_exit env c t v) (\<lambda>(_, v). Inr (m, v))))"

text \<open>A sequence of steps, of this machine or of an adapter.\<close>

fun run_events :: "(event \<Rightarrow> 's \<Rightarrow> 'e + 's) \<Rightarrow> event list \<Rightarrow> 's \<Rightarrow> 'e + 's" where
  "run_events step [] s = Inr s"
| "run_events step (ev # evs) s = andThen (step ev s) (run_events step evs)"

lemma run_events_append: "run_events step (evs @ evs') s = andThen (run_events step evs s) (run_events step evs')"
  by (induction evs arbitrary: s) (auto simp: andThen_def split: sum.split)

text \<open>What the machine knows it keeps, and it knows the functions that were entered.\<close>

lemma learn_extends: "learn reg k (m, v) = Inr (r, m', v') \<Longrightarrow> m \<subseteq>\<^sub>m m' \<and> m' k = Some r \<and> dom m' = insert k (dom m)"
  by (auto simp: learn_def map_le_def andThen_Inr split: option.splits if_splits)

lemma spec_step_extends: "spec_step env c reg ev (m, v) = Inr (m', v') \<Longrightarrow> m \<subseteq>\<^sub>m m'"
  by (cases ev) (auto simp: andThen_Inr Let_def split: if_splits prod.splits dest: learn_extends)

lemma spec_run_extends: "run_events (spec_step env c reg) evs (m, v) = Inr (m', v') \<Longrightarrow> m \<subseteq>\<^sub>m m'"
proof (induction evs arbitrary: m v)
  case (Cons ev evs)
  then obtain m1 v1 where "spec_step env c reg ev (m, v) = Inr (m1, v1)"
    "run_events (spec_step env c reg) evs (m1, v1) = Inr (m', v')"
    by (auto simp: andThen_Inr)
  then show ?case
    using Cons.IH spec_step_extends map_le_trans by blast
qed simp

text \<open>
  An adapter with the state \<open>'a\<close>: \<open>ids\<close> are the region ids that it has, \<open>traced\<close> the functions that
  it does not ignore, \<open>ready\<close> its states behind the initialisation.
\<close>

locale adapter =
  fixes env :: env and c :: callees and reg :: regdef
    and ids :: "'a \<Rightarrow> nat \<rightharpoonup> u32" and ready :: "'a \<Rightarrow> bool" and traced :: "nat \<Rightarrow> bool"
    and step :: "event \<Rightarrow> 'a \<times> vt \<Rightarrow> vt_error + ('a \<times> vt)"
  assumes step_refines: "ready a \<Longrightarrow> traced (fun_of ev) \<Longrightarrow> spec_step env c reg ev (ids a, v) = Inr (m, v') \<Longrightarrow>
      \<exists>a'. step ev (a, v) = Inr (a', v') \<and> ready a' \<and> ids a' = m"
begin

lemma run_refines:
  "ready a \<Longrightarrow> (\<forall>ev \<in> set evs. traced (fun_of ev)) \<Longrightarrow>
   run_events (spec_step env c reg) evs (ids a, v) = Inr (m, v') \<Longrightarrow>
   \<exists>a'. run_events step evs (a, v) = Inr (a', v') \<and> ready a' \<and> ids a' = m"
proof (induction evs arbitrary: a v)
  case (Cons ev evs)
  then obtain m1 v1 where 1: "spec_step env c reg ev (ids a, v) = Inr (m1, v1)"
    and 2: "run_events (spec_step env c reg) evs (m1, v1) = Inr (m, v')"
    by (auto simp: andThen_Inr)
  obtain a1 where a1: "step ev (a, v) = Inr (a1, v1)" "ready a1" "ids a1 = m1"
    using step_refines [OF _ _ 1] Cons.prems by auto
  then obtain a' where "run_events step evs (a1, v1) = Inr (a', v')" "ready a'" "ids a' = m"
    using Cons.IH [of a1 v1] Cons.prems(2) 2 by auto
  then show ?case
    using a1 by auto
qed auto

text \<open>The ids that an adapter has stay: no function gets a second region.\<close>

lemma ids_kept:
  "ready a \<Longrightarrow> (\<forall>ev \<in> set evs. traced (fun_of ev)) \<Longrightarrow>
   run_events (spec_step env c reg) evs (ids a, v) = Inr (m, v') \<Longrightarrow>
   \<exists>a'. run_events step evs (a, v) = Inr (a', v') \<and> ids a \<subseteq>\<^sub>m ids a'"
  using run_refines spec_run_extends by blast

end

text \<open>
  The adapters are of one shape: when a function is entered, its id is looked up, and its region is
  defined where there is none yet (\<open>get\<close>). An adapter of this shape fulfils the contract.
\<close>

locale lookup_adapter =
  fixes env :: env and c :: callees and reg :: regdef
    and ids :: "'a \<Rightarrow> nat \<rightharpoonup> u32" and ready :: "'a \<Rightarrow> bool" and traced :: "nat \<Rightarrow> bool"
    and step :: "event \<Rightarrow> 'a \<times> vt \<Rightarrow> vt_error + ('a \<times> vt)"
    and get :: "nat \<Rightarrow> 'a \<times> vt \<Rightarrow> vt_error + (u32 \<times> 'a \<times> vt)"
  assumes dead: "ready a \<Longrightarrow> traced (fun_of ev) \<Longrightarrow> \<not> vt_is_alive v \<Longrightarrow> step ev (a, v) = Inr (a, v)"
    and enters: "ready a \<Longrightarrow> traced k \<Longrightarrow> vt_is_alive v \<Longrightarrow> vt_pform_wtime env v = (t, v1) \<Longrightarrow>
      step (Entered k) (a, v) =
        andThen (get k (a, v1)) (\<lambda>(r, a, v). andThen (vt_enter env c r t v) (\<lambda>(_, _, v). Inr (a, v)))"
    and leaves: "ready a \<Longrightarrow> traced k \<Longrightarrow> vt_is_alive v \<Longrightarrow> ids a k = Some r \<Longrightarrow> vt_pform_wtime env v = (t, v1) \<Longrightarrow>
      step (Left k) (a, v) = andThen (vt_exit env c t v1) (\<lambda>(_, v). Inr (a, v))"
    and get_known: "ready a \<Longrightarrow> traced k \<Longrightarrow> ids a k = Some r \<Longrightarrow> get k (a, v) = Inr (r, a, v)"
    and get_new: "ready a \<Longrightarrow> traced k \<Longrightarrow> ids a k = None \<Longrightarrow> reg k v = Inr (r, v1) \<Longrightarrow> r \<noteq> VT_NO_ID \<Longrightarrow>
      \<exists>a1. get k (a, v) = Inr (r, a1, v1) \<and> ready a1 \<and> ids a1 = (ids a)(k \<mapsto> r)"

lemma learn_cases:
  "learn reg k (m, v) = Inr (r, m', v') \<Longrightarrow>
   (m k = Some r \<and> m' = m \<and> v' = v) \<or> (m k = None \<and> reg k v = Inr (r, v') \<and> r \<noteq> VT_NO_ID \<and> m' = m(k \<mapsto> r))"
  by (auto simp: learn_def andThen_Inr split: option.splits if_splits)

context lookup_adapter
begin

lemma get_learns:
  "ready a \<Longrightarrow> traced k \<Longrightarrow> learn reg k (ids a, v) = Inr (r, m, v1) \<Longrightarrow>
   \<exists>a1. get k (a, v) = Inr (r, a1, v1) \<and> ready a1 \<and> ids a1 = m"
  using get_known get_new by (fastforce dest!: learn_cases)

lemma entered_refines:
  assumes "ready a" and "traced k" and "vt_is_alive v" and "spec_step env c reg (Entered k) (ids a, v) = Inr (m, v')"
  shows "\<exists>a'. step (Entered k) (a, v) = Inr (a', v') \<and> ready a' \<and> ids a' = m"
proof -
  obtain t v1 where t: "vt_pform_wtime env v = (t, v1)"
    by (cases "vt_pform_wtime env v") auto
  with assms obtain r v2 where "learn reg k (ids a, v1) = Inr (r, m, v2)"
    and enter: "andThen (vt_enter env c r t v2) (\<lambda>(_, _, v). Inr (m, v)) = Inr (m, v')"
    by (auto simp: andThen_Inr)
  then obtain a1 where "get k (a, v1) = Inr (r, a1, v2)" "ready a1" "ids a1 = m"
    using assms get_learns by blast
  then show ?thesis
    using enter enters [OF assms(1,2,3) t] by (auto simp: andThen_Inr)
qed

lemma left_refines:
  assumes "ready a" and "traced k" and "vt_is_alive v" and "spec_step env c reg (Left k) (ids a, v) = Inr (m, v')"
  shows "\<exists>a'. step (Left k) (a, v) = Inr (a', v') \<and> ready a' \<and> ids a' = m"
proof -
  obtain t v1 where t: "vt_pform_wtime env v = (t, v1)"
    by (cases "vt_pform_wtime env v") auto
  with assms obtain r where "ids a k = Some r"
    by (auto split: if_splits)
  then show ?thesis
    using assms leaves [OF assms(1,2,3) _ t] t by (auto simp: andThen_Inr)
qed

end

sublocale lookup_adapter \<subseteq> adapter env c reg ids ready traced step
proof (unfold_locales, goal_cases)
  case (1 a ev v m v')
  show ?case
  proof (cases "vt_is_alive v")
    case False
    with 1 dead [of a ev v] show ?thesis
      by (cases ev) auto
  next
    case True
    with 1 entered_refines [of a _ v m v'] left_refines [of a _ v m v'] show ?thesis
      by (cases ev) auto
  qed
qed

end
