(* ===== verification/CompGnu.thy ===== *)
theory CompGnu
  imports CompAdapter
begin

text \<open>
  The adapter for the GNU and Intel compilers (\<open>vtlib/vt_comp_gnu.c\<close>). These compilers pass only
  the address of a function, so the adapter first reads a table of the symbols of the program, in
  the format of \<open>nm\<close>, from a file or from the output of a command.

  Parameters are the settings, the file system, the command and \<open>dlsym\<close> (record \<open>nm_world\<close>). The
  code for IA-64 and the messages are not modelled.
\<close>

section \<open>The table of functions\<close>

record gnu_node =
  g_name :: string
  g_fname :: "string ptr"
  g_lno :: u32
  g_vtid :: u32

record gnu_state =
  gnu_init :: bool
  gnu_htab :: "gnu_node addr_htab"
  n_htab_entries :: u32

definition gnu_state0 :: gnu_state where
  "gnu_state0 = \<lparr>gnu_init = True, gnu_htab = (\<lambda>_. []), n_htab_entries = 0\<rparr>"

definition gnu_put :: "nat \<Rightarrow> string \<Rightarrow> string ptr \<Rightarrow> u32 \<Rightarrow> gnu_state \<Rightarrow> gnu_state" where
  "gnu_put h n fn lno g =
     g\<lparr>gnu_htab := addr_put (gnu_htab g) h \<lparr>g_name = n, g_fname = fn, g_lno = lno, g_vtid = VT_NO_ID\<rparr>,
       n_htab_entries := n_htab_entries g + 1\<rparr>"

definition gnu_get :: "gnu_state \<Rightarrow> nat \<Rightarrow> gnu_node option" where
  "gnu_get g h = addr_get (gnu_htab g) h"

section \<open>Reading the symbols\<close>

abbreviation NM_LINE_BLK_LEN :: nat where
  "NM_LINE_BLK_LEN \<equiv> 1024"

abbreviation NM_LINE_MAX_LEN :: nat where
  "NM_LINE_MAX_LEN \<equiv> 16384"

record nm_world =
  nm_file :: "string ptr"
  nm_apppath :: "string ptr"
  nm_command :: "string ptr"
  nm_fopen :: "string \<Rightarrow> string option"
  nm_popen :: "string \<Rightarrow> (string \<times> int) option"
  dlsym :: "string \<Rightarrow> nat"

text \<open>\<open>strtol (s, NULL, 16)\<close>.\<close>

definition is_hex :: "char \<Rightarrow> bool" where
  "is_hex c \<longleftrightarrow> is_digit c \<or> (of_char c :: nat) \<in> {65..70} \<or> (of_char c :: nat) \<in> {97..102}"

definition hex_value :: "char \<Rightarrow> int" where
  "hex_value c =
     (let n = of_char c :: nat
      in if is_digit c then digit_value c else if n \<ge> 97 then int n - 87 else int n - 55)"

definition strtol16 :: "string \<Rightarrow> int" where
  "strtol16 s =
     (let r = dropWhile is_space s;
          neg = (r \<noteq> [] \<and> hd r = CHR ''-'');
          r = (if r \<noteq> [] \<and> (hd r = CHR ''-'' \<or> hd r = CHR ''+'') then tl r else r);
          r = (case r of
                 z # x # d # _ \<Rightarrow> if z = CHR ''0'' \<and> x \<in> {CHR ''x'', CHR ''X''} \<and> is_hex d then tl (tl r) else r
               | _ \<Rightarrow> r);
          v = foldl (\<lambda>a c. 16 * a + hex_value c) 0 (takeWhile is_hex r)
      in max LONG_MIN (min LONG_MAX (if neg then - v else v)))"

text \<open>
  The size of the buffer for lines, which has been enlarged \<open>k\<close> times. The rest of a line that it
  had no room for is read with it being enlarged. \<open>None\<close> is a line that is too long.
\<close>

abbreviation line_size :: "nat \<Rightarrow> nat" where
  "line_size k \<equiv> NM_LINE_BLK_LEN * Suc k"

function complete_line :: "string \<Rightarrow> nat \<Rightarrow> string \<Rightarrow> (string \<times> nat \<times> string) option" where
  "complete_line line k rest =
     (if last line = CHR 0x0A \<or> rest = [] then Some (line, k, rest)
      else if line_size k + NM_LINE_BLK_LEN > NM_LINE_MAX_LEN then None
      else (let (tmp, rest') = fgets (NM_LINE_BLK_LEN - 1) rest
            in complete_line (line @ cstr tmp) (Suc k) rest'))"
  by pat_completeness auto
termination
proof (relation "measure (\<lambda>(_, _, r). length r)", goal_cases)
  case (2 line k rest x tmp rest')
  then show ?case
    using fgets_progress [of "NM_LINE_BLK_LEN - 1" rest] by (cases "fgets (NM_LINE_BLK_LEN - 1) rest") auto
qed simp

declare complete_line.simps [simp del]

lemma complete_line_rest: "complete_line line k rest = Some (line', k', rest') \<Longrightarrow> length rest' \<le> length rest"
proof (induction line k rest rule: complete_line.induct)
  case (1 line k rest)
  show ?case
  proof (cases "last line = CHR 0x0A \<or> rest = []")
    case True
    with "1.prems" show ?thesis
      by (simp add: complete_line.simps [of line])
  next
    case False
    let ?f = "fgets (NM_LINE_BLK_LEN - 1) rest"
    have "\<not> line_size k + NM_LINE_BLK_LEN > NM_LINE_MAX_LEN"
      and "complete_line (line @ cstr (fst ?f)) (Suc k) (snd ?f) = Some (line', k', rest')"
      using "1.prems" False by (simp_all add: complete_line.simps [of line] split: if_splits prod.splits)
    with "1.IH" [of ?f "fst ?f" "snd ?f"] False have "length rest' \<le> length (snd ?f)"
      by simp
    then show ?thesis
      using fgets_progress [of "NM_LINE_BLK_LEN - 1" rest] False by simp
  qed
qed

text \<open>
  The columns of a line. The delimiter is another one for each column. The value is the number of
  the column the loop stopped at, \<open>None\<close> is a parse error.
\<close>

record nm_symbol =
  sym_addr :: int
  sym_name :: "string ptr"
  sym_file :: "string ptr"
  sym_lno :: u32

definition nm_lno :: "string \<Rightarrow> u32" where
  "nm_lno col = (let n = word_of_int (atoi col) in if n = 0 then VT_NO_LNO else n)"

definition nm_column ::
  "nm_world \<Rightarrow> nat \<Rightarrow> char \<Rightarrow> string \<Rightarrow> nm_symbol \<Rightarrow> (nat \<times> nm_symbol) option + (nat \<times> char \<times> nm_symbol)" where
  "nm_column w nc delim col y =
     (if nc = 1 then
        (if length col = 1 then Inr (3, CHR 0x09, y)
         else Inr (2, delim, y\<lparr>sym_addr := strtol16 col\<rparr>))
      else if nc = 2 then (if length col \<noteq> 1 then Inl None else Inr (3, CHR 0x09, y))
      else if nc = 3 then
        (let y = y\<lparr>sym_name := Some col\<rparr>;
             y = (if sym_addr y = -1 then y\<lparr>sym_addr := int (dlsym w col)\<rparr> else y)
         in if sym_addr y = 0 then Inl (Some (3, y)) else Inr (4, CHR '':'', y))
      else if nc = 4 then Inr (5, delim, y\<lparr>sym_file := Some col\<rparr>)
      else Inl (Some (nc, y\<lparr>sym_lno := nm_lno col\<rparr>)))"

lemma nm_column_next: "nm_column w nc delim col y = Inr (nc', d, y') \<Longrightarrow> nc < nc' \<and> nc' \<le> 5"
  by (auto simp: nm_column_def Let_def split: if_splits)

function nm_columns :: "nm_world \<Rightarrow> nat \<Rightarrow> char \<Rightarrow> string \<Rightarrow> string \<Rightarrow> nat \<Rightarrow> nm_symbol \<Rightarrow> (nat \<times> nm_symbol) option" where
  "nm_columns w nc delim col line p y =
     (case nm_column w nc delim col y of
        Inl r \<Rightarrow> r
      | Inr (nc, delim, y) \<Rightarrow>
          (case strtok delim line p of
             (None, _) \<Rightarrow> Some (nc, y)
           | (Some (col, p), line) \<Rightarrow> nm_columns w nc delim col line p y))"
  by pat_completeness auto
termination
  by (relation "measure (\<lambda>(_, nc, _). 5 - nc)") (auto dest!: nm_column_next)

declare nm_columns.simps [simp del]

text \<open>
  A line without its newline. Where it has no column, the null pointer from \<open>strtok\<close> is used as
  a string. \<open>Inr None\<close> is a parse error.
\<close>

definition nm_line :: "nm_world \<Rightarrow> string \<Rightarrow> vt_error + (nat \<times> nm_symbol) option" where
  "nm_line w line =
     (case strtok (CHR '' '') line 0 of
        (None, _) \<Rightarrow> Inl OutOfBounds
      | (Some (col, p), line) \<Rightarrow>
          Inr (nm_columns w 1 (CHR '' '') col line p
                 \<lparr>sym_addr = -1, sym_name = None, sym_file = None, sym_lno = VT_NO_LNO\<rparr>))"

text \<open>A symbol gets into the table if it has an address and a name; the name ends at \<open>??\<close>.\<close>

definition chop_name :: "string \<Rightarrow> string" where
  "chop_name n = (case strstr n ''??'' of Some i \<Rightarrow> if i \<noteq> 0 then take i n else n | None \<Rightarrow> n)"

definition put_symbol :: "nm_symbol \<Rightarrow> gnu_state \<Rightarrow> gnu_state" where
  "put_symbol y g =
     (case sym_name y of
        Some f \<Rightarrow> if sym_addr y > 0 then gnu_put (nat (sym_addr y)) (chop_name f) (sym_file y) (sym_lno y) g else g
      | None \<Rightarrow> g)"

text \<open>The loop over the lines. The flag is \<open>parse_error\<close>.\<close>

function nm_lines :: "nm_world \<Rightarrow> nat \<Rightarrow> string \<Rightarrow> gnu_state \<Rightarrow> vt_error + (bool \<times> gnu_state)" where
  "nm_lines w k inp g =
     (if inp = [] then Inr (False, g)
      else
        (let (l, rest) = fgets (line_size k - 1) inp
         in if cstr l = [] then Inr (True, g)
            else case complete_line (cstr l) k rest of
                   None \<Rightarrow> Inr (True, g)
                 | Some (line, k, rest) \<Rightarrow>
                     andThen (nm_line w ((if last line = CHR 0x0A then butlast line else line) @ [NUL]))
                       (\<lambda>r. case r of
                              None \<Rightarrow> Inr (True, g)
                            | Some (nc, y) \<Rightarrow>
                                if nc < 3 then Inr (True, g) else nm_lines w k rest (put_symbol y g))))"
  by pat_completeness auto
termination
proof (relation "measure (\<lambda>(_, _, t, _). length t)", goal_cases)
  case (2 w k inp g x l rest)
  then have "rest = snd (fgets (line_size k - 1) inp)"
    by (metis snd_conv)
  with 2 show ?case
    using fgets_progress [of "line_size k - 1" inp] by (auto dest!: complete_line_rest)
qed simp

declare nm_lines.simps [simp del]

text \<open>
  The error of the command is looked at behind the loop: a command that could not be started leaves
  the table empty and then ends the program.
\<close>

definition get_symtab :: "nm_world \<Rightarrow> gnu_state \<Rightarrow> vt_error + gnu_state" where
  "get_symtab w g =
     (case (case nm_file w of Some f \<Rightarrow> if f \<noteq> [] then Some f else None | None \<Rightarrow> None) of
        Some f \<Rightarrow>
          (case nm_fopen w f of
             None \<Rightarrow> Inl Aborted
           | Some inp \<Rightarrow>
               andThen (nm_lines w 0 inp g) (\<lambda>(parse_error, g). if parse_error then Inl Aborted else Inr g))
      | None \<Rightarrow>
          (case (nm_apppath w, nm_command w) of
             (Some path, Some nm) \<Rightarrow>
               if path = [] then Inl Aborted
               else (case nm_popen w (nm @ '' '' @ path) of
                       None \<Rightarrow> Inl Aborted
                     | Some (inp, status) \<Rightarrow>
                         andThen (nm_lines w 0 inp g)
                           (\<lambda>(parse_error, g). if parse_error \<or> status \<noteq> 0 then Inl Aborted else Inr g))
           | _ \<Rightarrow> Inl Aborted))"

section \<open>Events\<close>

definition gnu_region :: "env \<Rightarrow> callees \<Rightarrow> string \<Rightarrow> string ptr \<Rightarrow> u32 \<Rightarrow> vt \<Rightarrow> vt_error + (u32 \<times> vt)" where
  "gnu_region env c name fname lno v =
     andThen (case fname of None \<Rightarrow> Inr (VT_NO_ID, VT_NO_LNO, v)
                          | Some f \<Rightarrow> andThen (vt_def_scl_file env c f v) (\<lambda>(fid, v). Inr (fid, lno, v)))
       (\<lambda>(fid, lno, v). vt_def_region env c name fid lno VT_NO_LNO None 2 v)"

definition gnu_register_region ::
  "env \<Rightarrow> callees \<Rightarrow> nat \<Rightarrow> gnu_node \<Rightarrow> gnu_state \<Rightarrow> vt \<Rightarrow> vt_error + (u32 \<times> gnu_state \<times> vt)" where
  "gnu_register_region env c h hn g v =
     andThen (gnu_region env c (g_name hn) (g_fname hn) (g_lno hn) v)
       (\<lambda>(rid, v). Inr (rid, g\<lparr>gnu_htab := addr_update h (\<lambda>n. n\<lparr>g_vtid := rid\<rparr>) (gnu_htab g)\<rparr>, v))"

definition gnu_finalize :: "gnu_state \<Rightarrow> gnu_state" where
  "gnu_finalize g = g\<lparr>gnu_htab := addr_map (\<lambda>n. n\<lparr>g_vtid := VT_NO_ID\<rparr>) (gnu_htab g)\<rparr>"

definition cyg_profile_func_enter ::
  "env \<Rightarrow> callees \<Rightarrow> (vt \<Rightarrow> vt_error + vt) \<Rightarrow> nm_world \<Rightarrow> nat \<Rightarrow> gnu_state \<times> vt \<Rightarrow> vt_error + (gnu_state \<times> vt)" where
  "cyg_profile_func_enter env c opn w funcptr gv =
     andThen
       (case gv of (g, v) \<Rightarrow>
          if gnu_init g
          then andThen (opn v) (\<lambda>v. andThen (get_symtab w (g\<lparr>gnu_init := False\<rparr>)) (\<lambda>g. Inr (g, v)))
          else Inr (g, v))
       (\<lambda>(g, v).
          if \<not> vt_is_alive v then Inr (g, v)
          else (let (time, v) = vt_pform_wtime env v
                in case gnu_get g funcptr of
                     None \<Rightarrow> Inr (g, v)
                   | Some hn \<Rightarrow>
                       andThen (if g_vtid hn = VT_NO_ID then gnu_register_region env c funcptr hn g v
                                else Inr (g_vtid hn, g, v))
                         (\<lambda>(rid, g, v). andThen (vt_enter env c rid time v) (\<lambda>(_, _, v). Inr (g, v)))))"

definition cyg_profile_func_exit ::
  "env \<Rightarrow> callees \<Rightarrow> nat \<Rightarrow> gnu_state \<times> vt \<Rightarrow> vt_error + (gnu_state \<times> vt)" where
  "cyg_profile_func_exit env c funcptr gv =
     (case gv of (g, v) \<Rightarrow>
        if \<not> vt_is_alive v then Inr (g, v)
        else (let (time, v) = vt_pform_wtime env v
              in case gnu_get g funcptr of
                   None \<Rightarrow> Inr (g, v)
                 | Some _ \<Rightarrow> andThen (vt_exit env c time v) (\<lambda>(_, v). Inr (g, v))))"

section \<open>The contract\<close>

text \<open>
  The state behind the initialisation, in which the table \<open>D\<close> of functions has been read. Functions
  that are not in the table are not traced.
\<close>

type_synonym gnu_facts = "nat \<rightharpoonup> string \<times> string ptr \<times> u32"

definition gnu_ids :: "gnu_state \<Rightarrow> nat \<rightharpoonup> u32" where
  "gnu_ids g k = (case gnu_get g k of None \<Rightarrow> None | Some n \<Rightarrow> if g_vtid n = VT_NO_ID then None else Some (g_vtid n))"

definition gnu_facts :: "gnu_state \<Rightarrow> gnu_facts" where
  "gnu_facts g k = map_option (\<lambda>n. (g_name n, g_fname n, g_lno n)) (gnu_get g k)"

definition gnu_ready :: "gnu_facts \<Rightarrow> gnu_state \<Rightarrow> bool" where
  "gnu_ready D g \<longleftrightarrow> \<not> gnu_init g \<and> gnu_facts g = D"

definition gnu_reg :: "env \<Rightarrow> callees \<Rightarrow> gnu_facts \<Rightarrow> regdef" where
  "gnu_reg env c D k v = (case D k of None \<Rightarrow> Inl Aborted | Some (n, f, l) \<Rightarrow> gnu_region env c n f l v)"

fun gnu_step ::
  "env \<Rightarrow> callees \<Rightarrow> (vt \<Rightarrow> vt_error + vt) \<Rightarrow> nm_world \<Rightarrow> event \<Rightarrow> gnu_state \<times> vt \<Rightarrow> vt_error + (gnu_state \<times> vt)" where
  "gnu_step env c opn w (Entered k) gv = cyg_profile_func_enter env c opn w k gv"
| "gnu_step env c opn w (Left k) gv = cyg_profile_func_exit env c k gv"

text \<open>Registering a region changes the id of its node and nothing else.\<close>

lemma gnu_get_registered:
  "gnu_get (g\<lparr>gnu_htab := addr_update h (\<lambda>n. n\<lparr>g_vtid := r\<rparr>) (gnu_htab g)\<rparr>) k =
    (if k = h then map_option (\<lambda>n. n\<lparr>g_vtid := r\<rparr>) (gnu_get g k) else gnu_get g k)"
  by (simp add: gnu_get_def addr_get_update)

lemma gnu_registered:
  assumes "gnu_get g h = Some hn" and "r \<noteq> VT_NO_ID" and "gnu_ready D g"
  shows "gnu_ready D (g\<lparr>gnu_htab := addr_update h (\<lambda>n. n\<lparr>g_vtid := r\<rparr>) (gnu_htab g)\<rparr>)"
    and "gnu_ids (g\<lparr>gnu_htab := addr_update h (\<lambda>n. n\<lparr>g_vtid := r\<rparr>) (gnu_htab g)\<rparr>) = (gnu_ids g)(h \<mapsto> r)"
proof -
  let ?g = "g\<lparr>gnu_htab := addr_update h (\<lambda>n. n\<lparr>g_vtid := r\<rparr>) (gnu_htab g)\<rparr>"
  have "gnu_facts ?g = gnu_facts g"
    by (simp add: fun_eq_iff gnu_facts_def gnu_get_registered option.map_comp comp_def)
  then show "gnu_ready D ?g"
    using assms(3) by (simp add: gnu_ready_def)
  show "gnu_ids ?g = (gnu_ids g)(h \<mapsto> r)"
    using assms by (auto simp: gnu_ids_def gnu_get_registered fun_eq_iff)
qed

text \<open>The node of a function, with its region defined.\<close>

definition gnu_node_id ::
  "env \<Rightarrow> callees \<Rightarrow> nat \<Rightarrow> gnu_state \<times> vt \<Rightarrow> vt_error + (u32 \<times> gnu_state \<times> vt)" where
  "gnu_node_id env c k gv =
     (case gv of (g, v) \<Rightarrow>
        (case gnu_get g k of
           None \<Rightarrow> Inl Aborted
         | Some hn \<Rightarrow> if g_vtid hn = VT_NO_ID then gnu_register_region env c k hn g v else Inr (g_vtid hn, g, v)))"

lemma gnu_node:
  "gnu_ready D g \<Longrightarrow> D k \<noteq> None \<Longrightarrow>
   \<exists>hn. gnu_get g k = Some hn \<and> D k = Some (g_name hn, g_fname hn, g_lno hn) \<and>
        gnu_ids g k = (if g_vtid hn = VT_NO_ID then None else Some (g_vtid hn))"
  by (cases "gnu_get g k") (fastforce simp: gnu_ready_def gnu_facts_def gnu_ids_def)+

interpretation gnu: lookup_adapter env c "gnu_reg env c D" gnu_ids "gnu_ready D" "\<lambda>k. D k \<noteq> None"
    "gnu_step env c opn w" "gnu_node_id env c"
  for env c D opn w
proof (unfold_locales, goal_cases)
  case (1 g ev v)
  then show ?case
    by (cases ev) (auto simp: cyg_profile_func_enter_def cyg_profile_func_exit_def gnu_ready_def)
next
  case (2 g k v t v1)
  then show ?case
    using gnu_node [OF 2(1,2)] by (auto simp: cyg_profile_func_enter_def gnu_ready_def gnu_node_id_def)
next
  case (3 g k v r t v1)
  then show ?case
    using gnu_node [OF 3(1,2)] by (auto simp: cyg_profile_func_exit_def)
next
  case (4 g k r v)
  then show ?case
    using gnu_node [OF 4(1,2)] by (auto simp: gnu_node_id_def split: if_splits)
next
  case (5 g k v r v1)
  then show ?case
    using gnu_node [OF 5(1,2)] gnu_registered [OF _ 5(5,1)]
    by (auto simp: gnu_node_id_def gnu_register_region_def gnu_reg_def andThen_Inr split: if_splits)
qed

end
