(* ===== verification/CompNm.thy ===== *)
theory CompNm
  imports CompGnu
begin

text \<open>
  What the adapter for the GNU compilers reads from the output of \<open>nm\<close>: lines of any length up to
  the limit of the code, with symbols that are defined in the program, with or without a source
  location, and symbols that are not. The table that is read from a printed list of symbols is
  that list.
\<close>

section \<open>strtok and fgets on known text\<close>

lemma strtok_field:
  assumes "tok \<noteq> []" and "d \<notin> set tok" and "NUL \<notin> set tok" and "d \<noteq> NUL"
  shows "strtok d (pre @ tok @ d # post) (length pre) =
      (Some (tok, Suc (length pre + length tok)), pre @ tok @ NUL # post)"
proof -
  have c: "cstr (tok @ d # post) = tok @ d # cstr post"
    using assms(3,4) by (induction tok) auto
  have "takeWhile (\<lambda>c. c = d) (tok @ d # cstr post) = []"
    using assms(1,2) by (cases tok) auto
  then show ?thesis
    using assms by (simp add: strtok_def c Let_def list_update_append)
qed

lemma strtok_final:
  assumes "tok \<noteq> []" and "d \<notin> set tok" and "NUL \<notin> set tok"
  shows "strtok d (pre @ tok @ NUL # post) (length pre) = (Some (tok, length pre + length tok), pre @ tok @ NUL # post)"
proof -
  have c: "cstr (tok @ NUL # post) = tok"
    using assms(3) by (simp add: cstr_append_NUL)
  have "takeWhile (\<lambda>c. c = d) tok = []"
    using assms(1,2) by (cases tok) auto
  then show ?thesis
    using assms by (simp add: strtok_def c Let_def)
qed

lemma strtok_end: "strtok d (pre @ NUL # post) (length pre) = (None, pre @ NUL # post)"
  by (simp add: strtok_def Let_def)

lemma strtok_skip: "d \<noteq> NUL \<Longrightarrow> strtok d (replicate n d @ s) 0 = (case strtok d s 0 of (r, s) \<Rightarrow> (map_option (\<lambda>(t, p). (t, p + n)) r, replicate n d @ s))"
proof -
  assume "d \<noteq> NUL"
  then have c: "cstr (replicate n d @ s) = replicate n d @ cstr s"
    by (induction n) auto
  have t: "takeWhile (\<lambda>c. c = d) (replicate n d @ cstr s) = replicate n d @ takeWhile (\<lambda>c. c = d) (cstr s)"
    by (induction n) auto
  show ?thesis
    by (auto simp: strtok_def c t Let_def list_update_append add.commute add.left_commute)
qed

lemma fgets_long: "CHR 0x0A \<notin> set (take n l) \<Longrightarrow> n \<le> length l \<Longrightarrow> fgets n (l @ r) = (take n l, drop n l @ r)"
proof (induction l arbitrary: n)
  case (Cons c l)
  then show ?case by (cases n) auto
qed simp

section \<open>Long lines\<close>

lemma complete_line_fits:
  "CHR 0x0A \<notin> set l2 \<Longrightarrow> NUL \<notin> set l2 \<Longrightarrow> rest = l2 @ CHR 0x0A # r \<Longrightarrow> last l1 \<noteq> CHR 0x0A \<Longrightarrow> l1 \<noteq> [] \<Longrightarrow>
   length l2 < 1023 * (15 - k) \<Longrightarrow>
   \<exists>k'. k' \<le> 15 \<and> complete_line l1 k rest = Some (l1 @ l2 @ [CHR 0x0A], k', r)"
proof (induction l1 k rest arbitrary: l2 rule: complete_line.induct)
  case (1 l1 k rest)
  note p = "1.prems"
  have k: "k \<le> 14"
    using p(6) by (cases "k \<le> 14") auto
  let ?f = "fgets (NM_LINE_BLK_LEN - 1) rest"
  have unf: "complete_line l1 k rest = complete_line (l1 @ cstr (fst ?f)) (Suc k) (snd ?f)"
    using p k by (simp add: complete_line.simps [of l1] split: prod.splits)
  show ?case
  proof (cases "length l2 < 1023")
    case True
    then have "?f = (l2 @ [CHR 0x0A], r)"
      using p fgets_line by simp
    moreover have "cstr (l2 @ [CHR 0x0A]) = l2 @ [CHR 0x0A]"
      using p by (simp add: cstr_id)
    ultimately show ?thesis
      using k unf by (simp add: complete_line.simps [of "l1 @ l2 @ _"])
  next
    case False
    then have f: "?f = (take 1023 l2, drop 1023 l2 @ CHR 0x0A # r)"
      using p fgets_long [of 1023 l2] by (auto dest: in_set_takeD)
    have c: "cstr (take 1023 l2) = take 1023 l2"
      using p(2) by (intro cstr_id) (auto dest: in_set_takeD)
    have "take 1023 l2 \<noteq> []"
      using False by auto
    then have "last (l1 @ take 1023 l2) \<noteq> CHR 0x0A"
      using p(1) by (metis in_set_takeD last_appendR last_in_set)
    moreover have "length (drop 1023 l2) < 1023 * (15 - Suc k)"
      using p(6) k False by auto
    ultimately have "\<exists>k'. k' \<le> 15 \<and> complete_line (l1 @ cstr (fst ?f)) (Suc k) (snd ?f) =
        Some ((l1 @ cstr (fst ?f)) @ drop 1023 l2 @ [CHR 0x0A], k', r)"
      using p k f c by (intro "1.IH" [of ?f "fst ?f" "snd ?f"]) (auto dest: in_set_dropD)
    then show ?thesis
      using unf f c by auto
  qed
qed

text \<open>One round of the loop over the lines, for a line that fits the largest buffer.\<close>

lemma nm_lines_line:
  assumes "CHR 0x0A \<notin> set l" and "NUL \<notin> set l" and "l \<noteq> []" and "length l < 16368" and "k \<le> 15"
  shows "\<exists>k' \<le> 15. nm_lines w k (l @ CHR 0x0A # r) g =
      andThen (nm_line w (l @ [NUL]))
        (\<lambda>y. case y of None \<Rightarrow> Inr (True, g)
           | Some (nc, y) \<Rightarrow> if nc < 3 then Inr (True, g) else nm_lines w k' r (put_symbol y g))"
proof -
  let ?n = "line_size k - 1"
  obtain a rest k' where f: "fgets ?n (l @ CHR 0x0A # r) = (a, rest)" and a: "cstr a \<noteq> []"
    and k': "k' \<le> 15" "complete_line (cstr a) k rest = Some (l @ [CHR 0x0A], k', r)"
  proof (cases "length l < ?n")
    case True
    have "cstr (l @ [CHR 0x0A]) = l @ [CHR 0x0A]"
      using assms by (simp add: cstr_id)
    with that [of "l @ [CHR 0x0A]" r k] True fgets_line [of l ?n r] assms show ?thesis
      by (simp add: complete_line.simps [of "l @ _"])
  next
    case False
    let ?a = "take ?n l"
    have f: "fgets ?n (l @ CHR 0x0A # r) = (?a, drop ?n l @ CHR 0x0A # r)"
      using fgets_long [of ?n l] False assms by (auto dest: in_set_takeD)
    have c: "cstr ?a = ?a"
      using assms(2) by (intro cstr_id) (auto dest: in_set_takeD)
    have a: "?a \<noteq> []"
      using assms by auto
    then have "last ?a \<noteq> CHR 0x0A"
      using assms(1) by (metis in_set_takeD last_in_set)
    moreover obtain j where "15 = k + j"
      using assms(5) le_Suc_ex by blast
    then have "length (drop ?n l) < 1023 * (15 - k)"
      using assms(4) False by auto
    ultimately obtain k' where "k' \<le> 15"
      "complete_line ?a k (drop ?n l @ CHR 0x0A # r) = Some (?a @ drop ?n l @ [CHR 0x0A], k', r)"
      using complete_line_fits [of "drop ?n l" _ r ?a k] assms a by (auto dest: in_set_dropD)
    then show ?thesis
      using that [of ?a _ k'] f c a by (simp add: append.assoc [symmetric])
  qed
  then show ?thesis
    by (subst nm_lines.simps) (auto simp: Let_def)
qed

section \<open>Lists of symbols\<close>

text \<open>Symbols as \<open>nm --defined-only -l\<close> and \<open>nm -l\<close> print them.\<close>

datatype nm_entry = Defined nat char string "(string \<times> nat) option" | Undefined string

definition hex_char :: "nat \<Rightarrow> char" where
  "hex_char d = (if d < 10 then char_of (48 + d) else char_of (87 + d))"

fun hex :: "nat \<Rightarrow> nat \<Rightarrow> string" where
  "hex 0 n = []"
| "hex (Suc k) n = hex k (n div 16) @ [hex_char (n mod 16)]"

definition print_loc :: "(string \<times> nat) option \<Rightarrow> string" where
  "print_loc loc = (case loc of None \<Rightarrow> [] | Some (f, n) \<Rightarrow> CHR 0x09 # f @ CHR '':'' # dec n)"

fun print_entry :: "nm_entry \<Rightarrow> string" where
  "print_entry (Defined a ty name loc) = hex 16 a @ [CHR '' '', ty, CHR '' ''] @ name @ print_loc loc"
| "print_entry (Undefined name) = replicate 17 (CHR '' '') @ [CHR ''U'', CHR '' ''] @ name"

definition print_entries :: "nm_entry list \<Rightarrow> string" where
  "print_entries es = concat (map (\<lambda>e. print_entry e @ [CHR 0x0A]) es)"

definition printable :: "string \<Rightarrow> bool" where
  "printable s \<longleftrightarrow> s \<noteq> [] \<and> CHR 0x0A \<notin> set s \<and> NUL \<notin> set s"

fun valid_entry :: "nm_entry \<Rightarrow> bool" where
  "valid_entry (Defined a ty name loc) \<longleftrightarrow>
     0 < a \<and> a < 2 ^ 63 \<and> ty \<notin> {CHR '' '', CHR 0x0A, NUL} \<and> printable name \<and> CHR 0x09 \<notin> set name \<and>
     (case loc of None \<Rightarrow> True | Some (f, n) \<Rightarrow> printable f \<and> CHR '':'' \<notin> set f \<and> 0 < n \<and> n < 2 ^ 31) \<and>
     length (print_entry (Defined a ty name loc)) < 16368"
| "valid_entry (Undefined name) \<longleftrightarrow> printable name \<and> CHR 0x09 \<notin> set name \<and> length name < 16000"

text \<open>What the table has for a symbol.\<close>

fun entry_nodes :: "nm_world \<Rightarrow> nm_entry \<Rightarrow> (nat \<times> gnu_node) list" where
  "entry_nodes w (Defined a ty name loc) =
     [(a, \<lparr>g_name = chop_name name, g_fname = map_option fst loc,
           g_lno = (case loc of None \<Rightarrow> VT_NO_LNO | Some (_, n) \<Rightarrow> of_nat n), g_vtid = VT_NO_ID\<rparr>)]"
| "entry_nodes w (Undefined name) =
     (if dlsym w name = 0 then []
      else [(dlsym w name, \<lparr>g_name = chop_name name, g_fname = None, g_lno = VT_NO_LNO, g_vtid = VT_NO_ID\<rparr>)])"

text \<open>Hexadecimal numbers.\<close>

lemma hex_char: "d < 16 \<Longrightarrow> is_hex (hex_char d) \<and> hex_value (hex_char d) = int d"
  by (auto simp: hex_char_def is_hex_def hex_value_def is_digit_def digit_value_def Let_def)

lemma hex_set: "c \<in> set (hex k n) \<Longrightarrow> is_hex c"
  by (induction k arbitrary: n) (auto simp: hex_char)

lemma hex_length [simp]: "length (hex k n) = k"
  by (induction k arbitrary: n) auto

lemma hex_foldl: "n < 16 ^ k \<Longrightarrow> foldl (\<lambda>a c. 16 * a + hex_value c) 0 (hex k n) = int n"
proof (induction k arbitrary: n)
  case (Suc k)
  then have "n div 16 < 16 ^ k"
    by (auto simp: less_mult_imp_div_less mult.commute)
  with Suc.IH show ?case
    by (simp add: hex_char of_nat_div of_nat_mod)
qed simp

lemma hex_not_special: "CHR 0x0A \<notin> set (hex k n)" "NUL \<notin> set (hex k n)" "CHR '' '' \<notin> set (hex k n)"
  using hex_set by (fastforce simp: is_hex_def is_digit_def)+

lemma three_elements: "3 \<le> length s \<Longrightarrow> \<exists>z x d r. s = z # x # d # r"
  by (cases s; cases "tl s"; cases "tl (tl s)") auto

lemma strtol16_hex:
  assumes "n < 2 ^ 63"
  shows "strtol16 (hex 16 n) = int n"
proof -
  obtain z x d r where h: "hex 16 n = z # x # d # r"
    using three_elements [of "hex 16 n"] by auto
  have c: "is_hex z" "is_hex x"
    using hex_set [of _ 16 n] h by auto
  then have "\<not> is_space z" "z \<noteq> CHR ''-''" "z \<noteq> CHR ''+''" "x \<notin> {CHR ''x'', CHR ''X''}"
    by (auto simp: is_hex_def is_space_def is_digit_def)
  moreover have "takeWhile is_hex (hex 16 n) = hex 16 n"
    using hex_set by (simp add: takeWhile_eq_all_conv)
  moreover have "foldl (\<lambda>a c. 16 * a + hex_value c) 0 (hex 16 n) = int n"
    using assms by (intro hex_foldl) simp
  ultimately show ?thesis
    using assms h unfolding strtol16_def by (simp add: Let_def)
qed

section \<open>A line of the list\<close>

text \<open>The columns behind the type: the name and, where it is printed, the location.\<close>

lemma nm_columns_name:
  assumes "printable name" and "CHR 0x09 \<notin> set name" and "q = length pre"
    and "case loc of None \<Rightarrow> True | Some (f, n) \<Rightarrow> printable f \<and> CHR '':'' \<notin> set f \<and> 0 < n \<and> n < 2 ^ 31"
    and "y = \<lparr>sym_addr = b, sym_name = None, sym_file = None, sym_lno = VT_NO_LNO\<rparr>"
    and "a = (if b = -1 then int (dlsym w name) else b)"
  shows "\<exists>nc \<ge> 3. (case strtok (CHR 0x09) (pre @ name @ print_loc loc @ [NUL]) q of
        (None, _) \<Rightarrow> Some (3, y)
      | (Some (col, p), line) \<Rightarrow> nm_columns w 3 (CHR 0x09) col line p y) =
      Some (nc, if a = 0 then y\<lparr>sym_name := Some name, sym_addr := a\<rparr>
                else \<lparr>sym_addr = a, sym_name = Some name, sym_file = map_option fst loc,
                      sym_lno = (case loc of None \<Rightarrow> VT_NO_LNO | Some (_, n) \<Rightarrow> of_nat n)\<rparr>)"
proof (cases loc)
  case None
  have "strtok (CHR 0x09) (pre @ name @ NUL # []) (length pre) = (Some (name, length pre + length name), pre @ name @ NUL # [])"
    using assms by (intro strtok_final) (auto simp: printable_def)
  moreover have "strtok (CHR '':'') (pre @ name @ [NUL]) (length pre + length name) = (None, pre @ name @ [NUL])"
    using strtok_end [of "CHR '':''" "pre @ name" "[]"] by simp
  ultimately show ?thesis
    using assms None by (auto simp: print_loc_def nm_columns.simps [of w 3] nm_column_def Let_def)
next
  case (Some l)
  then obtain f n where loc: "loc = Some (f, n)"
    by (cases l) auto
  let ?d = "dec n"
  have digits: "CHR '':'' \<notin> set ?d" "NUL \<notin> set ?d" "?d \<noteq> []"
    using dec_digits [of "CHR '':''" n] dec_digits [of NUL n] by (auto simp: is_digit_def)
  have s3: "strtok (CHR 0x09) (pre @ name @ CHR 0x09 # f @ CHR '':'' # ?d @ [NUL]) (length pre) =
      (Some (name, Suc (length pre + length name)), pre @ name @ NUL # f @ CHR '':'' # ?d @ [NUL])"
    using assms by (intro strtok_field) (auto simp: printable_def)
  have s4: "strtok (CHR '':'') (pre @ name @ NUL # f @ CHR '':'' # ?d @ [NUL]) (Suc (length pre + length name)) =
      (Some (f, Suc (Suc (length pre + length name) + length f)), pre @ name @ NUL # f @ NUL # ?d @ [NUL])"
    using strtok_field [of f "CHR '':''" "pre @ name @ [NUL]" "?d @ [NUL]"] assms(4) loc by (simp add: printable_def)
  have s5: "strtok (CHR '':'') (pre @ name @ NUL # f @ NUL # ?d @ [NUL]) (Suc (Suc (length pre + length name) + length f)) =
      (Some (?d, Suc (Suc (length pre + length name) + length f) + length ?d), pre @ name @ NUL # f @ NUL # ?d @ [NUL])"
    using strtok_final [of ?d "CHR '':''" "pre @ name @ [NUL] @ f @ [NUL]" "[]"] digits by (simp add: add.assoc)
  have "strtol ?d = (int n, length ?d, False)"
    using strtol_dec [of n "[]"] assms(4) loc by simp
  then have "atoi ?d = int n"
    using assms(4) loc by (simp add: atoi_def)
  moreover have "word_of_int (int n) \<noteq> (0 :: u32)"
  proof -
    have "unat (of_nat n :: u32) = n"
      using assms(4) loc by (simp add: unat_of_nat)
    then show ?thesis
      using assms(4) loc by auto
  qed
  ultimately have "nm_lno ?d = of_nat n"
    by (simp add: nm_lno_def Let_def)
  then show ?thesis
    using assms loc s3 s4 s5
    by (auto simp: print_loc_def nm_columns.simps [of w 3] nm_columns.simps [of w 4] nm_columns.simps [of w 5] nm_column_def Let_def)
qed

text \<open>A printed symbol is added to the table, one whose address is unknown is not.\<close>

lemma nm_line_defined:
  assumes v: "valid_entry (Defined a ty name loc)"
  shows "\<exists>nc y. nc \<ge> 3 \<and> nm_line w (print_entry (Defined a ty name loc) @ [NUL]) = Inr (Some (nc, y)) \<and>
      y = \<lparr>sym_addr = int a, sym_name = Some name, sym_file = map_option fst loc,
           sym_lno = (case loc of None \<Rightarrow> VT_NO_LNO | Some (_, n) \<Rightarrow> of_nat n)\<rparr>"
proof -
  let ?tail = "name @ print_loc loc @ [NUL]"
  let ?y = "\<lparr>sym_addr = int a, sym_name = None, sym_file = None, sym_lno = VT_NO_LNO\<rparr>"
  have s1: "strtok (CHR '' '') (hex 16 a @ CHR '' '' # ty # CHR '' '' # ?tail) 0 =
      (Some (hex 16 a, 17), hex 16 a @ NUL # ty # CHR '' '' # ?tail)"
    using strtok_field [of "hex 16 a" "CHR '' ''" "[]" "ty # CHR '' '' # ?tail"] hex_not_special [of 16 a] hex_length [of 16 a]
    by (cases "hex 16 a") auto
  have s2: "strtok (CHR '' '') (hex 16 a @ NUL # ty # CHR '' '' # ?tail) 17 =
      (Some ([ty], 19), hex 16 a @ NUL # ty # NUL # ?tail)"
    using strtok_field [of "[ty]" "CHR '' ''" "hex 16 a @ [NUL]" ?tail] v by auto
  obtain nc where nc: "nc \<ge> 3" and
    s3: "(case strtok (CHR 0x09) ((hex 16 a @ [NUL, ty, NUL]) @ ?tail) 19 of
        (None, _) \<Rightarrow> Some (3, ?y)
      | (Some (col, p), line) \<Rightarrow> nm_columns w 3 (CHR 0x09) col line p ?y) =
      Some (nc, \<lparr>sym_addr = int a, sym_name = Some name, sym_file = map_option fst loc,
                  sym_lno = (case loc of None \<Rightarrow> VT_NO_LNO | Some (_, n) \<Rightarrow> of_nat n)\<rparr>)"
    using nm_columns_name [of name 19 "hex 16 a @ [NUL, ty, NUL]" loc ?y "int a" "int a" w] v by auto
  have "strtol16 (hex 16 a) = int a"
    using v by (intro strtol16_hex) simp
  then show ?thesis
    using nc s1 s2 s3
    by (simp add: nm_line_def nm_columns.simps [of w "Suc 0"] nm_columns.simps [of w 2] nm_column_def)
qed

lemma nm_line_undefined:
  assumes v: "valid_entry (Undefined name)"
  shows "\<exists>nc y. nc \<ge> 3 \<and> nm_line w (print_entry (Undefined name) @ [NUL]) = Inr (Some (nc, y)) \<and>
      y = \<lparr>sym_addr = int (dlsym w name), sym_name = Some name, sym_file = None, sym_lno = VT_NO_LNO\<rparr>"
proof -
  let ?pre = "replicate 17 (CHR '' '') @ [CHR ''U'']"
  let ?y = "\<lparr>sym_addr = -1, sym_name = None, sym_file = None, sym_lno = VT_NO_LNO\<rparr>"
  have s1: "strtok (CHR '' '') (replicate 17 (CHR '' '') @ CHR ''U'' # CHR '' '' # name @ [NUL]) 0 =
      (Some (''U'', 19), replicate 17 (CHR '' '') @ CHR ''U'' # NUL # name @ [NUL])"
    using strtok_skip [of "CHR '' ''" 17 "CHR ''U'' # CHR '' '' # name @ [NUL]"]
      strtok_field [of "''U''" "CHR '' ''" "[]" "name @ [NUL]"] by simp
  obtain nc where nc: "nc \<ge> 3" and
    s3: "(case strtok (CHR 0x09) ((?pre @ [NUL]) @ name @ [NUL]) 19 of
        (None, _) \<Rightarrow> Some (3, ?y)
      | (Some (col, p), line) \<Rightarrow> nm_columns w 3 (CHR 0x09) col line p ?y) =
      Some (nc, \<lparr>sym_addr = int (dlsym w name), sym_name = Some name, sym_file = None, sym_lno = VT_NO_LNO\<rparr>)"
    using nm_columns_name [of name 19 "?pre @ [NUL]" None ?y "-1" "int (dlsym w name)" w] v
    by (cases "dlsym w name = 0") (auto simp: print_loc_def)
  show ?thesis
    using nc s1 s3 by (simp add: nm_line_def nm_columns.simps [of w "Suc 0"] nm_column_def)
qed

section \<open>The whole list\<close>

definition put_node :: "nat \<times> gnu_node \<Rightarrow> gnu_state \<Rightarrow> gnu_state" where
  "put_node hn g = (case hn of (h, n) \<Rightarrow> gnu_put h (g_name n) (g_fname n) (g_lno n) g)"

lemma nm_lines_entry:
  assumes "valid_entry e" and "k \<le> 15"
  shows "\<exists>k' \<le> 15. nm_lines w k (print_entry e @ CHR 0x0A # r) g = nm_lines w k' r (fold put_node (entry_nodes w e) g)"
proof -
  have line: "CHR 0x0A \<notin> set (print_entry e)" "NUL \<notin> set (print_entry e)" "print_entry e \<noteq> []"
      "length (print_entry e) < 16368"
    using assms(1) dec_digits [of "CHR 0x0A"] dec_digits [of NUL] hex_not_special
    by (cases e; auto simp: printable_def print_loc_def is_digit_def split: option.splits prod.splits)+
  have "\<exists>nc y. nc \<ge> 3 \<and> nm_line w (print_entry e @ [NUL]) = Inr (Some (nc, y)) \<and>
      put_symbol y g = fold put_node (entry_nodes w e) g"
  proof (cases e)
    case (Defined a ty name loc)
    then show ?thesis
      using nm_line_defined [of a ty name loc w] assms(1)
      by (cases loc) (fastforce simp: put_symbol_def put_node_def split: option.splits)+
  next
    case (Undefined name)
    then show ?thesis
      using nm_line_undefined [of name w] assms(1) by (auto simp: put_symbol_def put_node_def)
  qed
  then show ?thesis
    using nm_lines_line [OF line assms(2), of w r g] by auto
qed

lemma nm_lines_entries:
  "\<forall>e \<in> set es. valid_entry e \<Longrightarrow> k \<le> 15 \<Longrightarrow>
   \<exists>k' \<le> 15. nm_lines w k (print_entries es @ r) g = nm_lines w k' r (fold put_node (concat (map (entry_nodes w) es)) g)"
proof (induction es arbitrary: k g)
  case Nil
  then show ?case
    by (auto simp: print_entries_def)
next
  case (Cons e es)
  obtain k' where "k' \<le> 15"
    "nm_lines w k (print_entry e @ CHR 0x0A # print_entries es @ r) g =
     nm_lines w k' (print_entries es @ r) (fold put_node (entry_nodes w e) g)"
    using nm_lines_entry [of e k w "print_entries es @ r" g] Cons.prems by auto
  with Cons show ?case
    by (simp add: print_entries_def)
qed

lemma put_node_fresh: "g_vtid n = VT_NO_ID \<Longrightarrow> gnu_htab (put_node (h, n) g) = addr_put (gnu_htab g) h n"
  by (cases n) (simp add: put_node_def gnu_put_def)

lemma put_nodes:
  "\<forall>n \<in> snd ` set ns. g_vtid n = VT_NO_ID \<Longrightarrow>
   gnu_htab (fold put_node ns g) = foldl (\<lambda>t (h, n). addr_put t h n) (gnu_htab g) ns"
  by (induction ns arbitrary: g) (auto simp: put_node_fresh)

lemma entry_nodes_fresh: "hn \<in> set (entry_nodes w e) \<Longrightarrow> g_vtid (snd hn) = VT_NO_ID"
  by (cases e) (auto split: if_splits)

lemma get_symtab_entries:
  assumes "nm_file w = Some f" and "f \<noteq> []" and "nm_fopen w f = Some (print_entries es)"
    and "\<forall>e \<in> set es. valid_entry e" and "gnu_htab g = (\<lambda>_. [])"
  shows "\<exists>g'. get_symtab w g = Inr g' \<and> (\<forall>h. gnu_get g' h = map_of (rev (concat (map (entry_nodes w) es))) h)"
proof -
  let ?ns = "concat (map (entry_nodes w) es)"
  have "get_symtab w g = Inr (fold put_node ?ns g)"
    using assms nm_lines_entries [of es 0 w "[]" g] nm_lines.simps [of w _ "[]"] by (auto simp: get_symtab_def)
  moreover have "gnu_htab (fold put_node ?ns g) = foldl (\<lambda>t (h, n). addr_put t h n) (\<lambda>_. []) ?ns"
    using entry_nodes_fresh assms(5) by (subst put_nodes) fastforce+
  ultimately show ?thesis
    by (auto simp: gnu_get_def addresses.get_filled)
qed

text \<open>
  C26: The table of functions that the GNU adapter reads from a list of symbols as \<open>nm\<close> prints it is
  that list: for every address it has the name, file and line of the last symbol printed with it,
  names being cut at \<open>??\<close>; undefined symbols are there under the address that \<open>dlsym\<close> gives, or are
  left out if it gives none. Names may be as long as the limit of 16 KiB per line allows, which
  is beyond the buffer that the lines are read into at first.
\<close>

theorem nm_table_read:
  assumes "nm_file w = Some f" and "f \<noteq> []" and "nm_fopen w f = Some (print_entries es)"
    and "\<forall>e \<in> set es. valid_entry e"
  shows "\<exists>g. get_symtab w gnu_state0 = Inr g \<and> gnu_get g h = map_of (rev (concat (map (entry_nodes w) es))) h"
  using get_symtab_entries [OF assms, of gnu_state0] by (auto simp: gnu_state0_def)

abbreviation demo_symbols :: "nm_entry list" where
  "demo_symbols \<equiv> [Defined 4198400 (CHR ''T'') ''main'' (Some (''a.c'', 7)), Undefined ''puts'', Undefined ''exit'',
     Defined 4198500 (CHR ''t'') ''init'' None]"

definition demo_nm :: nm_world where
  "demo_nm = \<lparr>nm_file = Some ''a.nm'', nm_apppath = None, nm_command = None,
     nm_fopen = (\<lambda>_. Some (print_entries demo_symbols)),
     nm_popen = (\<lambda>_. None), dlsym = (\<lambda>n. if n = ''puts'' then 5000 else 0)\<rparr>"

lemma demo_nm_file: "nm_file demo_nm = Some ''a.nm''" "''a.nm'' \<noteq> []"
    "nm_fopen demo_nm ''a.nm'' = Some (print_entries demo_symbols)" "\<forall>e \<in> set demo_symbols. valid_entry e"
  by (simp_all add: demo_nm_def printable_def print_loc_def dec.simps)

theorem nm_table_read_witness:
  "(\<exists>g. get_symtab demo_nm gnu_state0 = Inr g \<and> gnu_get g 4198400 =
      Some \<lparr>g_name = ''main'', g_fname = Some ''a.c'', g_lno = 7, g_vtid = VT_NO_ID\<rparr>) \<and>
   (\<exists>g. get_symtab demo_nm gnu_state0 = Inr g \<and> gnu_get g 5000 =
      Some \<lparr>g_name = ''puts'', g_fname = None, g_lno = VT_NO_LNO, g_vtid = VT_NO_ID\<rparr>)"
  using nm_table_read [OF demo_nm_file, of 4198400] nm_table_read [OF demo_nm_file, of 5000]
  by (simp add: demo_nm_def chop_name_def)

text \<open>
  C27: A line without a column in the list of symbols, as the empty line that \<open>nm\<close> prints between the
  members of an archive, makes the GNU adapter use a null pointer as a string, whatever symbols
  precede it. The check for empty lines at the top of the loop does not see it, as the newline is
  still there.
\<close>

theorem blank_line_in_symbols:
  assumes "nm_file w = Some f" and "f \<noteq> []"
    and "nm_fopen w f = Some (print_entries es @ replicate n (CHR '' '') @ CHR 0x0A # rest)"
    and "\<forall>e \<in> set es. valid_entry e" and "n < 1000"
  shows "get_symtab w g = Inl OutOfBounds"
proof -
  have blank: "nm_lines w k (replicate n (CHR '' '') @ CHR 0x0A # rest) g = Inl OutOfBounds" for k g
  proof -
    let ?l = "replicate n (CHR '' '')"
    have "fgets (line_size k - 1) (?l @ CHR 0x0A # rest) = (?l @ [CHR 0x0A], rest)"
      using assms(5) by (intro fgets_line) auto
    moreover have "cstr (?l @ [CHR 0x0A]) = ?l @ [CHR 0x0A]"
      by (rule cstr_id) auto
    moreover have "nm_line w (?l @ [NUL]) = Inl OutOfBounds"
      using strtok_skip [of "CHR '' ''" n "[NUL]"] strtok_end [of "CHR '' ''" "[]" "[]"] by (simp add: nm_line_def)
    ultimately show ?thesis
      by (simp add: nm_lines.simps [of w k] complete_line.simps [of "?l @ _"])
  qed
  show ?thesis
    using assms blank nm_lines_entries [OF assms(4), of 0 w "replicate n (CHR '' '') @ CHR 0x0A # rest" g]
    by (auto simp: get_symtab_def)
qed

theorem blank_line_in_symbols_witness:
  "get_symtab (demo_nm\<lparr>nm_fopen := (\<lambda>_. Some (CHR 0x0A # ''a.o:''))\<rparr>) gnu_state0 = Inl OutOfBounds"
  using blank_line_in_symbols [of "demo_nm\<lparr>nm_fopen := (\<lambda>_. Some (CHR 0x0A # ''a.o:''))\<rparr>" "''a.nm''" "[]" 0 "''a.o:''"]
  by (simp add: demo_nm_def print_entries_def)

end
