(* ===== verification/CompName.thy ===== *)
theory CompName
  imports CompAdapter
begin

text \<open>
  The adapters for compilers that pass the name of the function and nothing about its source: that
  of Sun (\<open>vtlib/vt_comp_phat.c\<close>) and that of NEC SX (\<open>vtlib/vt_comp_ftrace.c\<close>). A function is known
  by the address of its name. Functions of the OpenMP run time, with a dollar sign in their names,
  are ignored.
\<close>

section \<open>Sun compilers\<close>

text \<open>
  The compiler passes a pointer to an \<open>int\<close> with each function, -1 at first. Its cells are part of
  the program, so they keep their values when the adapter is finalised.
\<close>

record phat_state =
  phat_init :: bool
  phat_htab :: "u32 addr_htab"
  phat_cell :: "nat \<Rightarrow> u32"

definition phat_state0 :: phat_state where
  "phat_state0 = \<lparr>phat_init = True, phat_htab = (\<lambda>_. []), phat_cell = (\<lambda>_. VT_NO_ID)\<rparr>"

definition phat_get :: "phat_state \<Rightarrow> nat \<Rightarrow> u32" where
  "phat_get p h = (case addr_get (phat_htab p) h of Some r \<Rightarrow> r | None \<Rightarrow> VT_NO_ID)"

definition phat_register_region ::
  "env \<Rightarrow> callees \<Rightarrow> nat \<Rightarrow> string \<Rightarrow> phat_state \<times> vt \<Rightarrow> vt_error + (u32 \<times> phat_state \<times> vt)" where
  "phat_register_region env c str name pv =
     (case pv of (p, v) \<Rightarrow>
        andThen (vt_def_region env c name VT_NO_ID VT_NO_LNO VT_NO_LNO None 2 v)
          (\<lambda>(rid, v). Inr (rid, p\<lparr>phat_htab := addr_put (phat_htab p) str rid\<rparr>, v)))"

definition phat_finalize :: "phat_state \<Rightarrow> phat_state" where
  "phat_finalize p = p\<lparr>phat_htab := (\<lambda>_. []), phat_init := True\<rparr>"

definition phat_enter ::
  "env \<Rightarrow> callees \<Rightarrow> (vt \<Rightarrow> vt_error + vt) \<Rightarrow> nat \<Rightarrow> string \<Rightarrow> nat \<Rightarrow> phat_state \<times> vt \<Rightarrow> vt_error + (phat_state \<times> vt)" where
  "phat_enter env c opn str name cell pv =
     andThen
       (case pv of (p, v) \<Rightarrow>
          if phat_init p then andThen (opn v) (\<lambda>v. Inr (p\<lparr>phat_init := False\<rparr>, v)) else Inr (p, v))
       (\<lambda>(p, v).
          if \<not> vt_is_alive v \<or> strchr name (CHR ''$'') \<noteq> None then Inr (p, v)
          else (let (time, v) = vt_pform_wtime env v
                in andThen
                     (if phat_cell p cell = VT_NO_ID
                      then andThen (phat_register_region env c str name (p, v))
                             (\<lambda>(rid, p, v). Inr (p\<lparr>phat_cell := (phat_cell p)(cell := rid)\<rparr>, v))
                      else Inr (p, v))
                     (\<lambda>(p, v). andThen (vt_enter env c (phat_cell p cell) time v) (\<lambda>(_, _, v). Inr (p, v)))))"

definition phat_exit :: "env \<Rightarrow> callees \<Rightarrow> nat \<Rightarrow> phat_state \<times> vt \<Rightarrow> vt_error + (phat_state \<times> vt)" where
  "phat_exit env c cell pv =
     (case pv of (p, v) \<Rightarrow>
        if \<not> vt_is_alive v \<or> phat_cell p cell = VT_NO_ID then Inr (p, v)
        else (let (time, v) = vt_pform_wtime env v in andThen (vt_exit env c time v) (\<lambda>(_, v). Inr (p, v))))"

section \<open>NEC SX compilers\<close>

record ftrace_state =
  necsx_init :: bool
  ftrace_htab :: "u32 addr_htab"

definition ftrace_state0 :: ftrace_state where
  "ftrace_state0 = \<lparr>necsx_init = True, ftrace_htab = (\<lambda>_. [])\<rparr>"

definition ftrace_get :: "ftrace_state \<Rightarrow> nat \<Rightarrow> u32" where
  "ftrace_get p h = (case addr_get (ftrace_htab p) h of Some r \<Rightarrow> r | None \<Rightarrow> VT_NO_ID)"

text \<open>The name is not terminated: its length is passed, and the name is copied to an array of 1024 bytes.\<close>

definition ftrace_name :: "string \<Rightarrow> int \<Rightarrow> string option" where
  "ftrace_name func len = (if len < 0 \<or> len \<ge> 1024 then None else Some (take (nat len) (cstr func)))"

definition ftrace_register_region ::
  "env \<Rightarrow> callees \<Rightarrow> nat \<Rightarrow> string \<Rightarrow> int \<Rightarrow> ftrace_state \<times> vt \<Rightarrow> vt_error + (u32 \<times> ftrace_state \<times> vt)" where
  "ftrace_register_region env c func s len pv =
     (case pv of (p, v) \<Rightarrow>
        (case ftrace_name s len of
           None \<Rightarrow> Inl OutOfBounds
         | Some fname \<Rightarrow>
             andThen (vt_def_region env c fname VT_NO_ID VT_NO_LNO VT_NO_LNO None 2 v)
               (\<lambda>(rid, v). Inr (rid, p\<lparr>ftrace_htab := addr_put (ftrace_htab p) func rid\<rparr>, v))))"

definition ftrace_finalize :: "ftrace_state \<Rightarrow> ftrace_state" where
  "ftrace_finalize p = p\<lparr>ftrace_htab := (\<lambda>_. []), necsx_init := True\<rparr>"

definition ftrace_enter2 ::
  "env \<Rightarrow> callees \<Rightarrow> (vt \<Rightarrow> vt_error + vt) \<Rightarrow> nat \<Rightarrow> string \<Rightarrow> int \<Rightarrow> ftrace_state \<times> vt \<Rightarrow> vt_error + (ftrace_state \<times> vt)" where
  "ftrace_enter2 env c opn func s len pv =
     andThen
       (case pv of (p, v) \<Rightarrow>
          if necsx_init p then andThen (opn v) (\<lambda>v. Inr (p\<lparr>necsx_init := False\<rparr>, v)) else Inr (p, v))
       (\<lambda>(p, v).
          if \<not> vt_is_alive v \<or> strchr (cstr s) (CHR ''$'') \<noteq> None then Inr (p, v)
          else (let (time, v) = vt_pform_wtime env v
                in andThen
                     (if ftrace_get p func = VT_NO_ID then ftrace_register_region env c func s len (p, v)
                      else Inr (ftrace_get p func, p, v))
                     (\<lambda>(rid, p, v). andThen (vt_enter env c rid time v) (\<lambda>(_, _, v). Inr (p, v)))))"

definition ftrace_exit2 :: "env \<Rightarrow> callees \<Rightarrow> string \<Rightarrow> ftrace_state \<times> vt \<Rightarrow> vt_error + (ftrace_state \<times> vt)" where
  "ftrace_exit2 env c s pv =
     (case pv of (p, v) \<Rightarrow>
        if \<not> vt_is_alive v \<or> strchr (cstr s) (CHR ''$'') \<noteq> None then Inr (p, v)
        else (let (time, v) = vt_pform_wtime env v in andThen (vt_exit env c time v) (\<lambda>(_, v). Inr (p, v))))"

section \<open>The contract\<close>

text \<open>
  A program whose functions have the addresses \<open>k\<close> and the names \<open>F k\<close>. The name of a function is
  at its address, and the cell of a function is known by it too.
\<close>

definition name_reg :: "env \<Rightarrow> callees \<Rightarrow> (nat \<Rightarrow> string) \<Rightarrow> regdef" where
  "name_reg env c F k v = vt_def_region env c (F k) VT_NO_ID VT_NO_LNO VT_NO_LNO None 2 v"

definition known :: "u32 \<Rightarrow> u32 option" where
  "known r = (if r = VT_NO_ID then None else Some r)"

fun phat_step ::
  "env \<Rightarrow> callees \<Rightarrow> (vt \<Rightarrow> vt_error + vt) \<Rightarrow> (nat \<Rightarrow> string) \<Rightarrow> event \<Rightarrow> phat_state \<times> vt \<Rightarrow> vt_error + (phat_state \<times> vt)" where
  "phat_step env c opn F (Entered k) pv = phat_enter env c opn k (F k) k pv"
| "phat_step env c opn F (Left k) pv = phat_exit env c k pv"

fun ftrace_step ::
  "env \<Rightarrow> callees \<Rightarrow> (vt \<Rightarrow> vt_error + vt) \<Rightarrow> (nat \<Rightarrow> string) \<Rightarrow> event \<Rightarrow> ftrace_state \<times> vt \<Rightarrow> vt_error + (ftrace_state \<times> vt)" where
  "ftrace_step env c opn F (Entered k) pv = ftrace_enter2 env c opn k (F k) (int (length (F k))) pv"
| "ftrace_step env c opn F (Left k) pv = ftrace_exit2 env c (F k) pv"

definition phat_ids :: "phat_state \<Rightarrow> nat \<rightharpoonup> u32" where
  "phat_ids p k = known (phat_cell p k)"

definition ftrace_ids :: "ftrace_state \<Rightarrow> nat \<rightharpoonup> u32" where
  "ftrace_ids p k = known (ftrace_get p k)"

definition plain_name :: "string \<Rightarrow> bool" where
  "plain_name n \<longleftrightarrow> NUL \<notin> set n \<and> CHR ''$'' \<notin> set n \<and> length n < 1024"

lemma plain_name: "plain_name n \<Longrightarrow> strchr n (CHR ''$'') = None \<and> cstr n = n \<and> ftrace_name n (int (length n)) = Some n"
  by (simp add: plain_name_def cstr_id ftrace_name_def clib)

lemma known_Some: "known r = Some r' \<longleftrightarrow> r' = r \<and> r \<noteq> VT_NO_ID"
  by (auto simp: known_def)

lemma known_None: "known r = None \<longleftrightarrow> r = VT_NO_ID"
  by (simp add: known_def)

text \<open>The ids that the two adapters look up.\<close>

definition phat_cell_id ::
  "env \<Rightarrow> callees \<Rightarrow> (nat \<Rightarrow> string) \<Rightarrow> nat \<Rightarrow> phat_state \<times> vt \<Rightarrow> vt_error + (u32 \<times> phat_state \<times> vt)" where
  "phat_cell_id env c F k pv =
     (if phat_cell (fst pv) k = VT_NO_ID
      then andThen (phat_register_region env c k (F k) pv)
             (\<lambda>(rid, p, v). Inr (rid, p\<lparr>phat_cell := (phat_cell p)(k := rid)\<rparr>, v))
      else Inr (phat_cell (fst pv) k, pv))"

definition ftrace_name_id ::
  "env \<Rightarrow> callees \<Rightarrow> (nat \<Rightarrow> string) \<Rightarrow> nat \<Rightarrow> ftrace_state \<times> vt \<Rightarrow> vt_error + (u32 \<times> ftrace_state \<times> vt)" where
  "ftrace_name_id env c F k pv =
     (if ftrace_get (fst pv) k = VT_NO_ID then ftrace_register_region env c k (F k) (int (length (F k))) pv
      else Inr (ftrace_get (fst pv) k, pv))"

interpretation phat: lookup_adapter env c "name_reg env c F" phat_ids "\<lambda>p. \<not> phat_init p"
    "\<lambda>k. plain_name (F k)" "phat_step env c opn F" "phat_cell_id env c F"
  for env c F opn
proof (unfold_locales, goal_cases)
  case (1 p ev v)
  then show ?case
    by (cases ev) (auto simp: phat_enter_def phat_exit_def)
next
  case (2 p k v t v1)
  then show ?case
    using plain_name [OF 2(2)]
    by (auto simp: phat_enter_def phat_cell_id_def phat_register_region_def andThen_def Let_def split: sum.splits prod.splits)
next
  case (3 p k v r t v1)
  then show ?case
    by (auto simp: phat_exit_def phat_ids_def known_Some)
next
  case (4 p k r v)
  then show ?case
    by (auto simp: phat_cell_id_def phat_ids_def known_Some)
next
  case (5 p k v r v1)
  then show ?case
    by (auto simp: phat_cell_id_def phat_register_region_def phat_ids_def name_reg_def known_def fun_eq_iff split: if_splits)
qed

interpretation ftrace: lookup_adapter env c "name_reg env c F" ftrace_ids "\<lambda>p. \<not> necsx_init p"
    "\<lambda>k. plain_name (F k)" "ftrace_step env c opn F" "ftrace_name_id env c F"
  for env c F opn
proof (unfold_locales, goal_cases)
  case (1 p ev v)
  then show ?case
    by (cases ev) (auto simp: ftrace_enter2_def ftrace_exit2_def)
next
  case (2 p k v t v1)
  then show ?case
    using plain_name [OF 2(2)] by (auto simp: ftrace_enter2_def ftrace_name_id_def)
next
  case (3 p k v r t v1)
  then show ?case
    using plain_name [OF 3(2)] by (auto simp: ftrace_exit2_def)
next
  case (4 p k r v)
  then show ?case
    by (auto simp: ftrace_name_id_def ftrace_ids_def known_Some)
next
  case (5 p k v r v1)
  then show ?case
    using plain_name [OF 5(2)]
    by (auto simp: ftrace_name_id_def ftrace_register_region_def ftrace_ids_def ftrace_get_def name_reg_def known_def
        fun_eq_iff addr_get_put split: if_splits)
qed

end
