(* ===== verification/CompSource.thy ===== *)
theory CompSource
  imports CompName
begin

text \<open>
  The adapters that know the source of a function: those of IBM (\<open>vtlib/vt_comp_xl.c\<close>), of PGI
  (\<open>vtlib/vt_comp_pgi.c\<close>) and of OpenUH (\<open>vtlib/vt_comp_openuh.c\<close>), and that for programs
  instrumented in memory by Dyninst (\<open>vtlib/vt_dyninst.c\<close>). Attaching Dyninst to a running program
  is not modelled.
\<close>

section \<open>IBM compilers\<close>

record func_node =
  f_vtid :: u32
  f_func :: string
  f_file :: string
  f_lno :: u32

record xl_state =
  xl_init :: bool
  xl_htab :: "func_node addr_htab"

definition xl_state0 :: xl_state where
  "xl_state0 = \<lparr>xl_init = True, xl_htab = (\<lambda>_. [])\<rparr>"

definition xl_get :: "xl_state \<Rightarrow> nat \<Rightarrow> func_node option" where
  "xl_get p h = addr_get (xl_htab p) h"

definition xl_register_region ::
  "env \<Rightarrow> callees \<Rightarrow> nat \<Rightarrow> string \<Rightarrow> string \<Rightarrow> u32 \<Rightarrow> xl_state \<times> vt \<Rightarrow> vt_error + (func_node \<times> xl_state \<times> vt)" where
  "xl_register_region env c h func file lno pv =
     (case pv of (p, v) \<Rightarrow>
        andThen (vt_def_scl_file env c file v)
          (\<lambda>(fid, v). andThen (vt_def_region env c func fid lno VT_NO_LNO None 2 v)
            (\<lambda>(rid, v).
               let n = \<lparr>f_vtid = rid, f_func = func, f_file = file, f_lno = lno\<rparr>
               in Inr (n, p\<lparr>xl_htab := addr_put (xl_htab p) h n\<rparr>, v))))"

definition xl_finalize :: "xl_state \<Rightarrow> xl_state" where
  "xl_finalize p = p\<lparr>xl_htab := (\<lambda>_. []), xl_init := True\<rparr>"

text \<open>\<open>h\<close> is the address of the name.\<close>

definition xl_enter ::
  "env \<Rightarrow> callees \<Rightarrow> (vt \<Rightarrow> vt_error + vt) \<Rightarrow> nat \<Rightarrow> string \<Rightarrow> string \<Rightarrow> u32 \<Rightarrow> xl_state \<times> vt \<Rightarrow>
   vt_error + (xl_state \<times> vt)" where
  "xl_enter env c opn h name fname lno pv =
     andThen
       (case pv of (p, v) \<Rightarrow>
          if xl_init p then andThen (opn v) (\<lambda>v. Inr (p\<lparr>xl_init := False\<rparr>, v)) else Inr (p, v))
       (\<lambda>(p, v).
          if \<not> vt_is_alive v \<or> strchr name (CHR ''@'') \<noteq> None then Inr (p, v)
          else (let (time, v) = vt_pform_wtime env v
                in andThen
                     (case xl_get p h of
                        None \<Rightarrow> xl_register_region env c h name fname lno (p, v)
                      | Some hn \<Rightarrow> Inr (hn, p, v))
                     (\<lambda>(hn, p, v). andThen (vt_enter env c (f_vtid hn) time v) (\<lambda>(_, _, v). Inr (p, v)))))"

definition xl_exit :: "env \<Rightarrow> callees \<Rightarrow> nat \<Rightarrow> string \<Rightarrow> xl_state \<times> vt \<Rightarrow> vt_error + (xl_state \<times> vt)" where
  "xl_exit env c h name pv =
     (case pv of (p, v) \<Rightarrow>
        if \<not> vt_is_alive v \<or> strchr name (CHR ''@'') \<noteq> None then Inr (p, v)
        else (let (time, v) = vt_pform_wtime env v
              in case xl_get p h of
                   None \<Rightarrow> Inr (p, v)
                 | Some _ \<Rightarrow> andThen (vt_exit env c time v) (\<lambda>(_, v). Inr (p, v))))"

section \<open>Dyninst\<close>

record dyn_state =
  dyn_init :: bool
  dyn_htab :: "func_node addr_htab"

definition dyn_state0 :: dyn_state where
  "dyn_state0 = \<lparr>dyn_init = True, dyn_htab = (\<lambda>_. [])\<rparr>"

definition dyn_get :: "dyn_state \<Rightarrow> nat \<Rightarrow> func_node option" where
  "dyn_get p h = addr_get (dyn_htab p) h"

definition dyn_register_region ::
  "env \<Rightarrow> callees \<Rightarrow> nat \<Rightarrow> string \<Rightarrow> string \<Rightarrow> u32 \<Rightarrow> dyn_state \<times> vt \<Rightarrow> vt_error + (func_node \<times> dyn_state \<times> vt)" where
  "dyn_register_region env c addr func file lno pv =
     (case pv of (p, v) \<Rightarrow>
        andThen (vt_def_scl_file env c file v)
          (\<lambda>(fid, v). andThen (vt_def_region env c func fid lno VT_NO_LNO None 2 v)
            (\<lambda>(rid, v).
               let n = \<lparr>f_vtid = rid, f_func = func, f_file = file, f_lno = lno\<rparr>
               in Inr (n, p\<lparr>dyn_htab := addr_put (dyn_htab p) addr n\<rparr>, v))))"

definition VT_Dyn_finalize :: "dyn_state \<Rightarrow> dyn_state" where
  "VT_Dyn_finalize p = p\<lparr>dyn_htab := (\<lambda>_. []), dyn_init := True\<rparr>"

text \<open>Events during the initialisation are ignored; there is no check behind it.\<close>

definition VT_Dyn_start ::
  "env \<Rightarrow> callees \<Rightarrow> (vt \<Rightarrow> vt_error + vt) \<Rightarrow> nat \<Rightarrow> string \<Rightarrow> string \<Rightarrow> u32 \<Rightarrow> dyn_state \<times> vt \<Rightarrow>
   vt_error + (dyn_state \<times> vt)" where
  "VT_Dyn_start env c opn addr name fname lno pv =
     (if \<not> dyn_init (fst pv) \<and> \<not> vt_is_alive (snd pv) then Inr pv
      else andThen
        (case pv of (p, v) \<Rightarrow>
           if dyn_init p then andThen (opn v) (\<lambda>v. Inr (p\<lparr>dyn_init := False\<rparr>, v)) else Inr (p, v))
        (\<lambda>(p, v).
           let (time, v) = vt_pform_wtime env v
           in andThen
                (case dyn_get p addr of
                   None \<Rightarrow> dyn_register_region env c addr name fname lno (p, v)
                 | Some hn \<Rightarrow> Inr (hn, p, v))
                (\<lambda>(hn, p, v). andThen (vt_enter env c (f_vtid hn) time v) (\<lambda>(_, _, v). Inr (p, v)))))"

definition VT_Dyn_end :: "env \<Rightarrow> callees \<Rightarrow> nat \<Rightarrow> dyn_state \<times> vt \<Rightarrow> vt_error + (dyn_state \<times> vt)" where
  "VT_Dyn_end env c addr pv =
     (case pv of (p, v) \<Rightarrow>
        if \<not> vt_is_alive v then Inr (p, v)
        else (let (time, v) = vt_pform_wtime env v
              in case dyn_get p addr of
                   None \<Rightarrow> Inr (p, v)
                 | Some _ \<Rightarrow> andThen (vt_exit env c time v) (\<lambda>(_, v). Inr (p, v))))"

section \<open>PGI compilers\<close>

text \<open>
  The compiler keeps a record for each function, at the address that it passes. The names of files
  that the OpenMP preprocessor has generated lose their \<open>.mod\<close>, in the record itself.
\<close>

record s1 =
  isseen :: bool
  s1_lineno :: u32
  s1_fid :: u32
  s1_rid :: u32
  s1_file :: string
  s1_rout :: string

record pgi_state =
  rou_init :: bool
  rou :: "nat \<Rightarrow> s1"

definition remove_mod :: "string \<Rightarrow> string" where
  "remove_mod f = (case strstr f ''.mod.'' of None \<Rightarrow> f | Some i \<Rightarrow> take i f @ drop (i + 4) f)"

definition rou_register :: "env \<Rightarrow> callees \<Rightarrow> nat \<Rightarrow> pgi_state \<times> vt \<Rightarrow> vt_error + (pgi_state \<times> vt)" where
  "rou_register env c k pv =
     (case pv of (p, v) \<Rightarrow>
        let s = (rou p k)\<lparr>s1_file := remove_mod (s1_file (rou p k))\<rparr>
        in andThen (vt_def_scl_file env c (s1_file s) v)
             (\<lambda>(fid, v). andThen (vt_def_region env c (s1_rout s) fid (s1_lineno s) VT_NO_LNO None 2 v)
               (\<lambda>(rid, v).
                  Inr (p\<lparr>rou := (rou p)(k := s\<lparr>s1_fid := fid, s1_rid := rid, isseen := True\<rparr>)\<rparr>, v))))"

definition rouent2 ::
  "env \<Rightarrow> callees \<Rightarrow> (vt \<Rightarrow> vt_error + vt) \<Rightarrow> nat \<Rightarrow> pgi_state \<times> vt \<Rightarrow> vt_error + (pgi_state \<times> vt)" where
  "rouent2 env c opn k pv =
     andThen
       (case pv of (p, v) \<Rightarrow>
          if rou_init p then andThen (opn v) (\<lambda>v. Inr (p\<lparr>rou_init := False\<rparr>, v)) else Inr (p, v))
       (\<lambda>(p, v).
          if \<not> vt_is_alive v then Inr (p, v)
          else (let (time, v) = vt_pform_wtime env v
                in andThen (if \<not> isseen (rou p k) then rou_register env c k (p, v) else Inr (p, v))
                     (\<lambda>(p, v). andThen (vt_enter env c (s1_rid (rou p k)) time v) (\<lambda>(_, _, v). Inr (p, v)))))"

definition rouret2 :: "env \<Rightarrow> callees \<Rightarrow> pgi_state \<times> vt \<Rightarrow> vt_error + (pgi_state \<times> vt)" where
  "rouret2 env c pv =
     (case pv of (p, v) \<Rightarrow>
        if \<not> vt_is_alive v then Inr (p, v)
        else (let (time, v) = vt_pform_wtime env v in andThen (vt_exit env c time v) (\<lambda>(_, v). Inr (p, v))))"

section \<open>OpenUH compilers\<close>

text \<open>
  The record of a procedure or loop has a pointer to its region id, null at first. The pointers that
  were set are in a list, to be reset at the end.
\<close>

record gen_struct =
  file_name :: "string ptr"
  pu_name :: string
  gid :: int
  linenum :: u32
  endline :: u32
  subtype :: int

record openuh_state =
  openuh_init :: bool
  gen_data :: "nat \<Rightarrow> u32 ptr"
  data_list :: "nat list"

definition openuh_state0 :: openuh_state where
  "openuh_state0 = \<lparr>openuh_init = True, gen_data = (\<lambda>_. None), data_list = []\<rparr>"

text \<open>\<open>basename\<close> of the C library.\<close>

definition basename :: "string \<Rightarrow> string" where
  "basename f =
     (let r = dropWhile (\<lambda>c. c = CHR ''/'') (rev f)
      in if f = [] then ''.'' else if r = [] then ''/'' else rev (takeWhile (\<lambda>c. c \<noteq> CHR ''/'') r))"

definition loop_name :: "gen_struct \<Rightarrow> u32 \<Rightarrow> u32 \<Rightarrow> vt_error + string" where
  "loop_name d begln endln =
     (case (if subtype d = 1 then Some ''do_loop'' else if subtype d = 2 then Some ''while_do''
            else if subtype d = 3 then Some ''do_while'' else None) of
        None \<Rightarrow> Inl Aborted
      | Some stname \<Rightarrow>
          Inr (take 1022
            (case file_name d of
               Some f \<Rightarrow> stname @ '' @'' @ basename f @ '':'' @ dec_int (sint begln) @ ''-'' @ dec_int (sint endln)
             | None \<Rightarrow> stname @ dec_int (gid d))))"

text \<open>A new pointer goes behind the first one of the list.\<close>

definition list_add :: "nat \<Rightarrow> nat list \<Rightarrow> nat list" where
  "list_add k l = (case l of [] \<Rightarrow> [k] | x # xs \<Rightarrow> x # k # xs)"

definition openuh_region :: "env \<Rightarrow> callees \<Rightarrow> gen_struct \<Rightarrow> u8 \<Rightarrow> vt \<Rightarrow> vt_error + (u32 \<times> vt)" where
  "openuh_region env c d rtype v =
     andThen
       (case file_name d of
          None \<Rightarrow> Inr (VT_NO_ID, VT_NO_LNO, VT_NO_LNO, v)
        | Some f \<Rightarrow> andThen (vt_def_scl_file env c f v) (\<lambda>(fid, v). Inr (fid, linenum d, endline d, v)))
       (\<lambda>(fid, begln, endln, v).
          andThen (if rtype = 3 then loop_name d begln endln else Inr (pu_name d))
            (\<lambda>rname. vt_def_region env c rname fid begln endln None rtype v))"

definition openuh_register_region ::
  "env \<Rightarrow> callees \<Rightarrow> nat \<Rightarrow> gen_struct \<Rightarrow> u8 \<Rightarrow> openuh_state \<times> vt \<Rightarrow> vt_error + (u32 \<times> openuh_state \<times> vt)" where
  "openuh_register_region env c k d rtype pv =
     (case pv of (p, v) \<Rightarrow>
        andThen (openuh_region env c d rtype v)
          (\<lambda>(rid, v).
             Inr (rid, p\<lparr>gen_data := (gen_data p)(k := Some rid), data_list := list_add k (data_list p)\<rparr>, v)))"

fun finish_loop :: "nat list \<Rightarrow> (nat \<Rightarrow> u32 ptr) \<Rightarrow> nat \<Rightarrow> u32 ptr" where
  "finish_loop [] m = m"
| "finish_loop (k # l) m = finish_loop l (m(k := None))"

definition profile_finish :: "openuh_state \<Rightarrow> openuh_state" where
  "profile_finish p = p\<lparr>gen_data := finish_loop (data_list p) (gen_data p), data_list := []\<rparr>"

definition profile_init :: "(vt \<Rightarrow> vt_error + vt) \<Rightarrow> openuh_state \<times> vt \<Rightarrow> vt_error + (openuh_state \<times> vt)" where
  "profile_init opn pv =
     (case pv of (p, v) \<Rightarrow>
        if openuh_init p then andThen (opn v) (\<lambda>v. Inr (p\<lparr>openuh_init := False\<rparr>, v)) else Inr (p, v))"

text \<open>The bodies of \<open>__profile_invoke\<close> and \<open>__profile_loop\<close> differ in the type of the region.\<close>

definition profile_enter ::
  "env \<Rightarrow> callees \<Rightarrow> u8 \<Rightarrow> nat \<Rightarrow> gen_struct \<Rightarrow> openuh_state \<times> vt \<Rightarrow> vt_error + (openuh_state \<times> vt)" where
  "profile_enter env c rtype k d pv =
     (case pv of (p, v) \<Rightarrow>
        if \<not> vt_is_alive v then Inr (p, v)
        else (let (time, v) = vt_pform_wtime env v
              in andThen
                   (case gen_data p k of
                      None \<Rightarrow> openuh_register_region env c k d rtype (p, v)
                    | Some r \<Rightarrow> Inr (r, p, v))
                   (\<lambda>(r, p, v). andThen (vt_enter env c r time v) (\<lambda>(_, _, v). Inr (p, v)))))"

definition profile_leave :: "env \<Rightarrow> callees \<Rightarrow> nat \<Rightarrow> openuh_state \<times> vt \<Rightarrow> vt_error + (openuh_state \<times> vt)" where
  "profile_leave env c k pv =
     (case pv of (p, v) \<Rightarrow>
        if \<not> vt_is_alive v then Inr (p, v)
        else (let (time, v) = vt_pform_wtime env v
              in if gen_data p k \<noteq> None then andThen (vt_exit env c time v) (\<lambda>(_, v). Inr (p, v)) else Inr (p, v)))"

definition profile_invoke ::
  "env \<Rightarrow> callees \<Rightarrow> nat \<Rightarrow> gen_struct \<Rightarrow> openuh_state \<times> vt \<Rightarrow> vt_error + (openuh_state \<times> vt)" where
  "profile_invoke env c = profile_enter env c 2"

definition profile_invoke_exit :: "env \<Rightarrow> callees \<Rightarrow> nat \<Rightarrow> openuh_state \<times> vt \<Rightarrow> vt_error + (openuh_state \<times> vt)" where
  "profile_invoke_exit = profile_leave"

definition profile_loop ::
  "env \<Rightarrow> callees \<Rightarrow> nat \<Rightarrow> gen_struct \<Rightarrow> openuh_state \<times> vt \<Rightarrow> vt_error + (openuh_state \<times> vt)" where
  "profile_loop env c = profile_enter env c 3"

definition profile_loop_exit :: "env \<Rightarrow> callees \<Rightarrow> nat \<Rightarrow> openuh_state \<times> vt \<Rightarrow> vt_error + (openuh_state \<times> vt)" where
  "profile_loop_exit = profile_leave"

end
