(* ===== verification/CompProps.thy ===== *)
theory CompProps
  imports CompNm CompSource RegionTrace
begin

text \<open>
  The adapters compared: all of them implement the machine of \<open>CompAdapter\<close>, so the same program
  gives the same trace with each of them, up to what their compilers tell them about functions; and
  what is left of their ids when they have been finalised, as they are in a child process.
\<close>

section \<open>The adapters that know the source\<close>

text \<open>A function has a name, a file and a line.\<close>

type_synonym fun_info = "nat \<Rightarrow> string \<times> string \<times> u32"

definition src_reg :: "env \<Rightarrow> callees \<Rightarrow> fun_info \<Rightarrow> regdef" where
  "src_reg env c F k v =
     (case F k of (name, file, lno) \<Rightarrow>
        andThen (vt_def_scl_file env c file v) (\<lambda>(fid, v). vt_def_region env c name fid lno VT_NO_LNO None 2 v))"

fun xl_step ::
  "env \<Rightarrow> callees \<Rightarrow> (vt \<Rightarrow> vt_error + vt) \<Rightarrow> fun_info \<Rightarrow> event \<Rightarrow> xl_state \<times> vt \<Rightarrow> vt_error + (xl_state \<times> vt)" where
  "xl_step env c opn F (Entered k) pv = (case F k of (name, file, lno) \<Rightarrow> xl_enter env c opn k name file lno pv)"
| "xl_step env c opn F (Left k) pv = (case F k of (name, file, lno) \<Rightarrow> xl_exit env c k name pv)"

fun dyn_step ::
  "env \<Rightarrow> callees \<Rightarrow> (vt \<Rightarrow> vt_error + vt) \<Rightarrow> fun_info \<Rightarrow> event \<Rightarrow> dyn_state \<times> vt \<Rightarrow> vt_error + (dyn_state \<times> vt)" where
  "dyn_step env c opn F (Entered k) pv = (case F k of (name, file, lno) \<Rightarrow> VT_Dyn_start env c opn k name file lno pv)"
| "dyn_step env c opn F (Left k) pv = VT_Dyn_end env c k pv"

fun pgi_step ::
  "env \<Rightarrow> callees \<Rightarrow> (vt \<Rightarrow> vt_error + vt) \<Rightarrow> event \<Rightarrow> pgi_state \<times> vt \<Rightarrow> vt_error + (pgi_state \<times> vt)" where
  "pgi_step env c opn (Entered k) pv = rouent2 env c opn k pv"
| "pgi_step env c opn (Left k) pv = rouret2 env c pv"

text \<open>\<open>L\<close> are the loops among the regions of an OpenUH program.\<close>

fun openuh_step ::
  "env \<Rightarrow> callees \<Rightarrow> (nat \<Rightarrow> gen_struct) \<Rightarrow> nat set \<Rightarrow> event \<Rightarrow> openuh_state \<times> vt \<Rightarrow> vt_error + (openuh_state \<times> vt)" where
  "openuh_step env c G L (Entered k) pv =
     (if k \<in> L then profile_loop env c k (G k) pv else profile_invoke env c k (G k) pv)"
| "openuh_step env c G L (Left k) pv =
     (if k \<in> L then profile_loop_exit env c k pv else profile_invoke_exit env c k pv)"

definition pgi_ids :: "pgi_state \<Rightarrow> nat \<rightharpoonup> u32" where
  "pgi_ids p k = (if isseen (rou p k) then Some (s1_rid (rou p k)) else None)"

definition pgi_ready :: "fun_info \<Rightarrow> pgi_state \<Rightarrow> bool" where
  "pgi_ready F p \<longleftrightarrow> \<not> rou_init p \<and>
     (\<forall>k. \<not> isseen (rou p k) \<longrightarrow> F k = (s1_rout (rou p k), remove_mod (s1_file (rou p k)), s1_lineno (rou p k)))"

definition xl_id :: "env \<Rightarrow> callees \<Rightarrow> fun_info \<Rightarrow> nat \<Rightarrow> xl_state \<times> vt \<Rightarrow> vt_error + (u32 \<times> xl_state \<times> vt)" where
  "xl_id env c F k pv =
     (case xl_get (fst pv) k of
        None \<Rightarrow> (case F k of (name, file, lno) \<Rightarrow>
                  andThen (xl_register_region env c k name file lno pv) (\<lambda>(hn, p, v). Inr (f_vtid hn, p, v)))
      | Some hn \<Rightarrow> Inr (f_vtid hn, pv))"

definition dyn_id :: "env \<Rightarrow> callees \<Rightarrow> fun_info \<Rightarrow> nat \<Rightarrow> dyn_state \<times> vt \<Rightarrow> vt_error + (u32 \<times> dyn_state \<times> vt)" where
  "dyn_id env c F k pv =
     (case dyn_get (fst pv) k of
        None \<Rightarrow> (case F k of (name, file, lno) \<Rightarrow>
                  andThen (dyn_register_region env c k name file lno pv) (\<lambda>(hn, p, v). Inr (f_vtid hn, p, v)))
      | Some hn \<Rightarrow> Inr (f_vtid hn, pv))"

definition pgi_id :: "env \<Rightarrow> callees \<Rightarrow> nat \<Rightarrow> pgi_state \<times> vt \<Rightarrow> vt_error + (u32 \<times> pgi_state \<times> vt)" where
  "pgi_id env c k pv =
     andThen (if \<not> isseen (rou (fst pv) k) then rou_register env c k pv else Inr pv)
       (\<lambda>(p, v). Inr (s1_rid (rou p k), p, v))"

abbreviation region_type :: "nat set \<Rightarrow> nat \<Rightarrow> u8" where
  "region_type L k \<equiv> (if k \<in> L then 3 else 2)"

definition openuh_id ::
  "env \<Rightarrow> callees \<Rightarrow> (nat \<Rightarrow> gen_struct) \<Rightarrow> nat set \<Rightarrow> nat \<Rightarrow> openuh_state \<times> vt \<Rightarrow> vt_error + (u32 \<times> openuh_state \<times> vt)" where
  "openuh_id env c G L k pv =
     (case gen_data (fst pv) k of
        None \<Rightarrow> openuh_register_region env c k (G k) (region_type L k) pv
      | Some r \<Rightarrow> Inr (r, pv))"

lemma andThen_andThen: "andThen (andThen x f) g = andThen x (\<lambda>y. andThen (f y) g)"
  by (cases x) simp_all

interpretation xl: lookup_adapter env c "src_reg env c F" "\<lambda>p k. map_option f_vtid (xl_get p k)" "\<lambda>p. \<not> xl_init p"
    "\<lambda>k. CHR ''@'' \<notin> set (fst (F k))" "xl_step env c opn F" "xl_id env c F"
  for env c F opn
proof (unfold_locales, goal_cases)
  case (1 p ev v)
  then show ?case
    by (cases ev) (auto simp: xl_enter_def xl_exit_def split: prod.split)
next
  case (2 p k v t v1)
  then show ?case
    by (cases "F k") (auto simp: xl_enter_def xl_id_def andThen_andThen clib case_prod_unfold split: option.split)
next
  case (3 p k v r t v1)
  then show ?case
    by (cases "F k") (auto simp: xl_exit_def clib)
next
  case (4 p k r v)
  then show ?case
    by (auto simp: xl_id_def)
next
  case (5 p k v r v1)
  then show ?case
    by (cases "F k") (auto simp: xl_id_def xl_register_region_def src_reg_def xl_get_def fun_eq_iff addr_get_put andThen_Inr Let_def)
qed

interpretation dyn: lookup_adapter env c "src_reg env c F" "\<lambda>p k. map_option f_vtid (dyn_get p k)" "\<lambda>p. \<not> dyn_init p"
    "\<lambda>_. True" "dyn_step env c opn F" "dyn_id env c F"
  for env c F opn
proof (unfold_locales, goal_cases)
  case (1 p ev v)
  then show ?case
    by (cases ev) (auto simp: VT_Dyn_start_def VT_Dyn_end_def split: prod.split)
next
  case (2 p k v t v1)
  then show ?case
    by (cases "F k") (auto simp: VT_Dyn_start_def dyn_id_def andThen_andThen case_prod_unfold split: option.split)
next
  case (3 p k v r t v1)
  then show ?case
    by (auto simp: VT_Dyn_end_def)
next
  case (4 p k r v)
  then show ?case
    by (auto simp: dyn_id_def)
next
  case (5 p k v r v1)
  then show ?case
    by (cases "F k") (auto simp: dyn_id_def dyn_register_region_def src_reg_def dyn_get_def fun_eq_iff addr_get_put andThen_Inr Let_def)
qed

interpretation pgi: lookup_adapter env c "src_reg env c F" pgi_ids "pgi_ready F" "\<lambda>_. True" "pgi_step env c opn" "pgi_id env c"
  for env c F opn
proof (unfold_locales, goal_cases)
  case (1 p ev v)
  then show ?case
    by (cases ev) (auto simp: rouent2_def rouret2_def pgi_ready_def)
next
  case (2 p k v t v1)
  then show ?case
    by (auto simp: rouent2_def pgi_id_def pgi_ready_def andThen_andThen case_prod_unfold)
next
  case (3 p k v r t v1)
  then show ?case
    by (auto simp: rouret2_def)
next
  case (4 p k r v)
  then show ?case
    by (auto simp: pgi_id_def pgi_ids_def split: if_splits)
next
  case (5 p k v r v1)
  then have "\<not> isseen (rou p k)" "F k = (s1_rout (rou p k), remove_mod (s1_file (rou p k)), s1_lineno (rou p k))"
    by (auto simp: pgi_ids_def pgi_ready_def split: if_splits)
  with 5 show ?case
    by (auto simp: pgi_id_def rou_register_def src_reg_def pgi_ids_def pgi_ready_def fun_eq_iff andThen_Inr Let_def)
qed

interpretation openuh: lookup_adapter env c "\<lambda>k. openuh_region env c (G k) (region_type L k)" gen_data "\<lambda>_. True"
    "\<lambda>_. True" "openuh_step env c G L" "openuh_id env c G L"
  for env c G L
proof (unfold_locales, goal_cases)
  case (1 p ev v)
  then show ?case
    by (cases ev) (auto simp: profile_loop_def profile_invoke_def profile_loop_exit_def profile_invoke_exit_def
        profile_enter_def profile_leave_def)
next
  case (2 p k v t v1)
  then show ?case
    by (auto simp: profile_loop_def profile_invoke_def profile_enter_def openuh_id_def)
next
  case (3 p k v r t v1)
  then show ?case
    by (auto simp: profile_loop_exit_def profile_invoke_exit_def profile_leave_def)
next
  case (4 p k r v)
  then show ?case
    by (auto simp: openuh_id_def)
next
  case (5 p k v r v1)
  then show ?case
    by (auto simp: openuh_id_def openuh_register_region_def)
qed

section \<open>Programs\<close>

text \<open>
  The first function that is entered opens VampirTrace; \<open>opn\<close> is a function that does. For OpenUH
  the compiler calls the initialisation.
\<close>

lemma started:
  assumes "opn v0 = Inr v1" and "vt_is_alive v1"
  shows "run_events (xl_step env c opn F) (Entered k # evs) (xl_state0, v0) =
      run_events (xl_step env c opn F) (Entered k # evs) (xl_state0\<lparr>xl_init := False\<rparr>, v1)"
    and "run_events (dyn_step env c opn F) (Entered k # evs) (dyn_state0, v0) =
      run_events (dyn_step env c opn F) (Entered k # evs) (dyn_state0\<lparr>dyn_init := False\<rparr>, v1)"
    and "run_events (pgi_step env c opn) (Entered k # evs) (\<lparr>rou_init = True, rou = S\<rparr>, v0) =
      run_events (pgi_step env c opn) (Entered k # evs) (\<lparr>rou_init = False, rou = S\<rparr>, v1)"
    and "run_events (phat_step env c opn N) (Entered k # evs) (phat_state0, v0) =
      run_events (phat_step env c opn N) (Entered k # evs) (phat_state0\<lparr>phat_init := False\<rparr>, v1)"
    and "run_events (ftrace_step env c opn N) (Entered k # evs) (ftrace_state0, v0) =
      run_events (ftrace_step env c opn N) (Entered k # evs) (ftrace_state0\<lparr>necsx_init := False\<rparr>, v1)"
  using assms
  by (simp_all add: xl_enter_def xl_state0_def VT_Dyn_start_def dyn_state0_def rouent2_def phat_enter_def phat_state0_def
      ftrace_enter2_def ftrace_state0_def split: prod.split)

lemma gnu_started:
  "opn v0 = Inr v1 \<Longrightarrow> get_symtab w (gnu_state0\<lparr>gnu_init := False\<rparr>) = Inr g \<Longrightarrow> \<not> gnu_init g \<Longrightarrow>
   run_events (gnu_step env c opn w) (Entered k # evs) (gnu_state0, v0) =
   run_events (gnu_step env c opn w) (Entered k # evs) (g, v1)"
  by (simp add: cyg_profile_func_enter_def gnu_state0_def)

lemma openuh_started: "opn v0 = Inr v1 \<Longrightarrow>
   profile_init opn (openuh_state0, v0) = Inr (openuh_state0\<lparr>openuh_init := False\<rparr>, v1)"
  by (simp add: profile_init_def openuh_state0_def)

text \<open>What a fresh table gives: no ids.\<close>

lemma no_ids:
  "(\<lambda>k. map_option f_vtid (xl_get (xl_state0\<lparr>xl_init := False\<rparr>) k)) = Map.empty"
  "(\<lambda>k. map_option f_vtid (dyn_get (dyn_state0\<lparr>dyn_init := False\<rparr>) k)) = Map.empty"
  "phat_ids (phat_state0\<lparr>phat_init := False\<rparr>) = Map.empty"
  "ftrace_ids (ftrace_state0\<lparr>necsx_init := False\<rparr>) = Map.empty"
  "gen_data (openuh_state0\<lparr>openuh_init := False\<rparr>) = Map.empty"
  by (auto simp: fun_eq_iff xl_get_def xl_state0_def dyn_get_def dyn_state0_def phat_ids_def phat_state0_def ftrace_ids_def
      ftrace_state0_def ftrace_get_def known_def openuh_state0_def addr_get_def)

text \<open>Reading symbols registers no region.\<close>

definition gnu_fresh :: "gnu_state \<Rightarrow> bool" where
  "gnu_fresh g \<longleftrightarrow> \<not> gnu_init g \<and> gnu_ids g = Map.empty"

lemma put_symbol_fresh: "gnu_fresh g \<Longrightarrow> gnu_fresh (put_symbol y g)"
  by (auto simp: gnu_fresh_def put_symbol_def gnu_put_def gnu_ids_def gnu_get_def addr_get_put fun_eq_iff split: option.splits)

lemma nm_lines_fresh: "nm_lines w k t g = Inr (e, g') \<Longrightarrow> gnu_fresh g \<Longrightarrow> gnu_fresh g'"
proof (induction w k t g arbitrary: e g' rule: nm_lines.induct)
  case (1 w k t g)
  obtain l r where f: "fgets (line_size k - 1) t = (l, r)"
    by fastforce
  show ?case
  proof (cases "t = [] \<or> cstr l = []")
    case True
    then show ?thesis
      using 1(2,3) f by (cases "t = []") (auto simp: nm_lines.simps [of w k t] nm_lines.simps [of w k "[]"])
  next
    case False
    show ?thesis
    proof (cases "complete_line (cstr l) k r")
      case None
      then show ?thesis
        using 1(2,3) f False by (simp add: nm_lines.simps [of w k t])
    next
      case (Some a)
      then obtain line k2 r2 where line: "complete_line (cstr l) k r = Some (line, k2, r2)"
        by (cases a) auto
      let ?line = "(if last line = CHR 0x0A then butlast line else line) @ [NUL]"
      from 1(2) f False line obtain res where res: "nm_line w ?line = Inr res"
        and run: "(case res of None \<Rightarrow> Inr (True, g)
           | Some (nc, y) \<Rightarrow> if nc < 3 then Inr (True, g) else nm_lines w k2 r2 (put_symbol y g)) = Inr (e, g')"
        by (auto simp only: nm_lines.simps [of w k t] andThen_Inr Let_def if_False prod.case option.case de_Morgan_disj)
      show ?thesis
      proof (cases "res = None \<or> fst (the res) < 3")
        case True
        then show ?thesis
          using run 1(3) by (cases res) auto
      next
        case more: False
        then obtain nc y where "res = Some (nc, y)" "\<not> nc < 3"
          by (cases res) auto
        then show ?thesis
          using 1(1) [of "(l, r)" l r "(line, k2, r2)" line "(k2, r2)" k2 r2 "Some (nc, y)" "(nc, y)" nc y e g']
            run res f False line 1(3) by (simp add: put_symbol_fresh)
      qed
    qed
  qed
qed

lemma get_symtab_fresh:
  assumes "get_symtab w (gnu_state0\<lparr>gnu_init := False\<rparr>) = Inr g"
  shows "gnu_fresh g"
proof -
  have "gnu_fresh (gnu_state0\<lparr>gnu_init := False\<rparr>)"
    by (simp add: gnu_fresh_def gnu_state0_def gnu_ids_def gnu_get_def addr_get_def fun_eq_iff)
  with assms nm_lines_fresh show ?thesis
    by (auto simp: get_symtab_def andThen_Inr split: option.splits if_splits prod.splits)
qed

text \<open>The machine asks for the regions of the functions that are entered, and of no others.\<close>

lemma learn_cong: "reg k = reg' k \<Longrightarrow> learn reg k = learn reg' k"
  by (auto simp: learn_def fun_eq_iff split: option.split)

lemma spec_run_cong:
  "(\<And>ev. ev \<in> set evs \<Longrightarrow> reg (fun_of ev) = reg' (fun_of ev)) \<Longrightarrow>
   run_events (spec_step env c reg) evs s = run_events (spec_step env c reg') evs s"
proof (induction evs arbitrary: s)
  case (Cons ev evs)
  obtain m v where "s = (m, v)"
    by (cases s)
  then have "spec_step env c reg ev s = spec_step env c reg' ev s"
    using Cons.prems [of ev] learn_cong [of reg _ reg'] by (cases ev) auto
  moreover have "run_events (spec_step env c reg) evs = run_events (spec_step env c reg') evs"
    using Cons by (intro ext) auto
  ultimately show ?case
    by simp
qed simp

text \<open>The last line of a function does not get into its definition.\<close>

lemma vt_def_region_endln: "vt_def_region env c n fid b e = vt_def_region env c n fid b e'"
  by (simp add: vt_def_region_def vt_def_scl_def fun_eq_iff)

lemma openuh_src_reg:
  "file_name d = Some file \<Longrightarrow> F k = (pu_name d, file, linenum d) \<Longrightarrow> openuh_region env c d 2 v = src_reg env c F k v"
  using vt_def_region_endln [of env c "pu_name d" _ "linenum d" "endline d" VT_NO_LNO]
  by (cases "vt_def_scl_file env c file v") (auto simp: openuh_region_def src_reg_def)

lemma gnu_src_reg:
  "gnu_facts g k = Some (name, Some file, lno) \<Longrightarrow> F k = (name, file, lno) \<Longrightarrow>
   gnu_reg env c (gnu_facts g) k v = src_reg env c F k v"
  by (cases "vt_def_scl_file env c file v") (auto simp: gnu_reg_def gnu_region_def src_reg_def)

text \<open>
  C25: The adapters for the IBM, PGI, OpenUH and GNU compilers and for Dyninst record the same trace:
  for a program that enters and leaves functions, each of them, started by the first function that
  is entered, leaves the tracing core in the state in which the abstract machine leaves it, which
  defines a region when its function is entered the first time, with its name, file and line, and
  records all enters and exits. What they are told differs: the GNU adapter reads the functions from
  the symbol table, PGI's file names contain what the OpenMP preprocessor has added, OpenUH gives
  last lines too.
\<close>

theorem adapters_same_trace:
  assumes "opn v0 = Inr v1" and "vt_is_alive v1"
    and "run_events (spec_step env c (src_reg env c F)) (Entered k # evs) (Map.empty, v1) = Inr (m, v')"
    and "\<forall>ev \<in> set (Entered k # evs). CHR ''@'' \<notin> set (fst (F (fun_of ev)))"
    and "\<forall>f. \<not> isseen (S f) \<and> F f = (s1_rout (S f), remove_mod (s1_file (S f)), s1_lineno (S f))"
    and "\<forall>f. file_name (G f) = Some (fst (snd (F f))) \<and> pu_name (G f) = fst (F f) \<and> linenum (G f) = snd (snd (F f))"
    and "get_symtab w (gnu_state0\<lparr>gnu_init := False\<rparr>) = Inr g"
    and "\<forall>ev \<in> set (Entered k # evs). gnu_facts g (fun_of ev) =
          Some (fst (F (fun_of ev)), Some (fst (snd (F (fun_of ev)))), snd (snd (F (fun_of ev))))"
  shows "(\<exists>p. run_events (xl_step env c opn F) (Entered k # evs) (xl_state0, v0) = Inr (p, v'))
    \<and> (\<exists>p. run_events (dyn_step env c opn F) (Entered k # evs) (dyn_state0, v0) = Inr (p, v'))
    \<and> (\<exists>p. run_events (pgi_step env c opn) (Entered k # evs) (\<lparr>rou_init = True, rou = S\<rparr>, v0) = Inr (p, v'))
    \<and> (\<exists>p. andThen (profile_init opn (openuh_state0, v0)) (run_events (openuh_step env c G {}) (Entered k # evs)) = Inr (p, v'))
    \<and> (\<exists>p. run_events (gnu_step env c opn w) (Entered k # evs) (gnu_state0, v0) = Inr (p, v'))"
proof (intro conjI)
  let ?evs = "Entered k # evs"
  note start = started [of opn v0 v1, OF assms(1,2)]
  show "\<exists>p. run_events (xl_step env c opn F) ?evs (xl_state0, v0) = Inr (p, v')"
    using xl.run_refines [of "xl_state0\<lparr>xl_init := False\<rparr>" ?evs F env c v1 m v' opn] assms(3,4) start(1)
    by (auto simp: no_ids)
  show "\<exists>p. run_events (dyn_step env c opn F) ?evs (dyn_state0, v0) = Inr (p, v')"
    using dyn.run_refines [of "dyn_state0\<lparr>dyn_init := False\<rparr>" ?evs env c F v1 m v' opn] assms(3) start(2)
    by (auto simp: no_ids)
  have "pgi_ready F \<lparr>rou_init = False, rou = S\<rparr>" "pgi_ids \<lparr>rou_init = False, rou = S\<rparr> = Map.empty"
    using assms(5) by (auto simp: pgi_ready_def pgi_ids_def fun_eq_iff)
  then show "\<exists>p. run_events (pgi_step env c opn) ?evs (\<lparr>rou_init = True, rou = S\<rparr>, v0) = Inr (p, v')"
    using pgi.run_refines [of F "\<lparr>rou_init = False, rou = S\<rparr>" ?evs env c v1 m v' opn] assms(3) start(3)
    by auto
  have "run_events (spec_step env c (\<lambda>f. openuh_region env c (G f) (region_type {} f))) ?evs
      (gen_data (openuh_state0\<lparr>openuh_init := False\<rparr>), v1) = Inr (m, v')"
    using assms(3) by (subst spec_run_cong [of _ _ "src_reg env c F"])
      (use assms(6) openuh_src_reg [of "G _" _ F] in \<open>auto simp: fun_eq_iff no_ids\<close>)
  from openuh.run_refines [OF TrueI _ this] obtain p where
    "run_events (openuh_step env c G {}) ?evs (openuh_state0\<lparr>openuh_init := False\<rparr>, v1) = Inr (p, v')"
    by blast
  then show "\<exists>p. andThen (profile_init opn (openuh_state0, v0)) (run_events (openuh_step env c G {}) ?evs) = Inr (p, v')"
    using openuh_started [of opn v0 v1, OF assms(1)] by (simp only: andThen_simps) blast
  have "gnu_reg env c (gnu_facts g) (fun_of ev) = src_reg env c F (fun_of ev)" if "ev \<in> set ?evs" for ev
    using gnu_src_reg [OF bspec [OF assms(8) that], of F env c] by (simp add: fun_eq_iff)
  then have "run_events (spec_step env c (gnu_reg env c (gnu_facts g))) ?evs (Map.empty, v1) = Inr (m, v')"
    by (rule trans [OF spec_run_cong assms(3)])
  moreover have "gnu_fresh g"
    by (rule get_symtab_fresh) fact
  ultimately show "\<exists>p. run_events (gnu_step env c opn w) ?evs (gnu_state0, v0) = Inr (p, v')"
    using gnu.run_refines [of "gnu_facts g" g ?evs env c v1 m v' opn w] assms(8) gnu_started [of opn v0 v1, OF assms(1,7)]
    by (auto simp: gnu_fresh_def gnu_ready_def)
qed

text \<open>The same for the two that know the names only.\<close>

lemma name_adapters_same_trace:
  assumes "opn v0 = Inr v1" and "vt_is_alive v1"
    and "run_events (spec_step env c (name_reg env c N)) (Entered k # evs) (Map.empty, v1) = Inr (m, v')"
    and "\<forall>ev \<in> set (Entered k # evs). plain_name (N (fun_of ev))"
  shows "(\<exists>p. run_events (phat_step env c opn N) (Entered k # evs) (phat_state0, v0) = Inr (p, v'))
    \<and> (\<exists>p. run_events (ftrace_step env c opn N) (Entered k # evs) (ftrace_state0, v0) = Inr (p, v'))"
  using phat.run_refines [of "phat_state0\<lparr>phat_init := False\<rparr>" "Entered k # evs" N env c v1 m v' opn]
    ftrace.run_refines [of "ftrace_state0\<lparr>necsx_init := False\<rparr>" "Entered k # evs" N env c v1 m v' opn]
    started(4,5) [of opn v0 v1, OF assms(1,2)] assms(3,4)
  by (auto simp: no_ids)

definition demo_fun :: fun_info where
  "demo_fun k = (''main'', ''a.c'', 7)"

lemma demo_add: "RFG_Regions_add f RFG_Regions_init (Some n) rid =
  (Some \<lparr>regionId = rid, groupName = None, regionName = n, callLimit = -1, callLimitCD = -1\<rparr>,
   Some ((the RFG_Regions_init)\<lparr>htab := hash_put (\<lambda>_. []) rid None n (-1)\<rparr>))"
  by (simp add: RFG_Regions_init_def RFG_Filter_init_def RFG_Groups_init_def hash_get_put Let_def hash_get_def [of "\<lambda>_. []"])

lemma demo_depth: "max_stack_depth demo_env = 100"
  by (simp add: demo_env_def)

lemma demo_run: "\<exists>m v'. run_events (spec_step demo_env c (src_reg demo_env c demo_fun)) [Entered 4198400, Left 4198400]
    (Map.empty, demo_gen 4096) = Inr (m, v')"
  by (simp add: vt_pform_wtime_def learn_def src_reg_def demo_fun_def vt_def_scl_file_def name_get_def demo_gen_def
      demo_vt_def vt_get_curid_def VTGen_write_DEF_SCL_FILE_def write_def_def alloc_def_def buf_full_def entry_length_def
      write_entry_def put_entry_def align_length_def Let_def vt_def_region_def vt_def_scl_def VTGen_write_DEF_SCL_def demo_add
      region_group_def default_group_def vt_def_region_group_def VTGen_write_DEF_FUNCTION_GROUP_def VTGen_write_DEF_FUNCTION_def)
    (simp add: RFG_Regions_init_def vt_enter_def RFG_Groups_init_def hash_get_put Let_def VTGen_write_ENTER_def trace_event_def
      write_event_def alloc_event_def write_entry_def put_entry_def buf_full_def entry_length_def with_sum_def sum_prop_on_def
      trace_on_def sum_on_def vt_exit_def VTGen_write_LEAVE_def RFG_Regions_stackPush_def RFG_Regions_get_def
      RFG_Regions_stackPop_def stack_init_def demo_depth vt_pform_wtime_def align_length_def)

theorem adapters_same_trace_witness:
  "\<exists>v'. (\<exists>p. run_events (xl_step demo_env (callees_at demo_env 0) (\<lambda>_. Inr (demo_gen 4096)) demo_fun)
        [Entered 4198400, Left 4198400] (xl_state0, demo_vt) = Inr (p, v'))
    \<and> (\<exists>p. run_events (gnu_step demo_env (callees_at demo_env 0) (\<lambda>_. Inr (demo_gen 4096)) demo_nm)
        [Entered 4198400, Left 4198400] (gnu_state0, demo_vt) = Inr (p, v'))"
proof -
  obtain g where g: "get_symtab demo_nm (gnu_state0\<lparr>gnu_init := False\<rparr>) = Inr g"
      "gnu_get g 4198400 = map_of (rev (concat (map (entry_nodes demo_nm) demo_symbols))) 4198400"
    using get_symtab_entries [OF demo_nm_file, of "gnu_state0\<lparr>gnu_init := False\<rparr>"] by (auto simp: gnu_state0_def)
  then have facts: "gnu_facts g 4198400 = Some (''main'', Some ''a.c'', 7)"
    by (simp add: gnu_facts_def demo_nm_def chop_name_def)
  obtain m v' where run: "run_events (spec_step demo_env (callees_at demo_env 0) (src_reg demo_env (callees_at demo_env 0) demo_fun))
      [Entered 4198400, Left 4198400] (Map.empty, demo_gen 4096) = Inr (m, v')"
    using demo_run by blast
  have alive: "vt_is_alive (demo_gen 4096)"
    by (simp add: demo_gen_def demo_vt_def)
  let ?S = "\<lambda>_. \<lparr>isseen = False, s1_lineno = 7, s1_fid = 0, s1_rid = 0, s1_file = ''a.mod.c'', s1_rout = ''main''\<rparr>"
  let ?G = "\<lambda>_. \<lparr>file_name = Some ''a.c'', pu_name = ''main'', gid = 1, linenum = 7, endline = 9, subtype = 0\<rparr>"
  show ?thesis
    using adapters_same_trace [where opn = "\<lambda>_. Inr (demo_gen 4096)" and ?v0.0 = demo_vt and S = ?S and G = ?G, OF refl alive run _ _ _ g(1)]
      facts by (auto simp: demo_fun_def remove_mod_def)
qed

text \<open>
  What is left when an adapter has been finalised, as it is in a child process, where VampirTrace
  starts again: the GNU adapter has its table, without ids; those that keep ids in tables have none;
  the cells of the Sun compiler and the records of PGI's keep theirs.
\<close>

lemma gnu_get_finalize: "gnu_get (gnu_finalize g) k = map_option (\<lambda>n. n\<lparr>g_vtid := VT_NO_ID\<rparr>) (gnu_get g k)"
  by (simp add: gnu_get_def gnu_finalize_def addr_get_map)

lemma finalized_ids:
  "gnu_ids (gnu_finalize g) = Map.empty" "gnu_facts (gnu_finalize g) = gnu_facts g"
  "ftrace_ids (ftrace_finalize f) = Map.empty" "xl_get (xl_finalize x) = Map.empty"
  "dyn_get (VT_Dyn_finalize d) = Map.empty" "phat_ids (phat_finalize p) = phat_ids p"
  by (auto simp: fun_eq_iff gnu_ids_def gnu_facts_def gnu_get_finalize option.map_comp comp_def
      ftrace_ids_def ftrace_get_def ftrace_finalize_def known_def xl_get_def xl_finalize_def dyn_get_def VT_Dyn_finalize_def
      addr_get_def phat_ids_def phat_finalize_def split: option.splits)

text \<open>
  C28: In a child process the adapter for the Sun compilers ends the program: its finalisation resets
  the table of ids, which nothing reads, but the id of each function that the parent has entered is
  still in the cell of the function. The adapter takes it for a region of the child's trace, in which
  it is not defined.
\<close>

theorem phat_child_aborts:
  assumes "phat_cell p cell \<noteq> VT_NO_ID" and "strchr name (CHR ''$'') = None"
    and "opn v = Inr v1" and "vt_is_alive v1" and "trace_status v1 \<noteq> VT_TRACE_OFF_PERMANENT"
    and "RFG_Regions_get (rfg_regions v1) (phat_cell p cell) = None" and "rfg_regions v1 \<noteq> None"
  shows "phat_enter env c opn str name cell (phat_finalize p, v) = Inl Aborted"
  using assms
  by (auto simp: phat_enter_def phat_finalize_def vt_pform_wtime_def vt_enter_def RFG_Regions_stackPush_def Let_def)

theorem phat_child_aborts_witness:
  "phat_enter demo_env (callees_at demo_env 0) (\<lambda>_. Inr (demo_gen 4096)) 5 ''main'' 5
     (phat_finalize (phat_state0\<lparr>phat_cell := (\<lambda>_. 3)\<rparr>), demo_vt) = Inl Aborted"
  using phat_child_aborts [of "phat_state0\<lparr>phat_cell := (\<lambda>_. 3)\<rparr>" 5 "''main''" "\<lambda>_. Inr (demo_gen 4096)" demo_vt "demo_gen 4096"
      demo_env "callees_at demo_env 0" 5]
  by (simp add: strchr_None demo_gen_def demo_vt_def RFG_Regions_get_def RFG_Regions_init_def hash_get_def)

end
