(* ===== verification/IoWrap.thy ===== *)
theory IoWrap
  imports MpiIo
begin

unbundle bit_operations_syntax

text \<open>
  The wrappers of the I/O functions of the C library (\<open>vtlib/vt_iowrap.c\<close>, \<open>vt_iowrap.h\<close>) and the
  table of file descriptors (\<open>vtlib/vt_iowrap_helper.c\<close>).

  The C library is a parameter with a state \<open>'p\<close>: \<open>libc\<close> gives what a function returns, by name and
  arguments, \<open>fileno\<close> the descriptor of a stream and \<open>strlen_at\<close> the length of the string at an
  address, if there is one. Pointers are numbers and 0 is the null pointer; a path is a string. The
  number that a function without a result returns here has no meaning. The program has one thread;
  \<open>fprintf\<close> is the wrapper without \<open>__fprintf_chk\<close>. Whether a function is wrapped that not every
  system has is a parameter (\<open>configured\<close>). Messages for debugging are left out.
\<close>

section \<open>Data\<close>

datatype func_id =
    open_IDX | open64_IDX | creat_IDX | creat64_IDX | close_IDX | dup_IDX | dup2_IDX | lseek_IDX
  | lseek64_IDX | read_IDX | write_IDX | readv_IDX | writev_IDX | pread_IDX | pwrite_IDX | pread64_IDX
  | pwrite64_IDX | fdopen_IDX | fopen_IDX | fopen64_IDX | fclose_IDX | fseek_IDX | fseeko_IDX
  | fseeko64_IDX | rewind_IDX | fsetpos_IDX | fsetpos64_IDX | fread_IDX | fwrite_IDX | fgetc_IDX
  | getc_IDX | fgets_IDX | gets_IDX | fputc_IDX | putc_IDX | fputs_IDX | puts_IDX | fscanf_IDX
  | fprintf_IDX | unlink_IDX | flockfile_IDX | ftrylockfile_IDX | funlockfile_IDX | lockf_IDX
  | fcntl_IDX | sync_IDX | fflush_IDX | fsync_IDX | fdatasync_IDX

text \<open>The name of the function, as the macro \<open>stringify\<close> makes it.\<close>

primrec func_name :: "func_id \<Rightarrow> string" where
  "func_name open_IDX = ''open''"
| "func_name open64_IDX = ''open64''"
| "func_name creat_IDX = ''creat''"
| "func_name creat64_IDX = ''creat64''"
| "func_name close_IDX = ''close''"
| "func_name dup_IDX = ''dup''"
| "func_name dup2_IDX = ''dup2''"
| "func_name lseek_IDX = ''lseek''"
| "func_name lseek64_IDX = ''lseek64''"
| "func_name read_IDX = ''read''"
| "func_name write_IDX = ''write''"
| "func_name readv_IDX = ''readv''"
| "func_name writev_IDX = ''writev''"
| "func_name pread_IDX = ''pread''"
| "func_name pwrite_IDX = ''pwrite''"
| "func_name pread64_IDX = ''pread64''"
| "func_name pwrite64_IDX = ''pwrite64''"
| "func_name fdopen_IDX = ''fdopen''"
| "func_name fopen_IDX = ''fopen''"
| "func_name fopen64_IDX = ''fopen64''"
| "func_name fclose_IDX = ''fclose''"
| "func_name fseek_IDX = ''fseek''"
| "func_name fseeko_IDX = ''fseeko''"
| "func_name fseeko64_IDX = ''fseeko64''"
| "func_name rewind_IDX = ''rewind''"
| "func_name fsetpos_IDX = ''fsetpos''"
| "func_name fsetpos64_IDX = ''fsetpos64''"
| "func_name fread_IDX = ''fread''"
| "func_name fwrite_IDX = ''fwrite''"
| "func_name fgetc_IDX = ''fgetc''"
| "func_name getc_IDX = ''getc''"
| "func_name fgets_IDX = ''fgets''"
| "func_name gets_IDX = ''gets''"
| "func_name fputc_IDX = ''fputc''"
| "func_name putc_IDX = ''putc''"
| "func_name fputs_IDX = ''fputs''"
| "func_name puts_IDX = ''puts''"
| "func_name fscanf_IDX = ''fscanf''"
| "func_name fprintf_IDX = ''fprintf''"
| "func_name unlink_IDX = ''unlink''"
| "func_name flockfile_IDX = ''flockfile''"
| "func_name ftrylockfile_IDX = ''ftrylockfile''"
| "func_name funlockfile_IDX = ''funlockfile''"
| "func_name lockf_IDX = ''lockf''"
| "func_name fcntl_IDX = ''fcntl''"
| "func_name sync_IDX = ''sync''"
| "func_name fflush_IDX = ''fflush''"
| "func_name fsync_IDX = ''fsync''"
| "func_name fdatasync_IDX = ''fdatasync''"

definition VT_IOOP_LOCK :: u32 where "VT_IOOP_LOCK = 9"
definition VT_IOOP_UNLOCK :: u32 where "VT_IOOP_UNLOCK = 10"
definition VT_IOOP_OTHER :: u32 where "VT_IOOP_OTHER = 31"
definition VT_LIBC_IO :: u8 where "VT_LIBC_IO = 6"

text \<open>The operation that a function is recorded as: the macros \<open>_FUNCTYPE\<close>. \<open>lockf\<close> finds its own.\<close>

definition FUNCTYPE :: "func_id \<Rightarrow> u32" where
  "FUNCTYPE f =
     (if f \<in> {open_IDX, open64_IDX, creat_IDX, creat64_IDX, fdopen_IDX, fopen_IDX, fopen64_IDX} then VT_IOOP_OPEN
      else if f \<in> {dup_IDX, dup2_IDX} then VT_IOOP_DUP
      else if f \<in> {close_IDX, fclose_IDX} then VT_IOOP_CLOSE
      else if f \<in> {lseek_IDX, lseek64_IDX, fseek_IDX, fseeko_IDX, fseeko64_IDX, rewind_IDX, fsetpos_IDX,
                   fsetpos64_IDX} then VT_IOOP_SEEK
      else if f \<in> {read_IDX, readv_IDX, pread_IDX, pread64_IDX, fread_IDX, fgetc_IDX, getc_IDX, fgets_IDX,
                   gets_IDX, fscanf_IDX} then VT_IOOP_READ
      else if f \<in> {write_IDX, writev_IDX, pwrite_IDX, pwrite64_IDX, fwrite_IDX, fputc_IDX, putc_IDX, fputs_IDX,
                   puts_IDX, fprintf_IDX} then VT_IOOP_WRITE
      else if f = unlink_IDX then VT_IOOP_UNLINK
      else if f \<in> {flockfile_IDX, ftrylockfile_IDX} then VT_IOOP_LOCK
      else if f = funlockfile_IDX then VT_IOOP_UNLOCK
      else if f \<in> {sync_IDX, fflush_IDX, fsync_IDX, fdatasync_IDX} then VT_IOOP_SYNC
      else VT_IOOP_OTHER)"

record vampir_file =
  vampir_file_id :: u32
  vampir_file_group_id :: u32
  vampir_matchingid :: u64
  vampir_handle :: u64

text \<open>An entry of the table of functions: \<open>lib_func\<close> tells whether the pointer is set.\<close>

record iofunction =
  traceme :: bool
  vt_func_id :: u32
  lib_func :: bool

text \<open>A pointer to allocated memory. Freeing the memory does not reset the pointer.\<close>

datatype 'a block = Null | Freed | Block 'a

record 'p ioenv =
  io_tenv :: env
  io_cal :: callees
  libc :: "string \<Rightarrow> arg list \<Rightarrow> 'p \<Rightarrow> int \<times> 'p"
  fileno :: "'p \<Rightarrow> nat \<Rightarrow> int"
  strlen_at :: "'p \<Rightarrow> nat \<Rightarrow> nat option"
  stdin :: nat
  stdout :: nat
  rlim_max :: "u64 option"
  malloc_ok :: "u64 \<Rightarrow> bool"
  iolib_pathname :: "string option"
  DEFAULT_LIBC_PATHNAME :: string
  dlopen_ok :: "string \<Rightarrow> bool"
  dlsym_ok :: "string \<Rightarrow> bool"
  configured :: "func_id \<Rightarrow> bool"
  O_CREAT :: int
  F_LOCK :: int
  F_TLOCK :: int
  F_ULOCK :: int
  F_TEST :: int

text \<open>The tracing core, the fields of the thread, the static variables, and the library.\<close>

record 'p io_state =
  iotrc :: vt
  io_tracing_enabled :: bool
  io_tracing_state :: bool
  io_tracing_suspend_cnt :: u8
  io_next_matchingid :: u64
  io_next_handle :: u64
  file_group_id_stdio :: u32
  file_group_id_rest :: u32
  max_open_files :: int
  fd_to_vampirid :: "vampir_file list block"
  unknown_fd_vampir_file :: vampir_file
  lib_inited :: bool
  iolib_handle :: bool
  iofunctions :: "func_id \<Rightarrow> iofunction"
  vt_fid :: u32
  invalid_fd_fid :: u32
  all_files_fid :: u32
  memhooks :: bool
  process :: 'p

section \<open>Suspending the tracing\<close>

definition VT_ENABLE_IO_TRACING :: "'p io_state \<Rightarrow> 'p io_state" where
  "VT_ENABLE_IO_TRACING s = s\<lparr>io_tracing_enabled := True\<rparr>"

definition VT_DISABLE_IO_TRACING :: "'p io_state \<Rightarrow> 'p io_state" where
  "VT_DISABLE_IO_TRACING s = s\<lparr>io_tracing_enabled := False\<rparr>"

definition VT_SUSPEND_IO_TRACING :: "'p io_state \<Rightarrow> 'p io_state" where
  "VT_SUSPEND_IO_TRACING s =
     (if io_tracing_enabled s
      then s\<lparr>io_tracing_state := io_tracing_enabled s, io_tracing_suspend_cnt := io_tracing_suspend_cnt s + 1,
             io_tracing_enabled := False\<rparr>
      else s\<lparr>io_tracing_suspend_cnt := io_tracing_suspend_cnt s + 1\<rparr>)"

definition VT_RESUME_IO_TRACING :: "'p io_state \<Rightarrow> 'p io_state" where
  "VT_RESUME_IO_TRACING s =
     (if io_tracing_suspend_cnt s > 0 then
        (let s = s\<lparr>io_tracing_suspend_cnt := io_tracing_suspend_cnt s - 1\<rparr>
         in if io_tracing_suspend_cnt s = 0 then s\<lparr>io_tracing_enabled := io_tracing_state s\<rparr> else s)
      else s)"

section \<open>The table of file descriptors\<close>

text \<open>The assertion on a descriptor, and an access to its entry.\<close>

definition entry_of :: "int \<Rightarrow> 'p io_state \<Rightarrow> vt_error + vampir_file" where
  "entry_of fd s =
     (if \<not> (fd < max_open_files s \<and> 0 \<le> fd) then Inl Aborted
      else case fd_to_vampirid s of
             Block fs \<Rightarrow> (if nat fd < length fs then Inr (fs ! nat fd) else Inl OutOfBounds)
           | _ \<Rightarrow> Inl OutOfBounds)"

definition set_entry :: "int \<Rightarrow> vampir_file \<Rightarrow> 'p io_state \<Rightarrow> vt_error + 'p io_state" where
  "set_entry fd f s =
     andThen (entry_of fd s) (\<lambda>_.
       case fd_to_vampirid s of
         Block fs \<Rightarrow> Inr (s\<lparr>fd_to_vampirid := Block (fs[nat fd := f])\<rparr>)
       | _ \<Rightarrow> Inl OutOfBounds)"

definition store_vampir_file_id :: "int \<Rightarrow> u32 \<Rightarrow> u32 \<Rightarrow> 'p io_state \<Rightarrow> vt_error + 'p io_state" where
  "store_vampir_file_id fd file_id file_group_id s =
     andThen (entry_of fd s) (\<lambda>f.
       set_entry fd (f\<lparr>vampir_file_id := file_id, vampir_file_group_id := file_group_id,
                       vampir_handle := io_next_handle s\<rparr>)
         (s\<lparr>io_next_handle := io_next_handle s + 1\<rparr>))"

definition get_vampir_file :: "int \<Rightarrow> 'p io_state \<Rightarrow> vt_error + vampir_file" where
  "get_vampir_file fd s =
     andThen (entry_of fd s) (\<lambda>f. Inr (if vampir_file_id f = 0 then unknown_fd_vampir_file s else f))"

definition RLIM_INFINITY :: u64 where "RLIM_INFINITY = - 1"

definition VT_MAX_OPEN_FILES :: int where "VT_MAX_OPEN_FILES = 1048576"

definition get_max_open_files :: "'p ioenv \<Rightarrow> vt_error + int" where
  "get_max_open_files e =
     (case rlim_max e of
        None \<Rightarrow> Inl Aborted
      | Some m \<Rightarrow> Inr (if m = RLIM_INFINITY then VT_MAX_OPEN_FILES else sint (ucast m :: u32)))"

text \<open>A definition by the tracing core.\<close>

definition io_def :: "(vt \<Rightarrow> vt_error + (u32 \<times> vt)) \<Rightarrow> 'p io_state \<Rightarrow> vt_error + (u32 \<times> 'p io_state)" where
  "io_def f s = andThen (f (iotrc s)) (\<lambda>(i, v). Inr (i, s\<lparr>iotrc := v\<rparr>))"

definition vt_iofile_open :: "'p ioenv \<Rightarrow> string \<Rightarrow> int \<Rightarrow> 'p io_state \<Rightarrow> vt_error + 'p io_state" where
  "vt_iofile_open e fname fd s =
     (if \<not> (fd < max_open_files s \<and> 0 \<le> fd) then Inl Aborted
      else let gid = (if fd < 3 then file_group_id_stdio s else file_group_id_rest s)
           in andThen (io_def (vt_def_file (io_tenv e) (io_cal e) fname gid) s)
                (\<lambda>(fid, s). store_vampir_file_id fd fid gid s))"

definition vt_iofile_close :: "int \<Rightarrow> 'p io_state \<Rightarrow> vt_error + 'p io_state" where
  "vt_iofile_close fd s = andThen (entry_of fd s) (\<lambda>f. set_entry fd (f\<lparr>vampir_file_id := 0\<rparr>) s)"

definition vt_iofile_id :: "'p ioenv \<Rightarrow> string \<Rightarrow> 'p io_state \<Rightarrow> vt_error + (u32 \<times> 'p io_state)" where
  "vt_iofile_id e fname s = io_def (vt_def_file (io_tenv e) (io_cal e) fname (file_group_id_rest s)) s"

definition vt_iofile_dupfd :: "int \<Rightarrow> int \<Rightarrow> 'p io_state \<Rightarrow> vt_error + 'p io_state" where
  "vt_iofile_dupfd oldfd newfd s =
     (if \<not> (newfd < max_open_files s \<and> 0 \<le> newfd \<and> oldfd < max_open_files s \<and> 0 \<le> oldfd) then Inl Aborted
      else andThen (entry_of oldfd s) (\<lambda>f.
             set_entry newfd (f\<lparr>vampir_handle := io_next_handle s\<rparr>) (s\<lparr>io_next_handle := io_next_handle s + 1\<rparr>)))"

section \<open>Initialization\<close>

definition get_iolib_handle :: "'p ioenv \<Rightarrow> 'p io_state \<Rightarrow> vt_error + 'p io_state" where
  "get_iolib_handle e s =
     (if iolib_handle s then Inr s
      else let path = (case iolib_pathname e of None \<Rightarrow> DEFAULT_LIBC_PATHNAME e | Some p \<Rightarrow> p)
           in if dlopen_ok e path then Inr (s\<lparr>iolib_handle := True\<rparr>) else Inl Aborted)"

definition init_func :: "'p ioenv \<Rightarrow> func_id \<Rightarrow> 'p io_state \<Rightarrow> vt_error + 'p io_state" where
  "init_func e fn s =
     (if lib_func (iofunctions s fn) then Inr s
      else if dlsym_ok e (func_name fn)
      then Inr (s\<lparr>iofunctions := (iofunctions s)(fn := (iofunctions s fn)\<lparr>lib_func := True\<rparr>)\<rparr>)
      else Inl Aborted)"

definition reg_func :: "'p ioenv \<Rightarrow> func_id \<Rightarrow> 'p io_state \<Rightarrow> vt_error + 'p io_state" where
  "reg_func e fn s =
     andThen (io_def (vt_def_region (io_tenv e) (io_cal e) (func_name fn) (vt_fid s) VT_NO_LNO VT_NO_LNO None VT_LIBC_IO) s)
       (\<lambda>(rid, s). Inr (s\<lparr>iofunctions := (iofunctions s)(fn := (iofunctions s fn)\<lparr>vt_func_id := rid, traceme := True\<rparr>)\<rparr>))"

text \<open>
  The functions in the order in which \<open>vt_iowrap_init\<close> and \<open>vt_iowrap_reg\<close> go through them. Those
  that lock are in the list twice: always, and once more where they are configured.
\<close>

definition io_functions :: "'p ioenv \<Rightarrow> func_id list" where
  "io_functions e =
     [open_IDX, creat_IDX, close_IDX, dup_IDX, dup2_IDX, lseek_IDX, read_IDX, write_IDX, readv_IDX, writev_IDX,
      pread_IDX, pwrite_IDX, fdopen_IDX, fopen_IDX, fclose_IDX, fseek_IDX]
     @ filter (configured e) [fseeko_IDX]
     @ [rewind_IDX, fsetpos_IDX, fread_IDX, fwrite_IDX, fgetc_IDX, getc_IDX, fgets_IDX, gets_IDX, fputc_IDX,
        putc_IDX, fputs_IDX, puts_IDX, fscanf_IDX, fprintf_IDX, unlink_IDX, flockfile_IDX, ftrylockfile_IDX,
        funlockfile_IDX, lockf_IDX, fcntl_IDX]
     @ filter (configured e)
         [open64_IDX, creat64_IDX, lseek64_IDX, pread64_IDX, pwrite64_IDX, fopen64_IDX, fseeko64_IDX,
          fsetpos64_IDX, flockfile_IDX, ftrylockfile_IDX, funlockfile_IDX, lockf_IDX, sync_IDX, fflush_IDX,
          fsync_IDX, fdatasync_IDX]"

definition no_vampir_file :: vampir_file where
  "no_vampir_file = \<lparr>vampir_file_id = 0, vampir_file_group_id = 0, vampir_matchingid = 0, vampir_handle = 0\<rparr>"

text \<open>An entry of the table has 24 bytes.\<close>

definition vt_iowrap_init :: "'p ioenv \<Rightarrow> 'p io_state \<Rightarrow> vt_error + 'p io_state" where
  "vt_iowrap_init e s =
     (if lib_inited s then Inr s
      else andThen (get_max_open_files e) (\<lambda>m.
        if \<not> malloc_ok e (word_of_int m * 24) then Inl Aborted
        else andThen (io_def (vt_def_file_group (io_tenv e) (io_cal e) ''stdio'')
               (s\<lparr>lib_inited := True, max_open_files := m,
                  fd_to_vampirid := Block (replicate (nat m) no_vampir_file)\<rparr>)) (\<lambda>(g, s).
        andThen (io_def (vt_def_file_group (io_tenv e) (io_cal e) ''fileio'') (s\<lparr>file_group_id_stdio := g\<rparr>)) (\<lambda>(g, s).
        andThen (vt_iofile_open e ''<STDIN>'' 0 (s\<lparr>file_group_id_rest := g\<rparr>)) (\<lambda>s.
        andThen (vt_iofile_open e ''<STDOUT>'' 1 s) (\<lambda>s.
        andThen (vt_iofile_open e ''<STDERR>'' 2 s) (\<lambda>s.
        andThen (vt_iofile_id e ''<ALL OPEN FILES>'' s) (\<lambda>(i, s).
        andThen (vt_iofile_id e ''<INVALID FILE (fd==-1)>'' (s\<lparr>all_files_fid := i\<rparr>)) (\<lambda>(i, s).
        andThen (vt_iofile_id e ''<UNKNOWN FILE DESCRIPTOR>'' (s\<lparr>invalid_fd_fid := i\<rparr>)) (\<lambda>(i, s).
        andThen (get_iolib_handle e (s\<lparr>unknown_fd_vampir_file := (unknown_fd_vampir_file s)
                   \<lparr>vampir_file_id := i, vampir_handle := 0, vampir_matchingid := 0\<rparr>\<rparr>))
          (each (init_func e) (io_functions e))))))))))))"

definition vt_iowrap_reg :: "'p ioenv \<Rightarrow> 'p io_state \<Rightarrow> vt_error + 'p io_state" where
  "vt_iowrap_reg e s =
     andThen (io_def (vt_def_scl_file (io_tenv e) (io_cal e) ''I/O'') s)
       (\<lambda>(f, s). each (reg_func e) (io_functions e) (s\<lparr>vt_fid := f\<rparr>))"

text \<open>The table is freed and the library closed; neither pointer is reset.\<close>

definition vt_iowrap_finalize :: "'p io_state \<Rightarrow> vt_error + 'p io_state" where
  "vt_iowrap_finalize s =
     (case fd_to_vampirid s of
        Null \<Rightarrow> Inr s
      | Block _ \<Rightarrow> Inr (s\<lparr>fd_to_vampirid := Freed\<rparr>)
      | Freed \<Rightarrow> Inl OutOfBounds)"

end
