(* ===== verification/IoCalls.thy ===== *)
theory IoCalls
  imports IoWrap
begin

unbundle bit_operations_syntax

text \<open>
  The wrappers themselves (\<open>vtlib/vt_iowrap.c\<close>): the macros that all of them are made of, and one
  definition per wrapped function. The local variables of the running wrapper are the record
  \<open>io_locals\<close>; the arguments of the library call are passed as they are.
\<close>

section \<open>The macros\<close>

record io_locals =
  enable_memhooks :: bool
  recorded_call :: bool
  matching_id :: u64

text \<open>Memory tracing is switched off and the pointer to the function is looked up if it is not set.\<close>

definition INIT_IOFUNC :: "'p ioenv \<Rightarrow> func_id \<Rightarrow> 'p io_state \<Rightarrow> vt_error + (bool \<times> 'p io_state)" where
  "INIT_IOFUNC e fn s =
     (let en = memhooks s; s = s\<lparr>memhooks := False\<rparr>
      in if lib_func (iofunctions s fn) then Inr (en, s)
         else andThen (get_iolib_handle e s) (\<lambda>s. andThen (init_func e fn s) (\<lambda>s. Inr (en, s))))"

definition DO_TRACE :: "func_id \<Rightarrow> 'p io_state \<Rightarrow> bool" where
  "DO_TRACE fn s \<longleftrightarrow> vt_is_alive (iotrc s) \<and> io_tracing_enabled s \<and> traceme (iofunctions s fn)"

definition ENTER_IOFUNC :: "'p ioenv \<Rightarrow> func_id \<Rightarrow> bool \<Rightarrow> 'p io_state \<Rightarrow> vt_error + (io_locals \<times> 'p io_state)" where
  "ENTER_IOFUNC e fn en s =
     (let (t, v) = vt_pform_wtime (io_tenv e) (iotrc s)
      in andThen (vt_enter (io_tenv e) (io_cal e) (vt_func_id (iofunctions s fn)) t v) (\<lambda>(rec, t, v).
           if rec then
             (let mid = io_next_matchingid s
              in andThen (vt_iobegin (io_cal e) mid t v) (\<lambda>(t, v).
                   Inr (\<lparr>enable_memhooks = en, recorded_call = True, matching_id = mid\<rparr>,
                        s\<lparr>io_next_matchingid := mid + 1, iotrc := v\<rparr>)))
           else Inr (\<lparr>enable_memhooks = en, recorded_call = False, matching_id = 0\<rparr>, s\<lparr>iotrc := v\<rparr>)))"

definition ioflag :: "u32 \<Rightarrow> bool \<Rightarrow> u32" where
  "ioflag op failed = (if failed then op OR VT_IOFLAG_IOFAILED else op)"

definition io_time :: "'p ioenv \<Rightarrow> 'p io_state \<Rightarrow> u64 \<times> 'p io_state" where
  "io_time e s = (let (t, v) = vt_pform_wtime (io_tenv e) (iotrc s) in (t, s\<lparr>iotrc := v\<rparr>))"

definition io_end ::
  "'p ioenv \<Rightarrow> u32 \<Rightarrow> u64 \<Rightarrow> u64 \<Rightarrow> u32 \<Rightarrow> u64 \<Rightarrow> u64 \<Rightarrow> 'p io_state \<Rightarrow> vt_error + (u64 \<times> 'p io_state)" where
  "io_end e file mid h op bytes t s =
     andThen (vt_ioend (io_cal e) file mid h op bytes t (iotrc s)) (\<lambda>(t, v). Inr (t, s\<lparr>iotrc := v\<rparr>))"

text \<open>The end of all wrappers.\<close>

definition io_leave :: "'p ioenv \<Rightarrow> io_locals \<Rightarrow> u64 \<times> 'p io_state \<Rightarrow> vt_error + 'p io_state" where
  "io_leave e l ts =
     (case ts of (t, s) \<Rightarrow> andThen (vt_exit (io_tenv e) (io_cal e) t (iotrc s)) (\<lambda>(t, v).
        Inr (if enable_memhooks l then s\<lparr>iotrc := v, memhooks := True\<rparr> else s\<lparr>iotrc := v\<rparr>)))"

definition file_and_handle :: "int \<Rightarrow> 'p io_state \<Rightarrow> vt_error + (u32 \<times> u64)" where
  "file_and_handle fd s =
     (if fd = - 1 then Inr (invalid_fd_fid s, 0)
      else andThen (get_vampir_file fd s) (\<lambda>f. Inr (vampir_file_id f, vampir_handle f)))"

definition LEAVE_IOFUNC ::
  "'p ioenv \<Rightarrow> func_id \<Rightarrow> io_locals \<Rightarrow> bool \<Rightarrow> int \<Rightarrow> u64 \<Rightarrow> 'p io_state \<Rightarrow> vt_error + 'p io_state" where
  "LEAVE_IOFUNC e fn l failed fd num_bytes s =
     (let (t, s) = io_time e s
      in andThen
           (if recorded_call l
            then andThen (file_and_handle fd s) (\<lambda>(fid, hid).
                   io_end e fid (matching_id l) hid (ioflag (FUNCTYPE fn) failed) num_bytes t s)
            else Inr (t, s))
           (io_leave e l))"

definition LEAVE_IOFUNC_CUSTOM ::
  "'p ioenv \<Rightarrow> func_id \<Rightarrow> io_locals \<Rightarrow> bool \<Rightarrow> u32 \<Rightarrow> u64 \<Rightarrow> u64 \<Rightarrow> 'p io_state \<Rightarrow> vt_error + 'p io_state" where
  "LEAVE_IOFUNC_CUSTOM e fn l failed file h num_bytes s =
     (let (t, s) = io_time e s
      in andThen
           (if recorded_call l
            then io_end e file (matching_id l) h (ioflag (FUNCTYPE fn) failed) num_bytes t s
            else Inr (t, s))
           (io_leave e l))"

text \<open>The id and the handle that a call of \<open>open\<close> is recorded with. They are unset if it is not recorded.\<close>

definition open_file ::
  "'p ioenv \<Rightarrow> bool \<Rightarrow> bool \<Rightarrow> string \<Rightarrow> int \<Rightarrow> 'p io_state \<Rightarrow> vt_error + ((u32 \<times> u64) \<times> 'p io_state)" where
  "open_file e rec failed path fd s =
     (if failed then
        (if rec then andThen (vt_iofile_id e path s) (\<lambda>(fid, s). Inr ((fid, 0), s)) else Inr ((0, 0), s))
      else andThen (vt_iofile_open e path fd s) (\<lambda>s.
        if rec then andThen (get_vampir_file fd s) (\<lambda>f. Inr ((vampir_file_id f, vampir_handle f), s))
        else Inr ((0, 0), s)))"

definition LEAVE_IOFUNC_OPEN ::
  "'p ioenv \<Rightarrow> func_id \<Rightarrow> io_locals \<Rightarrow> bool \<Rightarrow> string \<Rightarrow> int \<Rightarrow> 'p io_state \<Rightarrow> vt_error + 'p io_state" where
  "LEAVE_IOFUNC_OPEN e fn l failed path fd s =
     (let (t, s) = io_time e s
      in andThen (open_file e (recorded_call l) failed path fd s) (\<lambda>((fid, hid), s).
         andThen
           (if recorded_call l then io_end e fid (matching_id l) hid (ioflag (FUNCTYPE fn) failed) 0 t s
            else Inr (t, s))
           (io_leave e l)))"

definition LEAVE_IOFUNC_DUP ::
  "'p ioenv \<Rightarrow> func_id \<Rightarrow> io_locals \<Rightarrow> bool \<Rightarrow> int \<Rightarrow> int \<Rightarrow> 'p io_state \<Rightarrow> vt_error + 'p io_state" where
  "LEAVE_IOFUNC_DUP e fn l failed oldfd newfd s =
     (let (t, s) = io_time e s
      in andThen (get_vampir_file oldfd s) (\<lambda>f.
         andThen (if failed then Inr s else vt_iofile_dupfd oldfd newfd s) (\<lambda>s.
         andThen
           (if recorded_call l
            then io_end e (vampir_file_id f) (matching_id l) (vampir_handle f) (ioflag (FUNCTYPE fn) failed) 0 t s
            else Inr (t, s))
           (io_leave e l))))"

definition LEAVE_IOFUNC_PATH ::
  "'p ioenv \<Rightarrow> func_id \<Rightarrow> io_locals \<Rightarrow> bool \<Rightarrow> string \<Rightarrow> 'p io_state \<Rightarrow> vt_error + 'p io_state" where
  "LEAVE_IOFUNC_PATH e fn l failed path s =
     (let (t, s) = io_time e s
      in andThen
           (if recorded_call l
            then andThen (vt_iofile_id e path s) (\<lambda>(fid, s).
                   io_end e fid (matching_id l) 0 (ioflag (FUNCTYPE fn) failed) 0 t s)
            else Inr (t, s))
           (io_leave e l))"

text \<open>
  A wrapper: \<open>CHECK_TRACING\<close> calls the function \<open>lib\<close> of the library and returns; \<open>after\<close> is what
  follows the call when it is traced.
\<close>

definition call_libc :: "'p ioenv \<Rightarrow> string \<Rightarrow> arg list \<Rightarrow> 'p io_state \<Rightarrow> int \<times> 'p io_state" where
  "call_libc e name args s = (let (r, p) = libc e name args (process s) in (r, s\<lparr>process := p\<rparr>))"

definition io_wrapper ::
  "'p ioenv \<Rightarrow> func_id \<Rightarrow> string \<Rightarrow> arg list \<Rightarrow> (io_locals \<Rightarrow> int \<Rightarrow> 'p io_state \<Rightarrow> vt_error + 'p io_state) \<Rightarrow>
   'p io_state \<Rightarrow> vt_error + (int \<times> 'p io_state)" where
  "io_wrapper e fn name args after s =
     andThen (INIT_IOFUNC e fn s) (\<lambda>(en, s).
       if \<not> DO_TRACE fn s then Inr (call_libc e name args s)
       else andThen (ENTER_IOFUNC e fn en s) (\<lambda>(l, s).
         let (r, s) = call_libc e name args s in andThen (after l r s) (\<lambda>s. Inr (r, s))))"

abbreviation wrap_io ::
  "'p ioenv \<Rightarrow> func_id \<Rightarrow> arg list \<Rightarrow> (io_locals \<Rightarrow> int \<Rightarrow> 'p io_state \<Rightarrow> vt_error + 'p io_state) \<Rightarrow>
   'p io_state \<Rightarrow> vt_error + (int \<times> 'p io_state)" where
  "wrap_io e fn \<equiv> io_wrapper e fn (func_name fn)"

section \<open>Opening\<close>

text \<open>The mode is an argument only of a call that may create the file.\<close>

definition open_mode :: "'p ioenv \<Rightarrow> int \<Rightarrow> int \<Rightarrow> int" where
  "open_mode e flags md = (if flags AND O_CREAT e \<noteq> 0 then md else 0)"

definition open_io :: "'p ioenv \<Rightarrow> string \<Rightarrow> int \<Rightarrow> int \<Rightarrow> 'p io_state \<Rightarrow> vt_error + (int \<times> 'p io_state)" where
  "open_io e path flags md =
     wrap_io e open_IDX [Text path, Number flags, Number (open_mode e flags md)]
       (\<lambda>l r. LEAVE_IOFUNC_OPEN e open_IDX l (r = - 1) path r)"

definition open64_io :: "'p ioenv \<Rightarrow> string \<Rightarrow> int \<Rightarrow> int \<Rightarrow> 'p io_state \<Rightarrow> vt_error + (int \<times> 'p io_state)" where
  "open64_io e path flags md =
     wrap_io e open64_IDX [Text path, Number flags, Number (open_mode e flags md)]
       (\<lambda>l r. LEAVE_IOFUNC_OPEN e open64_IDX l (r = - 1) path r)"

definition creat_io :: "'p ioenv \<Rightarrow> string \<Rightarrow> int \<Rightarrow> 'p io_state \<Rightarrow> vt_error + (int \<times> 'p io_state)" where
  "creat_io e path md =
     wrap_io e creat_IDX [Text path, Number md] (\<lambda>l r. LEAVE_IOFUNC_OPEN e creat_IDX l (r = - 1) path r)"

definition creat64_io :: "'p ioenv \<Rightarrow> string \<Rightarrow> int \<Rightarrow> 'p io_state \<Rightarrow> vt_error + (int \<times> 'p io_state)" where
  "creat64_io e path md =
     wrap_io e creat64_IDX [Text path, Number md] (\<lambda>l r. LEAVE_IOFUNC_OPEN e creat64_IDX l (r = - 1) path r)"

definition dup_io :: "'p ioenv \<Rightarrow> int \<Rightarrow> 'p io_state \<Rightarrow> vt_error + (int \<times> 'p io_state)" where
  "dup_io e oldfd =
     wrap_io e dup_IDX [Number oldfd] (\<lambda>l r. LEAVE_IOFUNC_DUP e dup_IDX l (r = - 1) oldfd r)"

definition dup2_io :: "'p ioenv \<Rightarrow> int \<Rightarrow> int \<Rightarrow> 'p io_state \<Rightarrow> vt_error + (int \<times> 'p io_state)" where
  "dup2_io e oldfd newfd =
     wrap_io e dup2_IDX [Number oldfd, Number newfd] (\<lambda>l r. LEAVE_IOFUNC_DUP e dup2_IDX l (r \<noteq> newfd) oldfd r)"

section \<open>Descriptors\<close>

definition close_io :: "'p ioenv \<Rightarrow> int \<Rightarrow> 'p io_state \<Rightarrow> vt_error + (int \<times> 'p io_state)" where
  "close_io e fd = wrap_io e close_IDX [Number fd] (\<lambda>l r. LEAVE_IOFUNC e close_IDX l (r = - 1) fd 0)"

definition lseek_io :: "'p ioenv \<Rightarrow> int \<Rightarrow> int \<Rightarrow> int \<Rightarrow> 'p io_state \<Rightarrow> vt_error + (int \<times> 'p io_state)" where
  "lseek_io e fd offset whence =
     wrap_io e lseek_IDX [Number fd, Number offset, Number whence] (\<lambda>l r. LEAVE_IOFUNC e lseek_IDX l (r = - 1) fd 0)"

definition lseek64_io :: "'p ioenv \<Rightarrow> int \<Rightarrow> int \<Rightarrow> int \<Rightarrow> 'p io_state \<Rightarrow> vt_error + (int \<times> 'p io_state)" where
  "lseek64_io e fd offset whence =
     wrap_io e lseek64_IDX [Number fd, Number offset, Number whence] (\<lambda>l r. LEAVE_IOFUNC e lseek64_IDX l (r = - 1) fd 0)"

definition read_io :: "'p ioenv \<Rightarrow> int \<Rightarrow> nat \<Rightarrow> nat \<Rightarrow> 'p io_state \<Rightarrow> vt_error + (int \<times> 'p io_state)" where
  "read_io e fd bf cnt =
     wrap_io e read_IDX [Number fd, Buffer bf, Number (int cnt)]
       (\<lambda>l r. LEAVE_IOFUNC e read_IDX l (r = - 1) fd (word_of_int r))"

definition write_io :: "'p ioenv \<Rightarrow> int \<Rightarrow> nat \<Rightarrow> nat \<Rightarrow> 'p io_state \<Rightarrow> vt_error + (int \<times> 'p io_state)" where
  "write_io e fd bf cnt =
     wrap_io e write_IDX [Number fd, Buffer bf, Number (int cnt)]
       (\<lambda>l r. LEAVE_IOFUNC e write_IDX l (r = - 1) fd (word_of_int r))"

definition readv_io :: "'p ioenv \<Rightarrow> int \<Rightarrow> nat \<Rightarrow> int \<Rightarrow> 'p io_state \<Rightarrow> vt_error + (int \<times> 'p io_state)" where
  "readv_io e fd iov cnt =
     wrap_io e readv_IDX [Number fd, Buffer iov, Number cnt]
       (\<lambda>l r. LEAVE_IOFUNC e readv_IDX l (r = - 1) fd (word_of_int r))"

definition writev_io :: "'p ioenv \<Rightarrow> int \<Rightarrow> nat \<Rightarrow> int \<Rightarrow> 'p io_state \<Rightarrow> vt_error + (int \<times> 'p io_state)" where
  "writev_io e fd iov cnt =
     wrap_io e writev_IDX [Number fd, Buffer iov, Number cnt]
       (\<lambda>l r. LEAVE_IOFUNC e writev_IDX l (r = - 1) fd (word_of_int r))"

definition pread_io :: "'p ioenv \<Rightarrow> int \<Rightarrow> nat \<Rightarrow> nat \<Rightarrow> int \<Rightarrow> 'p io_state \<Rightarrow> vt_error + (int \<times> 'p io_state)" where
  "pread_io e fd bf cnt offset =
     wrap_io e pread_IDX [Number fd, Buffer bf, Number (int cnt), Number offset]
       (\<lambda>l r. LEAVE_IOFUNC e pread_IDX l (r = - 1) fd (word_of_int r))"

definition pwrite_io :: "'p ioenv \<Rightarrow> int \<Rightarrow> nat \<Rightarrow> nat \<Rightarrow> int \<Rightarrow> 'p io_state \<Rightarrow> vt_error + (int \<times> 'p io_state)" where
  "pwrite_io e fd bf cnt offset =
     wrap_io e pwrite_IDX [Number fd, Buffer bf, Number (int cnt), Number offset]
       (\<lambda>l r. LEAVE_IOFUNC e pwrite_IDX l (r = - 1) fd (word_of_int r))"

definition pread64_io :: "'p ioenv \<Rightarrow> int \<Rightarrow> nat \<Rightarrow> nat \<Rightarrow> int \<Rightarrow> 'p io_state \<Rightarrow> vt_error + (int \<times> 'p io_state)" where
  "pread64_io e fd bf cnt offset =
     wrap_io e pread64_IDX [Number fd, Buffer bf, Number (int cnt), Number offset]
       (\<lambda>l r. LEAVE_IOFUNC e pread64_IDX l (r = - 1) fd (word_of_int r))"

definition pwrite64_io :: "'p ioenv \<Rightarrow> int \<Rightarrow> nat \<Rightarrow> nat \<Rightarrow> int \<Rightarrow> 'p io_state \<Rightarrow> vt_error + (int \<times> 'p io_state)" where
  "pwrite64_io e fd bf cnt offset =
     wrap_io e pwrite64_IDX [Number fd, Buffer bf, Number (int cnt), Number offset]
       (\<lambda>l r. LEAVE_IOFUNC e pwrite64_IDX l (r = - 1) fd (word_of_int r))"

definition fsync_io :: "'p ioenv \<Rightarrow> int \<Rightarrow> 'p io_state \<Rightarrow> vt_error + (int \<times> 'p io_state)" where
  "fsync_io e fd = wrap_io e fsync_IDX [Number fd] (\<lambda>l r. LEAVE_IOFUNC e fsync_IDX l (r = - 1) fd 0)"

definition fdatasync_io :: "'p ioenv \<Rightarrow> int \<Rightarrow> 'p io_state \<Rightarrow> vt_error + (int \<times> 'p io_state)" where
  "fdatasync_io e fd = wrap_io e fdatasync_IDX [Number fd] (\<lambda>l r. LEAVE_IOFUNC e fdatasync_IDX l (r = - 1) fd 0)"

section \<open>Streams\<close>

text \<open>The descriptor of a stream, after the call; that of a null pointer is 0.\<close>

definition stream_fd :: "'p ioenv \<Rightarrow> nat \<Rightarrow> 'p io_state \<Rightarrow> int" where
  "stream_fd e stream s = (if stream \<noteq> 0 then fileno e (process s) stream else 0)"

definition strlen_io :: "'p ioenv \<Rightarrow> nat \<Rightarrow> 'p io_state \<Rightarrow> vt_error + u64" where
  "strlen_io e str s = (case strlen_at e (process s) str of None \<Rightarrow> Inl OutOfBounds | Some n \<Rightarrow> Inr (of_nat n))"

definition fopen_io :: "'p ioenv \<Rightarrow> string \<Rightarrow> string \<Rightarrow> 'p io_state \<Rightarrow> vt_error + (int \<times> 'p io_state)" where
  "fopen_io e path md =
     wrap_io e fopen_IDX [Text path, Text md]
       (\<lambda>l r s. LEAVE_IOFUNC_OPEN e fopen_IDX l (r = 0) path (stream_fd e (nat r) s) s)"

definition fopen64_io :: "'p ioenv \<Rightarrow> string \<Rightarrow> string \<Rightarrow> 'p io_state \<Rightarrow> vt_error + (int \<times> 'p io_state)" where
  "fopen64_io e path md =
     wrap_io e fopen64_IDX [Text path, Text md]
       (\<lambda>l r s. LEAVE_IOFUNC_OPEN e fopen64_IDX l (r = 0) path (stream_fd e (nat r) s) s)"

definition fdopen_io :: "'p ioenv \<Rightarrow> int \<Rightarrow> string \<Rightarrow> 'p io_state \<Rightarrow> vt_error + (int \<times> 'p io_state)" where
  "fdopen_io e fd md =
     wrap_io e fdopen_IDX [Number fd, Text md] (\<lambda>l r. LEAVE_IOFUNC e fdopen_IDX l (r = 0) fd 0)"

text \<open>The descriptor of the stream is asked for before the call, which ends the stream.\<close>

definition fclose_io :: "'p ioenv \<Rightarrow> nat \<Rightarrow> 'p io_state \<Rightarrow> vt_error + (int \<times> 'p io_state)" where
  "fclose_io e stream s =
     (let tmp = stream_fd e stream s
      in wrap_io e fclose_IDX [Handle stream] (\<lambda>l r. LEAVE_IOFUNC e fclose_IDX l (r = - 1) tmp 0) s)"

definition fseek_io :: "'p ioenv \<Rightarrow> nat \<Rightarrow> int \<Rightarrow> int \<Rightarrow> 'p io_state \<Rightarrow> vt_error + (int \<times> 'p io_state)" where
  "fseek_io e stream offset whence =
     wrap_io e fseek_IDX [Handle stream, Number offset, Number whence]
       (\<lambda>l r s. LEAVE_IOFUNC e fseek_IDX l (r = - 1) (stream_fd e stream s) 0 s)"

definition fseeko_io :: "'p ioenv \<Rightarrow> nat \<Rightarrow> int \<Rightarrow> int \<Rightarrow> 'p io_state \<Rightarrow> vt_error + (int \<times> 'p io_state)" where
  "fseeko_io e stream offset whence =
     wrap_io e fseeko_IDX [Handle stream, Number offset, Number whence]
       (\<lambda>l r s. LEAVE_IOFUNC e fseeko_IDX l (r = - 1) (stream_fd e stream s) 0 s)"

definition fseeko64_io :: "'p ioenv \<Rightarrow> nat \<Rightarrow> int \<Rightarrow> int \<Rightarrow> 'p io_state \<Rightarrow> vt_error + (int \<times> 'p io_state)" where
  "fseeko64_io e stream offset whence =
     wrap_io e fseeko64_IDX [Handle stream, Number offset, Number whence]
       (\<lambda>l r s. LEAVE_IOFUNC e fseeko64_IDX l (r = - 1) (stream_fd e stream s) 0 s)"

definition rewind_io :: "'p ioenv \<Rightarrow> nat \<Rightarrow> 'p io_state \<Rightarrow> vt_error + (int \<times> 'p io_state)" where
  "rewind_io e stream =
     wrap_io e rewind_IDX [Handle stream] (\<lambda>l r s. LEAVE_IOFUNC e rewind_IDX l False (stream_fd e stream s) 0 s)"

definition fsetpos_io :: "'p ioenv \<Rightarrow> nat \<Rightarrow> nat \<Rightarrow> 'p io_state \<Rightarrow> vt_error + (int \<times> 'p io_state)" where
  "fsetpos_io e stream ps =
     wrap_io e fsetpos_IDX [Handle stream, Buffer ps]
       (\<lambda>l r s. LEAVE_IOFUNC e fsetpos_IDX l (r = - 1) (stream_fd e stream s) 0 s)"

definition fsetpos64_io :: "'p ioenv \<Rightarrow> nat \<Rightarrow> nat \<Rightarrow> 'p io_state \<Rightarrow> vt_error + (int \<times> 'p io_state)" where
  "fsetpos64_io e stream ps =
     wrap_io e fsetpos64_IDX [Handle stream, Buffer ps]
       (\<lambda>l r s. LEAVE_IOFUNC e fsetpos64_IDX l (r = - 1) (stream_fd e stream s) 0 s)"

definition fread_io :: "'p ioenv \<Rightarrow> nat \<Rightarrow> nat \<Rightarrow> nat \<Rightarrow> nat \<Rightarrow> 'p io_state \<Rightarrow> vt_error + (int \<times> 'p io_state)" where
  "fread_io e bf sz nmemb stream =
     wrap_io e fread_IDX [Buffer bf, Number (int sz), Number (int nmemb), Handle stream]
       (\<lambda>l r s. LEAVE_IOFUNC e fread_IDX l (r = 0) (stream_fd e stream s) (word_of_int (int sz * r)) s)"

definition fwrite_io :: "'p ioenv \<Rightarrow> nat \<Rightarrow> nat \<Rightarrow> nat \<Rightarrow> nat \<Rightarrow> 'p io_state \<Rightarrow> vt_error + (int \<times> 'p io_state)" where
  "fwrite_io e bf sz nmemb stream =
     wrap_io e fwrite_IDX [Buffer bf, Number (int sz), Number (int nmemb), Handle stream]
       (\<lambda>l r s. LEAVE_IOFUNC e fwrite_IDX l (r = 0) (stream_fd e stream s) (word_of_int (int sz * r)) s)"

definition fgetc_io :: "'p ioenv \<Rightarrow> nat \<Rightarrow> 'p io_state \<Rightarrow> vt_error + (int \<times> 'p io_state)" where
  "fgetc_io e stream =
     wrap_io e fgetc_IDX [Handle stream] (\<lambda>l r s. LEAVE_IOFUNC e fgetc_IDX l (r = - 1) (stream_fd e stream s) 1 s)"

definition getc_io :: "'p ioenv \<Rightarrow> nat \<Rightarrow> 'p io_state \<Rightarrow> vt_error + (int \<times> 'p io_state)" where
  "getc_io e stream =
     wrap_io e getc_IDX [Handle stream] (\<lambda>l r s. LEAVE_IOFUNC e getc_IDX l (r = - 1) (stream_fd e stream s) 1 s)"

text \<open>The string behind the buffer is measured whether or not the call was successful.\<close>

definition fgets_io :: "'p ioenv \<Rightarrow> nat \<Rightarrow> int \<Rightarrow> nat \<Rightarrow> 'p io_state \<Rightarrow> vt_error + (int \<times> 'p io_state)" where
  "fgets_io e str sz stream =
     wrap_io e fgets_IDX [Buffer str, Number sz, Handle stream] (\<lambda>l r s.
       andThen (strlen_io e str s) (\<lambda>n.
         LEAVE_IOFUNC e fgets_IDX l (r = 0) (if r \<noteq> 0 then fileno e (process s) stream else 0) n s))"

definition gets_io :: "'p ioenv \<Rightarrow> nat \<Rightarrow> 'p io_state \<Rightarrow> vt_error + (int \<times> 'p io_state)" where
  "gets_io e str =
     wrap_io e gets_IDX [Buffer str] (\<lambda>l r s.
       andThen (strlen_io e str s) (\<lambda>n. LEAVE_IOFUNC e gets_IDX l (r = 0) (fileno e (process s) (stdin e)) n s))"

definition fputc_io :: "'p ioenv \<Rightarrow> int \<Rightarrow> nat \<Rightarrow> 'p io_state \<Rightarrow> vt_error + (int \<times> 'p io_state)" where
  "fputc_io e c stream =
     wrap_io e fputc_IDX [Number c, Handle stream]
       (\<lambda>l r s. LEAVE_IOFUNC e fputc_IDX l (r = - 1) (stream_fd e stream s) 1 s)"

definition putc_io :: "'p ioenv \<Rightarrow> int \<Rightarrow> nat \<Rightarrow> 'p io_state \<Rightarrow> vt_error + (int \<times> 'p io_state)" where
  "putc_io e c stream =
     wrap_io e putc_IDX [Number c, Handle stream]
       (\<lambda>l r s. LEAVE_IOFUNC e putc_IDX l (r = - 1) (stream_fd e stream s) 1 s)"

definition fputs_io :: "'p ioenv \<Rightarrow> nat \<Rightarrow> nat \<Rightarrow> 'p io_state \<Rightarrow> vt_error + (int \<times> 'p io_state)" where
  "fputs_io e str stream =
     wrap_io e fputs_IDX [Buffer str, Handle stream] (\<lambda>l r s.
       andThen (strlen_io e str s) (\<lambda>n. LEAVE_IOFUNC e fputs_IDX l (r = - 1) (stream_fd e stream s) n s))"

definition puts_io :: "'p ioenv \<Rightarrow> nat \<Rightarrow> 'p io_state \<Rightarrow> vt_error + (int \<times> 'p io_state)" where
  "puts_io e str =
     wrap_io e puts_IDX [Buffer str] (\<lambda>l r s.
       andThen (strlen_io e str s) (\<lambda>n. LEAVE_IOFUNC e puts_IDX l (r = - 1) (fileno e (process s) (stdout e)) n s))"

text \<open>
  The functions with a format call the function with a \<open>va_list\<close>, whose values are \<open>vals\<close>. The error
  condition of \<open>fscanf\<close> is the macro \<open>DISABLE_IORECORD\<close>, which is 1.
\<close>

definition fscanf_io :: "'p ioenv \<Rightarrow> nat \<Rightarrow> string \<Rightarrow> arg list \<Rightarrow> 'p io_state \<Rightarrow> vt_error + (int \<times> 'p io_state)" where
  "fscanf_io e stream fmt vals =
     io_wrapper e fscanf_IDX ''vfscanf'' ([Handle stream, Text fmt] @ vals)
       (\<lambda>l r s. LEAVE_IOFUNC e fscanf_IDX l True (stream_fd e stream s) (word_of_int r) s)"

definition fprintf_io :: "'p ioenv \<Rightarrow> nat \<Rightarrow> string \<Rightarrow> arg list \<Rightarrow> 'p io_state \<Rightarrow> vt_error + (int \<times> 'p io_state)" where
  "fprintf_io e stream fmt vals =
     io_wrapper e fprintf_IDX ''vfprintf'' ([Handle stream, Text fmt] @ vals)
       (\<lambda>l r s. LEAVE_IOFUNC e fprintf_IDX l (r = 0) (stream_fd e stream s) (word_of_int r) s)"

section \<open>Paths, locks and synchronization\<close>

definition unlink_io :: "'p ioenv \<Rightarrow> string \<Rightarrow> 'p io_state \<Rightarrow> vt_error + (int \<times> 'p io_state)" where
  "unlink_io e path = wrap_io e unlink_IDX [Text path] (\<lambda>l r. LEAVE_IOFUNC_PATH e unlink_IDX l (r \<noteq> 0) path)"

definition flockfile_io :: "'p ioenv \<Rightarrow> nat \<Rightarrow> 'p io_state \<Rightarrow> vt_error + (int \<times> 'p io_state)" where
  "flockfile_io e stream =
     wrap_io e flockfile_IDX [Handle stream]
       (\<lambda>l r s. LEAVE_IOFUNC e flockfile_IDX l False (stream_fd e stream s) 0 s)"

definition ftrylockfile_io :: "'p ioenv \<Rightarrow> nat \<Rightarrow> 'p io_state \<Rightarrow> vt_error + (int \<times> 'p io_state)" where
  "ftrylockfile_io e stream =
     wrap_io e ftrylockfile_IDX [Handle stream]
       (\<lambda>l r s. LEAVE_IOFUNC e ftrylockfile_IDX l (r \<noteq> 0) (stream_fd e stream s) 0 s)"

definition funlockfile_io :: "'p ioenv \<Rightarrow> nat \<Rightarrow> 'p io_state \<Rightarrow> vt_error + (int \<times> 'p io_state)" where
  "funlockfile_io e stream =
     wrap_io e funlockfile_IDX [Handle stream]
       (\<lambda>l r s. LEAVE_IOFUNC e funlockfile_IDX l False (stream_fd e stream s) 0 s)"

definition lockf_op :: "'p ioenv \<Rightarrow> int \<Rightarrow> u32" where
  "lockf_op e func =
     (if func = F_LOCK e \<or> func = F_TLOCK e then VT_IOOP_LOCK
      else if func = F_ULOCK e then VT_IOOP_UNLOCK else VT_IOOP_OTHER)"

text \<open>
  The end of a traced \<open>lockf\<close>: the arguments of \<open>vt_ioend\<close> behind the file are the descriptor plus one
  and the matching id, in the places of the matching id and the handle.
\<close>

definition leave_lockf :: "'p ioenv \<Rightarrow> io_locals \<Rightarrow> int \<Rightarrow> int \<Rightarrow> int \<Rightarrow> 'p io_state \<Rightarrow> vt_error + 'p io_state" where
  "leave_lockf e l r fd func s =
     (let (t, s) = io_time e s
      in andThen
           (if recorded_call l
            then andThen (get_vampir_file fd s) (\<lambda>f.
                   if vampir_file_id f \<noteq> 0
                   then io_end e (vampir_file_id f) (word_of_int fd + 1) (matching_id l)
                          (ioflag (lockf_op e func) (r \<noteq> 0)) 0 t s
                   else Inr (t, s))
            else Inr (t, s))
           (io_leave e l))"

text \<open>A test of a lock is not recorded; the memory tracing is switched on again before the call.\<close>

definition lockf_io :: "'p ioenv \<Rightarrow> int \<Rightarrow> int \<Rightarrow> int \<Rightarrow> 'p io_state \<Rightarrow> vt_error + (int \<times> 'p io_state)" where
  "lockf_io e fd func sz s =
     (if func = F_TEST e then
        andThen (INIT_IOFUNC e lockf_IDX s) (\<lambda>(en, s).
          Inr (call_libc e ''lockf'' [Number fd, Number func, Number sz]
                 (if DO_TRACE lockf_IDX s \<and> en then s\<lparr>memhooks := True\<rparr> else s)))
      else wrap_io e lockf_IDX [Number fd, Number func, Number sz] (\<lambda>l r. leave_lockf e l r fd func) s)"

definition sync_io :: "'p ioenv \<Rightarrow> 'p io_state \<Rightarrow> vt_error + (int \<times> 'p io_state)" where
  "sync_io e =
     wrap_io e sync_IDX [] (\<lambda>l r s. LEAVE_IOFUNC_CUSTOM e sync_IDX l False (all_files_fid s) 0 0 s)"

definition fflush_io :: "'p ioenv \<Rightarrow> nat \<Rightarrow> 'p io_state \<Rightarrow> vt_error + (int \<times> 'p io_state)" where
  "fflush_io e stream =
     wrap_io e fflush_IDX [Handle stream] (\<lambda>l r s.
       if stream = 0 then LEAVE_IOFUNC_CUSTOM e fflush_IDX l (r \<noteq> 0) (all_files_fid s) 0 0 s
       else LEAVE_IOFUNC e fflush_IDX l (r \<noteq> 0) (fileno e (process s) stream) 0 s)"

end
