(* ===== verification/IoProps.thy ===== *)
theory IoProps
  imports IoCalls Programs MpiTrace
begin

unbundle bit_operations_syntax

text \<open>
  The calls of the wrapped I/O functions as one predicate, what every call leaves as it was, and the
  form that the wrappers share: a call either is the same call of the library with tracing around it,
  or is not traced at all.
\<close>

section \<open>The calls\<close>

inductive io_call :: "'p ioenv \<Rightarrow> func_id \<Rightarrow> ('p io_state \<Rightarrow> vt_error + (int \<times> 'p io_state)) \<Rightarrow> bool" for e where
  "io_call e open_IDX (open_io e a b c)"
| "io_call e open64_IDX (open64_io e a b c)"
| "io_call e creat_IDX (creat_io e a b)"
| "io_call e creat64_IDX (creat64_io e a b)"
| "io_call e dup_IDX (dup_io e n)"
| "io_call e dup2_IDX (dup2_io e n m)"
| "io_call e close_IDX (close_io e n)"
| "io_call e lseek_IDX (lseek_io e n b c)"
| "io_call e lseek64_IDX (lseek64_io e n b c)"
| "io_call e read_IDX (read_io e n i j)"
| "io_call e write_IDX (write_io e n i j)"
| "io_call e readv_IDX (readv_io e n i b)"
| "io_call e writev_IDX (writev_io e n i b)"
| "io_call e pread_IDX (pread_io e n i j b)"
| "io_call e pwrite_IDX (pwrite_io e n i j b)"
| "io_call e pread64_IDX (pread64_io e n i j b)"
| "io_call e pwrite64_IDX (pwrite64_io e n i j b)"
| "io_call e fsync_IDX (fsync_io e n)"
| "io_call e fdatasync_IDX (fdatasync_io e n)"
| "io_call e fopen_IDX (fopen_io e a d)"
| "io_call e fopen64_IDX (fopen64_io e a d)"
| "io_call e fdopen_IDX (fdopen_io e n a)"
| "io_call e fclose_IDX (fclose_io e h)"
| "io_call e fseek_IDX (fseek_io e h b c)"
| "io_call e fseeko_IDX (fseeko_io e h b c)"
| "io_call e fseeko64_IDX (fseeko64_io e h b c)"
| "io_call e rewind_IDX (rewind_io e h)"
| "io_call e fsetpos_IDX (fsetpos_io e h i)"
| "io_call e fsetpos64_IDX (fsetpos64_io e h i)"
| "io_call e fread_IDX (fread_io e i j k h)"
| "io_call e fwrite_IDX (fwrite_io e i j k h)"
| "io_call e fgetc_IDX (fgetc_io e h)"
| "io_call e getc_IDX (getc_io e h)"
| "io_call e fgets_IDX (fgets_io e i b h)"
| "io_call e gets_IDX (gets_io e i)"
| "io_call e fputc_IDX (fputc_io e b h)"
| "io_call e putc_IDX (putc_io e b h)"
| "io_call e fputs_IDX (fputs_io e i h)"
| "io_call e puts_IDX (puts_io e i)"
| "io_call e fscanf_IDX (fscanf_io e h a vs)"
| "io_call e fprintf_IDX (fprintf_io e h a vs)"
| "io_call e unlink_IDX (unlink_io e a)"
| "io_call e flockfile_IDX (flockfile_io e h)"
| "io_call e ftrylockfile_IDX (ftrylockfile_io e h)"
| "io_call e funlockfile_IDX (funlockfile_io e h)"
| "io_call e lockf_IDX (lockf_io e n b c)"
| "io_call e sync_IDX (sync_io e)"
| "io_call e fflush_IDX (fflush_io e h)"

lemmas io_defs =
  open_io_def open64_io_def creat_io_def creat64_io_def dup_io_def dup2_io_def close_io_def lseek_io_def
  lseek64_io_def read_io_def write_io_def readv_io_def writev_io_def pread_io_def pwrite_io_def pread64_io_def
  pwrite64_io_def fsync_io_def fdatasync_io_def fopen_io_def fopen64_io_def fdopen_io_def fseek_io_def
  fseeko_io_def fseeko64_io_def rewind_io_def fsetpos_io_def fsetpos64_io_def fread_io_def fwrite_io_def
  fgetc_io_def getc_io_def fgets_io_def gets_io_def fputc_io_def putc_io_def fputs_io_def puts_io_def
  fscanf_io_def fprintf_io_def unlink_io_def flockfile_io_def ftrylockfile_io_def funlockfile_io_def
  sync_io_def fflush_io_def

abbreviation io_prog :: "'p ioenv \<Rightarrow> ('p io_state, int) prog \<Rightarrow> bool" where
  "io_prog e \<equiv> prog_of (\<lambda>f. \<exists>fn. io_call e fn f)"

section \<open>What the parts of a wrapper keep\<close>

definition kept_io :: "'p io_state \<Rightarrow> 'p io_state \<Rightarrow> bool" where
  "kept_io s s' \<longleftrightarrow> process s' = process s \<and> iolib_handle s' = iolib_handle s \<and> iofunctions s' = iofunctions s
     \<and> io_tracing_enabled s' = io_tracing_enabled s \<and> memhooks s' = memhooks s"

named_theorems io_parts "what the parts of an I/O wrapper keep"

lemma kept_io_refl [simp]: "kept_io s s" "kept_io s (s\<lparr>io_next_handle := n\<rparr>)" "kept_io s (s\<lparr>iotrc := v\<rparr>)"
  by (simp_all add: kept_io_def)

lemma kept_io_trans: "kept_io s t \<Longrightarrow> kept_io t u \<Longrightarrow> kept_io s u"
  by (simp add: kept_io_def)

lemma set_entry_kept [io_parts]: "set_entry fd f s = Inr s' \<Longrightarrow> kept_io s s'"
  by (auto simp: set_entry_def andThen_Inr kept_io_def split: block.splits)

lemma io_def_kept [io_parts]: "io_def f s = Inr (i, s') \<Longrightarrow> kept_io s s'"
  by (auto simp: io_def_def andThen_Inr)

lemma io_end_kept [io_parts]: "io_end e file mid h op n t s = Inr (u, s') \<Longrightarrow> kept_io s s'"
  by (auto simp: io_end_def andThen_Inr)

lemma io_time_eq: "io_time e s = (wtime (io_tenv e) (ticks (iotrc s)), s\<lparr>iotrc := (iotrc s)\<lparr>ticks := Suc (ticks (iotrc s))\<rparr>\<rparr>)"
  by (simp add: io_time_def vt_pform_wtime_def)

lemma iofile_kept [io_parts]:
  "vt_iofile_open e path fd s = Inr s' \<Longrightarrow> kept_io s s'" "vt_iofile_id e path s = Inr (i, s') \<Longrightarrow> kept_io s s'"
  "vt_iofile_dupfd old new s = Inr s' \<Longrightarrow> kept_io s s'"
  by (auto simp: vt_iofile_open_def vt_iofile_id_def vt_iofile_dupfd_def store_vampir_file_id_def andThen_Inr kept_io_def
      Let_def split: if_splits dest!: set_entry_kept [unfolded kept_io_def] io_def_kept [unfolded kept_io_def])

text \<open>
  The end of a wrapper switches memory tracing on again when it was on.
\<close>

abbreviation hooks_back :: "io_locals \<Rightarrow> 'p io_state \<Rightarrow> 'p io_state" where
  "hooks_back l s \<equiv> s\<lparr>memhooks := memhooks s \<or> enable_memhooks l\<rparr>"

lemma io_leave_kept: "io_leave e l ts = Inr s' \<Longrightarrow> kept_io (hooks_back l (snd ts)) s'"
proof -
  assume leave: "io_leave e l ts = Inr s'"
  obtain t u where ts: "ts = (t, u)"
    by fastforce
  obtain t' v where "vt_exit (io_tenv e) (io_cal e) t (iotrc u) = Inr (t', v)"
    using leave ts by (auto simp: io_leave_def andThen_Inr)
  then have "s' = (if enable_memhooks l then u\<lparr>iotrc := v, memhooks := True\<rparr> else u\<lparr>iotrc := v\<rparr>)"
    using leave ts by (simp add: io_leave_def)
  then show ?thesis
    by (simp add: kept_io_def ts)
qed

definition leaves_io :: "(io_locals \<Rightarrow> int \<Rightarrow> 'p io_state \<Rightarrow> vt_error + 'p io_state) \<Rightarrow> bool" where
  "leaves_io after \<longleftrightarrow> (\<forall>l r s s'. after l r s = Inr s' \<longrightarrow> kept_io (hooks_back l s) s')"

lemma leave_io_chain:
  assumes "andThen w (io_leave e l) = Inr s'" and "\<And>t u. w = Inr (t, u) \<Longrightarrow> kept_io s u"
  shows "kept_io (hooks_back l s) s'"
proof -
  obtain t u where "w = Inr (t, u)" "io_leave e l (t, u) = Inr s'"
    using assms(1) by (auto simp: andThen_Inr)
  then show ?thesis
    using assms(2) [of t u] io_leave_kept [of e l "(t, u)" s'] by (simp add: kept_io_def)
qed

lemma LEAVE_kept:
  "LEAVE_IOFUNC e fn l failed fd n s = Inr s' \<Longrightarrow> kept_io (hooks_back l s) s'"
  "LEAVE_IOFUNC_CUSTOM e fn l failed file h n s = Inr s' \<Longrightarrow> kept_io (hooks_back l s) s'"
  "LEAVE_IOFUNC_PATH e fn l failed path s = Inr s' \<Longrightarrow> kept_io (hooks_back l s) s'"
  "leave_lockf e l r fd func s = Inr s' \<Longrightarrow> kept_io (hooks_back l s) s'"
  unfolding LEAVE_IOFUNC_def LEAVE_IOFUNC_CUSTOM_def LEAVE_IOFUNC_PATH_def leave_lockf_def Let_def io_time_eq prod.case
  by (drule leave_io_chain [where s = "s\<lparr>iotrc := (iotrc s)\<lparr>ticks := Suc (ticks (iotrc s))\<rparr>\<rparr>"];
      auto simp: andThen_Inr kept_io_def split: if_splits dest!: io_parts [unfolded kept_io_def])+

lemma open_file_kept [io_parts]: "open_file e rec failed path fd s = Inr (x, s') \<Longrightarrow> kept_io s s'"
  by (auto simp: open_file_def andThen_Inr split: if_splits dest!: iofile_kept)

lemma LEAVE_table_kept:
  "LEAVE_IOFUNC_OPEN e fn l failed path fd s = Inr s' \<Longrightarrow> kept_io (hooks_back l s) s'"
  "LEAVE_IOFUNC_DUP e fn l failed old new s = Inr s' \<Longrightarrow> kept_io (hooks_back l s) s'"
proof -
  let ?s = "s\<lparr>iotrc := (iotrc s)\<lparr>ticks := Suc (ticks (iotrc s))\<rparr>\<rparr>"
  have chain: "kept_io (hooks_back l s) s'" if "kept_io ?s s2" and "andThen w (io_leave e l) = Inr s'"
    and "\<And>t u. w = Inr (t, u) \<Longrightarrow> kept_io s2 u" for s2 w
    using leave_io_chain [OF that(2,3)] that(1) by (simp add: kept_io_def)
  have "kept_io s2 u" if "(if b then io_end e f m h op n t s2 else Inr (t, s2)) = Inr (t', u)" for s2 b f m h op n t t' u
    using that by (auto split: if_splits dest: io_end_kept)
  note chain = chain [OF _ _ this]
  show "kept_io (hooks_back l s) s'" if leave: "LEAVE_IOFUNC_OPEN e fn l failed path fd s = Inr s'"
  proof -
    obtain f h s2 where s2: "open_file e (recorded_call l) failed path fd ?s = Inr ((f, h), s2)"
      using leave by (cases "open_file e (recorded_call l) failed path fd ?s")
        (auto simp: LEAVE_IOFUNC_OPEN_def io_time_eq)
    then show ?thesis
      using leave by (intro chain [OF open_file_kept [OF s2]]) (simp add: LEAVE_IOFUNC_OPEN_def io_time_eq)
  qed
  show "kept_io (hooks_back l s) s'" if leave: "LEAVE_IOFUNC_DUP e fn l failed old new s = Inr s'"
  proof -
    obtain f s2 where f: "get_vampir_file old ?s = Inr f"
      and s2: "(if failed then Inr ?s else vt_iofile_dupfd old new ?s) = Inr s2"
      using leave by (auto simp: LEAVE_IOFUNC_DUP_def io_time_eq andThen_Inr)
    have "kept_io ?s s2"
      using s2 by (auto split: if_splits dest: iofile_kept)
    then show ?thesis
      using leave f s2 by (intro chain) (simp_all add: LEAVE_IOFUNC_DUP_def io_time_eq split del: if_split)
  qed
qed

section \<open>Transparency\<close>

lemma init_fields:
  "INIT_IOFUNC e fn s = Inr (en, s0) \<Longrightarrow> en = memhooks s \<and> process s0 = process s \<and> \<not> memhooks s0 \<and> iotrc s0 = iotrc s
     \<and> io_tracing_enabled s0 = io_tracing_enabled s \<and> DO_TRACE fn s0 = DO_TRACE fn s"
  by (auto simp: INIT_IOFUNC_def get_iolib_handle_def init_func_def Let_def andThen_Inr DO_TRACE_def split: if_splits)

lemma init_sim:
  assumes "INIT_IOFUNC e fn s = Inr (en, s0)" and "iolib_handle u = iolib_handle s" and "iofunctions u = iofunctions s"
  shows "\<exists>u0. INIT_IOFUNC e fn u = Inr (memhooks u, u0) \<and> iolib_handle u0 = iolib_handle s0
    \<and> iofunctions u0 = iofunctions s0 \<and> process u0 = process u \<and> io_tracing_enabled u0 = io_tracing_enabled u"
  using assms
  by (auto simp: INIT_IOFUNC_def get_iolib_handle_def init_func_def Let_def andThen_Inr split: if_splits)

lemma enter_kept: "ENTER_IOFUNC e fn en s = Inr (l, s') \<Longrightarrow> kept_io s s' \<and> enable_memhooks l = en"
  by (auto simp: ENTER_IOFUNC_def Let_def split_beta andThen_Inr kept_io_def split: if_splits)

text \<open>
  What a wrapper has in common with the plain call of the library: its result, and what it leaves
  behind in the library and in the table of functions. Without tracing it is just the call.
\<close>

definition plain_call ::
  "'p ioenv \<Rightarrow> func_id \<Rightarrow> string \<Rightarrow> arg list \<Rightarrow> ('p io_state \<Rightarrow> vt_error + (int \<times> 'p io_state)) \<Rightarrow> bool" where
  "plain_call e fn name args f \<longleftrightarrow> (\<forall>s.
     (\<forall>r s'. f s = Inr (r, s') \<longrightarrow> (\<exists>s0. INIT_IOFUNC e fn s = Inr (memhooks s, s0)
        \<and> libc e name args (process s) = (r, process s') \<and> iolib_handle s' = iolib_handle s0
        \<and> iofunctions s' = iofunctions s0 \<and> io_tracing_enabled s' = io_tracing_enabled s
        \<and> memhooks s' = (memhooks s \<and> DO_TRACE fn s)))
     \<and> (\<forall>s0. \<not> io_tracing_enabled s \<longrightarrow> INIT_IOFUNC e fn s = Inr (memhooks s, s0) \<longrightarrow>
          f s = Inr (call_libc e name args s0)))"

definition io_like :: "'p ioenv \<Rightarrow> func_id \<Rightarrow> ('p io_state \<Rightarrow> vt_error + (int \<times> 'p io_state)) \<Rightarrow> bool" where
  "io_like e fn f \<longleftrightarrow> (\<exists>name args. plain_call e fn name args f)"

lemma plain_callD:
  assumes "plain_call e fn name args f"
  shows "f s = Inr (r, s') \<Longrightarrow> \<exists>s0. INIT_IOFUNC e fn s = Inr (memhooks s, s0)
        \<and> libc e name args (process s) = (r, process s') \<and> iolib_handle s' = iolib_handle s0
        \<and> iofunctions s' = iofunctions s0 \<and> io_tracing_enabled s' = io_tracing_enabled s
        \<and> memhooks s' = (memhooks s \<and> DO_TRACE fn s)"
    and "\<not> io_tracing_enabled s \<Longrightarrow> INIT_IOFUNC e fn s = Inr (memhooks s, s0) \<Longrightarrow> f s = Inr (call_libc e name args s0)"
  using assms unfolding plain_call_def by blast+

lemma wrapper_like:
  assumes "\<And>s. leaves_io (after s)"
  shows "io_like e fn (\<lambda>s. io_wrapper e fn name args (after s) s)"
  unfolding io_like_def plain_call_def
proof (intro exI [of _ name] exI [of _ args] allI conjI impI)
  fix s r s'
  assume run: "io_wrapper e fn name args (after s) s = Inr (r, s')"
  then obtain s0 where s0: "INIT_IOFUNC e fn s = Inr (memhooks s, s0)"
    using init_fields [of e fn s] by (auto simp: io_wrapper_def andThen_Inr)
  note f0 = init_fields [OF s0]
  show "\<exists>s0. INIT_IOFUNC e fn s = Inr (memhooks s, s0) \<and> libc e name args (process s) = (r, process s')
    \<and> iolib_handle s' = iolib_handle s0 \<and> iofunctions s' = iofunctions s0 \<and> io_tracing_enabled s' = io_tracing_enabled s
    \<and> memhooks s' = (memhooks s \<and> DO_TRACE fn s)"
  proof (cases "DO_TRACE fn s")
    case False
    then show ?thesis
      using run s0 f0 by (auto simp: io_wrapper_def call_libc_def split_beta)
  next
    case True
    then obtain l s1 where 1: "ENTER_IOFUNC e fn (memhooks s) s0 = Inr (l, s1)"
      using run s0 f0 by (auto simp: io_wrapper_def andThen_Inr)
    obtain q p where 2: "libc e name args (process s1) = (q, p)"
      by fastforce
    have 3: "after s l q (s1\<lparr>process := p\<rparr>) = Inr s'" "q = r"
      using run s0 f0 True 1 2 by (auto simp: io_wrapper_def andThen_Inr call_libc_def)
    have "kept_io (hooks_back l (s1\<lparr>process := p\<rparr>)) s'"
      using assms 3 unfolding leaves_io_def by blast
    then show ?thesis
      using enter_kept [OF 1] 2 3(2) s0 f0 True by (auto simp: kept_io_def)
  qed
next
  fix s s0
  assume "\<not> io_tracing_enabled s" and "INIT_IOFUNC e fn s = Inr (memhooks s, s0)"
  then show "io_wrapper e fn name args (after s) s = Inr (call_libc e name args s0)"
    using init_fields [of e fn s "memhooks s" s0] by (simp add: io_wrapper_def DO_TRACE_def)
qed

lemma leaves_io_macros:
  "leaves_io (\<lambda>l r. LEAVE_IOFUNC e fn l (failed r) fd (n r))"
  "leaves_io (\<lambda>l r s. LEAVE_IOFUNC e fn l (failed r) (fd2 r s) (n r) s)"
  "leaves_io (\<lambda>l r s. LEAVE_IOFUNC_OPEN e fn l (failed r) path (fd2 r s) s)"
  "leaves_io (\<lambda>l r. LEAVE_IOFUNC_OPEN e fn l (failed r) path r)"
  "leaves_io (\<lambda>l r. LEAVE_IOFUNC_DUP e fn l (failed r) old r)"
  "leaves_io (\<lambda>l r. LEAVE_IOFUNC_PATH e fn l (failed r) path)"
  "leaves_io (\<lambda>l r s. LEAVE_IOFUNC_CUSTOM e fn l (failed r) (file s) h m s)"
  "leaves_io (\<lambda>l r s. if b then LEAVE_IOFUNC_CUSTOM e fn l (failed r) (file s) h m s
     else LEAVE_IOFUNC e fn l (failed r) (fd2 r s) m s)"
  "leaves_io (\<lambda>l r s. andThen (strlen_io e str s) (\<lambda>k. LEAVE_IOFUNC e fn l (failed r) (fd2 r s) k s))"
  "leaves_io (\<lambda>l r. leave_lockf e l r x func)"
  by (auto simp: leaves_io_def andThen_Inr dest: LEAVE_kept LEAVE_table_kept)

lemma lockf_like: "io_like e lockf_IDX (lockf_io e fd func sz)"
proof (cases "func = F_TEST e")
  case True
  let ?args = "[Number fd, Number func, Number sz]"
  have call: "lockf_io e fd func sz s = Inr (call_libc e ''lockf'' ?args (s0\<lparr>memhooks := memhooks s \<and> DO_TRACE lockf_IDX s\<rparr>))"
    if "INIT_IOFUNC e lockf_IDX s = Inr (memhooks s, s0)" for s s0
  proof -
    have same: "s0\<lparr>memhooks := False\<rparr> = s0"
      using init_fields [OF that] by (cases s0) simp
    show ?thesis
      using that init_fields [OF that] True by (auto simp: lockf_io_def same)
  qed
  have init: "\<exists>s0. INIT_IOFUNC e lockf_IDX s = Inr (memhooks s, s0)" if "lockf_io e fd func sz s = Inr x" for s x
    using that True init_fields [of e lockf_IDX s] by (auto simp: lockf_io_def andThen_Inr)
  show ?thesis
    unfolding io_like_def plain_call_def
  proof (intro exI [of _ "''lockf''"] exI [of _ ?args] allI conjI impI)
    fix s r s'
    assume run: "lockf_io e fd func sz s = Inr (r, s')"
    obtain s0 where s0: "INIT_IOFUNC e lockf_IDX s = Inr (memhooks s, s0)"
      using init [OF run] ..
    show "\<exists>s0. INIT_IOFUNC e lockf_IDX s = Inr (memhooks s, s0) \<and> libc e ''lockf'' ?args (process s) = (r, process s')
      \<and> iolib_handle s' = iolib_handle s0 \<and> iofunctions s' = iofunctions s0 \<and> io_tracing_enabled s' = io_tracing_enabled s
      \<and> memhooks s' = (memhooks s \<and> DO_TRACE lockf_IDX s)"
      using run s0 init_fields [OF s0] unfolding call [OF s0] by (auto simp: call_libc_def split: prod.splits)
  next
    fix s s0
    assume off: "\<not> io_tracing_enabled s" and s0: "INIT_IOFUNC e lockf_IDX s = Inr (memhooks s, s0)"
    have "s0\<lparr>memhooks := False\<rparr> = s0"
      using init_fields [OF s0] by (cases s0) simp
    then show "lockf_io e fd func sz s = Inr (call_libc e ''lockf'' ?args s0)"
      using off unfolding call [OF s0] by (simp add: DO_TRACE_def)
  qed
next
  case False
  then have "lockf_io e fd func sz =
      (\<lambda>s. wrap_io e lockf_IDX [Number fd, Number func, Number sz] (\<lambda>l r. leave_lockf e l r fd func) s)"
    by (simp add: lockf_io_def fun_eq_iff)
  then show ?thesis
    using wrapper_like [of "\<lambda>_ l r. leave_lockf e l r fd func", OF leaves_io_macros(10)] by simp
qed

lemma fclose_like: "io_like e fclose_IDX (fclose_io e h)"
proof -
  have eq: "fclose_io e h =
      (\<lambda>s. wrap_io e fclose_IDX [Handle h] (\<lambda>l r. LEAVE_IOFUNC e fclose_IDX l (r = - 1) (stream_fd e h s) 0) s)"
    by (simp add: fclose_io_def fun_eq_iff Let_def)
  show ?thesis
    unfolding eq by (rule wrapper_like) (rule leaves_io_macros(1))
qed

lemma io_call_like: "io_call e fn f \<Longrightarrow> io_like e fn f"
  by (cases rule: io_call.cases, assumption;
    simp only: lockf_like fclose_like io_defs;
    rule wrapper_like [of "\<lambda>_. after" for after], rule leaves_io_macros)

end
