(* ===== verification/IoTable.thy ===== *)
theory IoTable
  imports IoProps
begin

text \<open>
  What the wrappers of I/O functions do to the table of file descriptors: only opening and duplicating
  change it, an entry at a time, and every change takes a fresh handle.
\<close>

section \<open>The steps of the table\<close>

type_synonym table = "vampir_file list block \<times> int \<times> u64"

definition table_of :: "'p io_state \<Rightarrow> table" where
  "table_of s = (fd_to_vampirid s, max_open_files s, io_next_handle s)"

definition table_step :: "table \<Rightarrow> table \<Rightarrow> bool" where
  "table_step T T' \<longleftrightarrow> T' = T \<or>
     (\<exists>fs m k i f. T = (Block fs, m, k) \<and> i < length fs \<and> T' = (Block (fs[i := f\<lparr>vampir_handle := k\<rparr>]), m, k + 1))"

lemma table_of_simps [simp]:
  "table_of (s\<lparr>iotrc := v\<rparr>) = table_of s" "table_of (s\<lparr>process := p\<rparr>) = table_of s" "table_of (s\<lparr>memhooks := b\<rparr>) = table_of s"
  "table_of (s\<lparr>iotrc := v, memhooks := b\<rparr>) = table_of s" "table_of (s\<lparr>io_next_matchingid := n, iotrc := v\<rparr>) = table_of s"
  "table_of (s\<lparr>iolib_handle := b\<rparr>) = table_of s" "table_of (s\<lparr>iofunctions := g\<rparr>) = table_of s"
  "table_of (s\<lparr>io_next_matchingid := n\<rparr>) = table_of s"
  by (simp_all add: table_of_def)

lemma step_refl [simp]: "table_step T T"
  by (simp add: table_step_def)

lemma set_entry_step:
  assumes "set_entry fd (f\<lparr>vampir_handle := io_next_handle s\<rparr>) (s\<lparr>io_next_handle := io_next_handle s + 1\<rparr>) = Inr s'"
  shows "table_step (table_of s) (table_of s')"
proof -
  obtain fs where fs: "fd_to_vampirid s = Block fs" "nat fd < length fs"
    using assms by (auto simp: set_entry_def entry_of_def andThen_Inr split: if_splits block.splits)
  then have "table_of s' = (Block (fs[nat fd := f\<lparr>vampir_handle := io_next_handle s\<rparr>]), max_open_files s, io_next_handle s + 1)"
    using assms by (auto simp: set_entry_def andThen_Inr table_of_def)
  then show ?thesis
    using fs by (auto simp: table_step_def table_of_def)
qed

named_theorems io_tabs "what the parts of an I/O wrapper do to the table"

lemma io_def_tab [io_tabs]: "io_def f s = Inr (i, s') \<Longrightarrow> table_of s' = table_of s \<and> io_next_handle s' = io_next_handle s"
  by (auto simp: io_def_def andThen_Inr)

lemma io_end_tab [io_tabs]: "io_end e file mid h op n t s = Inr (u, s') \<Longrightarrow> table_of s' = table_of s"
  by (auto simp: io_end_def andThen_Inr)

lemma iofile_tab [io_tabs]:
  "vt_iofile_open e path fd s = Inr s' \<Longrightarrow> table_step (table_of s) (table_of s')"
  "vt_iofile_dupfd old new s = Inr s' \<Longrightarrow> table_step (table_of s) (table_of s')"
  "vt_iofile_id e path s = Inr (i, s') \<Longrightarrow> table_of s' = table_of s"
proof -
  show "table_step (table_of s) (table_of s')" if opened: "vt_iofile_open e path fd s = Inr s'"
  proof -
    obtain gid i s1 where 1: "io_def (vt_def_file (io_tenv e) (io_cal e) path gid) s = Inr (i, s1)"
      and 2: "store_vampir_file_id fd i gid s1 = Inr s'"
      using opened by (auto simp: vt_iofile_open_def Let_def andThen_Inr split: if_splits)
    obtain f where "set_entry fd (f\<lparr>vampir_file_id := i, vampir_file_group_id := gid, vampir_handle := io_next_handle s1\<rparr>)
        (s1\<lparr>io_next_handle := io_next_handle s1 + 1\<rparr>) = Inr s'"
      using 2 by (auto simp: store_vampir_file_id_def andThen_Inr)
    then have "table_step (table_of s1) (table_of s')"
      by (rule set_entry_step [where f = "f\<lparr>vampir_file_id := i, vampir_file_group_id := gid\<rparr>"])
    then show ?thesis
      using io_def_tab [OF 1] by simp
  qed
  show "table_step (table_of s) (table_of s')" if "vt_iofile_dupfd old new s = Inr s'"
    using that by (auto simp: vt_iofile_dupfd_def andThen_Inr split: if_splits intro: set_entry_step)
  show "table_of s' = table_of s" if "vt_iofile_id e path s = Inr (i, s')"
    using that by (auto simp: vt_iofile_id_def dest: io_def_tab)
qed

section \<open>The steps of the wrappers\<close>

definition leaves_table :: "(table \<Rightarrow> table \<Rightarrow> bool) \<Rightarrow> (io_locals \<Rightarrow> int \<Rightarrow> 'p io_state \<Rightarrow> vt_error + 'p io_state) \<Rightarrow> bool" where
  "leaves_table R after \<longleftrightarrow> (\<forall>l r s s'. after l r s = Inr s' \<longrightarrow> R (table_of s) (table_of s'))"

definition moves_table :: "(table \<Rightarrow> table \<Rightarrow> bool) \<Rightarrow> ('p io_state \<Rightarrow> vt_error + (int \<times> 'p io_state)) \<Rightarrow> bool" where
  "moves_table R f \<longleftrightarrow> (\<forall>s r s'. f s = Inr (r, s') \<longrightarrow> R (table_of s) (table_of s'))"

lemma io_leave_tab [io_tabs]: "io_leave e l (t, s) = Inr s' \<Longrightarrow> table_of s' = table_of s"
  by (auto simp: io_leave_def andThen_Inr)

lemma init_tab: "INIT_IOFUNC e fn s = Inr (en, s0) \<Longrightarrow> table_of s0 = table_of s"
  by (auto simp: INIT_IOFUNC_def get_iolib_handle_def init_func_def Let_def andThen_Inr split: if_splits)

lemma enter_tab: "ENTER_IOFUNC e fn en s = Inr (l, s') \<Longrightarrow> table_of s' = table_of s"
  by (auto simp: ENTER_IOFUNC_def Let_def split_beta andThen_Inr split: if_splits)

lemma wrapper_moves:
  assumes refl: "\<And>T. R T T" and after: "\<And>s. leaves_table R (after s)"
  shows "moves_table R (\<lambda>s. io_wrapper e fn name args (after s) s)"
  unfolding moves_table_def
proof (intro allI impI)
  fix s r s'
  assume run: "io_wrapper e fn name args (after s) s = Inr (r, s')"
  then obtain en s0 where s0: "INIT_IOFUNC e fn s = Inr (en, s0)"
    by (auto simp: io_wrapper_def andThen_Inr)
  show "R (table_of s) (table_of s')"
  proof (cases "DO_TRACE fn s0")
    case False
    then have "table_of s' = table_of s"
      using run s0 init_tab [OF s0] by (auto simp: io_wrapper_def call_libc_def split: prod.splits)
    then show ?thesis
      by (simp only: refl)
  next
    case True
    then obtain l s1 where 1: "ENTER_IOFUNC e fn en s0 = Inr (l, s1)"
      using run s0 by (auto simp: io_wrapper_def andThen_Inr)
    obtain q p where 2: "libc e name args (process s1) = (q, p)"
      by fastforce
    have "after s l q (s1\<lparr>process := p\<rparr>) = Inr s'"
      using run s0 True 1 2 by (auto simp: io_wrapper_def andThen_Inr call_libc_def)
    then have "R (table_of s1) (table_of s')"
      using after [of s] unfolding leaves_table_def by fastforce
    then show ?thesis
      using init_tab [OF s0] enter_tab [OF 1] by simp
  qed
qed

lemma end_chain:
  assumes "andThen (if b then io_end e file mid h op n t s else Inr (t, s)) (io_leave e l) = Inr s'"
  shows "table_of s' = table_of s"
  using assms by (auto simp: andThen_Inr split: if_splits dest!: io_tabs)

lemma LEAVE_tab:
  "LEAVE_IOFUNC e fn l failed fd n s = Inr s' \<Longrightarrow> table_of s' = table_of s"
  "LEAVE_IOFUNC_CUSTOM e fn l failed file h n s = Inr s' \<Longrightarrow> table_of s' = table_of s"
  "LEAVE_IOFUNC_PATH e fn l failed path s = Inr s' \<Longrightarrow> table_of s' = table_of s"
  "leave_lockf e l r fd func s = Inr s' \<Longrightarrow> table_of s' = table_of s"
  unfolding LEAVE_IOFUNC_def LEAVE_IOFUNC_CUSTOM_def LEAVE_IOFUNC_PATH_def leave_lockf_def Let_def io_time_eq prod.case
  by (auto simp: andThen_Inr split: if_splits dest!: io_tabs)

lemma LEAVE_step:
  "LEAVE_IOFUNC_OPEN e fn l failed path fd s = Inr s' \<Longrightarrow> table_step (table_of s) (table_of s')"
  "LEAVE_IOFUNC_DUP e fn l failed old new s = Inr s' \<Longrightarrow> table_step (table_of s) (table_of s')"
proof -
  let ?s = "s\<lparr>iotrc := (iotrc s)\<lparr>ticks := Suc (ticks (iotrc s))\<rparr>\<rparr>"
  show "table_step (table_of s) (table_of s')" if leave: "LEAVE_IOFUNC_OPEN e fn l failed path fd s = Inr s'"
  proof -
    obtain f h s2 where s2: "open_file e (recorded_call l) failed path fd ?s = Inr ((f, h), s2)"
      and "table_of s' = table_of s2"
      using leave by (cases "open_file e (recorded_call l) failed path fd ?s")
        (auto simp: LEAVE_IOFUNC_OPEN_def io_time_eq dest!: end_chain)
    moreover have "table_step (table_of ?s) (table_of s2)"
      using s2 by (auto simp: open_file_def andThen_Inr split: if_splits dest!: iofile_tab)
    ultimately show ?thesis
      by simp
  qed
  show "table_step (table_of s) (table_of s')" if leave: "LEAVE_IOFUNC_DUP e fn l failed old new s = Inr s'"
  proof -
    obtain f where f: "get_vampir_file old ?s = Inr f"
      using leave by (cases "get_vampir_file old ?s") (auto simp: LEAVE_IOFUNC_DUP_def io_time_eq)
    obtain s2 where s2: "(if failed then Inr ?s else vt_iofile_dupfd old new ?s) = Inr s2"
      using leave f by (cases "if failed then Inr ?s else vt_iofile_dupfd old new ?s")
        (simp_all add: LEAVE_IOFUNC_DUP_def io_time_eq split del: if_split)
    have "table_of s' = table_of s2"
      using leave f s2 by (intro end_chain) (simp add: LEAVE_IOFUNC_DUP_def io_time_eq split del: if_split)
    moreover have "table_step (table_of ?s) (table_of s2)"
      using s2 by (auto split: if_splits dest!: iofile_tab)
    ultimately show ?thesis
      by simp
  qed
qed

lemma leaves_table_macros:
  "leaves_table (=) (\<lambda>l r. LEAVE_IOFUNC e fn l (failed r) fd (n r))"
  "leaves_table (=) (\<lambda>l r s. LEAVE_IOFUNC e fn l (failed r) (fd2 r s) (n r) s)"
  "leaves_table (=) (\<lambda>l r. LEAVE_IOFUNC_PATH e fn l (failed r) path)"
  "leaves_table (=) (\<lambda>l r s. LEAVE_IOFUNC_CUSTOM e fn l (failed r) (file s) h m s)"
  "leaves_table (=) (\<lambda>l r s. if b then LEAVE_IOFUNC_CUSTOM e fn l (failed r) (file s) h m s
     else LEAVE_IOFUNC e fn l (failed r) (fd2 r s) m s)"
  "leaves_table (=) (\<lambda>l r s. andThen (strlen_io e str s) (\<lambda>k. LEAVE_IOFUNC e fn l (failed r) (fd2 r s) k s))"
  "leaves_table (=) (\<lambda>l r. leave_lockf e l r x func)"
  by (auto simp: leaves_table_def andThen_Inr dest: LEAVE_tab)

lemma leaves_step_macros:
  "leaves_table table_step (\<lambda>l r s. LEAVE_IOFUNC_OPEN e fn l (failed r) path (fd2 r s) s)"
  "leaves_table table_step (\<lambda>l r. LEAVE_IOFUNC_OPEN e fn l (failed r) path r)"
  "leaves_table table_step (\<lambda>l r. LEAVE_IOFUNC_DUP e fn l (failed r) old r)"
  by (auto simp: leaves_table_def dest: LEAVE_step)

definition opens :: "func_id set" where
  "opens = {open_IDX, open64_IDX, creat_IDX, creat64_IDX, dup_IDX, dup2_IDX, fopen_IDX, fopen64_IDX}"

lemma fclose_moves: "moves_table (=) (fclose_io e h)"
proof -
  have eq: "fclose_io e h =
      (\<lambda>s. wrap_io e fclose_IDX [Handle h] (\<lambda>l r. LEAVE_IOFUNC e fclose_IDX l (r = - 1) (stream_fd e h s) 0) s)"
    by (simp add: fclose_io_def fun_eq_iff Let_def)
  show ?thesis
    unfolding eq by (rule wrapper_moves) (rule refl leaves_table_macros(1))+
qed

lemma lockf_moves: "moves_table (=) (lockf_io e fd func sz)"
proof (cases "func = F_TEST e")
  case True
  show ?thesis
    unfolding moves_table_def
  proof (intro allI impI)
    fix s r s'
    assume run: "lockf_io e fd func sz s = Inr (r, s')"
    obtain en s0 where s0: "INIT_IOFUNC e lockf_IDX s = Inr (en, s0)"
      using run True by (cases "INIT_IOFUNC e lockf_IDX s") (auto simp: lockf_io_def)
    have "s' = snd (call_libc e ''lockf'' [Number fd, Number func, Number sz]
        (if DO_TRACE lockf_IDX s0 \<and> en then s0\<lparr>memhooks := True\<rparr> else s0))"
      using run True s0 by (simp add: lockf_io_def split del: if_split)
    then show "table_of s = table_of s'"
      using init_tab [OF s0] by (simp add: call_libc_def split_beta)
  qed
next
  case False
  then have "lockf_io e fd func sz =
      (\<lambda>s. wrap_io e lockf_IDX [Number fd, Number func, Number sz] (\<lambda>l r. leave_lockf e l r fd func) s)"
    by (simp add: lockf_io_def fun_eq_iff)
  then show ?thesis
    using wrapper_moves [of "(=)" "\<lambda>_ l r. leave_lockf e l r fd func", OF refl leaves_table_macros(7)] by simp
qed

lemma io_call_keeps_table:
  assumes "io_call e fn f" and "fn \<notin> opens"
  shows "moves_table (=) f"
  using assms
proof (cases rule: io_call.cases)
qed (simp_all only: opens_def insert_iff simp_thms fclose_moves lockf_moves io_defs,
  (rule wrapper_moves [of "(=)" "\<lambda>_. after" for after], rule refl, rule leaves_table_macros)+)

lemma io_call_moves_table:
  assumes "io_call e fn f"
  shows "moves_table table_step f"
proof (cases "fn \<in> opens")
  case False
  then show ?thesis
    using io_call_keeps_table [OF assms False] by (auto simp: moves_table_def)
next
  case True
  with assms show ?thesis
    by (cases rule: io_call.cases)
      (simp_all only: opens_def insert_iff empty_iff simp_thms func_id.distinct,
       simp_all only: io_defs,
       (rule wrapper_moves [of table_step "\<lambda>_. after" for after], rule step_refl, rule leaves_step_macros)+)
qed

section \<open>The handles\<close>

text \<open>
  The invariant of the table: handles are below the next one, entries with a file have a handle, and
  no two entries share one, as long as the counter of 64 bits lasts for \<open>n\<close> more calls.
\<close>

definition handles_ok :: "nat \<Rightarrow> table \<Rightarrow> bool" where
  "handles_ok n T \<longleftrightarrow> (\<exists>fs m k. T = (Block fs, m, k) \<and> length fs = nat m \<and> 1 \<le> k \<and> unat k + n < 18446744073709551616
     \<and> (\<forall>i<length fs. vampir_handle (fs ! i) < k \<and> (vampir_file_id (fs ! i) \<noteq> 0 \<longrightarrow> vampir_handle (fs ! i) \<noteq> 0))
     \<and> (\<forall>i<length fs. \<forall>j<length fs. i \<noteq> j \<longrightarrow> vampir_handle (fs ! i) = vampir_handle (fs ! j) \<longrightarrow> vampir_handle (fs ! i) = 0))"

lemma handles_ok_weaken: "handles_ok (Suc n) T \<Longrightarrow> handles_ok n T"
  unfolding handles_ok_def by (elim exE conjE, intro exI conjI) (assumption | simp)+

lemma handles_ok_step:
  assumes "handles_ok (Suc n) T" and "table_step T T'"
  shows "handles_ok n T'"
proof (cases "T' = T")
  case True
  then show ?thesis
    using assms(1) handles_ok_weaken by simp
next
  case False
  then obtain fs m k i f where T: "T = (Block fs, m, k)" "i < length fs"
    "T' = (Block (fs[i := f\<lparr>vampir_handle := k\<rparr>]), m, k + 1)"
    using assms(2) False unfolding table_step_def by blast
  have k: "unat (k + 1) = Suc (unat k)" "1 \<le> k" "unat k + Suc n < 18446744073709551616"
    using assms(1) T(1) by (auto simp: handles_ok_def unat_word_ariths(1))
  have less: "x < k + 1" if "x < k" for x
    using that k(1) by (simp add: word_less_nat_alt)
  have "k < k + 1" "k \<noteq> 0" "1 \<le> k + 1"
    using k by (auto simp: word_less_nat_alt word_le_nat_alt)
  then show ?thesis
    using assms(1) T k less unfolding handles_ok_def
    by (auto simp: nth_list_update)
qed

interpretation io_handles: invariant_calls "moves_table table_step" "\<lambda>n s. handles_ok n (table_of s)"
  by unfold_locales (use handles_ok_step in \<open>auto simp: moves_table_def\<close>)

lemma init_handles:
  assumes init: "vt_iowrap_init e s = Inr s'" and first: "\<not> lib_inited s" "io_next_handle s = 1"
    and n: "n < 18446744073709551612"
  shows "handles_ok n (table_of s')"
proof -
  obtain m where m: "get_max_open_files e = Inr m" "malloc_ok e (word_of_int m * 24)"
    using init first by (auto simp: vt_iowrap_init_def andThen_Inr split: if_splits)
  let ?s0 = "s\<lparr>lib_inited := True, max_open_files := m, fd_to_vampirid := Block (replicate (nat m) no_vampir_file)\<rparr>"
  have tabs: "table_of (u\<lparr>file_group_id_stdio := g\<rparr>) = table_of u" "table_of (u\<lparr>file_group_id_rest := g\<rparr>) = table_of u"
    "table_of (u\<lparr>all_files_fid := g\<rparr>) = table_of u" "table_of (u\<lparr>invalid_fd_fid := g\<rparr>) = table_of u"
    "table_of (u\<lparr>unknown_fd_vampir_file := f\<rparr>) = table_of u" for u :: "'a io_state" and g f
    by (simp_all add: table_of_def)
  have lib: "get_iolib_handle e u = Inr v \<Longrightarrow> table_of v = table_of u" for u v
    by (auto simp: get_iolib_handle_def Let_def split: if_splits)
  have funcs: "each (init_func e) xs u = Inr v \<Longrightarrow> table_of v = table_of u" for xs u v
    by (induction xs arbitrary: u) (auto simp: andThen_Inr init_func_def split: if_splits)
  have ok: "handles_ok (Suc (Suc (Suc n))) (table_of ?s0)"
    using first(2) n by (auto simp: handles_ok_def table_of_def no_vampir_file_def)
  obtain g0 s1 g1 s2 where "io_def (vt_def_file_group (io_tenv e) (io_cal e) ''stdio'') ?s0 = Inr (g0, s1)"
    "io_def (vt_def_file_group (io_tenv e) (io_cal e) ''fileio'') (s1\<lparr>file_group_id_stdio := g0\<rparr>) = Inr (g1, s2)"
    and s2: "table_of s2 = table_of ?s0"
    and rest: "andThen (vt_iofile_open e ''<STDIN>'' 0 (s2\<lparr>file_group_id_rest := g1\<rparr>)) (\<lambda>s.
        andThen (vt_iofile_open e ''<STDOUT>'' 1 s) (\<lambda>s.
        andThen (vt_iofile_open e ''<STDERR>'' 2 s) (\<lambda>s.
        andThen (vt_iofile_id e ''<ALL OPEN FILES>'' s) (\<lambda>(i, s).
        andThen (vt_iofile_id e ''<INVALID FILE (fd==-1)>'' (s\<lparr>all_files_fid := i\<rparr>)) (\<lambda>(i, s).
        andThen (vt_iofile_id e ''<UNKNOWN FILE DESCRIPTOR>'' (s\<lparr>invalid_fd_fid := i\<rparr>)) (\<lambda>(i, s).
        andThen (get_iolib_handle e (s\<lparr>unknown_fd_vampir_file := (unknown_fd_vampir_file s)
                   \<lparr>vampir_file_id := i, vampir_handle := 0, vampir_matchingid := 0\<rparr>\<rparr>))
          (each (init_func e) (io_functions e)))))))) = Inr s'"
  proof -
    obtain g0 s1 where 1: "io_def (vt_def_file_group (io_tenv e) (io_cal e) ''stdio'') ?s0 = Inr (g0, s1)"
      using init first(1) m by (cases "io_def (vt_def_file_group (io_tenv e) (io_cal e) ''stdio'') ?s0")
        (auto simp: vt_iowrap_init_def)
    obtain g1 s2 where 2: "io_def (vt_def_file_group (io_tenv e) (io_cal e) ''fileio'') (s1\<lparr>file_group_id_stdio := g0\<rparr>) = Inr (g1, s2)"
      using init first(1) m 1 by (cases "io_def (vt_def_file_group (io_tenv e) (io_cal e) ''fileio'') (s1\<lparr>file_group_id_stdio := g0\<rparr>)")
        (auto simp: vt_iowrap_init_def)
    show thesis
      using that [OF 1 2] init first(1) m 1 2 io_def_tab [OF 1] io_def_tab [OF 2] by (simp add: vt_iowrap_init_def tabs)
  qed
  obtain a b c where abc: "vt_iofile_open e ''<STDIN>'' 0 (s2\<lparr>file_group_id_rest := g1\<rparr>) = Inr a"
    "vt_iofile_open e ''<STDOUT>'' 1 a = Inr b" "vt_iofile_open e ''<STDERR>'' 2 b = Inr c" and s': "table_of s' = table_of c"
    using rest by (auto simp: andThen_Inr tabs dest!: iofile_tab(3) lib funcs)
  have "table_step (table_of ?s0) (table_of a)"
    using iofile_tab(1) [OF abc(1)] s2 by (simp only: tabs)
  then show ?thesis
    unfolding s' using ok iofile_tab(1) [OF abc(2)] iofile_tab(1) [OF abc(3)] handles_ok_step by blast
qed

end
