(* ===== verification/IoTrace.thy ===== *)
theory IoTrace
  imports IoTable
begin

unbundle bit_operations_syntax

text \<open>
  What a traced I/O call leaves in the buffer, where the buffer has room for it, and how a traced run is
  simulated by one that is not traced.
\<close>

section \<open>Entering and leaving\<close>

abbreviation io_begin_entry :: "u64 \<Rightarrow> u64 \<Rightarrow> entry" where
  "io_begin_entry t mid \<equiv> Event (BeginFileOperation t mid 0)"

abbreviation io_end_entry :: "u64 \<Rightarrow> u32 \<Rightarrow> u64 \<Rightarrow> u64 \<Rightarrow> u32 \<Rightarrow> u64 \<Rightarrow> entry" where
  "io_end_entry t file mid h op n \<equiv> Event (EndFileOperation t file mid h op (ucast n) 0)"

lemma write_io_room:
  assumes "trace_on v" and "trace_status v = VT_TRACE_ON"
  shows "room [io_begin_entry t mid] (buf (gen v)) \<Longrightarrow>
      vt_iobegin c mid t v = Inr (t, set_buf (puts [io_begin_entry t mid] (buf (gen v))) v)"
    and "room [io_end_entry t file mid h op n] (buf (gen v)) \<Longrightarrow>
      vt_ioend c file mid h op n t v = Inr (t, set_buf (puts [io_end_entry t file mid h op n] (buf (gen v))) v)"
  using assms write_event_room [of "\<lambda>t. io_begin_entry t mid" t v c]
    write_event_room [of "\<lambda>t. io_end_entry t file mid h op n" t v c]
  by (simp_all add: vt_iobegin_def vt_ioend_def if_on_def VTGen_write_BEGIN_FILE_OPERATION_def
      VTGen_write_END_FILE_OPERATION_def trace_event_def without_sum_def del: puts.simps)

abbreviation io_region :: "func_id \<Rightarrow> 'p io_state \<Rightarrow> u32" where
  "io_region fn s \<equiv> vt_func_id (iofunctions s fn)"

lemma enter_io_spec:
  assumes ok: "tracer_ok (Suc h) (iotrc s)" and known: "tab (tracer_of (iotrc s)) (io_region fn s) \<noteq> None"
    and sp: "spec_enter (io_tenv e) True (io_region fn s) t (tracer_of (iotrc s)) = (True, es, a)"
    and on: "trace_status (iotrc s) = VT_TRACE_ON"
    and t: "t = wtime (io_tenv e) (ticks (iotrc s))"
    and rm: "room (es @ [io_begin_entry t (io_next_matchingid s)]) (buf (gen (iotrc s)))"
  shows "\<exists>v. ENTER_IOFUNC e fn en s = Inr (\<lparr>enable_memhooks = en, recorded_call = True, matching_id = io_next_matchingid s\<rparr>,
        s\<lparr>io_next_matchingid := io_next_matchingid s + 1, iotrc := v\<rparr>)
    \<and> tracer_ok h v \<and> tracer_of v = a
    \<and> buf (gen v) = puts (es @ [io_begin_entry t (io_next_matchingid s)]) (buf (gen (iotrc s)))
    \<and> same_rest ((iotrc s)\<lparr>ticks := Suc (ticks (iotrc s))\<rparr>) v
    \<and> callstack v = callstack (iotrc s)
        @ [\<lparr>rinf = io_region fn s, climitbypush = callLimitCD (the (tab a (io_region fn s)))\<rparr>]"
proof -
  let ?v = "(iotrc s)\<lparr>ticks := Suc (ticks (iotrc s))\<rparr>"
  obtain v where v: "vt_enter (io_tenv e) (io_cal e) (io_region fn s) t ?v = Inr (True, t, v)"
    "tracer_ok h v" "tracer_of v = a" "buf (gen v) = puts es (buf (gen (iotrc s)))" "same_rest ?v v"
    "callstack v = callstack (iotrc s)
        @ [\<lparr>rinf = io_region fn s, climitbypush = callLimitCD (the (tab a (io_region fn s)))\<rparr>]"
    using enter_spec [of h ?v "io_region fn s" "io_tenv e" t True es a "io_cal e"] ok known sp on room_app(1) [OF rm]
    by auto
  have "trace_on v" "trace_status v = VT_TRACE_ON"
    using v(2,5) on by (simp_all add: tracer_ok_def same_rest_def)
  then have "vt_iobegin (io_cal e) (io_next_matchingid s) t v =
      Inr (t, set_buf (puts [io_begin_entry t (io_next_matchingid s)] (buf (gen v))) v)"
    using room_app(2) [OF rm] v(4) by (intro write_io_room) simp_all
  then show ?thesis
    using v by (intro exI [of _ "set_buf (puts [io_begin_entry t (io_next_matchingid s)] (buf (gen v))) v"])
      (simp add: ENTER_IOFUNC_def vt_pform_wtime_def t same_rest_def Let_def del: puts.simps)
qed

lemma end_io_spec:
  assumes ok: "tracer_ok h (iotrc s)" and on: "trace_status (iotrc s) = VT_TRACE_ON"
    and stack: "callstack (iotrc s) = st @ [c]" "climitbypush c \<noteq> 0" "stack_level (iotrc s) \<le> max_stack_depth (io_tenv e)"
    and rm: "room [io_end_entry t file mid k op n, Event (Leave t 0 0)] (buf (gen (iotrc s)))"
  shows "\<exists>v. andThen (io_end e file mid k op n t s) (io_leave e l) =
        Inr (s\<lparr>iotrc := v, memhooks := memhooks s \<or> enable_memhooks l\<rparr>)
    \<and> tracer_ok (Suc h) v \<and> tracer_of v = (tracer_of (iotrc s))\<lparr>level := stack_level (iotrc s) - 1\<rparr>
    \<and> buf (gen v) = puts [io_end_entry t file mid k op n, Event (Leave t 0 0)] (buf (gen (iotrc s)))
    \<and> same_rest (iotrc s) v \<and> callstack v = st"
proof -
  let ?b = "puts [io_end_entry t file mid k op n] (buf (gen (iotrc s)))"
  let ?v = "set_buf ?b (iotrc s)"
  have rm2: "room [io_end_entry t file mid k op n] (buf (gen (iotrc s)))" "room [Event (Leave t 0 0)] ?b"
    using room_app [of "[io_end_entry t file mid k op n]" "[Event (Leave t 0 0)]"] rm by simp_all
  have 1: "io_end e file mid k op n t s = Inr (t, s\<lparr>iotrc := ?v\<rparr>)"
    using ok on rm2(1) write_io_room(2) [of "iotrc s"] by (simp add: io_end_def tracer_ok_def del: puts.simps)
  obtain v where v: "vt_exit (io_tenv e) (io_cal e) t ?v = Inr (t, v)" "tracer_ok (Suc h) v"
    "tracer_of v = (tracer_of ?v)\<lparr>level := stack_level ?v - 1\<rparr>"
    "buf (gen v) = puts [Event (Leave t 0 0)] (buf (gen ?v))" "same_rest ?v v" "callstack v = st"
    using exit_spec [of h ?v st c True "io_tenv e" t "io_cal e"] ok on stack rm2(2) by (auto simp del: puts.simps)
  have "io_leave e l (t, s\<lparr>iotrc := ?v\<rparr>) = Inr (s\<lparr>iotrc := v, memhooks := memhooks s \<or> enable_memhooks l\<rparr>)"
    using v(1) by (cases s) (simp add: io_leave_def del: puts.simps)
  then show ?thesis
    using v 1 by (intro exI [of _ v]) (simp add: same_rest_def)
qed

text \<open>A traced call whose wrapper goes on to record the operation and leaves the tables as they are.\<close>

lemma traced_io:
  fixes s :: "'p io_state"
  assumes on: "DO_TRACE fn s" "lib_func (iofunctions s fn)" "trace_status (iotrc s) = VT_TRACE_ON"
    and ok: "tracer_ok (Suc h) (iotrc s)" and known: "tab (tracer_of (iotrc s)) (io_region fn s) \<noteq> None"
    and t: "t = wtime (io_tenv e) (ticks (iotrc s))" "u = wtime (io_tenv e) (Suc (ticks (iotrc s)))"
    and sp: "spec_enter (io_tenv e) True (io_region fn s) t (tracer_of (iotrc s)) = (True, es, a)"
    and lib: "libc e name args (process s) = (r, p)"
    and st: "\<And>v. st v = s\<lparr>memhooks := False, io_next_matchingid := io_next_matchingid s + 1, process := p, iotrc := v\<rparr>"
    and after: "\<And>v l. l = \<lparr>enable_memhooks = memhooks s, recorded_call = True, matching_id = io_next_matchingid s\<rparr> \<Longrightarrow>
        after l r (st v) = andThen (io_end e i mid k op n (wtime (io_tenv e) (ticks v)) (st (v\<lparr>ticks := Suc (ticks v)\<rparr>)))
          (io_leave e l)"
    and rm: "room (es @ [io_begin_entry t (io_next_matchingid s), io_end_entry u i mid k op n, Event (Leave u 0 0)])
        (buf (gen (iotrc s)))"
  shows "\<exists>v. io_wrapper e fn name args after s = Inr (r, s\<lparr>io_next_matchingid := io_next_matchingid s + 1, process := p, iotrc := v\<rparr>)
    \<and> buf (gen v) = puts (es @ [io_begin_entry t (io_next_matchingid s), io_end_entry u i mid k op n, Event (Leave u 0 0)])
        (buf (gen (iotrc s)))
    \<and> tracer_ok (Suc h) v \<and> tracer_of v = a\<lparr>level := level a - 1\<rparr> \<and> callstack v = callstack (iotrc s)
    \<and> same_rest ((iotrc s)\<lparr>ticks := Suc (Suc (ticks (iotrc s)))\<rparr>) v"
proof -
  let ?l = "\<lparr>enable_memhooks = memhooks s, recorded_call = True, matching_id = io_next_matchingid s\<rparr>"
  let ?s0 = "s\<lparr>memhooks := False\<rparr>"
  let ?c = "\<lparr>rinf = io_region fn s, climitbypush = callLimitCD (the (tab a (io_region fn s)))\<rparr>"
  have rms: "room (es @ [io_begin_entry t (io_next_matchingid s)]) (buf (gen (iotrc s)))"
    "room [io_end_entry u i mid k op n, Event (Leave u 0 0)]
      (puts (es @ [io_begin_entry t (io_next_matchingid s)]) (buf (gen (iotrc s))))"
    using room_app [of "es @ [io_begin_entry t (io_next_matchingid s)]"
        "[io_end_entry u i mid k op n, Event (Leave u 0 0)]"] rm by simp_all
  obtain v1 where v1: "ENTER_IOFUNC e fn (memhooks s) ?s0 = Inr (?l, ?s0\<lparr>io_next_matchingid := io_next_matchingid s + 1, iotrc := v1\<rparr>)"
    "tracer_ok h v1" "tracer_of v1 = a"
    "buf (gen v1) = puts (es @ [io_begin_entry t (io_next_matchingid s)]) (buf (gen (iotrc s)))"
    "same_rest ((iotrc s)\<lparr>ticks := Suc (ticks (iotrc s))\<rparr>) v1" "callstack v1 = callstack (iotrc s) @ [?c]"
    using enter_io_spec [of h ?s0 fn e t es a "memhooks s"] ok known sp on(3) t(1) rms(1) by auto
  define v2 where "v2 = v1\<lparr>ticks := Suc (ticks v1)\<rparr>"
  have f2: "tracer_ok h (iotrc (st v2))" "trace_status (iotrc (st v2)) = VT_TRACE_ON"
    "callstack (iotrc (st v2)) = callstack (iotrc s) @ [?c]" "climitbypush ?c \<noteq> 0"
    "stack_level (iotrc (st v2)) \<le> max_stack_depth (io_tenv e)"
    using v1 on(3) spec_enter_fields [OF sp] by (auto simp: v2_def st same_rest_def tracer_of_def)
  have u: "wtime (io_tenv e) (ticks v1) = u"
    using v1(5) t(2) by (simp add: same_rest_def)
  obtain v where v: "andThen (io_end e i mid k op n u (st v2)) (io_leave e ?l) =
      Inr ((st v2)\<lparr>iotrc := v, memhooks := memhooks (st v2) \<or> enable_memhooks ?l\<rparr>)"
    "tracer_ok (Suc h) v" "tracer_of v = (tracer_of v2)\<lparr>level := stack_level v2 - 1\<rparr>"
    "buf (gen v) = puts [io_end_entry u i mid k op n, Event (Leave u 0 0)] (buf (gen v2))"
    "same_rest v2 v" "callstack v = callstack (iotrc s)"
    using end_io_spec [OF f2, of u i mid k op n ?l] rms(2) v1(4) by (auto simp: st v2_def simp del: puts.simps)
  have "INIT_IOFUNC e fn s = Inr (memhooks s, ?s0)" "DO_TRACE fn ?s0"
    using on by (simp_all add: INIT_IOFUNC_def DO_TRACE_def)
  moreover have "?s0\<lparr>io_next_matchingid := io_next_matchingid s + 1, iotrc := v1, process := p\<rparr> = st v1"
    by (simp add: st)
  moreover have "after ?l r (st v1) = Inr (s\<lparr>io_next_matchingid := io_next_matchingid s + 1, process := p, iotrc := v\<rparr>)"
    using after [OF refl, of v1] v(1) u by (cases s) (simp add: st v2_def)
  ultimately have "io_wrapper e fn name args after s =
      Inr (r, s\<lparr>io_next_matchingid := io_next_matchingid s + 1, process := p, iotrc := v\<rparr>)"
    using v1(1) lib by (simp add: io_wrapper_def call_libc_def)
  moreover have "tracer_of v = a\<lparr>level := level a - 1\<rparr>"
    using v(3) v1(3) by (auto simp: v2_def tracer_of_def)
  moreover have "same_rest ((iotrc s)\<lparr>ticks := Suc (Suc (ticks (iotrc s)))\<rparr>) v"
    using v(5) v1(5) by (simp add: same_rest_def v2_def)
  ultimately show ?thesis
    using v v1(4) by (intro exI [of _ v]) (simp add: v2_def)
qed

lemma table_frame [simp]:
  "get_vampir_file fd (s\<lparr>iotrc := v\<rparr>) = get_vampir_file fd s" "file_and_handle fd (s\<lparr>iotrc := v\<rparr>) = file_and_handle fd s"
  "get_vampir_file fd (s\<lparr>process := p\<rparr>) = get_vampir_file fd s" "file_and_handle fd (s\<lparr>process := p\<rparr>) = file_and_handle fd s"
  "get_vampir_file fd (s\<lparr>memhooks := b\<rparr>) = get_vampir_file fd s" "file_and_handle fd (s\<lparr>memhooks := b\<rparr>) = file_and_handle fd s"
  "get_vampir_file fd (s\<lparr>io_next_matchingid := m\<rparr>) = get_vampir_file fd s"
  "file_and_handle fd (s\<lparr>io_next_matchingid := m\<rparr>) = file_and_handle fd s"
  by (simp_all add: file_and_handle_def get_vampir_file_def entry_of_def cong: if_cong)

lemma minus_one_bytes: "ucast (- 1 :: u64) = (4294967295 :: u32)"
  by (simp add: unsigned_minus_1_eq_mask mask_eq_exp_minus_1)

lemma fd_call_recorded:
  fixes s :: "'p io_state"
  assumes "DO_TRACE fn s" "lib_func (iofunctions s fn)" "trace_status (iotrc s) = VT_TRACE_ON"
    and "tracer_ok (Suc h) (iotrc s)" and "tab (tracer_of (iotrc s)) (io_region fn s) \<noteq> None"
    and "t = wtime (io_tenv e) (ticks (iotrc s))" "u = wtime (io_tenv e) (Suc (ticks (iotrc s)))"
    and "spec_enter (io_tenv e) True (io_region fn s) t (tracer_of (iotrc s)) = (True, es, a)"
    and "libc e name args (process s) = (r, p)" and entry: "file_and_handle fd s = Inr (file, k)"
    and "room (es @ [io_begin_entry t (io_next_matchingid s),
        io_end_entry u file (io_next_matchingid s) k (ioflag (FUNCTYPE fn) (failed r)) (n r), Event (Leave u 0 0)])
        (buf (gen (iotrc s)))"
  shows "\<exists>v. io_wrapper e fn name args (\<lambda>l r. LEAVE_IOFUNC e fn l (failed r) fd (n r)) s =
        Inr (r, s\<lparr>io_next_matchingid := io_next_matchingid s + 1, process := p, iotrc := v\<rparr>)
    \<and> buf (gen v) = puts (es @ [io_begin_entry t (io_next_matchingid s),
        io_end_entry u file (io_next_matchingid s) k (ioflag (FUNCTYPE fn) (failed r)) (n r), Event (Leave u 0 0)])
        (buf (gen (iotrc s)))
    \<and> tracer_ok (Suc h) v \<and> callstack v = callstack (iotrc s)"
proof -
  let ?st = "\<lambda>v. s\<lparr>memhooks := False, io_next_matchingid := io_next_matchingid s + 1, process := p, iotrc := v\<rparr>"
  have "LEAVE_IOFUNC e fn l (failed r) fd (n r) (?st v) =
      andThen (io_end e file (io_next_matchingid s) k (ioflag (FUNCTYPE fn) (failed r)) (n r)
        (wtime (io_tenv e) (ticks v)) (?st (v\<lparr>ticks := Suc (ticks v)\<rparr>))) (io_leave e l)"
    if "l = \<lparr>enable_memhooks = memhooks s, recorded_call = True, matching_id = io_next_matchingid s\<rparr>" for v l
    using that entry by (simp add: LEAVE_IOFUNC_def io_time_eq)
  then show ?thesis
    using traced_io [OF assms(1-9), where st = ?st and after = "\<lambda>l r. LEAVE_IOFUNC e fn l (failed r) fd (n r)"
        and k = k and op = "ioflag (FUNCTYPE fn) (failed r)" and n = "n r"] assms(11) by blast
qed

section \<open>With and without tracing\<close>

text \<open>The traced run and the run without tracing: the library and the table of functions are the same.\<close>

interpretation io_tracing: simulated_calls "\<lambda>f :: 'p io_state \<Rightarrow> vt_error + (int \<times> 'p io_state). \<exists>fn. io_call e fn f"
  "\<lambda>s (u :: 'p io_state). process u = process s \<and> iolib_handle u = iolib_handle s \<and> iofunctions u = iofunctions s \<and> \<not> io_tracing_enabled u" for e
proof unfold_locales
  fix f :: "'p io_state \<Rightarrow> vt_error + (int \<times> 'p io_state)" and s r s' and u :: "'p io_state"
  assume "\<exists>fn. io_call e fn f" and run: "f s = Inr (r, s')"
    and u: "process u = process s \<and> iolib_handle u = iolib_handle s \<and> iofunctions u = iofunctions s \<and> \<not> io_tracing_enabled u"
  then obtain fn name args where call: "plain_call e fn name args f"
    using io_call_like unfolding io_like_def by blast
  obtain s0 where s0: "INIT_IOFUNC e fn s = Inr (memhooks s, s0)" "libc e name args (process s) = (r, process s')"
    "iolib_handle s' = iolib_handle s0" "iofunctions s' = iofunctions s0"
    using plain_callD(1) [OF call run] by blast
  obtain u0 where u0: "INIT_IOFUNC e fn u = Inr (memhooks u, u0)" "iolib_handle u0 = iolib_handle s0"
    "iofunctions u0 = iofunctions s0" "process u0 = process u" "io_tracing_enabled u0 = io_tracing_enabled u"
    using init_sim [OF s0(1)] u by blast
  show "\<exists>u'. f u = Inr (r, u') \<and> process u' = process s' \<and> iolib_handle u' = iolib_handle s'
    \<and> iofunctions u' = iofunctions s' \<and> \<not> io_tracing_enabled u'"
    using plain_callD(2) [OF call _ u0(1)] u u0 s0 by (auto simp: call_libc_def)
qed

end
