(* ===== verification/IoLaws.thy ===== *)
theory IoLaws
  imports IoTrace
begin

unbundle bit_operations_syntax

text \<open>
  The properties of the wrappers of I/O functions: what they record, that they do not change what a
  program computes, the handles, the suspension of the tracing, and the places where the wrappers go
  wrong. At the end there is a process for the examples.
\<close>

section \<open>Properties\<close>

text \<open>
  C16: tracing the I/O functions does not change what a program computes. Whatever the C library does,
  and whatever I/O calls a program makes, each depending on the results of those before it: when it
  ends without an error while it is traced, it does the same calls with the same results and the same
  effect on the library when tracing is off.
\<close>

theorem io_program_unaffected:
  assumes "io_prog e prog" and "run_prog prog s = Inr (rs, s')"
  shows "\<exists>u. run_prog prog (s\<lparr>io_tracing_enabled := False\<rparr>) = Inr (rs, u) \<and> process u = process s'"
  using io_tracing.run_sim [OF assms, of "s\<lparr>io_tracing_enabled := False\<rparr>"] by auto

text \<open>
  C23: a call that is not traced switches the tracing of memory off for good: memory is traced behind
  a call exactly if it was before the call and the call is traced. The early return behind the check
  of the tracing does not restore what the beginning of the wrapper has switched off.
\<close>

theorem untraced_call_stops_memory_tracing:
  assumes "io_call e fn f" and "f s = Inr (r, s')"
  shows "memhooks s' \<longleftrightarrow> memhooks s \<and> DO_TRACE fn s"
  using io_call_like [OF assms(1)] plain_callD(1) [of e fn _ _ f s r s'] assms(2) unfolding io_like_def by blast

text \<open>
  C17: a traced call of \<open>read\<close> leaves the entries of entering the function, of the begin of an
  operation with a fresh matching id, of its end with the file and the handle that the table has for
  the descriptor, and of leaving the function. When the call fails, the end has the flag for it, and the
  number of bytes is that of the result -1 in 32 bits.
\<close>

theorem read_recorded:
  fixes s :: "'p io_state"
  assumes on: "DO_TRACE read_IDX s" "lib_func (iofunctions s read_IDX)" "trace_status (iotrc s) = VT_TRACE_ON"
    and ok: "tracer_ok (Suc h) (iotrc s)" and known: "tab (tracer_of (iotrc s)) (io_region read_IDX s) \<noteq> None"
    and t: "t = wtime (io_tenv e) (ticks (iotrc s))" "u = wtime (io_tenv e) (Suc (ticks (iotrc s)))"
    and sp: "spec_enter (io_tenv e) True (io_region read_IDX s) t (tracer_of (iotrc s)) = (True, es, a)"
    and lib: "libc e ''read'' [Number fd, Buffer bf, Number (int cnt)] (process s) = (r, p)"
    and entry: "file_and_handle fd s = Inr (file, k)"
    and new: "new = [io_begin_entry t (io_next_matchingid s),
        io_end_entry u file (io_next_matchingid s) k (ioflag VT_IOOP_READ (r = - 1)) (word_of_int r), Event (Leave u 0 0)]"
    and rm: "room (es @ new) (buf (gen (iotrc s)))"
  shows "\<exists>v. read_io e fd bf cnt s = Inr (r, s\<lparr>io_next_matchingid := io_next_matchingid s + 1, process := p, iotrc := v\<rparr>)
    \<and> buf (gen v) = puts (es @ new) (buf (gen (iotrc s))) \<and> callstack v = callstack (iotrc s)
    \<and> (r = - 1 \<longrightarrow> ucast (word_of_int r :: u64) = (4294967295 :: u32))"
proof -
  have "FUNCTYPE read_IDX = VT_IOOP_READ" "func_name read_IDX = ''read''"
    by (simp_all add: FUNCTYPE_def)
  then show ?thesis
    using fd_call_recorded [OF on ok known t sp, of "''read''" _ r p fd "file" k "\<lambda>r. r = - 1" word_of_int] lib entry rm
    unfolding read_io_def new by (auto simp: minus_one_bytes simp del: puts.simps)
qed

text \<open>
  C19: an operation on a lock is begun with the matching id of the call, but its end is recorded with
  the descriptor plus one as the matching id, and with the matching id in the place of the handle.
  So the operation that was begun is never ended, unless the two numbers are the same by chance.
\<close>

theorem lock_operation_not_ended:
  fixes s :: "'p io_state"
  assumes on: "DO_TRACE lockf_IDX s" "lib_func (iofunctions s lockf_IDX)" "trace_status (iotrc s) = VT_TRACE_ON"
    and ok: "tracer_ok (Suc h) (iotrc s)" and known: "tab (tracer_of (iotrc s)) (io_region lockf_IDX s) \<noteq> None"
    and t: "t = wtime (io_tenv e) (ticks (iotrc s))" "u = wtime (io_tenv e) (Suc (ticks (iotrc s)))"
    and sp: "spec_enter (io_tenv e) True (io_region lockf_IDX s) t (tracer_of (iotrc s)) = (True, es, a)"
    and lib: "libc e ''lockf'' [Number fd, Number func, Number sz] (process s) = (r, p)"
    and entry: "get_vampir_file fd s = Inr f" "vampir_file_id f \<noteq> 0" and func: "func \<noteq> F_TEST e"
    and new: "new = [io_begin_entry t (io_next_matchingid s),
        io_end_entry u (vampir_file_id f) (word_of_int fd + 1) (io_next_matchingid s) (ioflag (lockf_op e func) (r \<noteq> 0)) 0,
        Event (Leave u 0 0)]"
    and rm: "room (es @ new) (buf (gen (iotrc s)))"
  shows "\<exists>v. lockf_io e fd func sz s = Inr (r, s\<lparr>io_next_matchingid := io_next_matchingid s + 1, process := p, iotrc := v\<rparr>)
    \<and> buf (gen v) = puts (es @ new) (buf (gen (iotrc s)))
    \<and> (io_next_matchingid s \<noteq> word_of_int fd + 1 \<longrightarrow>
        (\<forall>w i k op n. io_end_entry w i (io_next_matchingid s) k op n \<notin> set new))"
proof -
  let ?st = "\<lambda>v. s\<lparr>memhooks := False, io_next_matchingid := io_next_matchingid s + 1, process := p, iotrc := v\<rparr>"
  have "leave_lockf e l r fd func (?st v) =
      andThen (io_end e (vampir_file_id f) (word_of_int fd + 1) (io_next_matchingid s) (ioflag (lockf_op e func) (r \<noteq> 0)) 0
        (wtime (io_tenv e) (ticks v)) (?st (v\<lparr>ticks := Suc (ticks v)\<rparr>))) (io_leave e l)"
    if "l = \<lparr>enable_memhooks = memhooks s, recorded_call = True, matching_id = io_next_matchingid s\<rparr>" for v l
    using that entry by (simp add: leave_lockf_def io_time_eq)
  note after = this
  obtain v where "io_wrapper e lockf_IDX ''lockf'' [Number fd, Number func, Number sz] (\<lambda>l r. leave_lockf e l r fd func) s =
        Inr (r, s\<lparr>io_next_matchingid := io_next_matchingid s + 1, process := p, iotrc := v\<rparr>)"
      "buf (gen v) = puts (es @ new) (buf (gen (iotrc s)))"
    using traced_io [OF on ok known t sp lib, where st = ?st and after = "\<lambda>l r. leave_lockf e l r fd func"
        and i = "vampir_file_id f" and mid = "word_of_int fd + 1" and k = "io_next_matchingid s"
        and op = "ioflag (lockf_op e func) (r \<noteq> 0)" and n = 0, OF refl after rm [unfolded new]]
    unfolding new by blast
  then show ?thesis
    using func by (auto simp: lockf_io_def new simp del: puts.simps)
qed

text \<open>
  C20: what a failing \<open>dup\<close> does when I/O is traced depends on the table of descriptors, which the
  wrapper asks before it looks at the result. A descriptor outside the table, negative or not below
  the number of open files that the table was made for, ends the program by an assertion, where
  without tracing \<open>dup\<close> returns -1 to it. A descriptor inside the table, also one that is closed, is
  recorded as a failed operation on the file that the table has for it, and the result is -1.
\<close>

theorem failed_dup_outside_table_aborts:
  fixes s :: "'p io_state"
  assumes on: "DO_TRACE dup_IDX s" "lib_func (iofunctions s dup_IDX)" "trace_status (iotrc s) = VT_TRACE_ON"
    and ok: "tracer_ok (Suc h) (iotrc s)" and known: "tab (tracer_of (iotrc s)) (io_region dup_IDX s) \<noteq> None"
    and t: "t = wtime (io_tenv e) (ticks (iotrc s))" "u = wtime (io_tenv e) (Suc (ticks (iotrc s)))"
    and sp: "spec_enter (io_tenv e) True (io_region dup_IDX s) t (tracer_of (iotrc s)) = (True, es, a)"
    and lib: "libc e ''dup'' [Number fd] (process s) = (- 1, p)"
    and new: "new = [io_begin_entry t (io_next_matchingid s),
        io_end_entry u (vampir_file_id f) (io_next_matchingid s) (vampir_handle f) (ioflag VT_IOOP_DUP True) 0,
        Event (Leave u 0 0)]"
    and rm: "room (es @ new) (buf (gen (iotrc s)))"
  shows "(fd < 0 \<or> max_open_files s \<le> fd \<longrightarrow> dup_io e fd s = Inl Aborted)
    \<and> (get_vampir_file fd s = Inr f \<longrightarrow>
        (\<exists>v. dup_io e fd s = Inr (- 1, s\<lparr>io_next_matchingid := io_next_matchingid s + 1, process := p, iotrc := v\<rparr>)
          \<and> buf (gen v) = puts (es @ new) (buf (gen (iotrc s)))))
    \<and> (\<exists>v. dup_io e fd (s\<lparr>io_tracing_enabled := False\<rparr>) = Inr (- 1, v) \<and> process v = p)"
proof (intro conjI impI)
  assume out: "fd < 0 \<or> max_open_files s \<le> fd"
  let ?s0 = "s\<lparr>memhooks := False\<rparr>"
  have init: "INIT_IOFUNC e dup_IDX s = Inr (memhooks s, ?s0)" "DO_TRACE dup_IDX ?s0"
    using on by (simp_all add: INIT_IOFUNC_def DO_TRACE_def)
  have rm0: "room (es @ [io_begin_entry t (io_next_matchingid s)]) (buf (gen (iotrc s)))"
    using room_app(1) [of "es @ [io_begin_entry t (io_next_matchingid s)]" "tl new"] rm by (simp add: new)
  obtain v where "ENTER_IOFUNC e dup_IDX (memhooks s) ?s0 =
      Inr (\<lparr>enable_memhooks = memhooks s, recorded_call = True, matching_id = io_next_matchingid s\<rparr>,
           ?s0\<lparr>io_next_matchingid := io_next_matchingid s + 1, iotrc := v\<rparr>)"
    using enter_io_spec [of h ?s0 dup_IDX e t es a "memhooks s"] ok known sp on(3) t(1) rm0 by auto
  moreover have "get_vampir_file fd w = Inl Aborted" if "max_open_files w = max_open_files s" for w :: "'p io_state"
    using out that by (auto simp: get_vampir_file_def entry_of_def)
  ultimately show "dup_io e fd s = Inl Aborted"
    using init lib by (simp add: dup_io_def io_wrapper_def call_libc_def LEAVE_IOFUNC_DUP_def io_time_eq)
next
  assume entry: "get_vampir_file fd s = Inr f"
  let ?st = "\<lambda>v. s\<lparr>memhooks := False, io_next_matchingid := io_next_matchingid s + 1, process := p, iotrc := v\<rparr>"
    and ?after = "\<lambda>l r. LEAVE_IOFUNC_DUP e dup_IDX l (r = - 1) fd r"
  have type: "FUNCTYPE dup_IDX = VT_IOOP_DUP" "func_name dup_IDX = ''dup''"
    by (simp_all add: FUNCTYPE_def)
  have after: "?after l (- 1) (?st v) =
      andThen (io_end e (vampir_file_id f) (io_next_matchingid s) (vampir_handle f) (ioflag VT_IOOP_DUP True) 0
        (wtime (io_tenv e) (ticks v)) (?st (v\<lparr>ticks := Suc (ticks v)\<rparr>))) (io_leave e l)"
    if "l = \<lparr>enable_memhooks = memhooks s, recorded_call = True, matching_id = io_next_matchingid s\<rparr>" for v l
    using that entry by (simp add: LEAVE_IOFUNC_DUP_def io_time_eq type)
  show "\<exists>v. dup_io e fd s = Inr (- 1, s\<lparr>io_next_matchingid := io_next_matchingid s + 1, process := p, iotrc := v\<rparr>)
          \<and> buf (gen v) = puts (es @ new) (buf (gen (iotrc s)))"
    using traced_io [OF on ok known t sp lib, where st = ?st and after = ?after
        and i = "vampir_file_id f" and mid = "io_next_matchingid s" and k = "vampir_handle f"
        and op = "ioflag VT_IOOP_DUP True" and n = 0, OF refl after rm [unfolded new]]
    unfolding new dup_io_def type by blast
next
  show "\<exists>v. dup_io e fd (s\<lparr>io_tracing_enabled := False\<rparr>) = Inr (- 1, v) \<and> process v = p"
    using on(2) lib by (simp add: dup_io_def io_wrapper_def INIT_IOFUNC_def DO_TRACE_def call_libc_def)
qed

text \<open>
  C21: closing a file does not take its descriptor out of the table: no call changes the entry of any
  descriptor, but those that open a file or duplicate a descriptor. So what is read from a descriptor
  that is used again for something that is not opened by these calls, as a socket or a pipe, is
  recorded for the closed file.
\<close>

theorem closed_descriptor_keeps_file:
  assumes "io_call e fn f" and "fn \<notin> opens" and "f s = Inr (r, s')"
  shows "entry_of fd s' = entry_of fd s"
proof -
  have "table_of s' = table_of s"
    using io_call_keeps_table [OF assms(1,2)] assms(3) unfolding moves_table_def by metis
  then show ?thesis
    by (simp add: table_of_def entry_of_def)
qed

text \<open>
  C18: from the initialization on, whatever calls a program makes, no two descriptors of files share a
  handle, up to the range of the counter for handles.
\<close>

theorem handles_distinct:
  assumes "vt_iowrap_init e s0 = Inr s1" and "\<not> lib_inited s0" and "io_next_handle s0 = 1"
    and "table_of s = table_of s1" and "io_prog e prog" and "run_prog prog s = Inr (rs, s')"
    and "length rs < 18446744073709551612"
    and "entry_of i s' = Inr f" and "entry_of j s' = Inr g" and "i \<noteq> j"
    and "vampir_file_id f \<noteq> 0" and "vampir_file_id g \<noteq> 0"
  shows "vampir_handle f \<noteq> vampir_handle g"
proof -
  have "prog_of (moves_table table_step) prog"
    by (rule prog_of_mono [OF assms(5)]) (auto dest: io_call_moves_table)
  then have "handles_ok 0 (table_of s')"
    using io_handles.run_inv [of prog s rs s' 0] assms(4,6) init_handles [OF assms(1-3,7)] by simp
  then obtain fs where fs: "fd_to_vampirid s' = Block fs"
    "\<forall>i<length fs. vampir_file_id (fs ! i) \<noteq> 0 \<longrightarrow> vampir_handle (fs ! i) \<noteq> 0"
    "\<forall>i<length fs. \<forall>j<length fs. i \<noteq> j \<longrightarrow> vampir_handle (fs ! i) = vampir_handle (fs ! j) \<longrightarrow> vampir_handle (fs ! i) = 0"
    by (auto simp: handles_ok_def table_of_def)
  have "f = fs ! nat i" "nat i < length fs" "g = fs ! nat j" "nat j < length fs" "nat i \<noteq> nat j"
    using assms(8-10) fs(1) by (auto simp: entry_of_def split: if_splits)
  then show ?thesis
    using fs(2,3) assms(11,12) by metis
qed

lemma suspend_times:
  "io_tracing_enabled s \<Longrightarrow> io_tracing_suspend_cnt s = 0 \<Longrightarrow> (VT_SUSPEND_IO_TRACING ^^ Suc k) s =
     s\<lparr>io_tracing_state := True, io_tracing_suspend_cnt := of_nat (Suc k), io_tracing_enabled := False\<rparr>"
  by (induction k) (simp_all add: VT_SUSPEND_IO_TRACING_def add.commute)

lemma resume_times:
  "io_tracing_suspend_cnt s = of_nat k \<Longrightarrow> k < 256 \<Longrightarrow> j < k \<Longrightarrow>
     (VT_RESUME_IO_TRACING ^^ j) s = s\<lparr>io_tracing_suspend_cnt := of_nat (k - j)\<rparr>"
proof (induction j)
  case 0
  then show ?case
    by (cases s) simp
next
  case (Suc j)
  have less: "k - j < 256" "k - Suc j < 256"
    using Suc.prems by simp_all
  have "of_nat (k - j) - 1 = (of_nat (k - Suc j) :: u8)"
    using Suc.prems by (simp add: of_nat_diff)
  moreover have "unat (of_nat (k - j) :: u8) = k - j" "unat (of_nat (k - Suc j) :: u8) = k - Suc j"
    unfolding unat_of_nat using less by simp_all
  ultimately have "(0 :: u8) < of_nat (k - j)" "of_nat (k - Suc j) \<noteq> (0 :: u8)"
    using Suc.prems by (auto simp: word_less_nat_alt unat_eq_zero [symmetric])
  then show ?case
    using Suc \<open>of_nat (k - j) - 1 = (of_nat (k - Suc j) :: u8)\<close>
    by (simp add: VT_RESUME_IO_TRACING_def del: of_nat_diff)
qed

text \<open>
  C24: suspensions of the I/O tracing nest up to the depth 255: after that many, it is enabled again by
  exactly as many resumptions. One more, and the counter of 8 bits is back at 0, so that no resumption
  enables it again. And a tracing that was suspended once and then disabled is enabled again by the
  next pair of a suspension and a resumption.
\<close>

theorem suspensions_nest:
  assumes "io_tracing_enabled s" and "io_tracing_suspend_cnt s = 0" and "0 < k" and "k < 256" and "j \<le> k"
  shows "(io_tracing_enabled ((VT_RESUME_IO_TRACING ^^ j) ((VT_SUSPEND_IO_TRACING ^^ k) s)) \<longleftrightarrow> j = k)
    \<and> \<not> io_tracing_enabled ((VT_RESUME_IO_TRACING ^^ m) ((VT_SUSPEND_IO_TRACING ^^ 256) s))
    \<and> io_tracing_enabled (VT_RESUME_IO_TRACING (VT_SUSPEND_IO_TRACING (VT_DISABLE_IO_TRACING
        (VT_RESUME_IO_TRACING (VT_SUSPEND_IO_TRACING s)))))"
proof (intro conjI)
  obtain k' where k': "k = Suc k'"
    using assms(3) by (cases k) auto
  define t where "t = (VT_SUSPEND_IO_TRACING ^^ k) s"
  have t: "io_tracing_suspend_cnt t = of_nat k" "\<not> io_tracing_enabled t" "io_tracing_state t"
    using suspend_times [OF assms(1,2), of k'] by (simp_all add: t_def k')
  have last: "io_tracing_enabled ((VT_RESUME_IO_TRACING ^^ k) t)"
    using resume_times [OF t(1) assms(4), of k'] t(3) by (simp add: k' VT_RESUME_IO_TRACING_def)
  show "io_tracing_enabled ((VT_RESUME_IO_TRACING ^^ j) ((VT_SUSPEND_IO_TRACING ^^ k) s)) \<longleftrightarrow> j = k"
  proof (cases "j = k")
    case True
    then show ?thesis
      using last by (simp add: t_def)
  next
    case False
    then show ?thesis
      using resume_times [OF t(1) assms(4), of j] assms(5) t(2) by (simp add: t_def)
  qed
  have "io_tracing_suspend_cnt ((VT_SUSPEND_IO_TRACING ^^ 256) s) = 0"
      "\<not> io_tracing_enabled ((VT_SUSPEND_IO_TRACING ^^ 256) s)"
    using suspend_times [OF assms(1,2), of 255] by (simp_all del: funpow.simps)
  moreover have "(VT_RESUME_IO_TRACING ^^ m) u = u" if "io_tracing_suspend_cnt u = 0" for u :: "'a io_state"
    using that by (induction m) (simp_all add: VT_RESUME_IO_TRACING_def)
  ultimately show "\<not> io_tracing_enabled ((VT_RESUME_IO_TRACING ^^ m) ((VT_SUSPEND_IO_TRACING ^^ 256) s))"
    by simp
  show "io_tracing_enabled (VT_RESUME_IO_TRACING (VT_SUSPEND_IO_TRACING (VT_DISABLE_IO_TRACING
      (VT_RESUME_IO_TRACING (VT_SUSPEND_IO_TRACING s)))))"
    using assms(1,2) by (simp add: VT_RESUME_IO_TRACING_def VT_SUSPEND_IO_TRACING_def VT_DISABLE_IO_TRACING_def)
qed

text \<open>
  C22: after \<open>fork\<close> the child closes the wrappers and initializes them again for its own trace, but the
  initialization does nothing the second time, so the table stays the one that was freed. The first
  traced call that needs it reads memory that is not allocated.
\<close>

theorem forked_child_uses_freed_table:
  fixes s :: "'p io_state"
  assumes "vt_iowrap_finalize s = Inr s1" and "lib_inited s" and "fd_to_vampirid s = Block fs"
    and child: "fd_to_vampirid c0 = fd_to_vampirid s1" "lib_inited c0 = lib_inited s1" "max_open_files c0 = max_open_files s1"
    and "vt_iowrap_init e c0 = Inr c"
    and on: "DO_TRACE read_IDX c" "lib_func (iofunctions c read_IDX)" "trace_status (iotrc c) = VT_TRACE_ON"
    and ok: "tracer_ok (Suc h) (iotrc c)" and known: "tab (tracer_of (iotrc c)) (io_region read_IDX c) \<noteq> None"
    and t: "t = wtime (io_tenv e) (ticks (iotrc c))"
    and sp: "spec_enter (io_tenv e) True (io_region read_IDX c) t (tracer_of (iotrc c)) = (True, es, a)"
    and rm: "room (es @ [io_begin_entry t (io_next_matchingid c)]) (buf (gen (iotrc c)))"
    and fd: "0 \<le> fd" "fd < max_open_files s"
  shows "read_io e fd bf cnt c = Inl OutOfBounds"
proof -
  have c: "c = c0" "fd_to_vampirid c = Freed" "max_open_files c = max_open_files s"
    using assms(1-7) by (auto simp: vt_iowrap_finalize_def vt_iowrap_init_def)
  let ?s0 = "c\<lparr>memhooks := False\<rparr>"
  have init: "INIT_IOFUNC e read_IDX c = Inr (memhooks c, ?s0)" "DO_TRACE read_IDX ?s0"
    using on by (simp_all add: INIT_IOFUNC_def DO_TRACE_def)
  obtain v where "ENTER_IOFUNC e read_IDX (memhooks c) ?s0 =
      Inr (\<lparr>enable_memhooks = memhooks c, recorded_call = True, matching_id = io_next_matchingid c\<rparr>,
           ?s0\<lparr>io_next_matchingid := io_next_matchingid c + 1, iotrc := v\<rparr>)"
    using enter_io_spec [of h ?s0 read_IDX e t es a "memhooks c"] ok known sp on(3) t rm by auto
  moreover have "file_and_handle fd c = Inl OutOfBounds"
    using fd c by (simp add: file_and_handle_def get_vampir_file_def entry_of_def)
  ultimately show ?thesis
    using init by (simp add: read_io_def io_wrapper_def call_libc_def LEAVE_IOFUNC_def io_time_eq split_beta)
qed

section \<open>Examples\<close>

text \<open>
  A process with the file 40 at the descriptor 3. The library gives -1 to \<open>dup\<close>, 0 to \<open>lockf\<close> and
  \<open>close\<close>, and 8 to everything else; it counts the calls. Region 7 stands for its functions.
\<close>

definition demo_ioenv :: "nat ioenv" where
  "demo_ioenv = \<lparr>io_tenv = demo_env, io_cal = callees_at demo_env 0,
     libc = (\<lambda>name _ p. (if name = ''dup'' then - 1 else if name = ''lockf'' \<or> name = ''close'' then 0 else 8, p + 1)),
     fileno = (\<lambda>_ _. 3), strlen_at = (\<lambda>_ _. Some 4), stdin = 1, stdout = 2, rlim_max = Some 8, malloc_ok = (\<lambda>_. True),
     iolib_pathname = None, DEFAULT_LIBC_PATHNAME = ''libc.so'', dlopen_ok = (\<lambda>_. True), dlsym_ok = (\<lambda>_. True),
     configured = (\<lambda>_. False), O_CREAT = 64, F_LOCK = 1, F_TLOCK = 2, F_ULOCK = 0, F_TEST = 3\<rparr>"

abbreviation demo_file :: vampir_file where
  "demo_file \<equiv> \<lparr>vampir_file_id = 40, vampir_file_group_id = 31, vampir_matchingid = 0, vampir_handle = 4\<rparr>"

definition demo_io :: "nat io_state" where
  "demo_io = \<lparr>iotrc = demo_app, io_tracing_enabled = True, io_tracing_state = False, io_tracing_suspend_cnt = 0,
     io_next_matchingid = 1, io_next_handle = 5, file_group_id_stdio = 30, file_group_id_rest = 31, max_open_files = 8,
     fd_to_vampirid = Block ((replicate 8 no_vampir_file)[3 := demo_file]),
     unknown_fd_vampir_file = no_vampir_file\<lparr>vampir_file_id := 39\<rparr>, lib_inited = True, iolib_handle = True,
     iofunctions = (\<lambda>_. \<lparr>traceme = True, vt_func_id = 7, lib_func = True\<rparr>), vt_fid = 29, invalid_fd_fid = 38,
     all_files_fid = 37, memhooks = True, process = 0\<rparr>"

lemma demo_io_ok: "DO_TRACE fn demo_io" "lib_func (iofunctions demo_io fn)" "trace_status (iotrc demo_io) = VT_TRACE_ON"
  "tracer_ok (Suc 1) (iotrc demo_io)" "tab (tracer_of (iotrc demo_io)) (io_region fn demo_io) \<noteq> None"
  "io_next_matchingid demo_io = 1" "iotrc demo_io = demo_app" "process demo_io = 0" "max_open_files demo_io = 8"
  "io_tenv demo_ioenv = demo_env" "io_region fn demo_io = 7"
  using demo_app_ok by (simp_all add: demo_io_def DO_TRACE_def demo_ioenv_def demo_tracer demo_table_get numeral_2_eq_2)

lemma demo_libc: "libc demo_ioenv ''dup'' args 0 = (- 1, 1)" "libc demo_ioenv ''lockf'' args 0 = (0, 1)"
  "libc demo_ioenv ''read'' args 0 = (8, 1)" "F_TEST demo_ioenv = 3"
  by (simp_all add: demo_ioenv_def)

lemma demo_file_of: "entry_of 3 demo_io = Inr demo_file" "get_vampir_file 3 demo_io = Inr demo_file"
  "file_and_handle 3 demo_io = Inr (40, 4)"
  by (simp_all add: file_and_handle_def get_vampir_file_def entry_of_def demo_io_def)

lemma demo_io_enters: "\<exists>a. spec_enter (io_tenv demo_ioenv) True (io_region fn demo_io) t (tracer_of (iotrc demo_io)) =
    (True, [Event (Enter t 7 0)], a)"
  by (simp add: demo_io_ok spec_enter_def demo_tracer demo_table_get counted_def Let_def demo_env_def)

lemma demo_io_room: "room ([Event (Enter t 7 0)] @ [io_begin_entry t m, io_end_entry u i m' k op n, Event (Leave u 0 0)])
    (buf (gen (iotrc demo_io)))"
  "room ([Event (Enter t 7 0)] @ [io_begin_entry t m]) (buf (gen (iotrc demo_io)))"
  by (simp_all add: room_def demo_io_ok demo_app_ok entry_length_def align_length_def)

theorem read_recorded_witness:
  "\<exists>v. read_io demo_ioenv 3 100 8 demo_io = Inr (8, demo_io\<lparr>io_next_matchingid := 2, process := 1, iotrc := v\<rparr>)"
proof -
  let ?t = "wtime (io_tenv demo_ioenv) (ticks (iotrc demo_io))"
  obtain a where sp: "spec_enter (io_tenv demo_ioenv) True (io_region read_IDX demo_io) ?t (tracer_of (iotrc demo_io)) =
      (True, [Event (Enter ?t 7 0)], a)"
    using demo_io_enters ..
  have lib: "libc demo_ioenv ''read'' [Number 3, Buffer 100, Number (int 8)] (process demo_io) = (8, 1)"
    by (simp add: demo_libc demo_io_ok)
  show ?thesis
    using read_recorded [OF demo_io_ok(1-5) refl refl sp lib demo_file_of(3) refl demo_io_room(1)]
    by (auto simp: demo_io_ok)
qed

theorem lock_operation_not_ended_witness:
  "\<exists>v. lockf_io demo_ioenv 3 1 0 demo_io = Inr (0, demo_io\<lparr>io_next_matchingid := 2, process := 1, iotrc := v\<rparr>)"
proof -
  let ?t = "wtime (io_tenv demo_ioenv) (ticks (iotrc demo_io))"
  obtain a where sp: "spec_enter (io_tenv demo_ioenv) True (io_region lockf_IDX demo_io) ?t (tracer_of (iotrc demo_io)) =
      (True, [Event (Enter ?t 7 0)], a)"
    using demo_io_enters ..
  have lib: "libc demo_ioenv ''lockf'' [Number 3, Number 1, Number 0] (process demo_io) = (0, 1)"
    by (simp add: demo_libc demo_io_ok)
  show ?thesis
    using lock_operation_not_ended [OF demo_io_ok(1-5) refl refl sp lib demo_file_of(2) _ _ refl demo_io_room(1)]
    by (auto simp: demo_io_ok demo_libc)
qed

theorem failed_dup_outside_table_aborts_witness:
  "dup_io demo_ioenv (- 1) demo_io = Inl Aborted
   \<and> (\<exists>v. dup_io demo_ioenv 3 demo_io = Inr (- 1, demo_io\<lparr>io_next_matchingid := 2, process := 1, iotrc := v\<rparr>))"
proof -
  let ?t = "wtime (io_tenv demo_ioenv) (ticks (iotrc demo_io))"
  obtain a where sp: "spec_enter (io_tenv demo_ioenv) True (io_region dup_IDX demo_io) ?t (tracer_of (iotrc demo_io)) =
      (True, [Event (Enter ?t 7 0)], a)"
    using demo_io_enters ..
  have lib: "libc demo_ioenv ''dup'' [Number fd] (process demo_io) = (- 1, 1)" for fd
    by (simp add: demo_libc demo_io_ok)
  note dup = failed_dup_outside_table_aborts [OF demo_io_ok(1-5) refl refl sp lib refl demo_io_room(1), of _ demo_file]
  have "dup_io demo_ioenv (- 1) demo_io = Inl Aborted"
    using dup [of "- 1"] by simp
  moreover have "\<exists>v. dup_io demo_ioenv 3 demo_io = Inr (- 1, demo_io\<lparr>io_next_matchingid := 2, process := 1, iotrc := v\<rparr>)"
    using dup [of 3] demo_file_of(2) by (auto simp: demo_io_ok)
  ultimately show ?thesis
    by blast
qed

lemma demo_read: "\<exists>v. read_io demo_ioenv 3 100 8 demo_io = Inr (8, demo_io\<lparr>io_next_matchingid := 2, process := 1, iotrc := v\<rparr>)"
proof -
  let ?t = "wtime (io_tenv demo_ioenv) (ticks (iotrc demo_io))"
  obtain a where sp: "spec_enter (io_tenv demo_ioenv) True (io_region read_IDX demo_io) ?t (tracer_of (iotrc demo_io)) =
      (True, [Event (Enter ?t 7 0)], a)"
    using demo_io_enters ..
  have lib: "libc demo_ioenv ''read'' [Number 3, Buffer 100, Number (int 8)] (process demo_io) = (8, 1)"
    by (simp add: demo_libc demo_io_ok)
  show ?thesis
    using fd_call_recorded [OF demo_io_ok(1-5) refl refl sp lib demo_file_of(3) demo_io_room(1),
        of "\<lambda>r. r = - 1" word_of_int]
    by (auto simp: read_io_def demo_io_ok)
qed

abbreviation demo_io_prog :: "(nat io_state, int) prog" where
  "demo_io_prog \<equiv> Then (read_io demo_ioenv 3 100 8) (\<lambda>_. Finished)"

lemma demo_io_prog: "io_prog demo_ioenv demo_io_prog"
  by (auto intro: io_call.intros)

lemma demo_io_run: "\<exists>s'. run_prog demo_io_prog demo_io = Inr ([8], s') \<and> process s' = 1"
  using demo_read by auto

theorem io_program_unaffected_witness:
  "\<exists>u. run_prog demo_io_prog (demo_io\<lparr>io_tracing_enabled := False\<rparr>) = Inr ([8], u) \<and> process u = 1"
proof -
  obtain s' where "run_prog demo_io_prog demo_io = Inr ([8], s')" "process s' = 1"
    using demo_io_run by blast
  then show ?thesis
    using io_program_unaffected [OF demo_io_prog] by metis
qed

theorem untraced_call_stops_memory_tracing_witness:
  "\<exists>u. read_io demo_ioenv 3 100 8 (demo_io\<lparr>io_tracing_enabled := False\<rparr>) = Inr (8, u) \<and> \<not> memhooks u"
proof -
  let ?s = "demo_io\<lparr>io_tracing_enabled := False\<rparr>"
  obtain u where u: "read_io demo_ioenv 3 100 8 ?s = Inr (8, u)"
    by (simp add: read_io_def io_wrapper_def INIT_IOFUNC_def DO_TRACE_def call_libc_def demo_io_def demo_libc)
  then show ?thesis
    using untraced_call_stops_memory_tracing [of demo_ioenv read_IDX "read_io demo_ioenv 3 100 8" ?s 8 u]
    by (auto simp: DO_TRACE_def intro: io_call.intros)
qed

theorem closed_descriptor_keeps_file_witness:
  "\<exists>u. close_io demo_ioenv 3 (demo_io\<lparr>io_tracing_enabled := False\<rparr>) = Inr (0, u) \<and> entry_of 3 u = Inr demo_file"
proof -
  let ?s = "demo_io\<lparr>io_tracing_enabled := False\<rparr>"
  obtain u where u: "close_io demo_ioenv 3 ?s = Inr (0, u)"
    by (simp add: close_io_def io_wrapper_def INIT_IOFUNC_def DO_TRACE_def call_libc_def demo_io_def demo_ioenv_def)
  moreover have "entry_of 3 ?s = Inr demo_file"
    by (simp add: entry_of_def demo_io_def)
  ultimately show ?thesis
    using closed_descriptor_keeps_file [of demo_ioenv close_IDX "close_io demo_ioenv 3" ?s 0 u 3]
    by (auto simp: opens_def intro: io_call.intros)
qed

theorem suspensions_nest_witness:
  "io_tracing_enabled ((VT_RESUME_IO_TRACING ^^ 2) ((VT_SUSPEND_IO_TRACING ^^ 2) demo_io))"
proof -
  have "io_tracing_enabled demo_io" "io_tracing_suspend_cnt demo_io = 0"
    by (simp_all add: demo_io_def)
  then show ?thesis
    using suspensions_nest [of demo_io 2 2] by simp
qed

text \<open>The process before the initialization, and the definitions that it writes.\<close>

definition demo_fresh :: "nat io_state" where
  "demo_fresh = demo_io\<lparr>lib_inited := False, io_next_handle := 1, fd_to_vampirid := Null\<rparr>"

lemma io_def_room:
  "room [Def (DefFileGroup (curid (iotrc s)) n)] (buf (gen (iotrc s))) \<Longrightarrow>
     io_def (vt_def_file_group e c n) s = Inr (curid (iotrc s), s\<lparr>iotrc :=
       set_buf (puts [Def (DefFileGroup (curid (iotrc s)) n)] (buf (gen (iotrc s)))) ((iotrc s)\<lparr>curid := curid (iotrc s) + 1\<rparr>)\<rparr>)"
  "room [Def (DefFile (curid (iotrc s)) g n)] (buf (gen (iotrc s))) \<Longrightarrow>
     io_def (vt_def_file e c n g) s = Inr (curid (iotrc s), s\<lparr>iotrc :=
       set_buf (puts [Def (DefFile (curid (iotrc s)) g n)] (buf (gen (iotrc s)))) ((iotrc s)\<lparr>curid := curid (iotrc s) + 1\<rparr>)\<rparr>)"
  by (simp_all add: io_def_def vt_def_file_group_def vt_def_file_def vt_get_curid_def VTGen_write_DEF_FILE_GROUP_def
      VTGen_write_DEF_FILE_def write_def_puts del: puts.simps)

lemma each_init:
  assumes "\<And>fn. lib_func (iofunctions s fn)"
  shows "each (init_func e) fs s = Inr s"
  using assms by (induction fs) (simp_all add: init_func_def)

lemma demo_fresh_init: "\<exists>s1 f g. vt_iowrap_init demo_ioenv demo_fresh = Inr s1 \<and> entry_of 0 s1 = Inr f \<and> entry_of 1 s1 = Inr g
    \<and> vampir_file_id f \<noteq> 0 \<and> vampir_file_id g \<noteq> 0"
  using demo_tracer
  by (simp add: vt_iowrap_init_def get_max_open_files_def vt_iofile_open_def vt_iofile_id_def store_vampir_file_id_def
      entry_of_def set_entry_def get_iolib_handle_def each_init io_def_room demo_fresh_def demo_io_def demo_ioenv_def
      RLIM_INFINITY_def no_vampir_file_def Let_def room_def demo_app_ok entry_length_def align_length_def tracer_of_def
      del: replicate.simps)

theorem handles_distinct_witness:
  "\<exists>s1 f g. vt_iowrap_init demo_ioenv demo_fresh = Inr s1 \<and> entry_of 0 s1 = Inr f \<and> entry_of 1 s1 = Inr g
    \<and> vampir_handle f \<noteq> vampir_handle g"
proof -
  obtain s1 f g where s1: "vt_iowrap_init demo_ioenv demo_fresh = Inr s1" "entry_of 0 s1 = Inr f" "entry_of 1 s1 = Inr g"
    "vampir_file_id f \<noteq> 0" "vampir_file_id g \<noteq> 0"
    using demo_fresh_init by blast
  have fresh: "\<not> lib_inited demo_fresh" "io_next_handle demo_fresh = 1" "io_prog demo_ioenv Finished"
      "run_prog Finished s1 = Inr ([] :: int list, s1)"
    by (simp_all add: demo_fresh_def)
  have "vampir_handle f \<noteq> vampir_handle g"
    by (rule handles_distinct [OF s1(1) fresh(1,2) refl fresh(3,4) _ s1(2,3) _ s1(4,5)]) simp_all
  then show ?thesis
    using s1 by blast
qed

text \<open>A child of that process, whose own trace has begun.\<close>

abbreviation demo_child :: "nat io_state" where
  "demo_child \<equiv> demo_io\<lparr>fd_to_vampirid := Freed\<rparr>"

theorem forked_child_uses_freed_table_witness: "read_io demo_ioenv 3 100 8 demo_child = Inl OutOfBounds"
proof -
  let ?t = "wtime (io_tenv demo_ioenv) (ticks (iotrc demo_child))"
  obtain a where sp: "spec_enter (io_tenv demo_ioenv) True (io_region read_IDX demo_child) ?t (tracer_of (iotrc demo_child)) =
      (True, [Event (Enter ?t 7 0)], a)"
    using demo_io_enters [of read_IDX ?t] by auto
  have child: "vt_iowrap_finalize demo_io = Inr demo_child" "lib_inited demo_io"
    "fd_to_vampirid demo_io = Block ((replicate 8 no_vampir_file)[3 := demo_file])"
    "vt_iowrap_init demo_ioenv demo_child = Inr demo_child"
    by (simp_all add: vt_iowrap_finalize_def vt_iowrap_init_def demo_io_def)
  have on: "DO_TRACE read_IDX demo_child" "lib_func (iofunctions demo_child read_IDX)"
    "trace_status (iotrc demo_child) = VT_TRACE_ON" "tracer_ok (Suc 1) (iotrc demo_child)"
    "tab (tracer_of (iotrc demo_child)) (io_region read_IDX demo_child) \<noteq> None"
    using demo_io_ok(1,2,5) [of read_IDX] demo_io_ok(3,4) by (simp_all add: DO_TRACE_def)
  show ?thesis
    by (rule forked_child_uses_freed_table [OF child(1-3) refl refl refl child(4) on refl sp])
      (use demo_io_room(2) in \<open>simp_all add: demo_io_ok\<close>)
qed

end
