(* ===== verification/Spec2Isabelle.thy ===== *)
theory Spec2Isabelle
  imports CommDef GenLimits VtEnv MpiTables CompProps IoLaws
begin

text \<open>
  VampirTrace, the library with which programs record event traces, is modelled in the part
  that decides what is in a trace. An instrumented program calls the tracing core
  (\<open>vtlib/vt_trc.c\<close>) when it enters and leaves regions, sends messages, uses files or counts.
  The tracing core asks the region table (\<open>rfg/\<close>) which group a region belongs to and whether
  its call limit is used up, and hands a record to the trace generator of the thread
  (\<open>vtlib/vt_otf_gen.c\<close>). The generator keeps the records in a buffer of fixed size and
  statistics beside it (\<open>vtlib/vt_otf_sum.c\<close>); when the buffer is full it writes all records to
  the OTF library and starts again, until no flush is left. The wrappers of MPI functions keep
  tables of communicators, windows, requests and files (\<open>vtlib/vt_mpicom.c\<close>,
  \<open>vtlib/vt_mpireq.c\<close>, \<open>vtlib/vt_mpifile.c\<close>), from which they take the ids in the records; the
  wrappers of I/O functions (\<open>vtlib/vt_iowrap.c\<close>) take them from a table of the file descriptors
  (\<open>vtlib/vt_iowrap_helper.c\<close>).

  Theories, from the bottom up:

  \<^item> \<open>CPrelude\<close>, \<open>CString\<close>: machine integers, C strings in buffers and the functions of the C
    library on them. \<open>Tables\<close>: a locale for the hash tables with chains that six components
    have, with the laws of put and get; each component interprets it for its own table.
  \<^item> \<open>Util\<close>: \<open>util/util.c\<close> (trimming, copying, bounded printing) and \<open>util/hash.c\<close>.
  \<^item> \<open>RfgFilter\<close>, \<open>RfgGroups\<close>, \<open>RfgRegions\<close>: \<open>rfg/rfg_filter.c\<close>, \<open>rfg/rfg_groups.c\<close> and
    \<open>rfg/rfg_regions.c\<close>, function by function under the names of the source; the readers of
    the two definition files keep the buffers and positions of the code. The lemmas show what
    a line of the files means, that the printed form of the groups is read back, and that the
    call stack with its limits refines an abstract one.
  \<^item> \<open>MpiReq\<close>, \<open>MpiFile\<close>, \<open>MpiCom\<close>: the three tables of the MPI wrappers. Requests are blocks
    of 128 slots whose live ones stay contiguous; communicators, groups and windows are arrays
    with a high-water mark. The lemmas show that an id that is looked up is the one that was
    stored, and which sequences the known errors in \<open>vt_comm_create\<close> affect.
  \<^item> \<open>OtfSum\<close>: the statistics, as tables of counters and a stack of the running functions. The
    lemmas compare them with a profiler on call trees.
  \<^item> \<open>TraceBuf\<close>: the entries of the buffer and the OTF call that the flush makes of each;
    \<open>TraceState\<close>: the records of the generator and of the tracing core, and the writers
    \<open>VTGen_write_*\<close>; \<open>OtfGen\<close>: the flush, the dump of the statistics and the entry points of
    the tracing core that both call; \<open>Trc\<close>: the other entry points.
  \<^item> \<open>GenProps\<close>, \<open>Writers\<close>: what the generator promises for sequences of writer calls, and
    which sequences overrun its buffer; \<open>GenLimits\<close>: where the promise ends; \<open>RegionTrace\<close>: the trace of a tree of calls as the
    call limits, the maximal depth, switching off and rewinding shape it; \<open>CommDef\<close>: the record
    that defines a communicator.
  \<^item> \<open>MpiWrap\<close>, \<open>MpiMsg\<close>, \<open>MpiColl\<close>, \<open>MpiIo\<close>: the wrappers of \<open>vtlib/vt_mpiwrap.c\<close>, one definition
    under the name of the MPI function for each. They share the frame \<open>wrapper_st\<close>: switch MPI
    tracing off, enter the region, do what comes before the call, call the library, do what
    comes behind it, leave the region, set tracing as configured. \<open>MpiTrace\<close>: the entries that a
    send, a receive and a collective operation leave in the buffer; \<open>MpiProps\<close>, \<open>MpiTables\<close>: that
    tracing does not change what a program of arbitrary MPI calls computes, and that such a
    program keeps the tables well formed. \<open>Programs\<close>: programs of wrapped calls, with one
    locale for simulations and one for invariants; the wrappers of MPI and of I/O interpret both.
  \<^item> \<open>IoWrap\<close>: the state of the wrappers of I/O functions, the table of descriptors, suspending
    and resuming, initialisation and end; \<open>IoCalls\<close>: the macros of \<open>vtlib/vt_iowrap.c\<close> and one
    definition for each wrapped function (\<open>open_io\<close> for \<open>open\<close>). \<open>IoProps\<close>: the calls, and the form
    that nearly all of them have; \<open>IoTable\<close>: the changes of the table, which use a fresh handle
    each; \<open>IoTrace\<close>: the entries that a traced call leaves; \<open>IoLaws\<close>: that tracing does not change
    what a program of I/O calls computes, that handles are distinct, that suspensions nest, and
    the places where the wrappers fail.
  \<^item> \<open>CompAdapter\<close>: the contract of the adapters for compilers, as a locale: a machine that defines
    the region of a function when it is entered the first time and records enters and exits;
    \<open>CompGnu\<close> (\<open>vtlib/vt_comp_gnu.c\<close>, with its reader of symbol tables), \<open>CompName\<close>
    (\<open>vt_comp_phat.c\<close>, \<open>vt_comp_ftrace.c\<close>) and \<open>CompSource\<close> (\<open>vt_comp_xl.c\<close>, \<open>vt_comp_pgi.c\<close>,
    \<open>vt_comp_openuh.c\<close>, \<open>vt_dyninst.c\<close>): the adapters, each an interpretation of it; \<open>CompNm\<close>: the
    table read from a printed list of symbols; \<open>CompProps\<close>: that the adapters record the same
    trace, and what their finalisation leaves.
  \<^item> \<open>VtEnv\<close>: \<open>vtlib/vt_env.c\<close>, the settings read from environment variables.

  State and errors. The static variables of a file are one record (\<open>com_state\<close>, \<open>req_state\<close>,
  \<open>file_state\<close>, \<open>vt\<close>), and an operation gives the changed record. An operation that ends the
  program, or that would use memory it does not own, is a value \<open>Inl\<close> that says which of the
  two it is. The clock is a function of the number of its readings so far.

  Recursion. The writers call the flush, which writes records with the same writers. Those
  functions take fuel; \<open>GenLimits.writers_terminate\<close> shows that 2 is enough where no
  statistics are due, and \<open>GenLimits.interval_dump_diverges\<close> that no fuel is enough where
  only statistics are kept and a dump of them is due. All other loops are recursive over their data, or end by a measure.

  Configuration: one thread per process, no hardware counters and no \<open>VT_ETIMESYNC\<close>, 64-bit
  pointers. Parameters: the environment, the clock, the OTF library (its calls are recorded,
  its files are not written), the MPI library, the I/O
  functions of the C library, \<open>fnmatch\<close>, \<open>vsnprintf\<close>.

  Not modelled: creating the local trace files and their names, the unification of the traces
  (\<open>tools/vtunify\<close>) and the other tools, attaching Dyninst to a process, the adapters for CUDA, OpenMP and Java,
  threads, counters and the synchronisation of clocks; of the MPI wrappers \<open>MPI_Init\<close>,
  \<open>MPI_Finalize\<close> and the Fortran interface; of the I/O wrappers \<open>__fprintf_chk\<close> and
  \<open>vt_iowrap_externals_init\<close>. A program of the model calls either MPI or the I/O functions: the counters for matching
  ids and handles, which the two groups of wrappers share in the thread, are fields of the state of each.
\<close>

end
